(* ===== verification/Prelude.thy ===== *)
theory Prelude
  imports Main "HOL-Library.Char_ord" "HOL-Library.List_Lexorder" "HOL-Library.Multiset"
begin

text \<open>
  The shared ground of the development: Go's error returns as sums, the panic-style assertion of
  the domain package, the stable sort of package \<open>sort\<close>, and the generic list facts the component
  theories use.  Component lemmas that rewrite an operation to its branches are collected in
  \<open>go_simps\<close>; facts that decompose a successful result are collected in \<open>go_dests\<close>.
\<close>

named_theorems go_simps \<open>rewrite rules that expose the branches of a modelled operation\<close>

named_theorems go_dests \<open>what a successful operation tells about its input\<close>

section \<open>Error results\<close>

text \<open>
  A Go function that returns \<open>(T, error)\<close> is modelled by a value of type \<open>'e + 'a\<close>: \<open>Inl\<close> carries the
  error and \<open>Inr\<close> the value.  \<open>bindE\<close> is the \<open>if err != nil { return err }\<close> that follows a call.
\<close>

definition bindE :: "'e + 'a \<Rightarrow> ('a \<Rightarrow> 'e + 'b) \<Rightarrow> 'e + 'b" where
  "bindE m f = (case m of Inl e \<Rightarrow> Inl e | Inr x \<Rightarrow> f x)"

fun mapE :: "('a \<Rightarrow> 'e + 'b) \<Rightarrow> 'a list \<Rightarrow> 'e + 'b list" where
  "mapE f [] = Inr []"
| "mapE f (x # xs) = bindE (f x) (\<lambda>y. bindE (mapE f xs) (\<lambda>ys. Inr (y # ys)))"

section \<open>The stable sort of package sort\<close>

text \<open>
  \<open>sort.SliceStable\<close> with a \<open>less\<close> function: the elements are permuted so that no later element is
  less than an earlier one and elements that are not ordered by \<open>less\<close> keep their order.  This determines
  the result whenever \<open>less\<close> is a strict weak order on the elements.
\<close>

fun insertBy :: "('a \<Rightarrow> 'a \<Rightarrow> bool) \<Rightarrow> 'a \<Rightarrow> 'a list \<Rightarrow> 'a list" where
  "insertBy lt x [] = [x]"
| "insertBy lt x (y # ys) = (if lt y x then y # insertBy lt x ys else x # y # ys)"

definition stableSort :: "('a \<Rightarrow> 'a \<Rightarrow> bool) \<Rightarrow> 'a list \<Rightarrow> 'a list" where
  "stableSort lt xs = foldr (insertBy lt) xs []"

section \<open>Lemmas on error results\<close>

lemma bindE_Inr [simp, go_simps]: "bindE (Inr x) f = f x"
  by (simp add: bindE_def)

lemma bindE_Inl [simp, go_simps]: "bindE (Inl e) f = Inl e"
  by (simp add: bindE_def)

lemma bindE_eq_Inr [simp]: "bindE m f = Inr y \<longleftrightarrow> (\<exists>x. m = Inr x \<and> f x = Inr y)"
  by (cases m) simp_all

lemma bindE_eq_Inl: "bindE m f = Inl e \<longleftrightarrow> m = Inl e \<or> (\<exists>x. m = Inr x \<and> f x = Inl e)"
  by (cases m) simp_all

lemma bindE_cong [fundef_cong]:
  "m = m' \<Longrightarrow> (\<And>x. m' = Inr x \<Longrightarrow> f x = g x) \<Longrightarrow> bindE m f = bindE m' g"
  by (cases m') simp_all

lemma mapE_Inr: "mapE f xs = Inr ys \<longleftrightarrow> list_all2 (\<lambda>x y. f x = Inr y) xs ys"
  by (induction xs arbitrary: ys) (auto simp: list_all2_Cons1)

section \<open>Lemmas on the stable sort\<close>

lemma mset_insertBy [simp]: "mset (insertBy lt x ys) = add_mset x (mset ys)"
  by (induction ys) auto

lemma mset_stableSort [simp]: "mset (stableSort lt xs) = mset xs"
  unfolding stableSort_def by (induction xs) auto

lemma set_stableSort [simp]: "set (stableSort lt xs) = set xs"
  by (metis mset_stableSort set_mset_mset)

lemma length_stableSort [simp]: "length (stableSort lt xs) = length xs"
  by (metis mset_stableSort size_mset)

lemma stableSort_Nil [simp]: "stableSort lt [] = []"
  by (simp add: stableSort_def)

lemma set_insertBy [simp]: "set (insertBy lt x ys) = insert x (set ys)"
  by (induction ys) auto

text \<open>
  For a comparison that is asymmetric and whose complement is transitive (a strict weak order), the
  sorted list has no inversion.
\<close>

lemma sorted_insertBy:
  assumes asym: "\<And>a b. a \<in> S \<Longrightarrow> b \<in> S \<Longrightarrow> lt a b \<Longrightarrow> \<not> lt b a"
    and trans: "\<And>a b c. a \<in> S \<Longrightarrow> b \<in> S \<Longrightarrow> c \<in> S \<Longrightarrow> \<not> lt b a \<Longrightarrow> \<not> lt c b \<Longrightarrow> \<not> lt c a"
    and "sorted_wrt (\<lambda>a b. \<not> lt b a) ys" "x \<in> S" "set ys \<subseteq> S"
  shows "sorted_wrt (\<lambda>a b. \<not> lt b a) (insertBy lt x ys)"
  using assms(3,5)
proof (induction ys)
  case (Cons y ys)
  show ?case
  proof (cases "lt y x")
    case True
    then show ?thesis using Cons asym [of y x] \<open>x \<in> S\<close> by auto
  next
    case False
    have "\<not> lt z x" if "z \<in> set ys" for z
      using trans [of x y z] False Cons.prems \<open>x \<in> S\<close> that by auto
    then show ?thesis using False Cons.prems by auto
  qed
qed simp

lemma sorted_stableSort_on:
  assumes "\<And>a b. a \<in> S \<Longrightarrow> b \<in> S \<Longrightarrow> lt a b \<Longrightarrow> \<not> lt b a"
    and "\<And>a b c. a \<in> S \<Longrightarrow> b \<in> S \<Longrightarrow> c \<in> S \<Longrightarrow> \<not> lt b a \<Longrightarrow> \<not> lt c b \<Longrightarrow> \<not> lt c a"
    and "set xs \<subseteq> S"
  shows "sorted_wrt (\<lambda>a b. \<not> lt b a) (stableSort lt xs)"
  using assms(3)
proof (induction xs)
  case (Cons x xs)
  have "sorted_wrt (\<lambda>a b. \<not> lt b a) (insertBy lt x (stableSort lt xs))"
    using Cons by (intro sorted_insertBy [OF assms(1,2)]) auto
  then show ?case by (simp add: stableSort_def)
qed simp

section \<open>Lists\<close>

lemma dropWhile_id: "(xs = [] \<or> \<not> P (hd xs)) \<Longrightarrow> dropWhile P xs = xs"
  by (cases xs) auto

lemma map_fst_filter_snd: "map_of (filter (\<lambda>(k, v). k \<noteq> a) m) a = None"
  by (induction m) auto

lemma find_some: "find P xs = Some x \<Longrightarrow> x \<in> set xs \<and> P x"
  by (auto simp: find_Some_iff)

end
