(* ===== verification/GoStrings.thy ===== *)
theory GoStrings
  imports Prelude
begin

text \<open>
  Go's byte strings and what the sources use of packages \<open>strings\<close>, \<open>strconv\<close> and \<open>regexp\<close>.  A Go
  string is the list of its bytes, so \<open>len(s)\<close> is \<open>length\<close> and indexing is by byte.  Non-ASCII white
  space is recognised by its UTF-8 encoding, as \<open>unicode.IsSpace\<close> does.  \<open>ToLower\<close> maps the ASCII
  capitals and the two non-ASCII letters whose lower case is ASCII (the Kelvin sign and the dotted
  capital I); every other non-ASCII letter is lowered by Go to some other non-ASCII text and is kept
  as it is here, which no accept/reject decision of the modelled code can see because the patterns
  that follow a \<open>ToLower\<close> accept ASCII only.
\<close>

section \<open>Byte classes\<close>

definition isDigit :: "char \<Rightarrow> bool" where
  "isDigit c \<longleftrightarrow> CHR ''0'' \<le> c \<and> c \<le> CHR ''9''"

definition isLower :: "char \<Rightarrow> bool" where
  "isLower c \<longleftrightarrow> CHR ''a'' \<le> c \<and> c \<le> CHR ''z''"

definition isUpper :: "char \<Rightarrow> bool" where
  "isUpper c \<longleftrightarrow> CHR ''A'' \<le> c \<and> c \<le> CHR ''Z''"

definition isAlnum :: "char \<Rightarrow> bool" where
  "isAlnum c \<longleftrightarrow> isDigit c \<or> isLower c \<or> isUpper c"

text \<open>The ASCII part of \<open>unicode.IsSpace\<close>: tab, newline, vertical tab, form feed, return, space.\<close>

definition isSpace :: "char \<Rightarrow> bool" where
  "isSpace c \<longleftrightarrow> c \<in> {CHR 0x09, CHR 0x0A, CHR 0x0B, CHR 0x0C, CHR 0x0D, CHR '' ''}"

text \<open>The UTF-8 encodings of the other white space of \<open>unicode.IsSpace\<close>: U+0085, U+00A0, U+1680,
  U+2000 to U+200A, U+2028, U+2029, U+202F, U+205F and U+3000.\<close>

definition wideSpaces :: "string list" where
  "wideSpaces =
     [[CHR 0xC2, CHR 0x85], [CHR 0xC2, CHR 0xA0], [CHR 0xE1, CHR 0x9A, CHR 0x80],
      [CHR 0xE2, CHR 0x80, CHR 0x80], [CHR 0xE2, CHR 0x80, CHR 0x81], [CHR 0xE2, CHR 0x80, CHR 0x82],
      [CHR 0xE2, CHR 0x80, CHR 0x83], [CHR 0xE2, CHR 0x80, CHR 0x84], [CHR 0xE2, CHR 0x80, CHR 0x85],
      [CHR 0xE2, CHR 0x80, CHR 0x86], [CHR 0xE2, CHR 0x80, CHR 0x87], [CHR 0xE2, CHR 0x80, CHR 0x88],
      [CHR 0xE2, CHR 0x80, CHR 0x89], [CHR 0xE2, CHR 0x80, CHR 0x8A], [CHR 0xE2, CHR 0x80, CHR 0xA8],
      [CHR 0xE2, CHR 0x80, CHR 0xA9], [CHR 0xE2, CHR 0x80, CHR 0xAF], [CHR 0xE2, CHR 0x81, CHR 0x9F],
      [CHR 0xE3, CHR 0x80, CHR 0x80]]"

section \<open>Prefixes, suffixes, search and replacement\<close>

definition HasPrefix :: "string \<Rightarrow> string \<Rightarrow> bool" where
  "HasPrefix s p \<longleftrightarrow> take (length p) s = p"

definition HasSuffix :: "string \<Rightarrow> string \<Rightarrow> bool" where
  "HasSuffix s p \<longleftrightarrow> length p \<le> length s \<and> drop (length s - length p) s = p"

fun Contains :: "string \<Rightarrow> string \<Rightarrow> bool" where
  "Contains [] p = (p = [])"
| "Contains (c # s) p = (HasPrefix (c # s) p \<or> Contains s p)"

text \<open>\<open>strings.ReplaceAll\<close> for a nonempty \<open>old\<close>: the matches are taken from left to right and do not
  overlap.  An empty \<open>old\<close> (never used by the sources) returns the input.\<close>

function ReplaceAll :: "string \<Rightarrow> string \<Rightarrow> string \<Rightarrow> string" where
  "ReplaceAll s old new =
     (case s of
        [] \<Rightarrow> []
      | c # cs \<Rightarrow>
          if old = [] then s
          else if HasPrefix s old then new @ ReplaceAll (drop (length old) s) old new
          else c # ReplaceAll cs old new)"
  by pat_completeness auto
termination
  by (relation "measure (\<lambda>(s, old, new). length s)") auto

declare ReplaceAll.simps [simp del]

definition TrimLeft :: "string \<Rightarrow> char list \<Rightarrow> string" where
  "TrimLeft s cutset = dropWhile (\<lambda>c. c \<in> set cutset) s"

definition TrimRight :: "string \<Rightarrow> char list \<Rightarrow> string" where
  "TrimRight s cutset = rev (dropWhile (\<lambda>c. c \<in> set cutset) (rev s))"

definition TrimSuffix :: "string \<Rightarrow> string \<Rightarrow> string" where
  "TrimSuffix s p = (if HasSuffix s p then take (length s - length p) s else s)"

section \<open>White space and case\<close>

text \<open>The length of the white space character at the front of \<open>s\<close>, 0 for none; \<open>wide\<close> lists the
  multi-byte white space in the direction of the scan.\<close>

definition spaceLen :: "string list \<Rightarrow> string \<Rightarrow> nat" where
  "spaceLen wide s =
     (case s of
        [] \<Rightarrow> 0
      | c # _ \<Rightarrow>
          if isSpace c then 1
          else (case find (HasPrefix s) wide of None \<Rightarrow> 0 | Some w \<Rightarrow> length w))"

function stripSpaces :: "string list \<Rightarrow> string \<Rightarrow> string" where
  "stripSpaces wide s =
     (if s = [] \<or> spaceLen wide s = 0 then s else stripSpaces wide (drop (spaceLen wide s) s))"
  by pat_completeness auto
termination
  by (relation "measure (\<lambda>(wide, s). length s)") auto

declare stripSpaces.simps [simp del]

definition TrimSpace :: "string \<Rightarrow> string" where
  "TrimSpace s = rev (stripSpaces (map rev wideSpaces) (rev (stripSpaces wideSpaces s)))"

definition lowerChar :: "char \<Rightarrow> char" where
  "lowerChar c = (if isUpper c then char_of (of_char c + 32 :: nat) else c)"

fun ToLower :: "string \<Rightarrow> string" where
  "ToLower [] = []"
| "ToLower (c # s) =
     (if HasPrefix (c # s) [CHR 0xE2, CHR 0x84, CHR 0xAA] then CHR ''k'' # ToLower (drop 2 s)
      else if HasPrefix (c # s) [CHR 0xC4, CHR 0xB0] then CHR ''i'' # ToLower (drop 1 s)
      else lowerChar c # ToLower s)"

section \<open>Split, join and numbers\<close>

fun Split :: "char \<Rightarrow> string \<Rightarrow> string list" where
  "Split sep [] = [[]]"
| "Split sep (c # s) =
     (if c = sep then [] # Split sep s
      else (case Split sep s of [] \<Rightarrow> [[c]] | p # ps \<Rightarrow> (c # p) # ps))"

fun Join :: "string list \<Rightarrow> string \<Rightarrow> string" where
  "Join [] sep = []"
| "Join [p] sep = p"
| "Join (p # q # ps) sep = p @ sep @ Join (q # ps) sep"

definition digitChar :: "nat \<Rightarrow> char" where
  "digitChar d = char_of (48 + d)"

definition digitVal :: "char \<Rightarrow> nat" where
  "digitVal c = of_char c - 48"

fun natItoa :: "nat \<Rightarrow> string" where
  "natItoa n = (if n < 10 then [digitChar n] else natItoa (n div 10) @ [digitChar (n mod 10)])"

declare natItoa.simps [simp del]

definition Itoa :: "int \<Rightarrow> string" where
  "Itoa i = (if i < 0 then CHR ''-'' # natItoa (nat (- i)) else natItoa (nat i))"

definition natOfDigits :: "string \<Rightarrow> nat" where
  "natOfDigits s = foldl (\<lambda>n c. 10 * n + digitVal c) 0 s"

text \<open>The newline and the other bytes that have no literal.\<close>

abbreviation NL :: string where "NL \<equiv> [CHR 0x0A]"
abbreviation CR :: string where "CR \<equiv> [CHR 0x0D]"
abbreviation DQ :: string where "DQ \<equiv> [CHR 0x22]"
abbreviation BS :: string where "BS \<equiv> [CHR 0x5C]"


section \<open>Lemmas: prefixes and suffixes\<close>

lemma HasPrefix_iff: "HasPrefix s p \<longleftrightarrow> (\<exists>r. s = p @ r)"
  unfolding HasPrefix_def by (metis append_eq_conv_conj append_take_drop_id)

lemma HasSuffix_iff: "HasSuffix s p \<longleftrightarrow> (\<exists>r. s = r @ p)"
  unfolding HasSuffix_def
  by (metis append_take_drop_id diff_diff_cancel length_append length_drop append_eq_append_conv
      le_add2 append_eq_conv_conj)

lemma HasPrefix_append [simp]: "HasPrefix (p @ r) p"
  by (simp add: HasPrefix_def)

lemma HasSuffix_append [simp]: "HasSuffix (r @ p) p"
  by (simp add: HasSuffix_def)

lemma HasPrefix_Cons [simp]: "HasPrefix (c # s) (d # p) \<longleftrightarrow> c = d \<and> HasPrefix s p"
  by (auto simp: HasPrefix_def)

lemma HasPrefix_Nil [simp]: "HasPrefix [] p \<longleftrightarrow> p = []" "HasPrefix s []"
  by (auto simp: HasPrefix_def)

lemma Contains_iff: "Contains s p \<longleftrightarrow> (\<exists>a b. s = a @ p @ b)"
proof (induction s)
  case Nil
  then show ?case by auto
next
  case (Cons c s)
  show ?case
  proof
    assume "Contains (c # s) p"
    then consider r where "c # s = p @ r" | "Contains s p"
      by (auto simp: HasPrefix_iff)
    then show "\<exists>a b. c # s = a @ p @ b"
      by cases (metis append_Nil, metis Cons.IH append_Cons)
  next
    assume "\<exists>a b. c # s = a @ p @ b"
    then obtain a b where ab: "c # s = a @ p @ b" by blast
    show "Contains (c # s) p"
    proof (cases a)
      case Nil
      then have "HasPrefix (c # s) p" using ab by (auto simp: HasPrefix_iff)
      then show ?thesis by simp
    next
      case (Cons x a')
      then show ?thesis using ab Cons.IH by auto
    qed
  qed
qed

lemma Contains_single [simp]: "Contains s [c] \<longleftrightarrow> c \<in> set s"
  by (metis Contains_iff append_Cons append_Nil split_list in_set_conv_decomp)

section \<open>Lemmas: split and join\<close>

lemma Split_not_Nil [simp]: "Split sep s \<noteq> []"
  by (induction s) (auto split: list.splits)

lemma Split_Cons_other: "c \<noteq> sep \<Longrightarrow> Split sep (c # s) = (c # hd (Split sep s)) # tl (Split sep s)"
  by (auto split: list.splits)

lemma Split_no_sep: "p \<in> set (Split sep s) \<Longrightarrow> sep \<notin> set p"
  by (induction s arbitrary: p) (auto split: list.splits if_splits)

lemma Join_Cons: "ps \<noteq> [] \<Longrightarrow> Join (p # ps) sep = p @ sep @ Join ps sep"
  by (cases ps) auto

lemma Join_Split [simp]: "Join (Split sep s) [sep] = s"
proof (induction s)
  case (Cons c s)
  obtain p ps where sp: "Split sep s = p # ps" by (cases "Split sep s") auto
  show ?case
  proof (cases "c = sep")
    case True
    then show ?thesis using Cons by (simp add: Join_Cons)
  next
    case False
    then show ?thesis using Cons sp by (cases ps) auto
  qed
qed simp

lemma Split_append: "Split sep (p @ sep # s) = Split sep p @ Split sep s"
proof (induction p)
  case (Cons c p)
  then show ?case by (auto simp: Split_Cons_other split: list.splits)
qed simp

lemma Split_single: "sep \<notin> set p \<Longrightarrow> Split sep p = [p]"
  by (induction p) auto

lemma set_Split: "set s \<subseteq> insert sep (\<Union> (set ` set (Split sep s)))"
proof (induction s)
  case (Cons c s)
  obtain p ps where sp: "Split sep s = p # ps" by (cases "Split sep s") auto
  show ?case
  proof (cases "c = sep")
    case True
    with Cons show ?thesis by auto
  next
    case False
    then have "Split sep (c # s) = (c # p) # ps" using sp by simp
    with Cons sp show ?thesis by auto
  qed
qed simp

lemma length_Split_le: "length (Split sep s) \<le> Suc (length s)"
  by (induction s) (auto split: list.splits)

section \<open>Lemmas: trimming and case\<close>

definition visible :: "char \<Rightarrow> bool" where
  "visible c \<longleftrightarrow> c < CHR 0x80 \<and> \<not> isSpace c"

lemma spaceLen_visible:
  assumes "visible c" and "\<forall>w \<in> set wide. w \<noteq> [] \<and> \<not> hd w < CHR 0x80"
  shows "spaceLen wide (c # s) = 0"
proof -
  have "find (HasPrefix (c # s)) wide = None"
    using assms by (fastforce simp: find_None_iff visible_def HasPrefix_iff neq_Nil_conv)
  then show ?thesis using assms by (simp add: spaceLen_def visible_def)
qed

lemma wideSpaces_wide: "\<forall>w \<in> set wideSpaces. w \<noteq> [] \<and> \<not> hd w < CHR 0x80"
  by (simp add: wideSpaces_def)

lemma rev_wideSpaces_wide: "\<forall>w \<in> set (map rev wideSpaces). w \<noteq> [] \<and> \<not> hd w < CHR 0x80"
  by (simp add: wideSpaces_def)

lemma stripSpaces_id: "s = [] \<or> spaceLen wide s = 0 \<Longrightarrow> stripSpaces wide s = s"
  by (subst stripSpaces.simps) auto

lemma TrimSpace_id:
  assumes "s = [] \<or> visible (hd s) \<and> visible (last s)"
  shows "TrimSpace s = s"
proof (cases s rule: rev_cases)
  case Nil
  then show ?thesis by (simp add: TrimSpace_def stripSpaces_id)
next
  case (snoc t d)
  obtain c u where cu: "s = c # u" using snoc by (meson neq_Nil_conv snoc_eq_iff_butlast)
  have "spaceLen wideSpaces s = 0"
    using spaceLen_visible [OF _ wideSpaces_wide] assms cu by simp
  moreover have "spaceLen (map rev wideSpaces) (rev s) = 0"
    using spaceLen_visible [OF _ rev_wideSpaces_wide] assms snoc by simp
  ultimately show ?thesis by (simp add: TrimSpace_def stripSpaces_id)
qed

lemma TrimRight_id: "s = [] \<or> last s \<notin> set cs \<Longrightarrow> TrimRight s cs = s"
  by (cases s rule: rev_cases) (auto simp: TrimRight_def)

lemma TrimRight_last: "TrimRight s cs \<noteq> [] \<Longrightarrow> last (TrimRight s cs) \<notin> set cs"
  by (metis TrimRight_def last_rev hd_dropWhile rev_is_Nil_conv)

lemma TrimRight_idem [simp]: "TrimRight (TrimRight s cs) cs = TrimRight s cs"
  using TrimRight_id TrimRight_last by blast

lemma TrimRight_prefix: "\<exists>r. s = TrimRight s cs @ r \<and> set r \<subseteq> set cs"
proof -
  have "rev s = takeWhile (\<lambda>c. c \<in> set cs) (rev s) @ dropWhile (\<lambda>c. c \<in> set cs) (rev s)"
    by simp
  then have "s = TrimRight s cs @ rev (takeWhile (\<lambda>c. c \<in> set cs) (rev s))"
    unfolding TrimRight_def by (metis rev_append rev_rev_ident)
  moreover have "set (rev (takeWhile (\<lambda>c. c \<in> set cs) (rev s))) \<subseteq> set cs"
    by (auto dest: set_takeWhileD)
  ultimately show ?thesis by blast
qed

lemma lowerChar_id: "\<not> isUpper c \<Longrightarrow> lowerChar c = c"
  by (simp add: lowerChar_def)

lemma ToLower_id: "\<forall>c \<in> set s. c < CHR 0x80 \<and> \<not> isUpper c \<Longrightarrow> ToLower s = s"
  by (induction s) (auto simp: lowerChar_id)

section \<open>Lemmas: decimal numbers\<close>

lemma digitChar_digit: "d < 10 \<Longrightarrow> isDigit (digitChar d)"
  by (auto simp: isDigit_def digitChar_def less_eq_char_def)

lemma digitVal_digitChar [simp]: "d < 10 \<Longrightarrow> digitVal (digitChar d) = d"
  by (simp add: digitVal_def digitChar_def)

lemma natItoa_digits: "list_all isDigit (natItoa n)"
proof (induction n rule: natItoa.induct)
  case (1 n)
  then show ?case by (subst natItoa.simps) (auto simp: digitChar_digit)
qed

lemma natItoa_not_Nil [simp]: "natItoa n \<noteq> []"
  by (subst natItoa.simps) simp

lemma natOfDigits_snoc [simp]: "natOfDigits (s @ [c]) = 10 * natOfDigits s + digitVal c"
  by (simp add: natOfDigits_def)

lemma natOfDigits_natItoa [simp]: "natOfDigits (natItoa n) = n"
proof (induction n rule: natItoa.induct)
  case (1 n)
  show ?case
  proof (cases "n < 10")
    case True
    then show ?thesis
      using digitVal_digitChar by (subst natItoa.simps) (simp add: natOfDigits_def)
  next
    case False
    with "1.IH" show ?thesis by (subst natItoa.simps) simp
  qed
qed

lemma natItoa_inject [simp]: "natItoa m = natItoa n \<longleftrightarrow> m = n"
  by (metis natOfDigits_natItoa)

end
