(* ===== verification/Timestamp.thy ===== *)
theory Timestamp
  imports GoStrings "HOL-Library.Word"
begin

text \<open>
  The timestamp keys and UUID texts of package \<open>sqlitedb\<close> (\<open>timestamp.go\<close>, \<open>uuid_lookup.go\<close>).  A timestamp
  column holds a text whose binary order is the order of time: a tag, the Unix seconds with the sign
  bit flipped as twenty digits, and the nanoseconds as nine digits.  The lemmas show that the encoding
  is injective with \<open>DecodeTimestamp\<close> as its inverse, and that it preserves and reflects order.
\<close>

unbundle bit_operations_syntax

section \<open>Timestamp keys\<close>

text \<open>The fields of \<open>FiniteTimestamp\<close> are an \<open>int64\<close> and an \<open>int32\<close>; the model keeps them as integers.\<close>

datatype Timestamp =
    NullTimestamp
  | NegativeInfinity
  | PositiveInfinity
  | FiniteTimestamp int int

definition timestampBias :: "64 word" where
  "timestampBias = push_bit 63 1"

text \<open>The verb \<open>%0wd\<close> of a non-negative number.\<close>

definition zeroPad :: "nat \<Rightarrow> nat \<Rightarrow> string" where
  "zeroPad w n = replicate (w - length (natItoa n)) (CHR ''0'') @ natItoa n"

datatype timestamp_error = NanosRange | NoncanonicalKey | BiasedRange

definition EncodeTimestamp :: "Timestamp \<Rightarrow> timestamp_error + string option" where
  "EncodeTimestamp value =
     (case value of
        NullTimestamp \<Rightarrow> Inr None
      | NegativeInfinity \<Rightarrow> Inr (Some ''0'')
      | PositiveInfinity \<Rightarrow> Inr (Some ''2'')
      | FiniteTimestamp seconds nanos \<Rightarrow>
          if nanos < 0 \<or> nanos > 999999999 then Inl NanosRange
          else Inr (Some (''1'' @ zeroPad 20 (unat (word_of_int seconds XOR timestampBias)) @ ''.'' @ zeroPad 9 (nat nanos))))"

definition finiteTimestampKey :: "string \<Rightarrow> bool" where
  "finiteTimestampKey s \<longleftrightarrow>
     length s = 31 \<and> s ! 0 = CHR ''1'' \<and> list_all isDigit (take 20 (drop 1 s)) \<and> s ! 21 = CHR ''.'' \<and>
     list_all isDigit (drop 22 s)"

definition DecodeTimestamp :: "string option \<Rightarrow> timestamp_error + Timestamp" where
  "DecodeTimestamp key =
     (case key of
        None \<Rightarrow> Inr NullTimestamp
      | Some k \<Rightarrow>
          if k = ''0'' then Inr NegativeInfinity
          else if k = ''2'' then Inr PositiveInfinity
          else if \<not> finiteTimestampKey k then Inl NoncanonicalKey
          else
            let biased = natOfDigits (take 20 (drop 1 k)); nanos = natOfDigits (drop 22 k) in
            if biased \<ge> 2 ^ 64 then Inl BiasedRange
            else Inr (FiniteTimestamp (sint (word_of_nat biased XOR timestampBias)) (int nanos)))"

section \<open>UUID texts\<close>

text \<open>\<open>uuidPairs n s\<close> reads the last \<open>n\<close> of the sixteen pairs of digits: a hyphen may follow every second
  pair but the last.\<close>

definition isHexDigit :: "char \<Rightarrow> bool" where
  "isHexDigit c \<longleftrightarrow> isDigit c \<or> (CHR ''a'' \<le> c \<and> c \<le> CHR ''f'') \<or> (CHR ''A'' \<le> c \<and> c \<le> CHR ''F'')"

fun uuidPairs :: "nat \<Rightarrow> string \<Rightarrow> (string \<times> string) option" where
  "uuidPairs 0 s = Some ([], s)"
| "uuidPairs (Suc n) s =
     (case s of
        a # b # r \<Rightarrow>
          if isHexDigit a \<and> isHexDigit b then
            let r' = (if even n \<and> 0 < n \<and> r \<noteq> [] \<and> hd r = CHR ''-'' then tl r else r) in
            map_option (\<lambda>(ds, rest). (lowerChar a # lowerChar b # ds, rest)) (uuidPairs n r')
          else None
      | _ \<Rightarrow> None)"

definition uuidCanonical :: "string \<Rightarrow> string" where
  "uuidCanonical ds =
     take 8 ds @ ''-'' @ take 4 (drop 8 ds) @ ''-'' @ take 4 (drop 12 ds) @ ''-'' @ take 4 (drop 16 ds) @ ''-'' @ drop 20 ds"

definition ParseUUIDLookupText :: "string \<Rightarrow> string option" where
  "ParseUUIDLookupText input =
     (let braced = (input \<noteq> [] \<and> hd input = CHR ''{'') in
      case uuidPairs 16 (if braced then tl input else input) of
        None \<Rightarrow> None
      | Some (digits, rest) \<Rightarrow>
          if braced then (if rest = ''}'' then Some (uuidCanonical digits) else None)
          else if rest = [] then Some (uuidCanonical digits) else None)"

definition isLowerHex :: "char \<Rightarrow> bool" where
  "isLowerHex c \<longleftrightarrow> isDigit c \<or> (CHR ''a'' \<le> c \<and> c \<le> CHR ''f'')"

definition uuidPattern :: "string \<Rightarrow> bool" where
  "uuidPattern s \<longleftrightarrow>
     map length (Split (CHR ''-'') s) = [8, 4, 4, 4, 12] \<and>
     list_all (list_all isLowerHex) (Split (CHR ''-'') s)"

section \<open>Lemmas: fixed-width decimals\<close>

fun fixedDigits :: "nat \<Rightarrow> nat \<Rightarrow> string" where
  "fixedDigits 0 n = []"
| "fixedDigits (Suc w) n = fixedDigits w (n div 10) @ [digitChar (n mod 10)]"

lemma length_fixedDigits [simp]: "length (fixedDigits w n) = w"
  by (induction w arbitrary: n) auto

lemma digitChar_0: "digitChar 0 = CHR ''0''"
  by code_simp

lemma fixedDigits_0: "fixedDigits w 0 = replicate w (CHR ''0'')"
proof (induction w)
  case (Suc w)
  then show ?case by (simp add: digitChar_0 replicate_append_same)
qed simp

lemma fixedDigits_digits: "list_all isDigit (fixedDigits w n)"
  by (induction w arbitrary: n) (auto simp: digitChar_digit)

lemma zeroPad_fixed: "0 < w \<Longrightarrow> n < 10 ^ w \<Longrightarrow> zeroPad w n = fixedDigits w n"
proof (induction w arbitrary: n)
  case (Suc w)
  show ?case
  proof (cases "n < 10")
    case True
    then have "zeroPad (Suc w) n = replicate w (CHR ''0'') @ [digitChar n]"
      unfolding zeroPad_def by (subst (1 2) natItoa.simps) simp
    then show ?thesis using True by (simp add: fixedDigits_0)
  next
    case False
    then have w: "0 < w" using Suc.prems by (cases w) auto
    have "zeroPad (Suc w) n = zeroPad w (n div 10) @ [digitChar (n mod 10)]"
      unfolding zeroPad_def using False by (subst (1 2) natItoa.simps) simp
    moreover have "n div 10 < 10 ^ w" using Suc.prems by (simp add: div_less_iff_less_mult mult.commute)
    ultimately show ?thesis using Suc.IH [OF w] by simp
  qed
qed simp

lemma natOfDigits_fixed: "n < 10 ^ w \<Longrightarrow> natOfDigits (fixedDigits w n) = n"
proof (induction w arbitrary: n)
  case (Suc w)
  have "n div 10 < 10 ^ w" using Suc.prems by (simp add: div_less_iff_less_mult mult.commute)
  then show ?case using Suc.IH by simp
qed (simp add: natOfDigits_def)

lemma list_less_append:
  fixes xs ys us vs :: "'a::linorder list"
  assumes "length xs = length ys"
  shows "xs @ us < ys @ vs \<longleftrightarrow> xs < ys \<or> (xs = ys \<and> us < vs)"
  using assms by (induction xs ys rule: list_induct2) auto

lemma digitChar_less: "a < 10 \<Longrightarrow> b < 10 \<Longrightarrow> digitChar a < digitChar b \<longleftrightarrow> a < b"
  by (simp add: digitChar_def less_char_def)

lemma digitChar_eq: "a < 10 \<Longrightarrow> b < 10 \<Longrightarrow> digitChar a = digitChar b \<longleftrightarrow> a = b"
  by (metis digitVal_digitChar)

lemma fixedDigits_less:
  "a < 10 ^ w \<Longrightarrow> b < 10 ^ w \<Longrightarrow> fixedDigits w a < fixedDigits w b \<longleftrightarrow> a < b"
proof (induction w arbitrary: a b)
  case (Suc w)
  have lt: "a div 10 < 10 ^ w" "b div 10 < 10 ^ w"
    using Suc.prems by (simp_all add: div_less_iff_less_mult mult.commute)
  have eq: "fixedDigits w (a div 10) = fixedDigits w (b div 10) \<longleftrightarrow> a div 10 = b div 10"
    using lt by (metis natOfDigits_fixed)
  have "10 * p + r < 10 * q + t \<longleftrightarrow> p < q \<or> (p = q \<and> r < t)" if "r < 10" "t < 10" for p q r t :: nat
    using that by auto
  from this [of "a mod 10" "b mod 10" "a div 10" "b div 10"]
  have "a < b \<longleftrightarrow> a div 10 < b div 10 \<or> (a div 10 = b div 10 \<and> a mod 10 < b mod 10)"
    by simp
  then show ?case
    using Suc.IH [OF lt] eq by (simp add: list_less_append digitChar_less)
qed simp

section \<open>Lemmas: the bias\<close>

lemma xor_bias: "x XOR timestampBias = x + timestampBias"
proof -
  have bias: "bit timestampBias n \<longleftrightarrow> n = 63" for n
    unfolding timestampBias_def bit_push_bit_iff bit_1_iff by auto
  have disj: "y XOR timestampBias = y + timestampBias" if "\<not> bit y 63" for y :: "64 word"
  proof -
    have "y + timestampBias = y OR timestampBias"
      by (rule disjunctive_add) (use that bias in auto)
    also have "\<dots> = y XOR timestampBias"
      by (rule bit_word_eqI) (use that bias in \<open>auto simp: bit_or_iff bit_xor_iff\<close>)
    finally show ?thesis by simp
  qed
  show ?thesis
  proof (cases "bit x 63")
    case False
    then show ?thesis by (rule disj)
  next
    case True
    define y where "y = x XOR timestampBias"
    have "\<not> bit y 63" using True bias by (simp add: y_def bit_xor_iff)
    moreover have "x = y XOR timestampBias" by (simp add: y_def xor.assoc)
    ultimately have "x = y + timestampBias" using disj by simp
    moreover have "timestampBias + timestampBias = 0" by (simp add: timestampBias_def)
    ultimately have "x + timestampBias = y" by (simp add: add.assoc)
    then show ?thesis by (simp add: y_def)
  qed
qed

lemma unat_of_int64:
  assumes "0 \<le> t" "t < 2 ^ 64"
  shows "unat (word_of_int t :: 64 word) = nat t"
proof -
  have "take_bit 64 t = t" using assms by (simp only: take_bit_int_eq_self)
  then have "uint (word_of_int t :: 64 word) = t"
    by (simp only: uint_word_of_int_eq len_num1 len_bit0 len_num0) simp
  then show ?thesis by (metis unat_eq_nat_uint)
qed

lemma sint_of_int64:
  assumes "- (2 ^ 63) \<le> s" "s < 2 ^ 63"
  shows "sint (word_of_int s :: 64 word) = s"
proof -
  have "signed_take_bit 63 s = s" using assms by (simp only: signed_take_bit_int_eq_self)
  then show ?thesis by (simp only: signed_of_int) simp
qed

lemma bias_int: "timestampBias = word_of_int (2 ^ 63)"
  by (simp add: timestampBias_def)

lemma biased_seconds:
  assumes "- (2 ^ 63) \<le> s" "s < 2 ^ 63"
  shows "unat (word_of_int s XOR timestampBias) = nat (s + 2 ^ 63)"
proof -
  have "(word_of_int s :: 64 word) XOR timestampBias = word_of_int (s + 2 ^ 63)"
    unfolding xor_bias by (simp only: bias_int of_int_add)
  moreover have "0 \<le> s + 2 ^ 63" "s + 2 ^ 63 < 2 ^ 64" using assms by simp_all
  ultimately show ?thesis by (simp only: unat_of_int64)
qed

lemma unbiased_seconds:
  assumes "- (2 ^ 63) \<le> s" "s < 2 ^ 63"
  shows "sint (word_of_nat (nat (s + 2 ^ 63)) XOR timestampBias) = s"
proof -
  have "(word_of_nat (nat (s + 2 ^ 63)) :: 64 word) = word_of_int (s + 2 ^ 63)"
    using assms by (simp add: of_nat_nat)
  then have "(word_of_nat (nat (s + 2 ^ 63)) :: 64 word) XOR timestampBias = word_of_int (s + 2 ^ 63 + 2 ^ 63)"
    unfolding xor_bias by (simp only: bias_int of_int_add)
  also have "\<dots> = word_of_int s" by simp
  finally show ?thesis using assms by (simp only: sint_of_int64)
qed

section \<open>Lemmas: keys\<close>

definition finiteRange :: "int \<Rightarrow> int \<Rightarrow> bool" where
  "finiteRange s n \<longleftrightarrow> - (2 ^ 63) \<le> s \<and> s < 2 ^ 63 \<and> 0 \<le> n \<and> n \<le> 999999999"

lemma EncodeTimestamp_finite:
  assumes "finiteRange s n"
  shows "EncodeTimestamp (FiniteTimestamp s n) =
    Inr (Some (''1'' @ fixedDigits 20 (nat (s + 2 ^ 63)) @ ''.'' @ fixedDigits 9 (nat n)))"
proof -
  have r: "- (2 ^ 63) \<le> s" "s < 2 ^ 63" "0 \<le> n" "n \<le> 999999999"
    using assms by (simp_all add: finiteRange_def)
  have "zeroPad 20 (nat (s + 2 ^ 63)) = fixedDigits 20 (nat (s + 2 ^ 63))"
    "zeroPad 9 (nat n) = fixedDigits 9 (nat n)"
    using r by (intro zeroPad_fixed; simp add: nat_less_iff)+
  then show ?thesis
    using r biased_seconds [OF r(1,2)] by (simp add: EncodeTimestamp_def)
qed

lemma DecodeTimestamp_finite:
  assumes "finiteRange s n"
  shows "DecodeTimestamp (Some (''1'' @ fixedDigits 20 (nat (s + 2 ^ 63)) @ ''.'' @ fixedDigits 9 (nat n))) =
    Inr (FiniteTimestamp s n)"
proof -
  have r: "- (2 ^ 63) \<le> s" "s < 2 ^ 63" "0 \<le> n" "n \<le> 999999999"
    using assms by (simp_all add: finiteRange_def)
  let ?b = "fixedDigits 20 (nat (s + 2 ^ 63))" and ?n = "fixedDigits 9 (nat n)"
  let ?k = "''1'' @ ?b @ ''.'' @ ?n"
  have parts: "length ?k = 31" "?k ! 0 = CHR ''1''" "take 20 (drop 1 ?k) = ?b" "?k ! 21 = CHR ''.''" "drop 22 ?k = ?n"
    by (simp_all add: nth_append del: fixedDigits.simps)
  have key: "finiteTimestampKey ?k"
    unfolding finiteTimestampKey_def parts using fixedDigits_digits by simp
  have "natOfDigits ?b = nat (s + 2 ^ 63)" "natOfDigits ?n = nat n"
    using r by (intro natOfDigits_fixed; simp add: nat_less_iff)+
  then show ?thesis
    using key parts r unbiased_seconds [OF r(1,2)]
    by (simp add: DecodeTimestamp_def Let_def nat_less_iff not_le del: fixedDigits.simps)
qed

text \<open>The order of the tagged values.\<close>

fun timestampLess :: "Timestamp \<Rightarrow> Timestamp \<Rightarrow> bool" where
  "timestampLess NegativeInfinity t \<longleftrightarrow> (t = PositiveInfinity \<or> (\<exists>s n. t = FiniteTimestamp s n))"
| "timestampLess (FiniteTimestamp s n) t \<longleftrightarrow>
     t = PositiveInfinity \<or> (\<exists>s' n'. t = FiniteTimestamp s' n' \<and> (s < s' \<or> (s = s' \<and> n < n')))"
| "timestampLess _ t \<longleftrightarrow> False"

fun encodable :: "Timestamp \<Rightarrow> bool" where
  "encodable NullTimestamp = False"
| "encodable (FiniteTimestamp s n) = finiteRange s n"
| "encodable _ = True"

lemma fixedDigits_inj: "a < 10 ^ w \<Longrightarrow> b < 10 ^ w \<Longrightarrow> fixedDigits w a = fixedDigits w b \<longleftrightarrow> a = b"
  by (metis natOfDigits_fixed)

lemma finite_key_less:
  assumes "finiteRange s n" "finiteRange s' n'"
  shows "''1'' @ fixedDigits 20 (nat (s + 2 ^ 63)) @ ''.'' @ fixedDigits 9 (nat n) <
      ''1'' @ fixedDigits 20 (nat (s' + 2 ^ 63)) @ ''.'' @ fixedDigits 9 (nat n') \<longleftrightarrow>
    s < s' \<or> (s = s' \<and> n < n')"
proof -
  have r: "0 \<le> s + 2 ^ 63" "0 \<le> s' + 2 ^ 63" "0 \<le> n" "0 \<le> n'"
    and b: "nat (s + 2 ^ 63) < 10 ^ 20" "nat (s' + 2 ^ 63) < 10 ^ 20" "nat n < 10 ^ 9" "nat n' < 10 ^ 9"
    using assms by (simp_all add: finiteRange_def nat_less_iff)
  have "fixedDigits 20 (nat (s + 2 ^ 63)) < fixedDigits 20 (nat (s' + 2 ^ 63)) \<longleftrightarrow> s < s'"
    using fixedDigits_less [OF b(1,2)] r by auto
  moreover have "fixedDigits 20 (nat (s + 2 ^ 63)) = fixedDigits 20 (nat (s' + 2 ^ 63)) \<longleftrightarrow> s = s'"
    using fixedDigits_inj [OF b(1,2)] r by (simp add: eq_nat_nat_iff)
  moreover have "fixedDigits 9 (nat n) < fixedDigits 9 (nat n') \<longleftrightarrow> n < n'"
    using fixedDigits_less [OF b(3,4)] r by auto
  ultimately show ?thesis by (simp add: list_less_append del: fixedDigits.simps)
qed

section \<open>Lemmas: UUID texts\<close>

lemma lowerHex: "isHexDigit c \<Longrightarrow> isLowerHex (lowerChar c)"
proof -
  assume h: "isHexDigit c"
  show ?thesis
  proof (cases "isUpper c")
    case True
    then have "CHR ''A'' \<le> c \<and> c \<le> CHR ''F''"
      using h by (auto simp: isHexDigit_def isUpper_def isDigit_def less_eq_char_def)
    then show ?thesis
      using True by (auto simp: lowerChar_def isLowerHex_def isDigit_def less_eq_char_def)
  next
    case False
    then show ?thesis
      using h by (auto simp: lowerChar_def isLowerHex_def isHexDigit_def isUpper_def less_eq_char_def)
  qed
qed

lemma isLowerHex_plain: "isLowerHex c \<Longrightarrow> isHexDigit c \<and> lowerChar c = c \<and> c \<noteq> CHR ''-'' \<and> c \<noteq> CHR ''{''"
  by (auto simp: isLowerHex_def isHexDigit_def isDigit_def lowerChar_def isUpper_def less_eq_char_def)

lemma uuidPairs_digits: "uuidPairs n s = Some (ds, rest) \<Longrightarrow> length ds = 2 * n \<and> list_all isLowerHex ds"
proof (induction n arbitrary: s ds)
  case (Suc n)
  then show ?case
    by (auto simp: Let_def lowerHex split: list.splits if_splits)
qed simp

lemma uuidPairs_group:
  assumes "list_all isLowerHex g" "length g = 2 * m" "0 < m"
  shows "uuidPairs (m + n) (g @ r) =
    map_option (\<lambda>(ds, rest). (g @ ds, rest))
      (uuidPairs n (if even n \<and> 0 < n \<and> r \<noteq> [] \<and> hd r = CHR ''-'' then tl r else r))"
  using assms
proof (induction m arbitrary: g)
  case (Suc m)
  obtain a b g' where g: "g = a # b # g'" "length g' = 2 * m"
    using Suc.prems(2) by (cases g; cases "tl g") auto
  have ab: "isHexDigit a" "isHexDigit b" "lowerChar a = a" "lowerChar b = b" and g': "list_all isLowerHex g'"
    using Suc.prems(1) isLowerHex_plain by (auto simp: g)
  show ?case
  proof (cases "m = 0")
    case True
    then show ?thesis using ab g by (simp add: Let_def)
  next
    case False
    then obtain c u where "g' = c # u" using g(2) by (cases g') auto
    then have "hd (g' @ r) \<noteq> CHR ''-''" using g' isLowerHex_plain by auto
    then show ?thesis
      using Suc.IH [OF g' g(2)] False ab
      by (auto simp: g Let_def option.map_comp comp_def case_prod_unfold)
  qed
qed simp

lemma uuidCanonical_pattern:
  assumes "length ds = 32" "list_all isLowerHex ds"
  shows "uuidPattern (uuidCanonical ds)"
proof -
  have all: "list_all isLowerHex (take n (drop m ds))" "list_all isLowerHex (drop m ds)" for n m
    using assms(2) by (auto simp: list_all_iff dest: in_set_takeD in_set_dropD)
  then have nh: "CHR ''-'' \<notin> set (take n (drop m ds))" "CHR ''-'' \<notin> set (drop m ds)" for n m
    using isLowerHex_plain by (fastforce simp: list_all_iff)+
  have "Split (CHR ''-'') (uuidCanonical ds) =
      [take 8 ds, take 4 (drop 8 ds), take 4 (drop 12 ds), take 4 (drop 16 ds), drop 20 ds]"
    using nh(1) [of 8 0] nh by (simp add: uuidCanonical_def Split_append Split_single)
  then show ?thesis
    using all(1) [of 8 0] all assms(1) by (simp add: uuidPattern_def)
qed

lemma split_digits:
  assumes "length ds = 32"
  obtains a b c d e where "ds = a @ b @ c @ d @ e" "length a = 8" "length b = 4" "length c = 4"
    "length d = 4" "length e = 12"
proof
  let ?a = "take 8 ds" and ?r1 = "drop 8 ds"
  let ?b = "take 4 ?r1" and ?r2 = "drop 4 ?r1"
  let ?c = "take 4 ?r2" and ?r3 = "drop 4 ?r2"
  show "ds = ?a @ ?b @ ?c @ take 4 ?r3 @ drop 4 ?r3" by (simp only: append_take_drop_id)
qed (use assms in simp_all)

lemma uuidPairs_canonical:
  assumes "length ds = 32" "list_all isLowerHex ds"
  shows "uuidPairs 16 (uuidCanonical ds) = Some (ds, [])"
proof -
  obtain a b c d e where ds: "ds = a @ b @ c @ d @ e"
    and l: "length a = 8" "length b = 4" "length c = 4" "length d = 4" "length e = 12"
    using split_digits [OF assms(1)] .
  have h: "list_all isLowerHex a" "list_all isLowerHex b" "list_all isLowerHex c" "list_all isLowerHex d"
    "list_all isLowerHex e"
    using assms(2) by (simp_all add: ds)
  have canon: "uuidCanonical ds = a @ CHR ''-'' # b @ CHR ''-'' # c @ CHR ''-'' # d @ CHR ''-'' # e"
    by (simp add: uuidCanonical_def ds l)
  have "uuidPairs 6 e = Some (e, [])"
    using uuidPairs_group [OF h(5), of 6 0 "[]"] l by simp
  then have "uuidPairs 8 (d @ CHR ''-'' # e) = Some (d @ e, [])"
    using uuidPairs_group [OF h(4), of 2 6 "CHR ''-'' # e"] l by simp
  then have "uuidPairs 10 (c @ CHR ''-'' # d @ CHR ''-'' # e) = Some (c @ d @ e, [])"
    using uuidPairs_group [OF h(3), of 2 8 "CHR ''-'' # d @ CHR ''-'' # e"] l by simp
  then have "uuidPairs 12 (b @ CHR ''-'' # c @ CHR ''-'' # d @ CHR ''-'' # e) = Some (b @ c @ d @ e, [])"
    using uuidPairs_group [OF h(2), of 2 10 "CHR ''-'' # c @ CHR ''-'' # d @ CHR ''-'' # e"] l by simp
  then show ?thesis
    using uuidPairs_group [OF h(1), of 4 12 "CHR ''-'' # b @ CHR ''-'' # c @ CHR ''-'' # d @ CHR ''-'' # e"] l
    by (simp add: canon) (simp add: ds)
qed

lemma ParseUUIDLookupText_Some:
  assumes "ParseUUIDLookupText s = Some c"
  obtains ds where "c = uuidCanonical ds" "length ds = 32" "list_all isLowerHex ds"
proof -
  have "\<exists>ds t rest. uuidPairs 16 t = Some (ds, rest) \<and> c = uuidCanonical ds"
    using assms by (auto simp: ParseUUIDLookupText_def Let_def split: option.splits if_splits) blast+
  then obtain ds t rest where "uuidPairs 16 t = Some (ds, rest)" "c = uuidCanonical ds" by blast
  then show thesis using that uuidPairs_digits [of 16 t ds rest] by auto
qed

section \<open>Properties\<close>

text \<open>
  Timestamps round-trip: every finite timestamp with an \<open>int64\<close> of seconds and nanoseconds in
  0..999999999 encodes to a key that decodes to the same timestamp.
\<close>
theorem timestamp_roundtrip:
  assumes "finiteRange s n"
  shows "\<exists>k. EncodeTimestamp (FiniteTimestamp s n) = Inr (Some k) \<and>
    DecodeTimestamp (Some k) = Inr (FiniteTimestamp s n)"
  using EncodeTimestamp_finite [OF assms] DecodeTimestamp_finite [OF assms] by blast

theorem timestamp_roundtrip_witness:
  "\<exists>k. EncodeTimestamp (FiniteTimestamp (- 1) 5) = Inr (Some k) \<and>
    DecodeTimestamp (Some k) = Inr (FiniteTimestamp (- 1) 5)"
  using timestamp_roundtrip [of "- 1" 5] by (simp add: finiteRange_def)

text \<open>
  C28: The binary order of the stored keys is the order of time: for encodable timestamps, infinities
  included, the key of one is less than the key of the other exactly when it is earlier.  The store's
  \<open>ORDER BY created_at\<close> and lease comparisons rest on this.
\<close>
theorem timestamp_order:
  assumes "encodable a" "encodable b" "EncodeTimestamp a = Inr (Some ka)" "EncodeTimestamp b = Inr (Some kb)"
  shows "ka < kb \<longleftrightarrow> timestampLess a b"
proof -
  have key: "(\<exists>s n. t = FiniteTimestamp s n \<and> finiteRange s n \<and>
        k = ''1'' @ fixedDigits 20 (nat (s + 2 ^ 63)) @ ''.'' @ fixedDigits 9 (nat n)) \<or>
      (t = NegativeInfinity \<and> k = ''0'') \<or> (t = PositiveInfinity \<and> k = ''2'')"
    if "encodable t" "EncodeTimestamp t = Inr (Some k)" for t k
  proof (cases t)
    case (FiniteTimestamp s n)
    then show ?thesis using that EncodeTimestamp_finite [of s n] by simp
  qed (use that in \<open>simp_all add: EncodeTimestamp_def\<close>)
  from key [OF assms(1,3)] key [OF assms(2,4)] show ?thesis
  proof (elim disjE exE conjE, goal_cases)
    case (1 s n s' n')
    then show ?thesis by (simp only: finite_key_less timestampLess.simps) blast
  qed auto
qed

theorem timestamp_order_witness:
  "\<exists>ka kb. EncodeTimestamp (FiniteTimestamp (- 1) 0) = Inr (Some ka) \<and>
     EncodeTimestamp (FiniteTimestamp 0 7) = Inr (Some kb) \<and> ka < kb"
proof -
  have r: "finiteRange (- 1) 0" "finiteRange 0 7" by (simp_all add: finiteRange_def)
  obtain ka kb where k: "EncodeTimestamp (FiniteTimestamp (- 1) 0) = Inr (Some ka)"
    "EncodeTimestamp (FiniteTimestamp 0 7) = Inr (Some kb)"
    using EncodeTimestamp_finite [OF r(1)] EncodeTimestamp_finite [OF r(2)] by blast
  then show ?thesis using timestamp_order [OF _ _ k] r by auto
qed

text \<open>
  A UUID text that is accepted in any of PostgreSQL's spellings is turned into the canonical lower
  case form, and the canonical form is accepted as itself, so two spellings of one id always meet in
  one stored key.
\<close>
theorem uuid_lookup_canonical:
  assumes "ParseUUIDLookupText s = Some c"
  shows "uuidPattern c \<and> ParseUUIDLookupText c = Some c"
proof -
  obtain ds where ds: "c = uuidCanonical ds" "length ds = 32" "list_all isLowerHex ds"
    using ParseUUIDLookupText_Some [OF assms] .
  obtain x r where x: "ds = x # r" using ds(2) by (cases ds) auto
  then have "hd c = x" "c \<noteq> []" by (simp_all add: ds(1) uuidCanonical_def)
  moreover have "x \<noteq> CHR ''{''" using ds(3) x isLowerHex_plain by auto
  ultimately have "ParseUUIDLookupText c = Some c"
    using uuidPairs_canonical [OF ds(2,3)] by (simp add: ParseUUIDLookupText_def ds(1))
  then show ?thesis using uuidCanonical_pattern [OF ds(2,3)] ds(1) by simp
qed

theorem uuid_lookup_canonical_witness:
  "uuidPattern ''550e8400-e29b-41d4-a716-446655440000''"
proof -
  have "ParseUUIDLookupText ''{550E8400E29B41D4A716446655440000}'' = Some ''550e8400-e29b-41d4-a716-446655440000''"
    by code_simp
  from uuid_lookup_canonical [OF this] show ?thesis by simp
qed

end
