(* ===== verification/NetIP.thy ===== *)
theory NetIP
  imports GoStrings
begin

text \<open>
  The textual IP addresses of package \<open>net\<close>: \<open>net.ParseIP\<close> as Go implements it over
  \<open>netip.ParseAddr\<close> (dotted decimal without leading zeros, IPv6 with one \<open>::\<close> and an optional embedded
  IPv4 tail, no zone), returning the 16 bytes of the address.  On top of it stands \<open>ipVersion\<close> of the
  domain package, the test every literal-IP check of the program uses.
\<close>

section \<open>IPv4\<close>

text \<open>
  \<open>parseIPv4Fields\<close>: one pass over the bytes with the current octet's value and digit count, the
  octets already closed, whether a byte was read before and whether that byte was a dot.
\<close>

fun v4Loop :: "string \<Rightarrow> bool \<Rightarrow> nat \<Rightarrow> nat \<Rightarrow> bool \<Rightarrow> nat list \<Rightarrow> nat list option" where
  "v4Loop [] atStart val digLen afterDot fields =
     (if length fields < 3 then None else Some (fields @ [val]))"
| "v4Loop (c # cs) atStart val digLen afterDot fields =
     (if isDigit c then
        if digLen = 1 \<and> val = 0 then None
        else if val * 10 + digitVal c > 255 then None
        else v4Loop cs False (val * 10 + digitVal c) (digLen + 1) False fields
      else if c = CHR ''.'' then
        if atStart \<or> cs = [] \<or> afterDot then None
        else if length fields = 3 then None
        else v4Loop cs False 0 0 True (fields @ [val])
      else None)"

definition parseIPv4Fields :: "string \<Rightarrow> nat list option" where
  "parseIPv4Fields s = v4Loop s True 0 0 False []"

section \<open>IPv6\<close>

definition isHex :: "char \<Rightarrow> bool" where
  "isHex c \<longleftrightarrow> isDigit c \<or> (CHR ''a'' \<le> c \<and> c \<le> CHR ''f'') \<or> (CHR ''A'' \<le> c \<and> c \<le> CHR ''F'')"

definition hexVal :: "char \<Rightarrow> nat" where
  "hexVal c = (if isDigit c then of_char c - 48
               else if CHR ''a'' \<le> c \<and> c \<le> CHR ''f'' then of_char c - 87
               else of_char c - 55)"

definition hexNum :: "string \<Rightarrow> nat" where
  "hexNum s = foldl (\<lambda>n c. 16 * n + hexVal c) 0 s"

text \<open>The end of \<open>parseIPv6\<close>: the text must be used up and the ellipsis, if any, stands for at least
  one group of zeros.\<close>

definition v6Finish :: "string \<Rightarrow> nat option \<Rightarrow> nat list \<Rightarrow> nat list option" where
  "v6Finish s ellipsis ip =
     (if s \<noteq> [] then None
      else if length ip < 16 then
        (case ellipsis of
           None \<Rightarrow> None
         | Some e \<Rightarrow> Some (take e ip @ replicate (16 - length ip) 0 @ drop e ip))
      else if ellipsis \<noteq> None then None
      else Some ip)"

text \<open>The loop of \<open>parseIPv6\<close>: groups of at most four hex digits, each followed by a colon or the end;
  \<open>ip\<close> holds the bytes saved so far.\<close>

function v6Loop :: "string \<Rightarrow> nat option \<Rightarrow> nat list \<Rightarrow> nat list option" where
  "v6Loop s ellipsis ip =
     (if \<not> length ip < 16 then v6Finish s ellipsis ip
      else
        let ds = takeWhile isHex s; rest = dropWhile isHex s in
        if length ds > 4 \<or> ds = [] then None
        else if rest \<noteq> [] \<and> hd rest = CHR ''.'' then
          if ellipsis = None \<and> length ip \<noteq> 12 then None
          else if length ip + 4 > 16 then None
          else (case parseIPv4Fields s of
                  None \<Rightarrow> None
                | Some fs \<Rightarrow> v6Finish [] ellipsis (ip @ fs))
        else
          let ip' = ip @ [hexNum ds div 256, hexNum ds mod 256] in
          if rest = [] then v6Finish [] ellipsis ip'
          else if hd rest \<noteq> CHR '':'' then None
          else if tl rest = [] then None
          else if hd (tl rest) = CHR '':'' then
            if ellipsis \<noteq> None then None
            else if tl (tl rest) = [] then v6Finish [] (Some (length ip')) ip'
            else v6Loop (tl (tl rest)) (Some (length ip')) ip'
          else v6Loop (tl rest) ellipsis ip')"
  by pat_completeness auto
termination
  by (relation "measure (\<lambda>(s, e, ip). 16 - length ip)") auto

declare v6Loop.simps [simp del]

definition parseIPv6 :: "string \<Rightarrow> nat list option" where
  "parseIPv6 s =
     (if HasPrefix s ''::'' then
        if drop 2 s = [] then Some (replicate 16 0) else v6Loop (drop 2 s) (Some 0) []
      else v6Loop s None [])"

section \<open>ParseIP and ipVersion\<close>

text \<open>\<open>netip.ParseAddr\<close> decides by the first dot, colon or percent sign; \<open>net.ParseIP\<close> refuses every
  address with a zone, hence every text with a percent sign.\<close>

definition ParseIP :: "string \<Rightarrow> nat list option" where
  "ParseIP s =
     (if CHR ''%'' \<in> set s then None
      else case find (\<lambda>c. c = CHR ''.'' \<or> c = CHR '':'') s of
             None \<Rightarrow> None
           | Some c \<Rightarrow>
               if c = CHR ''.'' then
                 map_option (\<lambda>fs. replicate 10 0 @ [255, 255] @ fs) (parseIPv4Fields s)
               else parseIPv6 s)"

definition ipVersion :: "string \<Rightarrow> nat" where
  "ipVersion value =
     (case ParseIP value of
        None \<Rightarrow> 0
      | Some _ \<Rightarrow> if Contains value '':'' then 6 else 4)"

section \<open>Lemmas\<close>

text \<open>Only digits, hex letters, dots and colons occur in an accepted address.\<close>

definition addrChar :: "char \<Rightarrow> bool" where
  "addrChar c \<longleftrightarrow> isHex c \<or> c = CHR ''.'' \<or> c = CHR '':''"

lemma v4Loop_chars:
  "v4Loop s b v d a fs = Some r \<Longrightarrow> list_all (\<lambda>c. isDigit c \<or> c = CHR ''.'') s"
  by (induction s b v d a fs rule: v4Loop.induct) (auto split: if_splits)

lemma v4Loop_bytes:
  "v4Loop s b v d a fs = Some r \<Longrightarrow> length fs \<le> 3 \<Longrightarrow> v < 256 \<Longrightarrow> list_all (\<lambda>n. n < 256) fs \<Longrightarrow>
   length r = 4 \<and> list_all (\<lambda>n. n < 256) r"
  by (induction s b v d a fs rule: v4Loop.induct) (auto split: if_splits)

lemma parseIPv4Fields_bytes: "parseIPv4Fields s = Some r \<Longrightarrow> length r = 4 \<and> list_all (\<lambda>n. n < 256) r"
  unfolding parseIPv4Fields_def by (erule v4Loop_bytes) auto

lemma parseIPv4Fields_chars: "parseIPv4Fields s = Some r \<Longrightarrow> list_all (\<lambda>c. isDigit c \<or> c = CHR ''.'') s"
  unfolding parseIPv4Fields_def by (rule v4Loop_chars)

lemma isHex_digit: "isDigit c \<Longrightarrow> isHex c"
  by (simp add: isHex_def)

lemma v6Loop_chars: "v6Loop s e ip = Some r \<Longrightarrow> list_all addrChar s"
proof (induction s e ip rule: v6Loop.induct)
  case (1 s e ip)
  let ?ds = "takeWhile isHex s" and ?rest = "dropWhile isHex s"
  have ds: "list_all addrChar ?ds"
    by (auto simp: list_all_iff addrChar_def dest: set_takeWhileD)
  note unf = "1.prems" [unfolded v6Loop.simps [of s e ip]]
  have split: "list_all addrChar s \<longleftrightarrow> list_all addrChar ?ds \<and> list_all addrChar ?rest"
    by (metis list_all_append takeWhile_dropWhile_id)
  show ?case
  proof (cases "length ip < 16")
    case False
    then show ?thesis
      using "1.prems" by (subst (asm) v6Loop.simps) (auto simp: v6Finish_def split: if_splits)
  next
    case lt: True
    show ?thesis
    proof (cases "?rest \<noteq> [] \<and> hd ?rest = CHR ''.''")
      case True
      then obtain fs where "parseIPv4Fields s = Some fs"
        using "1.prems" lt by (subst (asm) v6Loop.simps) (auto simp: Let_def split: if_splits option.splits)
      from parseIPv4Fields_chars [OF this] show ?thesis
        by (auto simp: list_all_iff addrChar_def isHex_digit)
    next
      case False
      note nodot = False
      show ?thesis
      proof (cases ?rest)
        case Nil
        then show ?thesis by (metis ds split list.pred_inject(1))
      next
        case (Cons c t)
        have c: "c = CHR '':''" and t: "t \<noteq> []"
          using "1.prems" lt nodot Cons
          by (subst (asm) v6Loop.simps, auto simp: Let_def split: if_splits)+
        have "list_all addrChar t"
        proof (cases "hd t = CHR '':''")
          case True
          show ?thesis
          proof (cases "tl t = []")
            case True
            with \<open>hd t = CHR '':''\<close> t show ?thesis by (cases t) (auto simp: addrChar_def)
          next
            case False
            have "list_all addrChar (tl t)"
              using "1.IH" (1) unf lt nodot Cons c t True False
              by (auto simp: Let_def split: if_splits)
            with True t show ?thesis by (cases t) (auto simp: addrChar_def)
          qed
        next
          case False
          show ?thesis
            using "1.IH" (2) unf lt nodot Cons c t False
            by (auto simp: Let_def split: if_splits)
        qed
        moreover have "addrChar c" by (simp add: c addrChar_def)
        ultimately show ?thesis using ds split Cons by simp
      qed
    qed
  qed
qed

lemma ParseIP_chars: "ParseIP s = Some r \<Longrightarrow> list_all addrChar s"
proof -
  assume ok: "ParseIP s = Some r"
  consider fs where "parseIPv4Fields s = Some fs" | "parseIPv6 s = Some r"
    using ok by (auto simp: ParseIP_def split: if_splits option.splits)
  then show ?thesis
  proof cases
    case 1
    from parseIPv4Fields_chars [OF this] show ?thesis
      by (auto simp: list_all_iff addrChar_def isHex_digit)
  next
    case 2
    show ?thesis
    proof (cases "HasPrefix s ''::''")
      case True
      then obtain t where t: "s = ''::'' @ t" by (auto simp: HasPrefix_iff)
      have "list_all addrChar t"
        using 2 by (cases "t = []") (auto simp: parseIPv6_def t intro: v6Loop_chars)
      then show ?thesis by (simp add: t addrChar_def)
    next
      case False
      then show ?thesis using 2 v6Loop_chars by (simp add: parseIPv6_def)
    qed
  qed
qed

text \<open>\<open>net.IP.String\<close> of an IPv4 address, and that \<open>ParseIP\<close> reads it back.\<close>

definition ipv4String :: "nat list \<Rightarrow> string" where
  "ipv4String bytes = Join (map natItoa bytes) ''.''"

lemma isDigit_digitChar [simp]: "d < 10 \<Longrightarrow> isDigit (digitChar d)"
  by (rule digitChar_digit)

lemma v4Loop_natItoa:
  assumes "n < 256"
  shows "v4Loop (natItoa n @ rest) b 0 0 a fs = v4Loop rest False n (length (natItoa n)) False fs"
proof -
  consider "n < 10" | "10 \<le> n" "n < 100" | "100 \<le> n" by linarith
  then show ?thesis
  proof cases
    case 1
    then have "natItoa n = [digitChar n]" by (subst natItoa.simps) simp
    with 1 show ?thesis by simp
  next
    case 2
    then have n: "natItoa n = [digitChar (n div 10), digitChar (n mod 10)]"
      by (subst natItoa.simps, subst natItoa.simps) (simp add: div_less)
    have "0 < n div 10" "n div 10 < 10" "n mod 10 < 10" using 2 by auto
    then show ?thesis using 2 by (simp add: n)
  next
    case 3
    have d: "n div 10 div 10 < 10" "0 < n div 10 div 10" using 3 assms by auto
    then have n: "natItoa n = [digitChar (n div 10 div 10), digitChar (n div 10 mod 10), digitChar (n mod 10)]"
      using 3 by (subst natItoa.simps, subst natItoa.simps, subst natItoa.simps) simp
    have "n div 10 div 10 * 10 + n div 10 mod 10 = n div 10" "n div 10 * 10 + n mod 10 = n"
      "n div 10 < 256" "0 < n div 10" using 3 assms by auto
    then show ?thesis using d 3 assms by (simp add: n)
  qed
qed

lemma parseIPv4Fields_string:
  assumes "a < 256" "b < 256" "c < 256" "d < 256"
  shows "parseIPv4Fields (ipv4String [a, b, c, d]) = Some [a, b, c, d]"
proof -
  have dot: "\<not> isDigit (CHR ''.'')" by (simp add: isDigit_def)
  have last: "v4Loop (natItoa d) g 0 0 h fs = v4Loop [] False d (length (natItoa d)) False fs" for g h fs
    using v4Loop_natItoa [OF assms(4), of "[]"] by simp
  show ?thesis
    by (simp add: parseIPv4Fields_def ipv4String_def v4Loop_natItoa assms last dot)
qed

lemma find_ipv4String: "find (\<lambda>c. c = CHR ''.'' \<or> c = CHR '':'') (natItoa n @ CHR ''.'' # r) = Some (CHR ''.'')"
proof -
  have "find (\<lambda>c. c = CHR ''.'' \<or> c = CHR '':'') (s @ CHR ''.'' # r) = Some (CHR ''.'')"
    if "list_all isDigit s" for s
    using that by (induction s) (auto simp: isDigit_def)
  then show ?thesis using natItoa_digits by blast
qed

lemma ipv4String_chars: "list_all (\<lambda>c. isDigit c \<or> c = CHR ''.'') (ipv4String [a, b, c, d])"
  using natItoa_digits by (auto simp: ipv4String_def list_all_iff)

lemma ParseIP_ipv4String:
  assumes "a < 256" "b < 256" "c < 256" "d < 256"
  shows "ParseIP (ipv4String [a, b, c, d]) = Some (replicate 10 0 @ [255, 255, a, b, c, d])"
proof -
  have "CHR ''%'' \<notin> set (ipv4String [a, b, c, d])"
    using ipv4String_chars [of a b c d] by (auto simp: list_all_iff isDigit_def)
  moreover have "find (\<lambda>c. c = CHR ''.'' \<or> c = CHR '':'') (ipv4String [a, b, c, d]) = Some (CHR ''.'')"
    by (simp add: ipv4String_def find_ipv4String)
  ultimately show ?thesis
    by (simp add: ParseIP_def parseIPv4Fields_string [OF assms])
qed

lemma ipVersion_cases: "ipVersion s = 0 \<or> ipVersion s = 4 \<or> ipVersion s = 6"
  by (simp add: ipVersion_def split: option.split)

lemma ipVersion_chars: "ipVersion s \<noteq> 0 \<Longrightarrow> list_all addrChar s"
  using ParseIP_chars by (auto simp: ipVersion_def split: option.splits)

lemma ipVersion4_chars: "ipVersion s = 4 \<Longrightarrow> list_all (\<lambda>c. isDigit c \<or> c = CHR ''.'') s"
proof -
  assume v: "ipVersion s = 4"
  then obtain r where r: "ParseIP s = Some r" and nc: "CHR '':'' \<notin> set s"
    by (auto simp: ipVersion_def split: option.splits if_splits)
  then have "find (\<lambda>c. c = CHR ''.'' \<or> c = CHR '':'') s = Some (CHR ''.'')"
    by (auto simp: ParseIP_def find_Some_iff split: option.splits if_splits)
       (metis nth_mem)+
  then obtain fs where "parseIPv4Fields s = Some fs"
    using r by (auto simp: ParseIP_def split: if_splits option.splits)
  then show ?thesis by (rule parseIPv4Fields_chars)
qed

lemma ipVersion_ipv4String:
  assumes "a < 256" "b < 256" "c < 256" "d < 256"
  shows "ipVersion (ipv4String [a, b, c, d]) = 4"
proof -
  have "CHR '':'' \<notin> set (ipv4String [a, b, c, d])"
    using ipv4String_chars [of a b c d] by (auto simp: list_all_iff isDigit_def)
  then show ?thesis by (simp add: ipVersion_def ParseIP_ipv4String [OF assms])
qed

end
