(* ===== verification/DomainModel.thy ===== *)
theory DomainModel
  imports NetIP
begin

text \<open>
  The data of package \<open>domain\<close> (\<open>model.go\<close>, \<open>certificate.go\<close>, \<open>errors.go\<close>) and its access to untyped JSON
  values.  A Go \<open>any\<close> that came out of \<open>encoding/json\<close> is a \<open>json\<close> value; a \<open>float64\<close> that is an
  integer and the integers \<open>int\<close> and \<open>int64\<close> are \<open>JInt\<close>, any other \<open>float64\<close> is \<open>JFrac\<close> with its
  shortest decimal text.  An object is the list of its members, a \<open>nil\<close> map is \<open>None\<close>.

  The validators of the package panic with a \<open>ValidationError\<close> and their entry points recover it, so a
  validator is a function into \<open>domain_error + 'a\<close>: \<open>assertDomain\<close> takes the rest of the function as its
  continuation and drops it when the condition fails, as the panic does.
\<close>

section \<open>JSON values\<close>

datatype json =
    JNull
  | JBool bool
  | JInt int
  | JFrac string
  | JStr string
  | JArr "json list"
  | JObj "(string \<times> json) list"

type_synonym object = "(string \<times> json) list"

text \<open>A type assertion \<open>value.(map[string]any)\<close> whose failure gives the nil map, and likewise for
  strings, booleans and slices.\<close>

fun asObject :: "json \<Rightarrow> object option" where
  "asObject (JObj m) = Some m"
| "asObject _ = None"

fun asString :: "json \<Rightarrow> string option" where
  "asString (JStr s) = Some s"
| "asString _ = None"

fun asBool :: "json \<Rightarrow> bool option" where
  "asBool (JBool b) = Some b"
| "asBool _ = None"

text \<open>A missing key of a map yields the zero value of \<open>any\<close>, \<open>nil\<close>.\<close>

definition member :: "object \<Rightarrow> string \<Rightarrow> json" where
  "member m key = (case map_of m key of None \<Rightarrow> JNull | Some v \<Rightarrow> v)"

definition objectGet :: "object option \<Rightarrow> string \<Rightarrow> json" where
  "objectGet m key = (case m of None \<Rightarrow> JNull | Some m' \<Rightarrow> member m' key)"

text \<open>\<open>toInt\<close>: an integral \<open>float64\<close> outside the range of \<open>int\<close> is not equal to its conversion on the
  64-bit targets the program is built for, so it is refused like a fraction.\<close>

fun toInt :: "json \<Rightarrow> int option" where
  "toInt (JInt i) = (if - (2 ^ 63) \<le> i \<and> i < 2 ^ 63 then Some i else None)"
| "toInt _ = None"

fun sliceOf :: "json \<Rightarrow> json list" where
  "sliceOf (JArr xs) = xs"
| "sliceOf _ = []"

definition proxyBool :: "object \<Rightarrow> string \<Rightarrow> bool" where
  "proxyBool proxy key = (case asBool (member proxy key) of None \<Rightarrow> False | Some b \<Rightarrow> b)"

definition proxyString :: "object \<Rightarrow> string \<Rightarrow> string" where
  "proxyString proxy key = (case asString (member proxy key) of None \<Rightarrow> [] | Some s \<Rightarrow> s)"

section \<open>Validation errors\<close>

datatype domain_error = ValidationError (Message: string) (Code: string)

definition newValidationError :: "string \<Rightarrow> string \<Rightarrow> domain_error" where
  "newValidationError message code =
     ValidationError message (if code = [] then ''DOMAIN_VALIDATION'' else code)"

definition assertDomain ::
  "bool \<Rightarrow> string \<Rightarrow> string \<Rightarrow> domain_error + 'a \<Rightarrow> domain_error + 'a" where
  "assertDomain condition message code rest =
     (if condition then rest else Inl (newValidationError message code))"

section \<open>Configuration data\<close>

record Ingress =
  IPv4 :: string
  IPv6 :: string

record ResolverEndpoint =
  epHost :: string
  epPort :: int

record ResolverPool =
  poolID :: string
  poolEndpoints :: "ResolverEndpoint list"

record ForwardingRule =
  ruleSuffix :: string
  rulePool :: ResolverPool

record Settings =
  setIngress :: Ingress
  setDefaultPool :: "ResolverPool option"
  setForwardingRules :: "ForwardingRule list"
  setRetentionMaxAgeDays :: int
  setRetentionMaxSizeMb :: int

record DNSRecord =
  recID :: string
  recName :: string
  recType :: string
  recValue :: json
  recTTL :: int
  recEnabled :: bool
  recComment :: "string option"
  recProxied :: bool
  recProxy :: "object option"

record UpstreamTarget =
  upIP :: string
  upPort :: int
  upProtocol :: string

record StreamRoute =
  strID :: string
  strEnabled :: bool
  strProtocol :: string
  strListenAddress :: string
  strListenPort :: int
  strUpstream :: UpstreamTarget

record ZoneState =
  zsID :: string
  zsName :: string
  zsEnabled :: bool
  zsRecords :: "DNSRecord list"

text \<open>The certificate state the validators and renderers read; the times are Unix milliseconds.\<close>

record CertificateStatus =
  certID :: string
  certHostnames :: "string list"
  certIssuer :: string
  certChallenge :: string
  certEnvironment :: string
  certStatus :: string
  certExpiresAt :: "int option"
  certRenewAfter :: "int option"
  certSecretID :: string
  certPEM :: string
  certFailureReason :: string

record ConfigurationSnapshot =
  snapSettings :: Settings
  snapZones :: "ZoneState list"
  snapStreams :: "StreamRoute list"
  snapCertificates :: "CertificateStatus list"

text \<open>The API view of a certificate: the secret reference and the PEM text are left out.  A time is
  rendered by \<open>encoding/json\<close>, here as its number.\<close>

definition PublicCertificate :: "CertificateStatus \<Rightarrow> object" where
  "PublicCertificate c =
     [(''id'', JStr (certID c)),
      (''hostnames'', JArr (map JStr (certHostnames c))),
      (''issuer'', JStr (certIssuer c)),
      (''challenge'', JStr (certChallenge c)),
      (''environment'', JStr (certEnvironment c)),
      (''status'', JStr (certStatus c))]
     @ (case certExpiresAt c of None \<Rightarrow> [] | Some t \<Rightarrow> [(''expiresAt'', JInt t)])
     @ (case certRenewAfter c of None \<Rightarrow> [] | Some t \<Rightarrow> [(''renewAfter'', JInt t)])
     @ (if certFailureReason c \<noteq> [] then [(''failureReason'', JStr (certFailureReason c))] else [])"

section \<open>Lemmas\<close>

lemma assertDomain_Inr [simp]: "assertDomain c m k r = Inr x \<longleftrightarrow> c \<and> r = Inr x"
  by (simp add: assertDomain_def)

lemma assertDomain_True [simp, go_simps]: "assertDomain True m k r = r"
  by (simp add: assertDomain_def)

lemma assertDomain_False [simp, go_simps]: "assertDomain False m k r = Inl (newValidationError m k)"
  by (simp add: assertDomain_def)

lemma assertDomain_cong [fundef_cong]:
  "c = c' \<Longrightarrow> m = m' \<Longrightarrow> k = k' \<Longrightarrow> (c' \<Longrightarrow> r = r') \<Longrightarrow> assertDomain c m k r = assertDomain c' m' k' r'"
  by (simp add: assertDomain_def)

lemma toInt_range: "toInt v = Some i \<Longrightarrow> v = JInt i \<and> - (2 ^ 63) \<le> i \<and> i < 2 ^ 63"
  by (cases v) (auto split: if_splits)

lemma toInt_small: "0 \<le> i \<Longrightarrow> i \<le> 65535 \<Longrightarrow> toInt (JInt i) = Some i"
  by simp

lemma asString_Some [simp]: "asString v = Some s \<longleftrightarrow> v = JStr s"
  by (cases v) auto

lemma asObject_Some [simp]: "asObject v = Some m \<longleftrightarrow> v = JObj m"
  by (cases v) auto

lemma asBool_Some [simp]: "asBool v = Some b \<longleftrightarrow> v = JBool b"
  by (cases v) auto

text \<open>No value of the view of a certificate depends on its secret material.\<close>

lemma PublicCertificate_secretfree:
  "PublicCertificate (c\<lparr>certSecretID := s, certPEM := p\<rparr>) = PublicCertificate c"
  by (simp add: PublicCertificate_def)

end
