(* ===== verification/Jobs.thy ===== *)
theory Jobs
  imports DomainModel
begin

text \<open>
  The apply-job state machine (\<open>worker/jobs/jobs.go\<close>).  A status is the text stored in the database, as in
  the code; \<open>Transition\<close> looks the current status up in the table of moves, so a text outside the table
  allows no move.  The machine is also given as a step relation, and the lemmas describe its reachable
  statuses.
\<close>

type_synonym Status = string

abbreviation Queued :: Status where "Queued \<equiv> ''queued''"
abbreviation Validating :: Status where "Validating \<equiv> ''validating''"
abbreviation Applying :: Status where "Applying \<equiv> ''applying''"
abbreviation Applied :: Status where "Applied \<equiv> ''applied''"
abbreviation Failed :: Status where "Failed \<equiv> ''failed''"
abbreviation RolledBack :: Status where "RolledBack \<equiv> ''rolled-back''"

definition transitions :: "Status \<Rightarrow> Status list" where
  "transitions current =
     (if current = Queued then [Validating]
      else if current = Validating then [Applying, Failed]
      else if current = Applying then [Applied, Failed, RolledBack]
      else if current = Applied then []
      else if current = Failed then [Queued]
      else if current = RolledBack then [Queued]
      else [])"

definition Transition :: "Status \<Rightarrow> Status \<Rightarrow> domain_error + Status" where
  "Transition current next =
     (if next \<in> set (transitions current) then Inr next
      else Inl (ValidationError (''Invalid job transition: '' @ current @ '' -> '' @ next) ''JOB_TRANSITION''))"

definition IsTerminal :: "Status \<Rightarrow> bool" where
  "IsTerminal status \<longleftrightarrow> status = Applied \<or> status = Failed \<or> status = RolledBack"

section \<open>The machine as a relation\<close>

inductive moves :: "Status \<Rightarrow> Status \<Rightarrow> bool" where
  claim: "moves Queued Validating"
| start: "moves Validating Applying"
| reject: "moves Validating Failed"
| finish: "moves Applying Applied"
| abort: "moves Applying Failed"
| revert: "moves Applying RolledBack"
| retryFailed: "moves Failed Queued"
| retryRolledBack: "moves RolledBack Queued"

inductive_cases moves_from_Applied [elim!]: "moves Applied s"

code_pred moves .

section \<open>Lemmas\<close>

lemma Transition_Inr [simp]: "Transition s t = Inr u \<longleftrightarrow> u = t \<and> t \<in> set (transitions s)"
  by (auto simp: Transition_def)

lemma moves_iff:
  "moves s t \<longleftrightarrow>
     (s = Queued \<and> t = Validating) \<or> (s = Validating \<and> t = Applying) \<or> (s = Validating \<and> t = Failed) \<or>
     (s = Applying \<and> t = Applied) \<or> (s = Applying \<and> t = Failed) \<or> (s = Applying \<and> t = RolledBack) \<or>
     (s = Failed \<and> t = Queued) \<or> (s = RolledBack \<and> t = Queued)"
  by (subst moves.simps) (rule refl)

lemma transitions_moves: "t \<in> set (transitions s) \<longleftrightarrow> moves s t"
proof -
  consider "s = Queued" | "s = Validating" | "s = Applying" | "s = Applied" | "s = Failed" | "s = RolledBack"
    | "s \<noteq> Queued \<and> s \<noteq> Validating \<and> s \<noteq> Applying \<and> s \<noteq> Applied \<and> s \<noteq> Failed \<and> s \<noteq> RolledBack"
    by argo
  then show ?thesis by cases (simp_all only: moves_iff transitions_def, simp_all)
qed

lemma moves_status: "moves s t \<Longrightarrow>
    s \<in> {Queued, Validating, Applying, Failed, RolledBack} \<and>
    t \<in> {Queued, Validating, Applying, Applied, Failed, RolledBack}"
  by (erule moves.cases) simp_all

text \<open>An applied job never moves again.\<close>

lemma Applied_stays: "moves\<^sup>*\<^sup>* Applied s \<Longrightarrow> s = Applied"
  by (induction rule: rtranclp_induct) auto

text \<open>Every way into the applied status goes through validating and applying.\<close>

lemma into_Applied: "moves s Applied \<longleftrightarrow> s = Applying"
  by (simp add: moves_iff)

lemma into_Applying: "moves s Applying \<longleftrightarrow> s = Validating"
  by (simp add: moves_iff)

section \<open>Properties\<close>

text \<open>
  The transition table is the intended machine: a move is accepted exactly when the step relation
  has it, an accepted move returns the requested status, applied is absorbing, every terminal status
  but applied can only be queued again, and no status is its own successor.
\<close>
theorem Transition_machine:
  "(Transition s t = Inr u \<longleftrightarrow> u = t \<and> moves s t) \<and> \<not> moves s s \<and>
   (moves\<^sup>*\<^sup>* Applied t \<longleftrightarrow> t = Applied) \<and>
   (IsTerminal s \<and> moves s t \<longleftrightarrow> s \<in> {Failed, RolledBack} \<and> t = Queued)"
proof -
  have "\<not> moves s s" by (auto simp: moves_iff)
  moreover have "IsTerminal s \<and> moves s t \<longleftrightarrow> s \<in> {Failed, RolledBack} \<and> t = Queued"
    by (auto simp: IsTerminal_def moves_iff)
  ultimately show ?thesis
    using Applied_stays [of t] by (auto simp: transitions_moves)
qed

end
