(* ===== verification/Database.thy ===== *)
theory Database
  imports Timestamp Jobs
begin

text \<open>
  The part of the SQLite database the worker uses (\<open>sqlitedb/migrations/004_operational_product.sql\<close>) and
  the writer transaction (\<open>sqlitedb/write.go\<close>).  A row holds its columns as the database stores them:
  texts, integers, SQL NULL as \<open>None\<close>.  A JSON column holds a document or bytes that are not JSON.  The
  CHECK constraints and foreign keys of the two tables are the predicates \<open>jobRowOK\<close> and \<open>revRowOK\<close>; an
  insert or update that violates them is refused.
\<close>

section \<open>Rows\<close>

text \<open>A Go \<open>json.RawMessage\<close> or a JSON column: a document by its value, or bytes that do not parse.\<close>

datatype rawdoc = Doc json | NotJSON

record jobRow =
  jrID :: string
  jrRevisionID :: string
  jrCorrelationID :: string
  jrCreatedAt :: string
  jrTarget :: string
  jrStatus :: string
  jrSource :: string
  jrActorUserID :: "string option"
  jrSourcePrimaryID :: "string option"
  jrSourceNodeID :: "string option"
  jrSourceRevisionID :: "string option"
  jrSnapshotContentHash :: "string option"
  jrValidationOutput :: "rawdoc option"
  jrApplyOutput :: "rawdoc option"
  jrHealthOutput :: "rawdoc option"
  jrErrorMessage :: "string option"
  jrClaimedAt :: "string option"
  jrStartedAt :: "string option"
  jrFinishedAt :: "string option"
  jrSnapshotVersion :: "int option"
  jrReplicationVersion :: "int option"
  jrLeadershipGeneration :: "int option"

record revRow =
  rrID :: string
  rrRevisionNumber :: int
  rrChecksum :: string
  rrSnapshot :: rawdoc
  rrActorUserID :: "string option"
  rrCreatedAt :: string
  rrAppliedAt :: "string option"
  rrSource :: string
  rrSourcePrimaryID :: "string option"
  rrSourceNodeID :: "string option"
  rrSourceRevisionID :: "string option"
  rrSnapshotContentHash :: "string option"
  rrSnapshotVersion :: "int option"
  rrReplicationVersion :: "int option"
  rrLeadershipGeneration :: "int option"

text \<open>The columns of the single row of \<open>installation_settings\<close> that the worker writes.\<close>

record settingsRow =
  srCurrentAppliedRevisionID :: "string option"
  srUpdatedAt :: string

record database =
  dbJobs :: "jobRow list"
  dbRevisions :: "revRow list"
  dbUsers :: "string list"
  dbSettings :: "settingsRow option"

section \<open>Constraints\<close>

definition NUL :: char where "NUL = CHR 0x00"

definition timestampText :: "string \<Rightarrow> bool" where
  "timestampText k \<longleftrightarrow> \<not> isl (DecodeTimestamp (Some k))"

definition int32Range :: "int \<Rightarrow> bool" where
  "int32Range i \<longleftrightarrow> - 2147483648 \<le> i \<and> i \<le> 2147483647"

definition docColumn :: "rawdoc option \<Rightarrow> bool" where
  "docColumn d \<longleftrightarrow> d \<noteq> Some NotJSON"

definition jobRowOK :: "database \<Rightarrow> jobRow \<Rightarrow> bool" where
  "jobRowOK d r \<longleftrightarrow>
     uuidPattern (jrID r) \<and> uuidPattern (jrRevisionID r) \<and> jrRevisionID r \<in> rrID ` set (dbRevisions d) \<and>
     pred_option (\<lambda>a. uuidPattern a \<and> a \<in> set (dbUsers d)) (jrActorUserID r) \<and>
     jrTarget r \<in> {''coredns'', ''nginx'', ''combined'', ''certificate''} \<and>
     jrStatus r \<in> {''queued'', ''validating'', ''applying'', ''applied'', ''failed'', ''rolled-back''} \<and>
     NUL \<notin> set (jrCorrelationID r) \<and>
     docColumn (jrValidationOutput r) \<and> docColumn (jrApplyOutput r) \<and> docColumn (jrHealthOutput r) \<and>
     pred_option (\<lambda>m. NUL \<notin> set m) (jrErrorMessage r) \<and>
     pred_option timestampText (jrClaimedAt r) \<and> pred_option timestampText (jrStartedAt r) \<and>
     pred_option timestampText (jrFinishedAt r) \<and> timestampText (jrCreatedAt r) \<and>
     jrSource r \<in> {''ordinary'', ''import'', ''sync''} \<and>
     pred_option uuidPattern (jrSourcePrimaryID r) \<and> pred_option uuidPattern (jrSourceNodeID r) \<and>
     pred_option uuidPattern (jrSourceRevisionID r) \<and>
     pred_option (\<lambda>m. NUL \<notin> set m) (jrSnapshotContentHash r) \<and>
     pred_option int32Range (jrSnapshotVersion r) \<and> pred_option int32Range (jrReplicationVersion r)"

definition revRowOK :: "database \<Rightarrow> revRow \<Rightarrow> bool" where
  "revRowOK d r \<longleftrightarrow>
     uuidPattern (rrID r) \<and> int32Range (rrRevisionNumber r) \<and> NUL \<notin> set (rrChecksum r) \<and> rrSnapshot r \<noteq> NotJSON \<and>
     pred_option (\<lambda>a. uuidPattern a \<and> a \<in> set (dbUsers d)) (rrActorUserID r) \<and>
     timestampText (rrCreatedAt r) \<and> pred_option timestampText (rrAppliedAt r) \<and>
     rrSource r \<in> {''ordinary'', ''import'', ''sync''} \<and>
     pred_option uuidPattern (rrSourcePrimaryID r) \<and> pred_option uuidPattern (rrSourceNodeID r) \<and>
     pred_option uuidPattern (rrSourceRevisionID r) \<and>
     pred_option (\<lambda>m. NUL \<notin> set m) (rrSnapshotContentHash r) \<and>
     pred_option int32Range (rrSnapshotVersion r) \<and> pred_option int32Range (rrReplicationVersion r)"

text \<open>The invariant of the database: every row satisfies its constraints and the keys are unique.\<close>

definition databaseOK :: "database \<Rightarrow> bool" where
  "databaseOK d \<longleftrightarrow>
     list_all (jobRowOK d) (dbJobs d) \<and> distinct (map jrID (dbJobs d)) \<and>
     list_all (revRowOK d) (dbRevisions d) \<and> distinct (map rrID (dbRevisions d)) \<and>
     distinct (map rrRevisionNumber (dbRevisions d))"

section \<open>Errors and transactions\<close>

text \<open>What the user store of the API refuses (\<open>internal/auth\<close>).\<close>

datatype auth_error =
    ErrBootstrapComplete
  | ErrInvalidCredential
  | ErrInvalidSession
  | ErrUnavailableUser
  | ErrUsernameInvalid
  | ErrUserNotFound
  | LastOwner string
  | PasswordTooShort
  | RandomFailed
  | DeriveFailed
  | ExpiryRequired
  | TimestampYears
  | RoundtripFailed
  | BadBoolean int

datatype store_error =
    IOError
  | ConstraintViolation
  | TimestampError timestamp_error
  | InvalidDomain
  | InvalidUUID string
  | InvalidText string
  | InvalidTime string timestamp_error
  | InvalidInteger string
  | InvalidTarget
  | MissingReference
  | LostRow
  | NoValues
  | JobNotFound string
  | RevisionNotFound string
  | InvalidTransition domain_error
  | InvalidOutput string
  | Refused auth_error

text \<open>A Go \<open>time.Time\<close> in UTC: Unix seconds and nanoseconds; the zero time is the first of January of the
  year 1.\<close>

type_synonym gotime = "int \<times> int"

definition zeroTime :: gotime where
  "zeroTime = (- 62135596800, 0)"

text \<open>
  What the environment supplies to one write transaction: the clock read after \<open>BEGIN IMMEDIATE\<close>, the next
  random UUID, and whether the database refuses the transaction (at the connection, at \<open>BEGIN\<close>, through a
  cancelled context or at \<open>COMMIT\<close>).
\<close>

record writeEnv =
  envNow :: gotime
  envUUID :: string
  envFails :: bool

text \<open>\<open>Writer.Write\<close>: the callback gets the encoded clock; an error of any kind rolls everything back.  The callbacks of
  the different stores each see the tables they use.\<close>

definition Write ::
  "writeEnv \<Rightarrow> 'd \<Rightarrow> (string \<Rightarrow> 'd \<Rightarrow> store_error + 'd \<times> 'a) \<Rightarrow> (store_error + 'a) \<times> 'd" where
  "Write env d callback =
     (case EncodeTimestamp (FiniteTimestamp (fst (envNow env)) (snd (envNow env))) of
        Inl e \<Rightarrow> (Inl (TimestampError e), d)
      | Inr None \<Rightarrow> (Inl IOError, d)
      | Inr (Some stamp) \<Rightarrow>
          (case callback stamp d of
             Inl e \<Rightarrow> (Inl e, d)
           | Inr (d', x) \<Rightarrow> if envFails env then (Inl IOError, d) else (Inr x, d')))"

section \<open>Lemmas\<close>

text \<open>A transaction that returns an error leaves the database as it was; one that returns a value
  committed exactly what the callback produced.\<close>

lemma Write_Inl: "Write env d f = (Inl e, d') \<Longrightarrow> d' = d"
  by (auto simp: Write_def split: sum.splits option.splits prod.splits if_splits)

lemma Write_Inr:
  assumes "Write env d f = (Inr x, d')"
  obtains stamp where
    "EncodeTimestamp (FiniteTimestamp (fst (envNow env)) (snd (envNow env))) = Inr (Some stamp)"
    "f stamp d = Inr (d', x)" "\<not> envFails env"
  using assms by (auto simp: Write_def split: sum.splits option.splits prod.splits if_splits)

lemma Write_ok:
  "EncodeTimestamp (FiniteTimestamp (fst (envNow env)) (snd (envNow env))) = Inr (Some stamp) \<Longrightarrow>
   f stamp d = Inr (d', x) \<Longrightarrow> \<not> envFails env \<Longrightarrow> Write env d f = (Inr x, d')"
  by (simp add: Write_def)

text \<open>An encoded finite timestamp is a legal column value.\<close>

lemma timestampText_stamp:
  assumes "EncodeTimestamp (FiniteTimestamp s n) = Inr (Some k)" "finiteRange s n"
  shows "timestampText k"
  using EncodeTimestamp_finite [OF assms(2)] DecodeTimestamp_finite [OF assms(2)] assms(1)
  by (simp add: timestampText_def)

lemma databaseOK_job: "databaseOK d \<Longrightarrow> r \<in> set (dbJobs d) \<Longrightarrow> jobRowOK d r"
  by (simp add: databaseOK_def list_all_iff)

lemma databaseOK_rev: "databaseOK d \<Longrightarrow> r \<in> set (dbRevisions d) \<Longrightarrow> revRowOK d r"
  by (simp add: databaseOK_def list_all_iff)

end
