(* ===== verification/JobStore.thy ===== *)
theory JobStore
  imports Database
begin

text \<open>
  The SQLite job store of the worker (\<open>worker/store/job.go\<close>, \<open>store.go\<close>, \<open>enqueue.go\<close>).  Each operation is a
  function of the environment of its transaction and the database; \<open>scanJob\<close> is the validation every row
  passes when it is read.  A query that orders by a timestamp takes the first row of the table among
  equal timestamps.
\<close>

section \<open>Jobs\<close>

record Job =
  jobID :: string
  jobRevisionID :: string
  jobActorUserID :: "string option"
  jobTarget :: string
  jobStatus :: Status
  jobSource :: string
  jobSourcePrimaryID :: "string option"
  jobSourceNodeID :: "string option"
  jobSourceRevisionID :: "string option"
  jobSnapshotContentHash :: "string option"
  jobSnapshotVersion :: "int option"
  jobReplicationVersion :: "int option"
  jobLeadershipGeneration :: "int option"
  jobCorrelationID :: string
  jobCreatedAt :: gotime
  jobClaimedAt :: "gotime option"
  jobStartedAt :: "gotime option"
  jobFinishedAt :: "gotime option"
  jobValidationOutput :: "json option"
  jobApplyOutput :: "json option"
  jobHealthOutput :: "json option"
  jobErrorMessage :: "string option"

abbreviation TargetCoreDNS :: string where "TargetCoreDNS \<equiv> ''coredns''"
abbreviation TargetNginx :: string where "TargetNginx \<equiv> ''nginx''"
abbreviation TargetCombined :: string where "TargetCombined \<equiv> ''combined''"
abbreviation TargetCertificate :: string where "TargetCertificate \<equiv> ''certificate''"
abbreviation SourceOrdinary :: string where "SourceOrdinary \<equiv> ''ordinary''"

definition validTarget :: "string \<Rightarrow> bool" where
  "validTarget t \<longleftrightarrow> t \<in> {TargetCoreDNS, TargetNginx, TargetCombined, TargetCertificate}"

definition validSource :: "string \<Rightarrow> bool" where
  "validSource s \<longleftrightarrow> s \<in> {SourceOrdinary, ''import'', ''sync''}"

definition validStatus :: "Status \<Rightarrow> bool" where
  "validStatus s \<longleftrightarrow> s \<in> {Queued, Validating, Applying, Applied, Failed, RolledBack}"

definition decodeTime :: "string \<Rightarrow> string \<Rightarrow> store_error + gotime" where
  "decodeTime name key =
     (if NUL \<in> set key then Inl (InvalidText name)
      else case DecodeTimestamp (Some key) of
             Inl e \<Rightarrow> Inl (InvalidTime name e)
           | Inr (FiniteTimestamp s n) \<Rightarrow> Inr (s, n)
           | Inr _ \<Rightarrow> Inr zeroTime)"

definition encodeTime :: "gotime \<Rightarrow> store_error + string" where
  "encodeTime at =
     (case EncodeTimestamp (FiniteTimestamp (fst at) (snd at)) of
        Inl e \<Rightarrow> Inl (TimestampError e)
      | Inr key \<Rightarrow> Inr (the key))"

text \<open>The optional columns: an absent value is passed on, a present one is checked.\<close>

definition optional :: "('a \<Rightarrow> store_error + 'b) \<Rightarrow> 'a option \<Rightarrow> store_error + 'b option" where
  "optional f v = (case v of None \<Rightarrow> Inr None | Some x \<Rightarrow> bindE (f x) (\<lambda>y. Inr (Some y)))"

definition scanUUID :: "string \<Rightarrow> string \<Rightarrow> store_error + string" where
  "scanUUID name value = (if uuidPattern value then Inr value else Inl (InvalidUUID name))"

definition scanText :: "string \<Rightarrow> string \<Rightarrow> store_error + string" where
  "scanText name value = (if NUL \<in> set value then Inl (InvalidText name) else Inr value)"

definition scanInt32 :: "string \<Rightarrow> int \<Rightarrow> store_error + int" where
  "scanInt32 name i = (if i < - 2147483648 \<or> i > 2147483647 then Inl (InvalidInteger name) else Inr i)"

text \<open>An output column: a stored JSON null projects to nil.\<close>

definition scanOutput :: "string \<Rightarrow> rawdoc option \<Rightarrow> store_error + json option" where
  "scanOutput name v =
     (case v of
        None \<Rightarrow> Inr None
      | Some NotJSON \<Rightarrow> Inl (InvalidText name)
      | Some (Doc j) \<Rightarrow> Inr (if j = JNull then None else Some j))"

definition scanJob :: "jobRow \<Rightarrow> store_error + Job" where
  "scanJob row =
     (if \<not> validTarget (jrTarget row) \<or> \<not> validStatus (jrStatus row) \<or> \<not> validSource (jrSource row)
      then Inl InvalidDomain
      else
        bindE (scanUUID ''id'' (jrID row)) (\<lambda>id.
        bindE (scanUUID ''revision_id'' (jrRevisionID row)) (\<lambda>revisionID.
        bindE (scanText ''correlation_id'' (jrCorrelationID row)) (\<lambda>correlationID.
        bindE (decodeTime ''created_at'' (jrCreatedAt row)) (\<lambda>createdAt.
        bindE (optional (scanUUID ''actor_user_id'') (jrActorUserID row)) (\<lambda>actor.
        bindE (optional (scanUUID ''source_primary_id'') (jrSourcePrimaryID row)) (\<lambda>primary.
        bindE (optional (scanUUID ''source_node_id'') (jrSourceNodeID row)) (\<lambda>node.
        bindE (optional (scanUUID ''source_revision_id'') (jrSourceRevisionID row)) (\<lambda>sourceRevision.
        bindE (optional (scanText ''snapshot_content_hash'') (jrSnapshotContentHash row)) (\<lambda>hash.
        bindE (optional (scanText ''error_message'') (jrErrorMessage row)) (\<lambda>message.
        bindE (scanOutput ''validation_output'' (jrValidationOutput row)) (\<lambda>validation.
        bindE (scanOutput ''apply_output'' (jrApplyOutput row)) (\<lambda>apply.
        bindE (scanOutput ''health_output'' (jrHealthOutput row)) (\<lambda>health.
        bindE (optional (decodeTime ''claimed_at'') (jrClaimedAt row)) (\<lambda>claimed.
        bindE (optional (decodeTime ''started_at'') (jrStartedAt row)) (\<lambda>started.
        bindE (optional (decodeTime ''finished_at'') (jrFinishedAt row)) (\<lambda>finished.
        bindE (optional (scanInt32 ''snapshot_version'') (jrSnapshotVersion row)) (\<lambda>snapshotVersion.
        bindE (optional (scanInt32 ''replication_version'') (jrReplicationVersion row)) (\<lambda>replicationVersion.
        Inr \<lparr>jobID = id, jobRevisionID = revisionID, jobActorUserID = actor, jobTarget = jrTarget row,
             jobStatus = jrStatus row, jobSource = jrSource row, jobSourcePrimaryID = primary,
             jobSourceNodeID = node, jobSourceRevisionID = sourceRevision, jobSnapshotContentHash = hash,
             jobSnapshotVersion = snapshotVersion, jobReplicationVersion = replicationVersion,
             jobLeadershipGeneration = jrLeadershipGeneration row, jobCorrelationID = correlationID,
             jobCreatedAt = createdAt, jobClaimedAt = claimed, jobStartedAt = started, jobFinishedAt = finished,
             jobValidationOutput = validation, jobApplyOutput = apply, jobHealthOutput = health,
             jobErrorMessage = message\<rparr>)))))))))))))))))))"

section \<open>Reading and claiming\<close>

definition GetJob :: "string \<Rightarrow> database \<Rightarrow> store_error + Job option" where
  "GetJob jid d =
     (case find (\<lambda>r. jrID r = jid) (dbJobs d) of
        None \<Rightarrow> Inr None
      | Some row \<Rightarrow> bindE (scanJob row) (\<lambda>job. Inr (Some job)))"

definition ListJobs :: "database \<Rightarrow> store_error + Job list" where
  "ListJobs d = mapE scanJob (stableSort (\<lambda>a b. jrCreatedAt a > jrCreatedAt b) (dbJobs d))"

text \<open>\<open>ORDER BY created_at ASC LIMIT 1\<close>.\<close>

fun oldest :: "jobRow list \<Rightarrow> jobRow option" where
  "oldest [] = None"
| "oldest (r # rs) =
     (case oldest rs of
        None \<Rightarrow> Some r
      | Some m \<Rightarrow> if jrCreatedAt m < jrCreatedAt r then Some m else Some r)"

definition updateRow :: "string \<Rightarrow> (jobRow \<Rightarrow> jobRow) \<Rightarrow> database \<Rightarrow> database" where
  "updateRow jid f d = d\<lparr>dbJobs := map (\<lambda>r. if jrID r = jid then f r else r) (dbJobs d)\<rparr>"

text \<open>An \<open>UPDATE ... WHERE id = ? RETURNING\<close>: no row, a constraint violation, or the new row.\<close>

definition updateReturning ::
  "string \<Rightarrow> (jobRow \<Rightarrow> bool) \<Rightarrow> (jobRow \<Rightarrow> jobRow) \<Rightarrow> store_error \<Rightarrow> database \<Rightarrow> store_error + database \<times> jobRow" where
  "updateReturning jid guard f noRow d =
     (case find (\<lambda>r. jrID r = jid \<and> guard r) (dbJobs d) of
        None \<Rightarrow> Inl noRow
      | Some row \<Rightarrow>
          if jobRowOK d (f row) then Inr (updateRow jid f d, f row) else Inl ConstraintViolation)"

definition references :: "database \<Rightarrow> Job \<Rightarrow> store_error + unit" where
  "references d job =
     (if jobRevisionID job \<notin> rrID ` set (dbRevisions d) then Inl MissingReference
      else case jobActorUserID job of
             None \<Rightarrow> Inr ()
           | Some actor \<Rightarrow> if actor \<notin> set (dbUsers d) then Inl MissingReference else Inr ())"

definition claimFields :: "string \<Rightarrow> jobRow \<Rightarrow> jobRow" where
  "claimFields stamp row =
     row\<lparr>jrStatus := Validating, jrClaimedAt := Some stamp,
         jrStartedAt := (case jrStartedAt row of None \<Rightarrow> Some stamp | Some s \<Rightarrow> Some s)\<rparr>"

definition ClaimNext :: "string \<Rightarrow> writeEnv \<Rightarrow> database \<Rightarrow> (store_error + Job option) \<times> database" where
  "ClaimNext target env d =
     (if target \<noteq> [] \<and> \<not> validTarget target then (Inl InvalidTarget, d)
      else Write env d (\<lambda>stamp d.
        case oldest (filter (\<lambda>r. jrStatus r = Queued \<and> (target = [] \<or> jrTarget r = target)) (dbJobs d)) of
          None \<Rightarrow> Inr (d, None)
        | Some row \<Rightarrow>
            bindE (scanJob row) (\<lambda>selected.
            bindE (references d selected) (\<lambda>_.
            bindE (updateReturning (jobID selected) (\<lambda>r. jrStatus r = Queued) (claimFields stamp) LostRow d) (\<lambda>(d', row').
            bindE (scanJob row') (\<lambda>job.
            bindE (references d' job) (\<lambda>_. Inr (d', Some job))))))))"

text \<open>\<open>RecoverStale\<close>: the cutoff is the clock in milliseconds less the lease, floored to whole milliseconds;
  the rows of an expired lease are requeued in one statement.\<close>

definition recoveredMessage :: string where
  "recoveredMessage = ''Recovered after worker lease expiration''"

definition UnixMilli :: "gotime \<Rightarrow> int" where
  "UnixMilli t = fst t * 1000 + snd t div 1000000"

definition recoverCutoff :: "gotime \<Rightarrow> int \<Rightarrow> store_error + string" where
  "recoverCutoff now leaseMs =
     (let cutoffMs = UnixMilli now - leaseMs; remainder = cutoffMs mod 1000 in
      encodeTime ((cutoffMs - remainder) div 1000, remainder * 1000000))"

definition isStale :: "string \<Rightarrow> jobRow \<Rightarrow> bool" where
  "isStale cutoff r \<longleftrightarrow>
     (jrStatus r = Validating \<or> jrStatus r = Applying) \<and>
     (case jrClaimedAt r of None \<Rightarrow> False | Some at \<Rightarrow> at < cutoff)"

definition recoverFields :: "jobRow \<Rightarrow> jobRow" where
  "recoverFields r =
     r\<lparr>jrStatus := Queued, jrClaimedAt := None, jrStartedAt := None, jrErrorMessage := Some recoveredMessage\<rparr>"

definition RecoverStale :: "int \<Rightarrow> writeEnv \<Rightarrow> database \<Rightarrow> (store_error + nat) \<times> database" where
  "RecoverStale leaseMs env d =
     (case recoverCutoff (envNow env) leaseMs of
        Inl e \<Rightarrow> (Inl e, d)
      | Inr cutoff \<Rightarrow>
          Write env d (\<lambda>_ d.
            Inr (d\<lparr>dbJobs := map (\<lambda>r. if isStale cutoff r then recoverFields r else r) (dbJobs d)\<rparr>,
                 length (filter (isStale cutoff) (dbJobs d)))))"

section \<open>Patches\<close>

datatype 'a Nullable = Keep | SetTo 'a | Clear

record JobPatch =
  patStatus :: "Status option"
  patValidationOutput :: "rawdoc Nullable"
  patApplyOutput :: "rawdoc Nullable"
  patHealthOutput :: "rawdoc Nullable"
  patErrorMessage :: "string Nullable"
  patClaimedAt :: "gotime Nullable"
  patStartedAt :: "gotime Nullable"
  patFinishedAt :: "gotime Nullable"

definition emptyPatch :: JobPatch where
  "emptyPatch = \<lparr>patStatus = None, patValidationOutput = Keep, patApplyOutput = Keep, patHealthOutput = Keep,
     patErrorMessage = Keep, patClaimedAt = Keep, patStartedAt = Keep, patFinishedAt = Keep\<rparr>"

definition compactOutput :: "string \<Rightarrow> rawdoc \<Rightarrow> store_error + rawdoc" where
  "compactOutput name raw = (case raw of NotJSON \<Rightarrow> Inl (InvalidOutput name) | Doc j \<Rightarrow> Inr (Doc j))"

text \<open>An assignment is the column's name and its effect on a row.\<close>

type_synonym assignment = "string \<times> (jobRow \<Rightarrow> jobRow)"

definition assignNullable ::
  "string \<Rightarrow> ('b option \<Rightarrow> jobRow \<Rightarrow> jobRow) \<Rightarrow> ('a \<Rightarrow> store_error + 'b) \<Rightarrow> 'a Nullable \<Rightarrow> store_error + assignment list" where
  "assignNullable column put conv patch =
     (case patch of
        Keep \<Rightarrow> Inr []
      | Clear \<Rightarrow> Inr [(column, put None)]
      | SetTo v \<Rightarrow> bindE (conv v) (\<lambda>x. Inr [(column, put (Some x))]))"

definition assignments :: "JobPatch \<Rightarrow> store_error + assignment list" where
  "assignments p =
     bindE (assignNullable ''validation_output'' (\<lambda>x. jrValidationOutput_update (\<lambda>_. x))
              (compactOutput ''validation_output'') (patValidationOutput p)) (\<lambda>a1.
     bindE (assignNullable ''apply_output'' (\<lambda>x. jrApplyOutput_update (\<lambda>_. x))
              (compactOutput ''apply_output'') (patApplyOutput p)) (\<lambda>a2.
     bindE (assignNullable ''health_output'' (\<lambda>x. jrHealthOutput_update (\<lambda>_. x))
              (compactOutput ''health_output'') (patHealthOutput p)) (\<lambda>a3.
     bindE (assignNullable ''error_message'' (\<lambda>x. jrErrorMessage_update (\<lambda>_. x)) Inr (patErrorMessage p)) (\<lambda>a4.
     bindE (assignNullable ''claimed_at'' (\<lambda>x. jrClaimedAt_update (\<lambda>_. x)) encodeTime (patClaimedAt p)) (\<lambda>a5.
     bindE (assignNullable ''started_at'' (\<lambda>x. jrStartedAt_update (\<lambda>_. x)) encodeTime (patStartedAt p)) (\<lambda>a6.
     bindE (assignNullable ''finished_at'' (\<lambda>x. jrFinishedAt_update (\<lambda>_. x)) encodeTime (patFinishedAt p)) (\<lambda>a7.
     Inr ((case patStatus p of None \<Rightarrow> [] | Some s \<Rightarrow> [(''status'', jrStatus_update (\<lambda>_. s))]) @
          a1 @ a2 @ a3 @ a4 @ a5 @ a6 @ a7))))))))"

definition applyAssignments :: "assignment list \<Rightarrow> jobRow \<Rightarrow> jobRow" where
  "applyAssignments as row = foldl (\<lambda>r a. snd a r) row as"

definition UpdateJob :: "string \<Rightarrow> JobPatch \<Rightarrow> writeEnv \<Rightarrow> database \<Rightarrow> (store_error + Job) \<times> database" where
  "UpdateJob jid patch env d =
     (case assignments patch of
        Inl e \<Rightarrow> (Inl e, d)
      | Inr as \<Rightarrow>
          if as = [] then (Inl NoValues, d)
          else Write env d (\<lambda>_ d.
            bindE
              (case patStatus patch of
                 None \<Rightarrow> Inr ()
               | Some status \<Rightarrow>
                   (case find (\<lambda>r. jrID r = jid) (dbJobs d) of
                      None \<Rightarrow> Inl (JobNotFound jid)
                    | Some row \<Rightarrow>
                        (case Transition (jrStatus row) status of
                           Inl e \<Rightarrow> Inl (InvalidTransition e)
                         | Inr _ \<Rightarrow> Inr ()))) (\<lambda>_.
            bindE (updateReturning jid (\<lambda>_. True) (applyAssignments as) (JobNotFound jid) d) (\<lambda>(d', row).
            bindE (scanJob row) (\<lambda>job. Inr (d', job))))))"

section \<open>Enqueueing\<close>

record EnqueueInput =
  inRevisionID :: string
  inActorUserID :: "string option"
  inTarget :: string
  inStatus :: Status
  inSource :: string
  inSourcePrimaryID :: "string option"
  inSourceNodeID :: "string option"
  inSourceRevisionID :: "string option"
  inSnapshotContentHash :: "string option"
  inSnapshotVersion :: "int option"
  inReplicationVersion :: "int option"
  inLeadershipGeneration :: "int option"
  inCorrelationID :: string
  inValidationOutput :: "rawdoc option"
  inApplyOutput :: "rawdoc option"
  inHealthOutput :: "rawdoc option"
  inErrorMessage :: "string option"
  inClaimedAt :: "gotime option"
  inStartedAt :: "gotime option"
  inFinishedAt :: "gotime option"

text \<open>The row an insert writes: an empty status means queued and an empty source ordinary.\<close>

definition enqueueRow ::
  "string \<Rightarrow> string \<Rightarrow> EnqueueInput \<Rightarrow> rawdoc option \<Rightarrow> rawdoc option \<Rightarrow> rawdoc option \<Rightarrow>
   string option \<Rightarrow> string option \<Rightarrow> string option \<Rightarrow> jobRow" where
  "enqueueRow jid stamp input validation apply health claimed started finished =
     \<lparr>jrID = jid, jrRevisionID = inRevisionID input, jrCorrelationID = inCorrelationID input,
      jrCreatedAt = stamp, jrTarget = inTarget input,
      jrStatus = (if inStatus input = [] then Queued else inStatus input),
      jrSource = (if inSource input = [] then SourceOrdinary else inSource input),
      jrActorUserID = inActorUserID input, jrSourcePrimaryID = inSourcePrimaryID input,
      jrSourceNodeID = inSourceNodeID input, jrSourceRevisionID = inSourceRevisionID input,
      jrSnapshotContentHash = inSnapshotContentHash input, jrValidationOutput = validation,
      jrApplyOutput = apply, jrHealthOutput = health, jrErrorMessage = inErrorMessage input,
      jrClaimedAt = claimed, jrStartedAt = started, jrFinishedAt = finished,
      jrSnapshotVersion = inSnapshotVersion input, jrReplicationVersion = inReplicationVersion input,
      jrLeadershipGeneration = inLeadershipGeneration input\<rparr>"

definition insertJob :: "string \<Rightarrow> string \<Rightarrow> EnqueueInput \<Rightarrow> database \<Rightarrow> store_error + database \<times> Job" where
  "insertJob jid stamp input d =
     bindE (optional (compactOutput ''output'') (inValidationOutput input)) (\<lambda>validation.
     bindE (optional (compactOutput ''output'') (inApplyOutput input)) (\<lambda>apply.
     bindE (optional (compactOutput ''output'') (inHealthOutput input)) (\<lambda>health.
     bindE (optional encodeTime (inClaimedAt input)) (\<lambda>claimed.
     bindE (optional encodeTime (inStartedAt input)) (\<lambda>started.
     bindE (optional encodeTime (inFinishedAt input)) (\<lambda>finished.
     let row = enqueueRow jid stamp input validation apply health claimed started finished in
     if jid \<in> set (map jrID (dbJobs d)) \<or> \<not> jobRowOK d row then Inl ConstraintViolation
     else bindE (scanJob row) (\<lambda>job. Inr (d\<lparr>dbJobs := dbJobs d @ [row]\<rparr>, job))))))))"

definition Enqueue :: "EnqueueInput \<Rightarrow> writeEnv \<Rightarrow> database \<Rightarrow> (store_error + Job) \<times> database" where
  "Enqueue input env d = Write env d (\<lambda>stamp d. insertJob (envUUID env) stamp input d)"

definition isActiveRow :: "jobRow \<Rightarrow> bool" where
  "isActiveRow r \<longleftrightarrow> jrStatus r = Queued \<or> jrStatus r = Validating \<or> jrStatus r = Applying"

definition EnqueueIfNotActive :: "EnqueueInput \<Rightarrow> writeEnv \<Rightarrow> database \<Rightarrow> (store_error + Job option) \<times> database" where
  "EnqueueIfNotActive input env d =
     Write env d (\<lambda>stamp d.
       if list_ex isActiveRow (dbJobs d) then Inr (d, None)
       else bindE (insertJob (envUUID env) stamp input d) (\<lambda>(d', job). Inr (d', Some job)))"

section \<open>Lemmas: scanning\<close>

lemma scanUUID_Inr [simp]: "scanUUID n v = Inr w \<longleftrightarrow> uuidPattern v \<and> w = v"
  by (auto simp: scanUUID_def)

lemma scanText_Inr [simp]: "scanText n v = Inr w \<longleftrightarrow> NUL \<notin> set v \<and> w = v"
  by (auto simp: scanText_def)

lemma scanInt32_Inr [simp]: "scanInt32 n i = Inr j \<longleftrightarrow> int32Range i \<and> j = i"
  by (auto simp: scanInt32_def int32Range_def)

lemma optional_scanUUID: "optional (scanUUID n) v = Inr w \<Longrightarrow> w = v"
  by (cases v) (auto simp: optional_def)

lemma scanJob_fields:
  assumes "scanJob row = Inr job"
  shows "jobID job = jrID row" "jobStatus job = jrStatus row" "jobRevisionID job = jrRevisionID row"
    "jobTarget job = jrTarget row" "jobActorUserID job = jrActorUserID row"
    "jobCorrelationID job = jrCorrelationID row"
  using assms unfolding scanJob_def
  by (auto dest: optional_scanUUID split: if_split_asm)

lemma isDigit_NUL: "isDigit c \<Longrightarrow> c \<noteq> NUL"
  by (auto simp: isDigit_def NUL_def)

lemma finiteTimestampKey_NUL:
  assumes "finiteTimestampKey k"
  shows "NUL \<notin> set k"
proof
  assume "NUL \<in> set k"
  then obtain i where i: "i < length k" "k ! i = NUL" by (auto simp: in_set_conv_nth)
  have k: "length k = 31" "k ! 0 = CHR ''1''" "k ! 21 = CHR ''.''"
    and d1: "list_all isDigit (take 20 (drop 1 k))" and d2: "list_all isDigit (drop 22 k)"
    using assms by (simp_all add: finiteTimestampKey_def)
  consider "i = 0" | "1 \<le> i" "i < 21" | "i = 21" | "22 \<le> i" by linarith
  then show False
  proof cases
    case 2
    then have "take 20 (drop 1 k) ! (i - 1) = k ! i" "i - 1 < length (take 20 (drop 1 k))" using k by simp_all
    then show False using d1 i(2) isDigit_NUL by (metis list_all_length)
  next
    case 4
    then have "drop 22 k ! (i - 22) = k ! i" "i - 22 < length (drop 22 k)" using k i by simp_all
    then show False using d2 i(2) isDigit_NUL by (metis list_all_length)
  qed (use k i in \<open>simp_all add: NUL_def\<close>)
qed

lemma timestampText_NUL: "timestampText k \<Longrightarrow> NUL \<notin> set k"
proof -
  assume "timestampText k"
  then have "k = ''0'' \<or> k = ''2'' \<or> finiteTimestampKey k"
    by (auto simp: timestampText_def DecodeTimestamp_def split: if_splits)
  then show ?thesis using finiteTimestampKey_NUL by (auto simp: NUL_def)
qed

lemma decodeTime_ok: "timestampText k \<Longrightarrow> \<exists>t. decodeTime name k = Inr t"
  by (auto simp: decodeTime_def timestampText_NUL timestampText_def split: sum.splits Timestamp.splits)

lemma scanOutput_ok: "docColumn v \<Longrightarrow> \<exists>j. scanOutput name v = Inr j"
  by (auto simp: docColumn_def scanOutput_def split: option.splits rawdoc.splits)

lemma optional_ok: "pred_option (\<lambda>x. \<exists>y. f x = Inr y) v \<Longrightarrow> \<exists>w. optional f v = Inr w"
  by (cases v) (auto simp: optional_def)

lemma optional_uuid_ok: "pred_option uuidPattern v \<Longrightarrow> \<exists>w. optional (scanUUID n) v = Inr w"
  by (cases v) (auto simp: optional_def)

lemma optional_text_ok: "pred_option (\<lambda>m. NUL \<notin> set m) v \<Longrightarrow> \<exists>w. optional (scanText n) v = Inr w"
  by (cases v) (auto simp: optional_def)

lemma optional_time_ok: "pred_option timestampText v \<Longrightarrow> \<exists>w. optional (decodeTime n) v = Inr w"
  using decodeTime_ok by (cases v) (auto simp: optional_def)

lemma optional_int_ok: "pred_option int32Range v \<Longrightarrow> \<exists>w. optional (scanInt32 n) v = Inr w"
  by (cases v) (auto simp: optional_def)

text \<open>A row that satisfies the constraints of the table is always readable.\<close>

lemma scanJob_ok: "jobRowOK d row \<Longrightarrow> \<exists>job. scanJob row = Inr job"
proof -
  assume ok: "jobRowOK d row"
  have act: "pred_option uuidPattern (jrActorUserID row)"
    using ok by (cases "jrActorUserID row") (simp_all add: jobRowOK_def)
  have dom: "validTarget (jrTarget row) \<and> validStatus (jrStatus row) \<and> validSource (jrSource row)"
    using ok unfolding jobRowOK_def validTarget_def validStatus_def validSource_def by metis
  note col = ok [unfolded jobRowOK_def]
  obtain t where t: "decodeTime ''created_at'' (jrCreatedAt row) = Inr t" using col decodeTime_ok by blast
  obtain u1 where u1: "optional (scanUUID ''actor_user_id'') (jrActorUserID row) = Inr u1" using optional_uuid_ok [OF act]  by blast
  obtain u2 where u2: "optional (scanUUID ''source_primary_id'') (jrSourcePrimaryID row) = Inr u2" using optional_uuid_ok col by blast
  obtain u3 where u3: "optional (scanUUID ''source_node_id'') (jrSourceNodeID row) = Inr u3" using optional_uuid_ok col by blast
  obtain u4 where u4: "optional (scanUUID ''source_revision_id'') (jrSourceRevisionID row) = Inr u4" using optional_uuid_ok col by blast
  obtain h1 where h1: "optional (scanText ''snapshot_content_hash'') (jrSnapshotContentHash row) = Inr h1" using optional_text_ok col by blast
  obtain h2 where h2: "optional (scanText ''error_message'') (jrErrorMessage row) = Inr h2" using optional_text_ok col by blast
  obtain o1 where o1: "scanOutput ''validation_output'' (jrValidationOutput row) = Inr o1" using scanOutput_ok col by blast
  obtain o2 where o2: "scanOutput ''apply_output'' (jrApplyOutput row) = Inr o2" using scanOutput_ok col by blast
  obtain o3 where o3: "scanOutput ''health_output'' (jrHealthOutput row) = Inr o3" using scanOutput_ok col by blast
  obtain t1 where t1: "optional (decodeTime ''claimed_at'') (jrClaimedAt row) = Inr t1" using optional_time_ok col by blast
  obtain t2 where t2: "optional (decodeTime ''started_at'') (jrStartedAt row) = Inr t2" using optional_time_ok col by blast
  obtain t3 where t3: "optional (decodeTime ''finished_at'') (jrFinishedAt row) = Inr t3" using optional_time_ok col by blast
  obtain i1 where i1: "optional (scanInt32 ''snapshot_version'') (jrSnapshotVersion row) = Inr i1" using optional_int_ok col by blast
  obtain i2 where i2: "optional (scanInt32 ''replication_version'') (jrReplicationVersion row) = Inr i2" using optional_int_ok col by blast
  have "uuidPattern (jrID row)" "uuidPattern (jrRevisionID row)" "NUL \<notin> set (jrCorrelationID row)"
    using col by blast+
  then show ?thesis
    by (simp add: scanJob_def dom t u1 u2 u3 u4 h1 h2 o1 o2 o3 t1 t2 t3 i1 i2 scanUUID_def scanText_def)
qed

section \<open>Lemmas: rows\<close>

lemma jobRowOK_tables:
  "dbRevisions d' = dbRevisions d \<Longrightarrow> dbUsers d' = dbUsers d \<Longrightarrow> jobRowOK d' r = jobRowOK d r"
  by (simp add: jobRowOK_def)

lemma revRowOK_tables: "dbUsers d' = dbUsers d \<Longrightarrow> revRowOK d' r = revRowOK d r"
  by (simp add: revRowOK_def)

text \<open>Replacing the rows of the job table keeps the invariant when the new rows are legal and the ids stay.\<close>

lemma databaseOK_jobs:
  assumes "databaseOK d" "list_all (jobRowOK d) rows" "distinct (map jrID rows)"
  shows "databaseOK (d\<lparr>dbJobs := rows\<rparr>)"
proof -
  have "jobRowOK (d\<lparr>dbJobs := rows\<rparr>) = jobRowOK d" "revRowOK (d\<lparr>dbJobs := rows\<rparr>) = revRowOK d"
    by (intro ext jobRowOK_tables revRowOK_tables; simp)+
  then show ?thesis using assms by (simp add: databaseOK_def)
qed

lemma row_by_id: "databaseOK d \<Longrightarrow> r \<in> set (dbJobs d) \<Longrightarrow> r' \<in> set (dbJobs d) \<Longrightarrow> jrID r = jrID r' \<Longrightarrow> r = r'"
  by (auto simp: databaseOK_def distinct_map inj_on_def)

lemma updateReturning_Inr:
  assumes "updateReturning jid guard f noRow d = Inr (d', row')"
  obtains row where "row \<in> set (dbJobs d)" "jrID row = jid" "guard row" "row' = f row" "jobRowOK d (f row)"
    "d' = updateRow jid f d"
  using assms
  by (auto simp: updateReturning_def dest!: find_some split: option.splits if_splits)

lemma updateRow_databaseOK:
  assumes ok: "databaseOK d" and row: "row \<in> set (dbJobs d)" "jrID row = jid" and f: "jobRowOK d (f row)"
    and key: "\<And>r. jrID (f r) = jrID r"
  shows "databaseOK (updateRow jid f d)"
  unfolding updateRow_def
proof (rule databaseOK_jobs [OF ok])
  have "jobRowOK d (if jrID r = jid then f r else r)" if "r \<in> set (dbJobs d)" for r
    using that row_by_id [OF ok that row(1)] row f databaseOK_job [OF ok] by auto
  then show "list_all (jobRowOK d) (map (\<lambda>r. if jrID r = jid then f r else r) (dbJobs d))"
    unfolding list_all_iff set_map by blast
  have m: "map jrID (map (\<lambda>r. if jrID r = jid then f r else r) (dbJobs d)) = map jrID (dbJobs d)"
    by (simp add: key)
  have "distinct (map jrID (dbJobs d))" using ok by (simp add: databaseOK_def)
  then show "distinct (map jrID (map (\<lambda>r. if jrID r = jid then f r else r) (dbJobs d)))"
    by (simp only: m)
qed

section \<open>Lemmas: patches\<close>

lemma applyAssignments_append: "applyAssignments (as @ bs) r = applyAssignments bs (applyAssignments as r)"
  by (simp add: applyAssignments_def)

lemma assignNullable_keeps:
  assumes "assignNullable column put conv patch = Inr as" "\<And>x r. get (put x r) = get r"
  shows "get (applyAssignments as r) = get r"
  using assms by (auto simp: assignNullable_def applyAssignments_def split: Nullable.splits)

lemma assignments_keeps:
  assumes "assignments p = Inr as"
    and "\<And>x r. get (jrValidationOutput_update (\<lambda>_. x) r) = get r"
    and "\<And>x r. get (jrApplyOutput_update (\<lambda>_. x) r) = get r"
    and "\<And>x r. get (jrHealthOutput_update (\<lambda>_. x) r) = get r"
    and "\<And>x r. get (jrErrorMessage_update (\<lambda>_. x) r) = get r"
    and "\<And>x r. get (jrClaimedAt_update (\<lambda>_. x) r) = get r"
    and "\<And>x r. get (jrStartedAt_update (\<lambda>_. x) r) = get r"
    and "\<And>x r. get (jrFinishedAt_update (\<lambda>_. x) r) = get r"
  shows "get (applyAssignments as r) =
    (case patStatus p of None \<Rightarrow> get r | Some s \<Rightarrow> get (jrStatus_update (\<lambda>_. s) r))"
proof -
  obtain a1 a2 a3 a4 a5 a6 a7 where
    a: "assignNullable ''validation_output'' (\<lambda>x. jrValidationOutput_update (\<lambda>_. x)) (compactOutput ''validation_output'') (patValidationOutput p) = Inr a1"
      "assignNullable ''apply_output'' (\<lambda>x. jrApplyOutput_update (\<lambda>_. x)) (compactOutput ''apply_output'') (patApplyOutput p) = Inr a2"
      "assignNullable ''health_output'' (\<lambda>x. jrHealthOutput_update (\<lambda>_. x)) (compactOutput ''health_output'') (patHealthOutput p) = Inr a3"
      "assignNullable ''error_message'' (\<lambda>x. jrErrorMessage_update (\<lambda>_. x)) Inr (patErrorMessage p) = Inr a4"
      "assignNullable ''claimed_at'' (\<lambda>x. jrClaimedAt_update (\<lambda>_. x)) encodeTime (patClaimedAt p) = Inr a5"
      "assignNullable ''started_at'' (\<lambda>x. jrStartedAt_update (\<lambda>_. x)) encodeTime (patStartedAt p) = Inr a6"
      "assignNullable ''finished_at'' (\<lambda>x. jrFinishedAt_update (\<lambda>_. x)) encodeTime (patFinishedAt p) = Inr a7"
    and as: "as = (case patStatus p of None \<Rightarrow> [] | Some s \<Rightarrow> [(''status'', jrStatus_update (\<lambda>_. s))]) @ a1 @ a2 @ a3 @ a4 @ a5 @ a6 @ a7"
    using assms(1) by (auto simp: assignments_def)
  have k: "get (applyAssignments a1 r) = get r" "get (applyAssignments a2 r) = get r"
    "get (applyAssignments a3 r) = get r" "get (applyAssignments a4 r) = get r"
    "get (applyAssignments a5 r) = get r" "get (applyAssignments a6 r) = get r"
    "get (applyAssignments a7 r) = get r" for r
    by (rule assignNullable_keeps [OF a(1)] assignNullable_keeps [OF a(2)] assignNullable_keeps [OF a(3)]
        assignNullable_keeps [OF a(4)] assignNullable_keeps [OF a(5)] assignNullable_keeps [OF a(6)]
        assignNullable_keeps [OF a(7)]; rule assms)+
  show ?thesis
    unfolding as applyAssignments_append k by (simp add: applyAssignments_def split: option.split)
qed

lemma assignments_identity:
  assumes "assignments p = Inr as"
  shows "jrID (applyAssignments as r) = jrID r" "jrRevisionID (applyAssignments as r) = jrRevisionID r"
    "jrTarget (applyAssignments as r) = jrTarget r" "jrCreatedAt (applyAssignments as r) = jrCreatedAt r"
    "jrStatus (applyAssignments as r) = (case patStatus p of None \<Rightarrow> jrStatus r | Some s \<Rightarrow> s)"
  using assignments_keeps [OF assms, of jrID] assignments_keeps [OF assms, of jrRevisionID]
    assignments_keeps [OF assms, of jrTarget] assignments_keeps [OF assms, of jrCreatedAt]
    assignments_keeps [OF assms, of jrStatus]
  by (auto split: option.splits)

section \<open>Lemmas: operations\<close>

lemma UpdateJob_Inr:
  assumes "UpdateJob jid patch env d = (Inr job, d')"
  obtains as row where "assignments patch = Inr as" "row \<in> set (dbJobs d)" "jrID row = jid"
    "jobRowOK d (applyAssignments as row)" "d' = updateRow jid (applyAssignments as) d"
    "scanJob (applyAssignments as row) = Inr job"
    "\<forall>s. patStatus patch = Some s \<longrightarrow> (\<exists>r \<in> set (dbJobs d). jrID r = jid \<and> moves (jrStatus r) s)"
proof -
  obtain as where as: "assignments patch = Inr as"
    using assms by (auto simp: UpdateJob_def split: sum.splits)
  let ?check = "case patStatus patch of None \<Rightarrow> Inr ()
    | Some status \<Rightarrow> (case find (\<lambda>r. jrID r = jid) (dbJobs d) of None \<Rightarrow> Inl (JobNotFound jid)
      | Some row \<Rightarrow> (case Transition (jrStatus row) status of Inl e \<Rightarrow> Inl (InvalidTransition e) | Inr _ \<Rightarrow> Inr ()))"
  obtain row' where check: "?check = Inr ()"
    and u: "updateReturning jid (\<lambda>_. True) (applyAssignments as) (JobNotFound jid) d = Inr (d', row')"
    and j: "scanJob row' = Inr job"
    using assms as by (auto simp: UpdateJob_def elim!: Write_Inr split: if_splits)
  have "\<forall>s. patStatus patch = Some s \<longrightarrow> (\<exists>r \<in> set (dbJobs d). jrID r = jid \<and> moves (jrStatus r) s)"
    using check by (auto simp: transitions_moves dest!: find_some split: option.splits sum.splits)
  with updateReturning_Inr [OF u] that as j show thesis by blast
qed

lemma ClaimNext_Some:
  assumes "ClaimNext target env d = (Inr (Some job), d')"
  obtains stamp row where
    "oldest (filter (\<lambda>r. jrStatus r = Queued \<and> (target = [] \<or> jrTarget r = target)) (dbJobs d)) = Some row"
    "\<exists>r \<in> set (dbJobs d). jrID r = jrID row \<and> jrStatus r = Queued \<and> jobRowOK d (claimFields stamp r) \<and>
      scanJob (claimFields stamp r) = Inr job"
    "d' = updateRow (jrID row) (claimFields stamp) d"
    "EncodeTimestamp (FiniteTimestamp (fst (envNow env)) (snd (envNow env))) = Inr (Some stamp)"
proof -
  let ?rows = "filter (\<lambda>r. jrStatus r = Queued \<and> (target = [] \<or> jrTarget r = target)) (dbJobs d)"
  obtain stamp row sel row' where
    o: "oldest ?rows = Some row" and sel: "scanJob row = Inr sel"
    and stamp: "EncodeTimestamp (FiniteTimestamp (fst (envNow env)) (snd (envNow env))) = Inr (Some stamp)"
    and u: "updateReturning (jobID sel) (\<lambda>r. jrStatus r = Queued) (claimFields stamp) LostRow d = Inr (d', row')"
    and job: "scanJob row' = Inr job"
    using assms by (auto simp: ClaimNext_def elim!: Write_Inr split: if_splits option.splits)
  note u' = u [unfolded scanJob_fields(1) [OF sel]]
  show thesis
    using updateReturning_Inr [OF u'] that [OF o _ _ stamp] job by metis
qed

lemma enqueueRow_simps [simp]:
  "jrID (enqueueRow jid stamp input v a h c st f) = jid"
  "jrStatus (enqueueRow jid stamp input v a h c st f) = (if inStatus input = [] then Queued else inStatus input)"
  "jrRevisionID (enqueueRow jid stamp input v a h c st f) = inRevisionID input"
  "jrTarget (enqueueRow jid stamp input v a h c st f) = inTarget input"
  by (simp_all add: enqueueRow_def)

lemma insertJob_Inr:
  assumes "insertJob jid stamp input d = Inr (d', job)"
  obtains row where "jrID row = jid" "jid \<notin> jrID ` set (dbJobs d)" "jobRowOK d row"
    "jrStatus row = (if inStatus input = [] then Queued else inStatus input)"
    "jrRevisionID row = inRevisionID input" "jrTarget row = inTarget input"
    "scanJob row = Inr job" "d' = d\<lparr>dbJobs := dbJobs d @ [row]\<rparr>"
proof -
  have "\<exists>v a h c st f. let row = enqueueRow jid stamp input v a h c st f in
      jid \<notin> jrID ` set (dbJobs d) \<and> jobRowOK d row \<and> scanJob row = Inr job \<and>
      d' = d\<lparr>dbJobs := dbJobs d @ [row]\<rparr>"
    using assms unfolding insertJob_def Let_def by (auto split: if_splits) blast
  then show thesis using that unfolding Let_def by (metis enqueueRow_simps)
qed

lemma databaseOK_insert:
  "databaseOK d \<Longrightarrow> jobRowOK d row \<Longrightarrow> jrID row \<notin> jrID ` set (dbJobs d) \<Longrightarrow>
   databaseOK (d\<lparr>dbJobs := dbJobs d @ [row]\<rparr>)"
  by (rule databaseOK_jobs) (auto simp: databaseOK_def)

lemma Enqueue_Inr:
  assumes "Enqueue input env d = (Inr job, d')"
  shows "\<exists>stamp. insertJob (envUUID env) stamp input d = Inr (d', job)"
  using assms by (auto simp: Enqueue_def elim!: Write_Inr)

lemma EnqueueIfNotActive_Some:
  assumes "EnqueueIfNotActive input env d = (Inr (Some job), d')"
  shows "\<not> list_ex isActiveRow (dbJobs d) \<and> (\<exists>stamp. insertJob (envUUID env) stamp input d = Inr (d', job))"
  using assms by (auto simp: EnqueueIfNotActive_def elim!: Write_Inr split: if_splits)

lemma EnqueueIfNotActive_None: "EnqueueIfNotActive input env d = (Inr None, d') \<Longrightarrow> d' = d"
  by (auto simp: EnqueueIfNotActive_def elim!: Write_Inr split: if_splits)

lemma ClaimNext_None: "ClaimNext target env d = (Inr None, d') \<Longrightarrow> d' = d"
  by (auto simp: ClaimNext_def elim!: Write_Inr split: if_splits option.splits)

lemma RecoverStale_Inr:
  assumes "RecoverStale leaseMs env d = (Inr n, d')"
  obtains cutoff where "recoverCutoff (envNow env) leaseMs = Inr cutoff"
    "d' = d\<lparr>dbJobs := map (\<lambda>r. if isStale cutoff r then recoverFields r else r) (dbJobs d)\<rparr>"
    "n = length (filter (isStale cutoff) (dbJobs d))"
  using assms by (auto simp: RecoverStale_def elim!: Write_Inr split: sum.splits)

lemma error_unchanged:
  "ClaimNext target env d = (Inl e, d') \<Longrightarrow> d' = d"
  "RecoverStale leaseMs env d = (Inl e, d') \<Longrightarrow> d' = d"
  "UpdateJob jid patch env d = (Inl e, d') \<Longrightarrow> d' = d"
  "Enqueue input env d = (Inl e, d') \<Longrightarrow> d' = d"
  "EnqueueIfNotActive input env d = (Inl e, d') \<Longrightarrow> d' = d"
  by (auto simp: ClaimNext_def RecoverStale_def UpdateJob_def Enqueue_def EnqueueIfNotActive_def
      dest: Write_Inl split: if_splits sum.splits)

section \<open>The store as a step relation\<close>

inductive storeStep :: "database \<Rightarrow> database \<Rightarrow> bool" where
  claim: "storeStep d (snd (ClaimNext target env d))"
| recover: "storeStep d (snd (RecoverStale leaseMs env d))"
| update: "storeStep d (snd (UpdateJob jid patch env d))"
| enqueue: "storeStep d (snd (Enqueue input env d))"
| enqueueOnce: "storeStep d (snd (EnqueueIfNotActive input env d))"

text \<open>What one step may do to a row: keep its status, move it by the state machine, or give it back to the
  queue after its lease expired.\<close>

definition rowStep :: "jobRow \<Rightarrow> jobRow \<Rightarrow> bool" where
  "rowStep r r' \<longleftrightarrow>
     jrID r' = jrID r \<and> jrRevisionID r' = jrRevisionID r \<and> jrTarget r' = jrTarget r \<and> jrCreatedAt r' = jrCreatedAt r \<and>
     (jrStatus r' = jrStatus r \<or> moves (jrStatus r) (jrStatus r') \<or>
      (jrStatus r \<in> {Validating, Applying} \<and> jrStatus r' = Queued))"

text \<open>The rows after a step: every old row, stepped, and possibly one new row at the end.\<close>

definition rowsStep :: "jobRow list \<Rightarrow> jobRow list \<Rightarrow> bool" where
  "rowsStep rs rs' \<longleftrightarrow> (\<exists>us vs. rs' = us @ vs \<and> list_all2 rowStep rs us \<and> length vs \<le> 1)"

lemma rowStep_refl [simp]: "rowStep r r"
  by (simp add: rowStep_def)

lemma rowsStep_refl: "rowsStep rs rs"
  unfolding rowsStep_def by (rule exI [of _ rs], rule exI [of _ "[]"]) (simp add: list_all2_refl)

lemma rowsStep_map: "\<forall>r \<in> set rs. rowStep r (f r) \<Longrightarrow> rowsStep rs (map f rs)"
  unfolding rowsStep_def
  by (rule exI [of _ "map f rs"], rule exI [of _ "[]"]) (auto simp: list_all2_conv_all_nth)

lemma rowsStep_insert: "rowsStep rs (rs @ [r])"
  unfolding rowsStep_def by (rule exI [of _ rs], rule exI [of _ "[r]"]) (simp add: list_all2_refl)

lemma claimFields_simps [simp]:
  "jrID (claimFields s r) = jrID r" "jrRevisionID (claimFields s r) = jrRevisionID r"
  "jrTarget (claimFields s r) = jrTarget r" "jrCreatedAt (claimFields s r) = jrCreatedAt r"
  "jrStatus (claimFields s r) = Validating" "jrClaimedAt (claimFields s r) = Some s"
  by (simp_all add: claimFields_def)

lemma recoverFields_OK: "jobRowOK d r \<Longrightarrow> jobRowOK d (recoverFields r)"
proof -
  have "NUL \<notin> set recoveredMessage" by code_simp
  then show "jobRowOK d r \<Longrightarrow> ?thesis" unfolding jobRowOK_def recoverFields_def by simp
qed

lemma recoverFields_simps [simp]:
  "jrID (recoverFields r) = jrID r" "jrRevisionID (recoverFields r) = jrRevisionID r"
  "jrTarget (recoverFields r) = jrTarget r" "jrCreatedAt (recoverFields r) = jrCreatedAt r"
  "jrStatus (recoverFields r) = Queued" "jrClaimedAt (recoverFields r) = None"
  by (simp_all add: recoverFields_def)

lemma isStale_status: "isStale cutoff r \<Longrightarrow> jrStatus r = Validating \<or> jrStatus r = Applying"
  by (simp add: isStale_def)

text \<open>Each operation in the terms of the two table lemmas.\<close>

lemma ClaimNext_step:
  assumes "databaseOK d"
  shows "databaseOK (snd (ClaimNext target env d)) \<and> rowsStep (dbJobs d) (dbJobs (snd (ClaimNext target env d)))"
proof (cases "\<exists>job d'. ClaimNext target env d = (Inr (Some job), d')")
  case True
  then obtain job d' where c: "ClaimNext target env d = (Inr (Some job), d')" by blast
  obtain stamp and row :: jobRow where ex: "\<exists>r \<in> set (dbJobs d). jrID r = jrID row \<and> jrStatus r = Queued \<and>
      jobRowOK d (claimFields stamp r) \<and> scanJob (claimFields stamp r) = Inr job"
    and d': "d' = updateRow (jrID row) (claimFields stamp) d"
    by (rule ClaimNext_Some [OF c]) blast
  then obtain r where r: "r \<in> set (dbJobs d)" "jrID r = jrID row" "jrStatus r = Queued"
    "jobRowOK d (claimFields stamp r)" by blast
  have "rowStep r' (if jrID r' = jrID row then claimFields stamp r' else r')" if "r' \<in> set (dbJobs d)" for r'
  proof (cases "jrID r' = jrID row")
    case True
    then have "r' = r" using row_by_id [OF assms that r(1)] r(2) by simp
    then show ?thesis using r(2,3) by (simp add: rowStep_def moves.claim)
  qed simp
  then have "rowsStep (dbJobs d) (dbJobs d')"
    unfolding d' updateRow_def by (simp add: rowsStep_map)
  then show ?thesis
    using updateRow_databaseOK [where f = "claimFields stamp", OF assms r(1,2,4)] by (simp add: c d')
next
  case False
  then have "snd (ClaimNext target env d) = d"
    by (metis error_unchanged(1) ClaimNext_None not_Some_eq prod.collapse sum.exhaust_sel snd_conv)
  then show ?thesis using assms rowsStep_refl by simp
qed

lemma RecoverStale_step:
  assumes "databaseOK d"
  shows "databaseOK (snd (RecoverStale leaseMs env d)) \<and> rowsStep (dbJobs d) (dbJobs (snd (RecoverStale leaseMs env d)))"
proof (cases "RecoverStale leaseMs env d")
  case (Pair res d')
  show ?thesis
  proof (cases res)
    case (Inl e)
    then show ?thesis using error_unchanged(2) Pair assms rowsStep_refl by fastforce
  next
    case (Inr n)
    obtain cutoff where d': "d' = d\<lparr>dbJobs := map (\<lambda>r. if isStale cutoff r then recoverFields r else r) (dbJobs d)\<rparr>"
      by (rule RecoverStale_Inr [OF Pair [unfolded Inr]]) blast
    let ?f = "\<lambda>r. if isStale cutoff r then recoverFields r else r"
    have "map jrID (map ?f (dbJobs d)) = map jrID (dbJobs d)" by simp
    moreover have "list_all (jobRowOK d) (map ?f (dbJobs d))"
    proof -
      have "jobRowOK d (?f r)" if "r \<in> set (dbJobs d)" for r
        using databaseOK_job [OF assms that] recoverFields_OK by simp
      then show ?thesis unfolding list_all_iff set_map by blast
    qed
    ultimately have "databaseOK d'"
      unfolding d' using assms by (intro databaseOK_jobs) (simp_all only: databaseOK_def)
    moreover have "rowsStep (dbJobs d) (dbJobs d')"
      unfolding d' by (auto intro!: rowsStep_map simp: rowStep_def dest: isStale_status)
    ultimately show ?thesis using Pair by simp
  qed
qed

lemma UpdateJob_step:
  assumes "databaseOK d"
  shows "databaseOK (snd (UpdateJob jid patch env d)) \<and> rowsStep (dbJobs d) (dbJobs (snd (UpdateJob jid patch env d)))"
proof (cases "UpdateJob jid patch env d")
  case (Pair res d')
  show ?thesis
  proof (cases res)
    case (Inl e)
    then show ?thesis using error_unchanged(3) Pair assms rowsStep_refl by fastforce
  next
    case (Inr job)
    obtain as row where as: "assignments patch = Inr as" and row: "row \<in> set (dbJobs d)" "jrID row = jid"
      "jobRowOK d (applyAssignments as row)" and d': "d' = updateRow jid (applyAssignments as) d"
      and mv: "\<forall>s. patStatus patch = Some s \<longrightarrow> (\<exists>r \<in> set (dbJobs d). jrID r = jid \<and> moves (jrStatus r) s)"
      by (rule UpdateJob_Inr [OF Pair [unfolded Inr]]) blast
    note keep = assignments_identity [OF as]
    have "rowStep r (applyAssignments as r)" if "r \<in> set (dbJobs d)" "jrID r = jid" for r
    proof (cases "patStatus patch")
      case None
      then show ?thesis by (simp add: rowStep_def keep)
    next
      case (Some s)
      then obtain r' where "r' \<in> set (dbJobs d)" "jrID r' = jid" "moves (jrStatus r') s" using mv by blast
      then have "moves (jrStatus r) s" using row_by_id [OF assms that(1)] that(2) by metis
      then show ?thesis by (simp add: rowStep_def keep Some)
    qed
    then have "rowsStep (dbJobs d) (dbJobs d')"
      unfolding d' updateRow_def by (simp add: rowsStep_map)
    then show ?thesis
      using updateRow_databaseOK [where f = "applyAssignments as", OF assms row] keep(1) Pair by (simp add: d')
  qed
qed

lemma insertJob_step:
  assumes "databaseOK d" "insertJob jid stamp input d = Inr (d', job)"
  shows "databaseOK d' \<and> rowsStep (dbJobs d) (dbJobs d')"
proof -
  obtain row where "jrID row = jid" "jid \<notin> jrID ` set (dbJobs d)" "jobRowOK d row"
    "d' = d\<lparr>dbJobs := dbJobs d @ [row]\<rparr>"
    using insertJob_Inr [OF assms(2)] by metis
  then show ?thesis using databaseOK_insert [OF assms(1)] rowsStep_insert by simp
qed

lemma Enqueue_step:
  assumes "databaseOK d"
  shows "databaseOK (snd (Enqueue input env d)) \<and> rowsStep (dbJobs d) (dbJobs (snd (Enqueue input env d)))"
proof (cases "Enqueue input env d")
  case (Pair res d')
  show ?thesis
  proof (cases res)
    case (Inl e)
    have "d' = d" by (rule error_unchanged(4) [OF Pair [unfolded Inl]])
    then show ?thesis using assms rowsStep_refl by (simp add: Pair)
  next
    case (Inr job)
    then show ?thesis using insertJob_step [OF assms] Enqueue_Inr [OF Pair [unfolded Inr]] by (auto simp: Pair)
  qed
qed

lemma EnqueueIfNotActive_step:
  assumes "databaseOK d"
  shows "databaseOK (snd (EnqueueIfNotActive input env d)) \<and>
    rowsStep (dbJobs d) (dbJobs (snd (EnqueueIfNotActive input env d)))"
proof (cases "EnqueueIfNotActive input env d")
  case (Pair res d')
  consider e where "res = Inl e" | "res = Inr None" | job where "res = Inr (Some job)"
    by (metis not_Some_eq sumE)
  then show ?thesis
  proof cases
    case 1
    then show ?thesis using error_unchanged(5) Pair assms rowsStep_refl by fastforce
  next
    case 2
    then show ?thesis using EnqueueIfNotActive_None Pair assms rowsStep_refl by fastforce
  next
    case 3
    then show ?thesis using EnqueueIfNotActive_Some Pair insertJob_step [OF assms] by fastforce
  qed
qed

lemma storeStep_ok: "storeStep d d' \<Longrightarrow> databaseOK d \<Longrightarrow> databaseOK d' \<and> rowsStep (dbJobs d) (dbJobs d')"
  by (erule storeStep.cases)
     (use ClaimNext_step RecoverStale_step UpdateJob_step Enqueue_step EnqueueIfNotActive_step in blast)+

lemma storeSteps_ok: "storeStep\<^sup>*\<^sup>* d d' \<Longrightarrow> databaseOK d \<Longrightarrow> databaseOK d'"
  by (induction rule: rtranclp_induct) (auto dest: storeStep_ok)

lemma rowsStep_row:
  assumes "rowsStep rs rs'" "r \<in> set rs"
  shows "\<exists>r' \<in> set rs'. rowStep r r'"
proof -
  obtain us vs where u: "rs' = us @ vs" "list_all2 rowStep rs us" using assms(1) by (auto simp: rowsStep_def)
  obtain i where "i < length rs" "rs ! i = r" using assms(2) by (auto simp: in_set_conv_nth)
  then have "us ! i \<in> set us" "rowStep r (us ! i)" using u(2) by (auto simp: list_all2_conv_all_nth)
  then show ?thesis using u(1) by auto
qed

lemma storeSteps_row:
  assumes "storeStep\<^sup>*\<^sup>* d d'" "databaseOK d" "r \<in> set (dbJobs d)"
  shows "\<exists>r' \<in> set (dbJobs d'). rowStep\<^sup>*\<^sup>* r r'"
  using assms(1)
proof (induction rule: rtranclp_induct)
  case base
  then show ?case using assms(3) by blast
next
  case (step d1 d2)
  then obtain r1 where r1: "r1 \<in> set (dbJobs d1)" "rowStep\<^sup>*\<^sup>* r r1" by blast
  have "rowsStep (dbJobs d1) (dbJobs d2)"
    using storeStep_ok [OF step.hyps(2) storeSteps_ok [OF step.hyps(1) assms(2)]] by simp
  from rowsStep_row [OF this r1(1)] r1(2) show ?case by (meson rtranclp.rtrancl_into_rtrancl)
qed

lemma rowSteps_identity:
  "rowStep\<^sup>*\<^sup>* r r' \<Longrightarrow> jrID r' = jrID r \<and> jrRevisionID r' = jrRevisionID r \<and> jrTarget r' = jrTarget r \<and> jrCreatedAt r' = jrCreatedAt r"
  by (induction rule: rtranclp_induct) (simp_all add: rowStep_def)

lemma rowStep_Applied: "rowStep r r' \<Longrightarrow> jrStatus r = Applied \<Longrightarrow> jrStatus r' = Applied"
  by (simp add: rowStep_def moves_iff)

lemma rowSteps_Applied: "rowStep\<^sup>*\<^sup>* r r' \<Longrightarrow> jrStatus r = Applied \<Longrightarrow> jrStatus r' = Applied"
  by (induction rule: rtranclp_induct) (simp_all add: rowStep_Applied)

section \<open>Lemmas: the oldest row\<close>

lemma oldest_None [simp]: "oldest rs = None \<longleftrightarrow> rs = []"
  by (cases rs) (auto split: option.splits)

lemma oldest_ex: "r \<in> set rs \<Longrightarrow> \<exists>m. oldest rs = Some m"
  by (cases "oldest rs") auto

lemma oldest_Some: "oldest rs = Some m \<Longrightarrow> m \<in> set rs \<and> (\<forall>r \<in> set rs. jrCreatedAt m \<le> jrCreatedAt r)"
proof (induction rs arbitrary: m)
  case (Cons r rs)
  show ?case
  proof (cases "oldest rs")
    case None
    then show ?thesis using Cons.prems by simp
  next
    case (Some k)
    note IH = Cons.IH [OF Some]
    show ?thesis
    proof (cases "jrCreatedAt k < jrCreatedAt r")
      case True
      then show ?thesis using Cons.prems Some IH by auto
    next
      case False
      then have "m = r" "jrCreatedAt r \<le> jrCreatedAt k" using Cons.prems Some by auto
      then show ?thesis using IH by fastforce
    qed
  qed
qed simp

lemma find_by_id:
  assumes "databaseOK d" "row \<in> set (dbJobs d)" "P row"
  shows "find (\<lambda>r. jrID r = jrID row \<and> P r) (dbJobs d) = Some row"
proof -
  obtain x where x: "find (\<lambda>r. jrID r = jrID row \<and> P r) (dbJobs d) = Some x"
    using assms(2,3) by (cases "find (\<lambda>r. jrID r = jrID row \<and> P r) (dbJobs d)") (auto simp: find_None_iff)
  from find_some [OF x] row_by_id [OF assms(1) _ assms(2)] x show ?thesis by auto
qed

lemma GetJob_row:
  assumes "databaseOK d" "row \<in> set (dbJobs d)"
  shows "GetJob (jrID row) d = bindE (scanJob row) (\<lambda>job. Inr (Some job))"
  using find_by_id [of d row "\<lambda>_. True"] assms by (simp add: GetJob_def)

lemma references_row: "jobRowOK d row \<Longrightarrow> scanJob row = Inr job \<Longrightarrow> references d job = Inr ()"
  using scanJob_fields [of row job]
  by (auto simp: references_def jobRowOK_def split: option.splits)

lemma claimFields_OK: "jobRowOK d r \<Longrightarrow> timestampText stamp \<Longrightarrow> jobRowOK d (claimFields stamp r)"
  unfolding jobRowOK_def claimFields_def by (cases "jrStartedAt r") simp_all

end
