(* ===== verification/JobQueue.thy ===== *)
theory JobQueue
  imports JobStore
begin

text \<open>
  What the job store promises to the orchestrator and the poller.  The locale \<open>job_store\<close> states the laws of
  a store of jobs (read your write, one row per id, moves of the state machine only) and derives what a
  client that patches one job again and again may rely on; it is interpreted on the SQLite store.  The
  properties of the queue (claim order, one active job, lease recovery, applied is final) close the theory.
\<close>

section \<open>The interface\<close>

locale job_store =
  fixes get :: "string \<Rightarrow> 'd \<Rightarrow> 'e + Job option"
    and update :: "string \<Rightarrow> JobPatch \<Rightarrow> 'n \<Rightarrow> 'd \<Rightarrow> ('e + Job) \<times> 'd"
    and legal :: "'d \<Rightarrow> bool"
  assumes update_legal: "legal d \<Longrightarrow> legal (snd (update jid p env d))"
    and update_error: "update jid p env d = (Inl e, d') \<Longrightarrow> d' = d"
    and update_read: "legal d \<Longrightarrow> update jid p env d = (Inr job, d') \<Longrightarrow> get jid d' = Inr (Some job)"
    and update_frame: "legal d \<Longrightarrow> update jid p env d = (Inr job, d') \<Longrightarrow> jid' \<noteq> jid \<Longrightarrow> get jid' d' = get jid' d"
    and update_move: "legal d \<Longrightarrow> update jid p env d = (Inr job, d') \<Longrightarrow>
      \<exists>old. get jid d = Inr (Some old) \<and> jobID job = jobID old \<and> jobRevisionID job = jobRevisionID old \<and>
        jobTarget job = jobTarget old \<and>
        (case patStatus p of None \<Rightarrow> jobStatus job = jobStatus old
         | Some s \<Rightarrow> jobStatus job = s \<and> moves (jobStatus old) s)"
begin

text \<open>A client that patches one job repeatedly, ignoring errors.\<close>

primrec patches :: "string \<Rightarrow> (JobPatch \<times> 'n) list \<Rightarrow> 'd \<Rightarrow> 'd" where
  "patches jid [] d = d"
| "patches jid (u # us) d = patches jid us (snd (update jid (fst u) (snd u) d))"

lemma patches_legal: "legal d \<Longrightarrow> legal (patches jid us d)"
  by (induction us arbitrary: d) (simp_all add: update_legal)

lemma patch_job:
  assumes "legal d" "get jid d = Inr (Some old)"
  shows "\<exists>job. get jid (snd (update jid p env d)) = Inr (Some job) \<and> jobID job = jobID old \<and>
    jobRevisionID job = jobRevisionID old \<and> moves\<^sup>*\<^sup>* (jobStatus old) (jobStatus job)"
proof (cases "update jid p env d")
  case (Pair res d')
  show ?thesis
  proof (cases res)
    case (Inl e)
    then show ?thesis using update_error Pair assms by fastforce
  next
    case (Inr job)
    from update_move [OF assms(1) Pair [unfolded Inr]] assms(2)
    have "jobID job = jobID old" "jobRevisionID job = jobRevisionID old" "moves\<^sup>*\<^sup>* (jobStatus old) (jobStatus job)"
      by (auto split: option.splits)
    then show ?thesis using update_read [OF assms(1) Pair [unfolded Inr]] by (simp add: Pair)
  qed
qed

lemma patches_job:
  "legal d \<Longrightarrow> get jid d = Inr (Some old) \<Longrightarrow>
   \<exists>job. get jid (patches jid us d) = Inr (Some job) \<and> jobID job = jobID old \<and>
     jobRevisionID job = jobRevisionID old \<and> moves\<^sup>*\<^sup>* (jobStatus old) (jobStatus job)"
proof (induction us arbitrary: d old)
  case (Cons u us)
  obtain mid where mid: "get jid (snd (update jid (fst u) (snd u) d)) = Inr (Some mid)" "jobID mid = jobID old"
    "jobRevisionID mid = jobRevisionID old" "moves\<^sup>*\<^sup>* (jobStatus old) (jobStatus mid)"
    using patch_job [OF Cons.prems] by blast
  from Cons.IH [OF update_legal [OF Cons.prems(1)] mid(1)] mid(2-4) show ?case
    by simp (meson rtranclp_trans)
qed auto

lemma patches_Applied:
  assumes "legal d" "get jid d = Inr (Some old)" "jobStatus old = Applied"
  shows "\<exists>job. get jid (patches jid us d) = Inr (Some job) \<and> jobStatus job = Applied"
  using patches_job [OF assms(1,2)] assms(3) Applied_stays by metis

lemma patch_frame: "legal d \<Longrightarrow> jid' \<noteq> jid \<Longrightarrow> get jid' (snd (update jid p env d)) = get jid' d"
  by (cases "update jid p env d"; cases "fst (update jid p env d)") (auto dest: update_error update_frame)

lemma patches_frame: "legal d \<Longrightarrow> jid' \<noteq> jid \<Longrightarrow> get jid' (patches jid us d) = get jid' d"
  by (induction us arbitrary: d) (simp_all add: update_legal patch_frame)

end

section \<open>The SQLite store implements the interface\<close>

lemma updateRow_rows: "r \<in> set (dbJobs d) \<Longrightarrow> (if jrID r = jid then f r else r) \<in> set (dbJobs (updateRow jid f d))"
  by (auto simp: updateRow_def)

lemma UpdateJob_read:
  assumes "databaseOK d" "UpdateJob jid p env d = (Inr job, d')"
  shows "GetJob jid d' = Inr (Some job)"
proof -
  obtain as row where u: "assignments p = Inr as" "row \<in> set (dbJobs d)" "jrID row = jid"
    "d' = updateRow jid (applyAssignments as) d" "scanJob (applyAssignments as row) = Inr job"
    by (rule UpdateJob_Inr [OF assms(2)]) blast
  have "databaseOK d'" using UpdateJob_step [OF assms(1), of jid p env] assms(2) by simp
  moreover have "applyAssignments as row \<in> set (dbJobs d')" using updateRow_rows [OF u(2), of jid "applyAssignments as"] u(3,4) by simp
  ultimately show ?thesis
    using GetJob_row [of d' "applyAssignments as row"] u(3,5) by (simp add: assignments_identity [OF u(1)])
qed

lemma find_map_other:
  assumes "\<And>r. jrID (f r) = jrID r" "jid' \<noteq> jid"
  shows "find (\<lambda>r. jrID r = jid') (map (\<lambda>r. if jrID r = jid then f r else r) rs) = find (\<lambda>r. jrID r = jid') rs"
  using assms by (induction rs) auto

lemma UpdateJob_frame:
  assumes "UpdateJob jid p env d = (Inr job, d')" "jid' \<noteq> jid"
  shows "GetJob jid' d' = GetJob jid' d"
proof -
  obtain as where u: "assignments p = Inr as" "d' = updateRow jid (applyAssignments as) d"
    by (rule UpdateJob_Inr [OF assms(1)]) blast
  show ?thesis
    using find_map_other [of "applyAssignments as", OF assignments_identity(1) [OF u(1)] assms(2)]
    by (simp add: GetJob_def u(2) updateRow_def)
qed

lemma UpdateJob_move:
  assumes "databaseOK d" "UpdateJob jid p env d = (Inr job, d')"
  shows "\<exists>old. GetJob jid d = Inr (Some old) \<and> jobID job = jobID old \<and> jobRevisionID job = jobRevisionID old \<and>
    jobTarget job = jobTarget old \<and>
    (case patStatus p of None \<Rightarrow> jobStatus job = jobStatus old
     | Some s \<Rightarrow> jobStatus job = s \<and> moves (jobStatus old) s)"
proof -
  obtain as row where u: "assignments p = Inr as" "row \<in> set (dbJobs d)" "jrID row = jid"
    "scanJob (applyAssignments as row) = Inr job"
    and mv: "\<forall>s. patStatus p = Some s \<longrightarrow> (\<exists>r \<in> set (dbJobs d). jrID r = jid \<and> moves (jrStatus r) s)"
    by (rule UpdateJob_Inr [OF assms(2)]) blast
  obtain old where old: "scanJob row = Inr old"
    using scanJob_ok [OF databaseOK_job [OF assms(1) u(2)]] by blast
  have get: "GetJob jid d = Inr (Some old)" using GetJob_row [OF assms(1) u(2)] old u(3) by simp
  note new = scanJob_fields [OF u(4)] and keep = assignments_identity [OF u(1)]
  have "case patStatus p of None \<Rightarrow> jobStatus job = jobStatus old
     | Some s \<Rightarrow> jobStatus job = s \<and> moves (jobStatus old) s"
  proof (cases "patStatus p")
    case None
    then show ?thesis by (simp add: new keep scanJob_fields [OF old])
  next
    case (Some s)
    then obtain r where "r \<in> set (dbJobs d)" "jrID r = jid" "moves (jrStatus r) s" using mv by blast
    then have "moves (jrStatus row) s" using row_by_id [OF assms(1) _ u(2)] u(3) by metis
    then show ?thesis using Some by (simp add: new keep scanJob_fields [OF old])
  qed
  then show ?thesis
    using get by (intro exI [of _ old]) (simp add: new keep scanJob_fields [OF old])
qed

interpretation sqlite: job_store GetJob UpdateJob databaseOK
proof unfold_locales
  fix d jid p env
  show "databaseOK d \<Longrightarrow> databaseOK (snd (UpdateJob jid p env d))" using UpdateJob_step by blast
next
  fix jid p env d e d'
  show "UpdateJob jid p env d = (Inl e, d') \<Longrightarrow> d' = d" by (rule error_unchanged(3))
qed (blast intro: UpdateJob_read UpdateJob_frame UpdateJob_move)+

section \<open>Lemmas: recovery\<close>

definition nanosOf :: "gotime \<Rightarrow> int" where
  "nanosOf t = fst t * 1000000000 + snd t"

text \<open>The stored key of a finite time.\<close>

definition timeKey :: "gotime \<Rightarrow> string" where
  "timeKey t = ''1'' @ fixedDigits 20 (nat (fst t + 2 ^ 63)) @ ''.'' @ fixedDigits 9 (nat (snd t))"

lemma encodeTime_key: "finiteRange (fst t) (snd t) \<Longrightarrow> encodeTime t = Inr (timeKey t)"
  by (simp add: encodeTime_def EncodeTimestamp_finite timeKey_def del: fixedDigits.simps)

lemma timestampText_key: "finiteRange (fst t) (snd t) \<Longrightarrow> timestampText (timeKey t)"
  using timestampText_stamp [OF EncodeTimestamp_finite] by (simp add: timeKey_def del: fixedDigits.simps)

lemma timeKey_less:
  assumes "finiteRange (fst t) (snd t)" "finiteRange (fst u) (snd u)"
  shows "timeKey t < timeKey u \<longleftrightarrow> nanosOf t < nanosOf u"
proof -
  have "timeKey t < timeKey u \<longleftrightarrow> fst t < fst u \<or> (fst t = fst u \<and> snd t < snd u)"
    unfolding timeKey_def by (rule finite_key_less [OF assms])
  also have "\<dots> \<longleftrightarrow> nanosOf t < nanosOf u"
    using assms by (auto simp: nanosOf_def finiteRange_def)
  finally show ?thesis .
qed

definition cutoffTime :: "gotime \<Rightarrow> int \<Rightarrow> gotime" where
  "cutoffTime now leaseMs =
     ((UnixMilli now - leaseMs) div 1000, ((UnixMilli now - leaseMs) mod 1000) * 1000000)"

lemma recoverCutoff_time: "recoverCutoff now leaseMs = encodeTime (cutoffTime now leaseMs)"
  by (simp add: recoverCutoff_def cutoffTime_def Let_def minus_mod_eq_mult_div)

lemma cutoffTime_nanos: "nanosOf (cutoffTime now leaseMs) = (UnixMilli now - leaseMs) * 1000000"
proof -
  define m where "m = UnixMilli now - leaseMs"
  have "m = m div 1000 * 1000 + m mod 1000" by simp
  then have "m * 1000000 = m div 1000 * 1000000000 + m mod 1000 * 1000000" by linarith
  then show ?thesis by (simp add: nanosOf_def cutoffTime_def m_def)
qed

lemma claim_stamp:
  "finiteRange (fst t) (snd t) \<Longrightarrow> EncodeTimestamp (FiniteTimestamp (fst t) (snd t)) = Inr (Some (timeKey t))"
  by (simp add: EncodeTimestamp_finite timeKey_def del: fixedDigits.simps)

section \<open>A sample database\<close>

text \<open>One revision, a claimed job and two queued ones, for the witnesses.\<close>

definition sampleRevision :: revRow where
  "sampleRevision = \<lparr>rrID = ''00000000-0000-0000-0000-0000000000a1'', rrRevisionNumber = 1, rrChecksum = ''c'',
     rrSnapshot = Doc JNull, rrActorUserID = None, rrCreatedAt = ''0'', rrAppliedAt = None, rrSource = ''ordinary'',
     rrSourcePrimaryID = None, rrSourceNodeID = None, rrSourceRevisionID = None, rrSnapshotContentHash = None,
     rrSnapshotVersion = None, rrReplicationVersion = None, rrLeadershipGeneration = None\<rparr>"

definition sampleRow :: "string \<Rightarrow> string \<Rightarrow> string \<Rightarrow> string option \<Rightarrow> jobRow" where
  "sampleRow jid created status claimed =
     \<lparr>jrID = jid, jrRevisionID = ''00000000-0000-0000-0000-0000000000a1'', jrCorrelationID = ''c'',
      jrCreatedAt = created, jrTarget = ''combined'', jrStatus = status, jrSource = ''ordinary'',
      jrActorUserID = None, jrSourcePrimaryID = None, jrSourceNodeID = None, jrSourceRevisionID = None,
      jrSnapshotContentHash = None, jrValidationOutput = None, jrApplyOutput = None, jrHealthOutput = None,
      jrErrorMessage = None, jrClaimedAt = claimed, jrStartedAt = claimed, jrFinishedAt = None,
      jrSnapshotVersion = None, jrReplicationVersion = None, jrLeadershipGeneration = None\<rparr>"

definition sampleDB :: "jobRow list \<Rightarrow> database" where
  "sampleDB rows = \<lparr>dbJobs = rows, dbRevisions = [sampleRevision], dbUsers = [],
     dbSettings = Some \<lparr>srCurrentAppliedRevisionID = None, srUpdatedAt = ''0''\<rparr>\<rparr>"

abbreviation job1 :: string where "job1 \<equiv> ''00000000-0000-0000-0000-000000000001''"
abbreviation job2 :: string where "job2 \<equiv> ''00000000-0000-0000-0000-000000000002''"

definition sampleEnv :: writeEnv where
  "sampleEnv = \<lparr>envNow = (1000, 0), envUUID = ''00000000-0000-0000-0000-000000000003'', envFails = False\<rparr>"

lemma timestampText_zero: "timestampText ''0''"
  by code_simp

lemma uuids: "uuidPattern job1" "uuidPattern job2" "uuidPattern ''00000000-0000-0000-0000-0000000000a1''"
  "uuidPattern ''00000000-0000-0000-0000-000000000003''"
  by code_simp+

lemma revRowOK_sample: "revRowOK d sampleRevision"
proof -
  have "NUL \<notin> set ''c''" by code_simp
  then show ?thesis using uuids timestampText_zero by (simp add: revRowOK_def sampleRevision_def int32Range_def)
qed

lemma jobRowOK_sample:
  assumes "timestampText created" "pred_option timestampText claimed" "uuidPattern jid" "validStatus status"
  shows "jobRowOK (sampleDB rows) (sampleRow jid created status claimed)"
proof -
  have "NUL \<notin> set ''c''" by code_simp
  then show ?thesis
    using uuids assms by (simp add: jobRowOK_def sampleRow_def sampleDB_def sampleRevision_def docColumn_def validStatus_def)
qed

lemma databaseOK_sample:
  assumes "list_all (jobRowOK (sampleDB rows)) rows" "distinct (map jrID rows)"
  shows "databaseOK (sampleDB rows)"
proof -
  have f: "dbJobs (sampleDB rows) = rows" "dbRevisions (sampleDB rows) = [sampleRevision]"
    by (simp_all add: sampleDB_def)
  show ?thesis unfolding databaseOK_def f using assms revRowOK_sample by simp
qed

lemma databaseOK_two:
  assumes "timestampText t1" "timestampText t2" "validStatus s1" "validStatus s2"
    "pred_option timestampText c1" "pred_option timestampText c2"
  shows "databaseOK (sampleDB [sampleRow job1 t1 s1 c1, sampleRow job2 t2 s2 c2])"
  by (rule databaseOK_sample) (use assms jobRowOK_sample uuids in \<open>simp_all add: sampleRow_def\<close>)

lemma ClaimNext_works:
  assumes "databaseOK d" "\<not> envFails env" "finiteRange (fst (envNow env)) (snd (envNow env))"
    "target = [] \<or> validTarget target"
    "r \<in> set (dbJobs d)" "jrStatus r = Queued" "target = [] \<or> jrTarget r = target"
  shows "\<exists>job d'. ClaimNext target env d = (Inr (Some job), d') \<and> jobStatus job = Validating"
proof -
  let ?rows = "filter (\<lambda>r. jrStatus r = Queued \<and> (target = [] \<or> jrTarget r = target)) (dbJobs d)"
  let ?stamp = "timeKey (envNow env)"
  have "r \<in> set ?rows" using assms(5-7) by simp
  then obtain row where o: "oldest ?rows = Some row" using oldest_ex by blast
  have row: "row \<in> set (dbJobs d)" "jrStatus row = Queued" using oldest_Some [OF o] by simp_all
  have ok: "jobRowOK d row" using databaseOK_job [OF assms(1) row(1)] .
  then obtain sel where sel: "scanJob row = Inr sel" using scanJob_ok by blast
  have ok': "jobRowOK d (claimFields ?stamp row)"
    by (rule claimFields_OK [OF ok timestampText_key [OF assms(3)]])
  then obtain job where job: "scanJob (claimFields ?stamp row) = Inr job" using scanJob_ok by blast
  let ?d = "updateRow (jrID row) (claimFields ?stamp) d"
  have "references ?d job = references d job" by (simp add: references_def updateRow_def split: option.split)
  then have refs: "references d sel = Inr ()" "references ?d job = Inr ()"
    using references_row [OF ok sel] references_row [OF ok' job] by simp_all
  have u: "updateReturning (jobID sel) (\<lambda>r. jrStatus r = Queued) (claimFields ?stamp) LostRow d =
      Inr (?d, claimFields ?stamp row)"
    using find_by_id [of d row "\<lambda>r. jrStatus r = Queued", OF assms(1) row] ok' scanJob_fields(1) [OF sel]
    by (simp add: updateReturning_def)
  have "ClaimNext target env d = (Inr (Some job), ?d)"
    unfolding ClaimNext_def using assms(2,4) claim_stamp [OF assms(3)] o sel refs u job
    by (auto intro!: Write_ok)
  then show ?thesis using scanJob_fields(2) [OF job] by simp
qed

lemma sample_queue:
  "databaseOK (sampleDB [sampleRow job1 (timeKey (7, 0)) Queued None, sampleRow job2 (timeKey (5, 0)) Queued None])"
  by (rule databaseOK_two) (simp_all add: validStatus_def timestampText_key finiteRange_def)

lemma sampleEnv_simps [simp]:
  "envNow sampleEnv = (1000, 0)" "\<not> envFails sampleEnv" "finiteRange 1000 0"
  by (simp_all add: sampleEnv_def finiteRange_def)

lemma statusPatch_assignments:
  "assignments (emptyPatch\<lparr>patStatus := Some s\<rparr>) = Inr [(''status'', jrStatus_update (\<lambda>_. s))]"
  by (simp add: assignments_def emptyPatch_def assignNullable_def)

text \<open>A patch of the status alone succeeds whenever the machine has the move and the database accepts.\<close>

lemma UpdateJob_status_works:
  assumes "databaseOK d" "row \<in> set (dbJobs d)" "moves (jrStatus row) s" "\<not> envFails env"
    "finiteRange (fst (envNow env)) (snd (envNow env))"
  shows "\<exists>job d'. UpdateJob (jrID row) (emptyPatch\<lparr>patStatus := Some s\<rparr>) env d = (Inr job, d')"
proof -
  let ?f = "jrStatus_update (\<lambda>_. s)"
  have ok: "jobRowOK d (?f row)"
    using databaseOK_job [OF assms(1,2)] moves_status [OF assms(3)] by (simp add: jobRowOK_def)
  then obtain job where job: "scanJob (?f row) = Inr job" using scanJob_ok by blast
  have fd: "find (\<lambda>r. jrID r = jrID row) (dbJobs d) = Some row"
    using find_by_id [OF assms(1,2), of "\<lambda>_. True"] by simp
  have tr: "Transition (jrStatus row) s = Inr s" using assms(3) by (simp add: transitions_moves)
  have as: "applyAssignments [(''status'', ?f)] = ?f" by (simp add: fun_eq_iff applyAssignments_def)
  have ps: "patStatus (emptyPatch\<lparr>patStatus := Some s\<rparr>) = Some s" by simp
  have "UpdateJob (jrID row) (emptyPatch\<lparr>patStatus := Some s\<rparr>) env d = (Inr job, updateRow (jrID row) ?f d)"
    unfolding UpdateJob_def statusPatch_assignments
    using assms(4) claim_stamp [OF assms(5)] fd tr ok job as
    by (auto simp: updateReturning_def ps Transition_def intro!: Write_ok)
  then show ?thesis by blast
qed

section \<open>Properties\<close>

text \<open>
  C2: Whatever sequence of claims, lease recoveries, patches and enqueues runs, with whatever clocks,
  patches, inputs and database failures, the database keeps its invariant, no job disappears or changes
  its id, revision, target or creation time, every status change is a move of the state machine or the
  return of a claimed job to the queue, and an applied job stays applied.
\<close>
theorem store_invariant:
  assumes "databaseOK d" "storeStep\<^sup>*\<^sup>* d d'"
  shows "databaseOK d' \<and>
    (\<forall>r \<in> set (dbJobs d). \<exists>r' \<in> set (dbJobs d'). rowStep\<^sup>*\<^sup>* r r' \<and> jrID r' = jrID r \<and>
      jrRevisionID r' = jrRevisionID r \<and> jrTarget r' = jrTarget r \<and> jrCreatedAt r' = jrCreatedAt r \<and>
      (jrStatus r = Applied \<longrightarrow> jrStatus r' = Applied))"
proof (intro conjI ballI)
  show "databaseOK d'" by (rule storeSteps_ok [OF assms(2,1)])
  fix r assume "r \<in> set (dbJobs d)"
  from storeSteps_row [OF assms(2,1) this] obtain r' where "r' \<in> set (dbJobs d')" "rowStep\<^sup>*\<^sup>* r r'" by blast
  then show "\<exists>r' \<in> set (dbJobs d'). rowStep\<^sup>*\<^sup>* r r' \<and> jrID r' = jrID r \<and>
      jrRevisionID r' = jrRevisionID r \<and> jrTarget r' = jrTarget r \<and> jrCreatedAt r' = jrCreatedAt r \<and>
      (jrStatus r = Applied \<longrightarrow> jrStatus r' = Applied)"
    using rowSteps_identity rowSteps_Applied by blast
qed

theorem store_invariant_witness:
  "databaseOK (snd (ClaimNext [] sampleEnv (sampleDB [sampleRow job1 ''0'' Queued None, sampleRow job2 ''0'' Applied None])))"
proof -
  let ?d = "sampleDB [sampleRow job1 ''0'' Queued None, sampleRow job2 ''0'' Applied None]"
  have "databaseOK ?d"
    by (rule databaseOK_two) (simp_all add: timestampText_zero validStatus_def)
  moreover have "storeStep\<^sup>*\<^sup>* ?d (snd (ClaimNext [] sampleEnv ?d))"
    by (rule r_into_rtranclp) (rule storeStep.claim)
  ultimately show ?thesis using store_invariant by blast
qed

text \<open>
  C4: A claim takes a queued job of the requested target (any target for the empty text), none of the
  other candidates was created earlier, the returned job is that row in status validating, and no other
  row of the table changes.
\<close>
theorem ClaimNext_oldest:
  assumes "databaseOK d" "ClaimNext target env d = (Inr (Some job), d')"
  shows "\<exists>row stamp. row \<in> set (dbJobs d) \<and> jrStatus row = Queued \<and> (target = [] \<or> jrTarget row = target) \<and>
    (\<forall>r \<in> set (dbJobs d). jrStatus r = Queued \<and> (target = [] \<or> jrTarget r = target) \<longrightarrow> jrCreatedAt row \<le> jrCreatedAt r) \<and>
    jobID job = jrID row \<and> jobRevisionID job = jrRevisionID row \<and> jobStatus job = Validating \<and>
    d' = d\<lparr>dbJobs := map (\<lambda>r. if r = row then claimFields stamp r else r) (dbJobs d)\<rparr>"
proof -
  obtain stamp row where
    o: "oldest (filter (\<lambda>r. jrStatus r = Queued \<and> (target = [] \<or> jrTarget r = target)) (dbJobs d)) = Some row"
    and ex: "\<exists>r \<in> set (dbJobs d). jrID r = jrID row \<and> jrStatus r = Queued \<and> jobRowOK d (claimFields stamp r) \<and>
      scanJob (claimFields stamp r) = Inr job"
    and d': "d' = updateRow (jrID row) (claimFields stamp) d"
    by (rule ClaimNext_Some [OF assms(2)]) blast
  note old = oldest_Some [OF o]
  then have row: "row \<in> set (dbJobs d)" by simp
  then have job: "scanJob (claimFields stamp row) = Inr job" using ex row_by_id [OF assms(1)] by metis
  have "map (\<lambda>r. if jrID r = jrID row then claimFields stamp r else r) (dbJobs d) =
      map (\<lambda>r. if r = row then claimFields stamp r else r) (dbJobs d)"
    using row_by_id [OF assms(1) _ row] by (intro map_cong) auto
  then have "d' = d\<lparr>dbJobs := map (\<lambda>r. if r = row then claimFields stamp r else r) (dbJobs d)\<rparr>"
    unfolding d' updateRow_def by (simp only:)
  then show ?thesis
    using old scanJob_fields [OF job] by (intro exI [of _ row] exI [of _ stamp]) simp
qed

theorem ClaimNext_oldest_witness:
  "\<exists>job d'. ClaimNext [] sampleEnv
     (sampleDB [sampleRow job1 (timeKey (7, 0)) Queued None, sampleRow job2 (timeKey (5, 0)) Queued None]) =
     (Inr (Some job), d') \<and> jobID job = job2"
proof -
  let ?r1 = "sampleRow job1 (timeKey (7, 0)) Queued None" and ?r2 = "sampleRow job2 (timeKey (5, 0)) Queued None"
  let ?d = "sampleDB [?r1, ?r2]"
  have rows: "set (dbJobs ?d) = {?r1, ?r2}" by (simp add: sampleDB_def)
  have f: "jrStatus ?r1 = Queued" "jrStatus ?r2 = Queued" "jrCreatedAt ?r1 = timeKey (7, 0)"
    "jrCreatedAt ?r2 = timeKey (5, 0)" "jrID ?r2 = job2" by (simp_all add: sampleRow_def)
  obtain job d' where c: "ClaimNext [] sampleEnv ?d = (Inr (Some job), d')"
    using ClaimNext_works [OF sample_queue, of sampleEnv "[]" ?r1] rows f(1) by auto
  have less: "timeKey (5, 0) < timeKey (7, 0)"
    by (subst timeKey_less) (simp_all add: finiteRange_def nanosOf_def)
  obtain row where "row \<in> {?r1, ?r2}" "\<forall>r \<in> {?r1, ?r2}. jrStatus r = Queued \<longrightarrow> jrCreatedAt row \<le> jrCreatedAt r"
    "jobID job = jrID row"
    using ClaimNext_oldest [OF sample_queue c] unfolding rows by blast
  then have "row = ?r2" using f less by auto
  then show ?thesis using c \<open>jobID job = jrID row\<close> f(5) by simp
qed

text \<open>
  A claim never starves a queue that has work: when the database accepts the transaction and some
  queued job matches, a job is claimed.
\<close>
theorem ClaimNext_progress:
  assumes "databaseOK d" "\<not> envFails env" "finiteRange (fst (envNow env)) (snd (envNow env))"
    "target = [] \<or> validTarget target"
    "r \<in> set (dbJobs d)" "jrStatus r = Queued" "target = [] \<or> jrTarget r = target"
  shows "\<exists>job d'. ClaimNext target env d = (Inr (Some job), d') \<and> jobStatus job = Validating"
  by (rule ClaimNext_works [OF assms])

theorem ClaimNext_progress_witness:
  "\<exists>job d'. ClaimNext ''combined'' sampleEnv
     (sampleDB [sampleRow job1 (timeKey (7, 0)) Queued None, sampleRow job2 (timeKey (5, 0)) Queued None]) =
     (Inr (Some job), d') \<and> jobStatus job = Validating"
  by (rule ClaimNext_progress [OF sample_queue, of _ _ "sampleRow job1 (timeKey (7, 0)) Queued None"])
     (simp_all add: validTarget_def sampleDB_def sampleRow_def)

text \<open>
  Every job created while another job is queued, validating or applying is refused: an insert through
  \<open>EnqueueIfNotActive\<close> happens exactly when no row is active, adds one row with the requested revision and
  target at the end of the table and changes nothing else; otherwise the database is unchanged.
\<close>
theorem EnqueueIfNotActive_exclusive:
  assumes "databaseOK d" "EnqueueIfNotActive input env d = (Inr res, d')"
  shows "(res = None \<longleftrightarrow> (\<exists>r \<in> set (dbJobs d). isActiveRow r)) \<and> (res = None \<longrightarrow> d' = d) \<and>
    (\<forall>job. res = Some job \<longrightarrow>
      (\<exists>row. d' = d\<lparr>dbJobs := dbJobs d @ [row]\<rparr> \<and> jrID row = envUUID env \<and> jobRowOK d row \<and>
        scanJob row = Inr job \<and> GetJob (envUUID env) d' = Inr (Some job) \<and>
        jrRevisionID row = inRevisionID input \<and> jrTarget row = inTarget input \<and>
        jrStatus row = (if inStatus input = [] then Queued else inStatus input) \<and>
        filter isActiveRow (dbJobs d') = filter isActiveRow [row]))"
proof (cases res)
  case None
  then show ?thesis using assms EnqueueIfNotActive_None
    by (auto simp: EnqueueIfNotActive_def list_ex_iff elim!: Write_Inr split: if_splits)
next
  case (Some job)
  note e = EnqueueIfNotActive_Some [OF assms(2) [unfolded Some]]
  then obtain stamp where i: "insertJob (envUUID env) stamp input d = Inr (d', job)" by blast
  obtain row where row: "jrID row = envUUID env" "jobRowOK d row"
    "jrStatus row = (if inStatus input = [] then Queued else inStatus input)"
    "jrRevisionID row = inRevisionID input" "jrTarget row = inTarget input"
    "scanJob row = Inr job" "d' = d\<lparr>dbJobs := dbJobs d @ [row]\<rparr>"
    by (rule insertJob_Inr [OF i]) blast
  have "GetJob (jrID row) d' = Inr (Some job)"
    using GetJob_row [of d' row] insertJob_step [OF assms(1) i] row(6,7) by simp
  moreover have "filter isActiveRow (dbJobs d) = []" using e by (simp add: list_ex_iff filter_empty_conv)
  moreover have "\<not> (\<exists>r \<in> set (dbJobs d). isActiveRow r)" using e by (simp add: list_ex_iff)
  ultimately show ?thesis using row Some by (intro conjI) (simp, simp, intro allI impI exI [of _ row], simp)
qed





definition sampleEnqueue :: EnqueueInput where
  "sampleEnqueue = \<lparr>inRevisionID = rrID sampleRevision, inActorUserID = None, inTarget = ''combined'', inStatus = [],
     inSource = [], inSourcePrimaryID = None, inSourceNodeID = None, inSourceRevisionID = None,
     inSnapshotContentHash = None, inSnapshotVersion = None, inReplicationVersion = None,
     inLeadershipGeneration = None, inCorrelationID = ''c'', inValidationOutput = None, inApplyOutput = None,
     inHealthOutput = None, inErrorMessage = None, inClaimedAt = None, inStartedAt = None, inFinishedAt = None\<rparr>"

theorem EnqueueIfNotActive_exclusive_witness:
  "\<exists>job d'. EnqueueIfNotActive sampleEnqueue sampleEnv (sampleDB [sampleRow job1 ''0'' Applied None]) = (Inr (Some job), d') \<and>
     GetJob (envUUID sampleEnv) d' = Inr (Some job)"
proof -
  let ?d = "sampleDB [sampleRow job1 ''0'' Applied None]"
  have ok: "databaseOK ?d"
    by (rule databaseOK_sample) (use jobRowOK_sample [of "''0''" None job1 Applied] in
      \<open>simp_all add: timestampText_zero uuids validStatus_def\<close>)
  let ?row = "sampleRow (envUUID sampleEnv) (timeKey (1000, 0)) Queued None"
  have row: "enqueueRow (envUUID sampleEnv) (timeKey (1000, 0)) sampleEnqueue None None None None None None = ?row"
    by (simp add: enqueueRow_def sampleEnqueue_def sampleRow_def sampleRevision_def)
  have rok: "jobRowOK ?d ?row"
    by (rule jobRowOK_sample) (simp_all add: timestampText_key finiteRange_def sampleEnv_def uuids validStatus_def)
  then obtain job where job: "scanJob ?row = Inr job" using scanJob_ok by blast
  have ins: "insertJob (envUUID sampleEnv) (timeKey (1000, 0)) sampleEnqueue ?d =
      Inr (?d\<lparr>dbJobs := dbJobs ?d @ [?row]\<rparr>, job)"
  proof -
    have "envUUID sampleEnv \<notin> set (map jrID (dbJobs ?d))" by (simp add: sampleEnv_def sampleDB_def sampleRow_def)
    moreover have "optional f None = Inr None" for f :: "'x \<Rightarrow> store_error + 'y" by (simp add: optional_def)
    ultimately show ?thesis
      unfolding insertJob_def using row rok job by (simp add: sampleEnqueue_def optional_def)
  qed
  have "\<not> list_ex isActiveRow (dbJobs ?d)" by (simp add: sampleDB_def sampleRow_def isActiveRow_def)
  then have "EnqueueIfNotActive sampleEnqueue sampleEnv ?d = (Inr (Some job), ?d\<lparr>dbJobs := dbJobs ?d @ [?row]\<rparr>)"
    unfolding EnqueueIfNotActive_def using claim_stamp [of "envNow sampleEnv"] ins
    by (intro Write_ok [of _ "timeKey (1000, 0)"]) simp_all
  with EnqueueIfNotActive_exclusive [OF ok this] show ?thesis by blast
qed

end
