(* ===== verification/Revisions.thy ===== *)
theory Revisions
  imports JobQueue
begin

text \<open>
  The worker's revision store (\<open>worker/revisions/revisions.go\<close>): reading revisions, the choice of the
  revision the data plane should be running, and \<open>MarkApplied\<close>, which stamps a revision and points the
  installation settings at it in one transaction.
\<close>

section \<open>Revisions\<close>

record Revision =
  rvID :: string
  rvRevisionNumber :: int
  rvChecksum :: string
  rvSnapshot :: json
  rvActorUserID :: "string option"
  rvSource :: string
  rvSourcePrimaryID :: "string option"
  rvSourceNodeID :: "string option"
  rvSourceRevisionID :: "string option"
  rvSnapshotContentHash :: "string option"
  rvSnapshotVersion :: "int option"
  rvReplicationVersion :: "int option"
  rvLeadershipGeneration :: "int option"
  rvCreatedAt :: gotime
  rvAppliedAt :: "gotime option"

definition decodeRev :: "string \<Rightarrow> string \<Rightarrow> store_error + gotime" where
  "decodeRev name key =
     (case DecodeTimestamp (Some key) of
        Inl e \<Rightarrow> Inl (InvalidTime name e)
      | Inr (FiniteTimestamp s n) \<Rightarrow> Inr (s, n)
      | Inr _ \<Rightarrow> Inr zeroTime)"

definition scanRevision :: "revRow \<Rightarrow> store_error + Revision" where
  "scanRevision row =
     bindE (scanUUID ''id'' (rrID row)) (\<lambda>id.
     if \<not> validSource (rrSource row) then Inl InvalidDomain
     else
       bindE (scanInt32 ''revision_number'' (rrRevisionNumber row)) (\<lambda>number.
       if NUL \<in> set (rrChecksum row) then Inl (InvalidText ''revision'')
       else case rrSnapshot row of
         NotJSON \<Rightarrow> Inl (InvalidText ''revision'')
       | Doc snapshot \<Rightarrow>
       bindE (decodeRev ''created_at'' (rrCreatedAt row)) (\<lambda>createdAt.
       bindE (optional (decodeRev ''applied_at'') (rrAppliedAt row)) (\<lambda>appliedAt.
       bindE (optional (scanUUID ''actor_user_id'') (rrActorUserID row)) (\<lambda>actor.
       bindE (optional (scanUUID ''source_primary_id'') (rrSourcePrimaryID row)) (\<lambda>primary.
       bindE (optional (scanUUID ''source_node_id'') (rrSourceNodeID row)) (\<lambda>node.
       bindE (optional (scanUUID ''source_revision_id'') (rrSourceRevisionID row)) (\<lambda>sourceRevision.
       bindE (optional (scanText ''snapshot_content_hash'') (rrSnapshotContentHash row)) (\<lambda>hash.
       bindE (optional (scanInt32 ''snapshot_version'') (rrSnapshotVersion row)) (\<lambda>snapshotVersion.
       bindE (optional (scanInt32 ''replication_version'') (rrReplicationVersion row)) (\<lambda>replicationVersion.
       Inr \<lparr>rvID = id, rvRevisionNumber = number, rvChecksum = rrChecksum row, rvSnapshot = snapshot,
            rvActorUserID = actor, rvSource = rrSource row, rvSourcePrimaryID = primary, rvSourceNodeID = node,
            rvSourceRevisionID = sourceRevision, rvSnapshotContentHash = hash, rvSnapshotVersion = snapshotVersion,
            rvReplicationVersion = replicationVersion, rvLeadershipGeneration = rrLeadershipGeneration row,
            rvCreatedAt = createdAt, rvAppliedAt = appliedAt\<rparr>)))))))))))"

definition oneRevision :: "revRow option \<Rightarrow> store_error + Revision option" where
  "oneRevision row = optional scanRevision row"

definition GetRevision :: "string \<Rightarrow> database \<Rightarrow> store_error + Revision option" where
  "GetRevision rid d = oneRevision (find (\<lambda>r. rrID r = rid) (dbRevisions d))"

text \<open>\<open>ORDER BY ... LIMIT 1\<close>: the first element that no other one precedes.\<close>

fun firstBy :: "('a \<Rightarrow> 'a \<Rightarrow> bool) \<Rightarrow> 'a list \<Rightarrow> 'a option" where
  "firstBy before [] = None"
| "firstBy before (x # xs) =
     (case firstBy before xs of
        None \<Rightarrow> Some x
      | Some m \<Rightarrow> if before m x then Some m else Some x)"

definition Latest :: "database \<Rightarrow> store_error + Revision option" where
  "Latest d = oneRevision (firstBy (\<lambda>a b. rrRevisionNumber b < rrRevisionNumber a) (dbRevisions d))"

text \<open>The join of applied jobs with their stamped revisions, and the order of the query.\<close>

definition appliedPairs :: "database \<Rightarrow> (jobRow \<times> revRow) list" where
  "appliedPairs d =
     [(j, r). j \<leftarrow> dbJobs d, r \<leftarrow> dbRevisions d,
        rrID r = jrRevisionID j \<and> jrStatus j = Applied \<and> rrAppliedAt r \<noteq> None]"

definition finishKey :: "jobRow \<Rightarrow> string" where
  "finishKey j = (case jrFinishedAt j of Some f \<Rightarrow> f | None \<Rightarrow> jrCreatedAt j)"

definition finishedAfter :: "jobRow \<times> revRow \<Rightarrow> jobRow \<times> revRow \<Rightarrow> bool" where
  "finishedAfter p q \<longleftrightarrow>
     finishKey (fst q) < finishKey (fst p) \<or>
     (finishKey (fst q) = finishKey (fst p) \<and> jrCreatedAt (fst q) < jrCreatedAt (fst p))"

definition LatestApplied :: "database \<Rightarrow> store_error + Revision option" where
  "LatestApplied d =
     bindE (oneRevision (map_option snd (firstBy finishedAfter (appliedPairs d)))) (\<lambda>found.
     if found \<noteq> None then Inr found
     else bindE (Latest d) (\<lambda>latest.
       case latest of
         None \<Rightarrow> Inr None
       | Some r \<Rightarrow> if rvAppliedAt r = None then Inr None else Inr (Some r)))"

text \<open>\<open>MarkApplied\<close>: the zero time stands for the clock of the store, read before the transaction.\<close>

definition stampRevision :: "string \<Rightarrow> string \<Rightarrow> revRow \<Rightarrow> revRow" where
  "stampRevision rid key r = (if rrID r = rid then r\<lparr>rrAppliedAt := Some key\<rparr> else r)"

definition markSettings :: "string \<Rightarrow> string \<Rightarrow> string \<Rightarrow> settingsRow option \<Rightarrow> settingsRow" where
  "markSettings rid key stamp s =
     (case s of None \<Rightarrow> \<lparr>srCurrentAppliedRevisionID = None, srUpdatedAt = stamp\<rparr> | Some row \<Rightarrow> row)
       \<lparr>srCurrentAppliedRevisionID := Some rid, srUpdatedAt := key\<rparr>"

definition MarkApplied ::
  "string \<Rightarrow> gotime \<Rightarrow> gotime \<Rightarrow> writeEnv \<Rightarrow> database \<Rightarrow> (store_error + Revision) \<times> database" where
  "MarkApplied rid appliedAt clock env d =
     (case encodeTime (if appliedAt = zeroTime then clock else appliedAt) of
        Inl e \<Rightarrow> (Inl e, d)
      | Inr key \<Rightarrow>
          Write env d (\<lambda>stamp d.
            case find (\<lambda>r. rrID r = rid) (dbRevisions d) of
              None \<Rightarrow> Inl (RevisionNotFound rid)
            | Some row \<Rightarrow>
                if \<not> revRowOK d (stampRevision rid key row) then Inl ConstraintViolation
                else bindE (scanRevision (stampRevision rid key row)) (\<lambda>revision.
                  Inr (d\<lparr>dbRevisions := map (stampRevision rid key) (dbRevisions d),
                         dbSettings := Some (markSettings rid key stamp (dbSettings d))\<rparr>, revision))))"

section \<open>Lemmas\<close>

lemma decodeRev_ok: "timestampText k \<Longrightarrow> \<exists>t. decodeRev name k = Inr t"
  by (auto simp: decodeRev_def timestampText_def split: sum.splits Timestamp.splits)

lemma optional_rev_ok: "pred_option timestampText v \<Longrightarrow> \<exists>w. optional (decodeRev n) v = Inr w"
  using decodeRev_ok by (cases v) (auto simp: optional_def)

lemma optional_Some: "optional f v = Inr w \<Longrightarrow> w = None \<longleftrightarrow> v = None"
  by (cases v) (auto simp: optional_def)

lemma scanRevision_fields:
  assumes "scanRevision row = Inr rv"
  shows "rvID rv = rrID row" "rvChecksum rv = rrChecksum row" "rvRevisionNumber rv = rrRevisionNumber row"
    "optional (decodeRev ''applied_at'') (rrAppliedAt row) = Inr (rvAppliedAt rv)"
    "rrSnapshot row = Doc (rvSnapshot rv)"
  using assms unfolding scanRevision_def by (auto split: if_splits rawdoc.splits)

lemma scanRevision_ok: "revRowOK d row \<Longrightarrow> \<exists>rv. scanRevision row = Inr rv"
proof -
  assume ok: "revRowOK d row"
  have act: "pred_option uuidPattern (rrActorUserID row)"
    using ok by (cases "rrActorUserID row") (simp_all add: revRowOK_def)
  have src: "validSource (rrSource row)" using ok unfolding revRowOK_def validSource_def by metis
  note col = ok [unfolded revRowOK_def]
  obtain doc where doc: "rrSnapshot row = Doc doc" using col by (cases "rrSnapshot row") auto
  obtain t where t: "decodeRev ''created_at'' (rrCreatedAt row) = Inr t" using col decodeRev_ok by blast
  obtain t1 where t1: "optional (decodeRev ''applied_at'') (rrAppliedAt row) = Inr t1" using col optional_rev_ok by blast
  obtain u1 where u1: "optional (scanUUID ''actor_user_id'') (rrActorUserID row) = Inr u1" using optional_uuid_ok [OF act]  by blast
  obtain u2 where u2: "optional (scanUUID ''source_primary_id'') (rrSourcePrimaryID row) = Inr u2" using optional_uuid_ok col by blast
  obtain u3 where u3: "optional (scanUUID ''source_node_id'') (rrSourceNodeID row) = Inr u3" using optional_uuid_ok col by blast
  obtain u4 where u4: "optional (scanUUID ''source_revision_id'') (rrSourceRevisionID row) = Inr u4" using optional_uuid_ok col by blast
  obtain h where h: "optional (scanText ''snapshot_content_hash'') (rrSnapshotContentHash row) = Inr h" using optional_text_ok col by blast
  obtain i1 where i1: "optional (scanInt32 ''snapshot_version'') (rrSnapshotVersion row) = Inr i1" using optional_int_ok col by blast
  obtain i2 where i2: "optional (scanInt32 ''replication_version'') (rrReplicationVersion row) = Inr i2" using optional_int_ok col by blast
  have "uuidPattern (rrID row)" "int32Range (rrRevisionNumber row)" "NUL \<notin> set (rrChecksum row)" using col by blast+
  then show ?thesis
    by (simp add: scanRevision_def src doc t t1 u1 u2 u3 u4 h i1 i2 scanUUID_def scanInt32_def int32Range_def)
qed

lemma rev_by_id: "databaseOK d \<Longrightarrow> r \<in> set (dbRevisions d) \<Longrightarrow> r' \<in> set (dbRevisions d) \<Longrightarrow> rrID r = rrID r' \<Longrightarrow> r = r'"
  by (auto simp: databaseOK_def distinct_map inj_on_def)

lemma find_revision:
  assumes "databaseOK d" "row \<in> set (dbRevisions d)"
  shows "find (\<lambda>r. rrID r = rrID row) (dbRevisions d) = Some row"
proof -
  obtain x where x: "find (\<lambda>r. rrID r = rrID row) (dbRevisions d) = Some x"
    using assms(2) by (cases "find (\<lambda>r. rrID r = rrID row) (dbRevisions d)") (auto simp: find_None_iff)
  from find_some [OF x] rev_by_id [OF assms(1) _ assms(2)] x show ?thesis by auto
qed

lemma firstBy_None [simp]: "firstBy before xs = None \<longleftrightarrow> xs = []"
  by (cases xs) (auto split: option.splits)

lemma firstBy_Some:
  assumes trans: "\<And>a b c. \<not> before b a \<Longrightarrow> \<not> before c b \<Longrightarrow> \<not> before c a"
    and asym: "\<And>a b. before a b \<Longrightarrow> \<not> before b a"
  shows "firstBy before xs = Some m \<Longrightarrow> m \<in> set xs \<and> (\<forall>x \<in> set xs. \<not> before x m)"
proof (induction xs arbitrary: m)
  case (Cons x xs)
  show ?case
  proof (cases "firstBy before xs")
    case None
    then show ?thesis using Cons.prems asym by auto
  next
    case (Some k)
    note IH = Cons.IH [OF Some]
    show ?thesis
    proof (cases "before k x")
      case True
      then show ?thesis using Cons.prems Some IH asym by auto
    next
      case False
      then have "m = x" using Cons.prems Some by simp
      moreover have "\<not> before y x" if "y \<in> set xs" for y using trans [of k x y] IH that False by blast
      ultimately show ?thesis using asym by auto
    qed
  qed
qed simp

lemma finishedAfter_order:
  "\<not> finishedAfter b a \<Longrightarrow> \<not> finishedAfter c b \<Longrightarrow> \<not> finishedAfter c a"
  "finishedAfter a b \<Longrightarrow> \<not> finishedAfter b a"
  unfolding finishedAfter_def by (auto simp: not_less)

lemma firstBy_finishedAfter:
  "firstBy finishedAfter ps = Some p \<Longrightarrow> p \<in> set ps \<and> (\<forall>x \<in> set ps. \<not> finishedAfter x p)"
  by (rule firstBy_Some) (use finishedAfter_order in blast)+

lemma appliedPairs_mem:
  "(j, r) \<in> set (appliedPairs d) \<longleftrightarrow>
     j \<in> set (dbJobs d) \<and> r \<in> set (dbRevisions d) \<and> rrID r = jrRevisionID j \<and> jrStatus j = Applied \<and> rrAppliedAt r \<noteq> None"
  by (auto simp: appliedPairs_def)

lemma decodeRev_key: "finiteRange (fst t) (snd t) \<Longrightarrow> decodeRev n (timeKey t) = Inr t"
  by (simp add: decodeRev_def timeKey_def DecodeTimestamp_finite [simplified] del: fixedDigits.simps)

lemma stampRevision_simps [simp]:
  "rrID (stampRevision rid key r) = rrID r" "rrRevisionNumber (stampRevision rid key r) = rrRevisionNumber r"
  by (simp_all add: stampRevision_def)

lemma MarkApplied_Inr:
  assumes "MarkApplied rid appliedAt clock env d = (Inr rv, d')"
  obtains key stamp row where "encodeTime (if appliedAt = zeroTime then clock else appliedAt) = Inr key"
    "row \<in> set (dbRevisions d)" "rrID row = rid" "revRowOK d (stampRevision rid key row)"
    "scanRevision (stampRevision rid key row) = Inr rv"
    "d' = d\<lparr>dbRevisions := map (stampRevision rid key) (dbRevisions d),
      dbSettings := Some (markSettings rid key stamp (dbSettings d))\<rparr>"
proof -
  obtain key where key: "encodeTime (if appliedAt = zeroTime then clock else appliedAt) = Inr key"
    using assms unfolding MarkApplied_def by (cases "encodeTime (if appliedAt = zeroTime then clock else appliedAt)") auto
  show thesis
    using assms that [OF key] unfolding MarkApplied_def key
    by (auto elim!: Write_Inr dest!: find_some split: option.splits if_splits)
qed

lemma databaseOK_revisions:
  assumes ok: "databaseOK d" and d': "dbJobs d' = dbJobs d" "dbUsers d' = dbUsers d" "dbRevisions d' = map f (dbRevisions d)"
    and f: "\<And>r. rrID (f r) = rrID r" "\<And>r. rrRevisionNumber (f r) = rrRevisionNumber r"
    "\<And>r. r \<in> set (dbRevisions d) \<Longrightarrow> revRowOK d (f r)"
  shows "databaseOK d'"
proof -
  have ids: "map rrID (dbRevisions d') = map rrID (dbRevisions d)"
    "map rrRevisionNumber (dbRevisions d') = map rrRevisionNumber (dbRevisions d)" by (simp_all add: d'(3) f)
  have "rrID ` set (dbRevisions d') = rrID ` set (dbRevisions d)"
    using ids(1) by (metis set_map)
  then have j: "jobRowOK d' = jobRowOK d" by (intro ext) (simp add: jobRowOK_def d'(2))
  have r: "revRowOK d' = revRowOK d" by (intro ext) (simp add: revRowOK_def d'(2))
  have "list_all (revRowOK d) (dbRevisions d')" unfolding d'(3) list_all_iff set_map using f(3) by blast
  then show ?thesis using ok by (simp only: databaseOK_def j r ids d'(1)) 
qed

lemma find_map_stamp:
  assumes "rid' \<noteq> rid"
  shows "find (\<lambda>r. rrID r = rid') (map (stampRevision rid key) rs) = find (\<lambda>r. rrID r = rid') rs"
  using assms by (induction rs) (auto simp: stampRevision_def)

lemma MarkApplied_effect:
  assumes "databaseOK d" "MarkApplied rid appliedAt clock env d = (Inr rv, d')"
    "t = (if appliedAt = zeroTime then clock else appliedAt)" "finiteRange (fst t) (snd t)"
  shows "databaseOK d' \<and> GetRevision rid d' = Inr (Some rv) \<and> rvID rv = rid \<and> rvAppliedAt rv = Some t \<and>
    map_option srCurrentAppliedRevisionID (dbSettings d') = Some (Some rid) \<and> dbJobs d' = dbJobs d \<and>
    (\<forall>rid'. rid' \<noteq> rid \<longrightarrow> GetRevision rid' d' = GetRevision rid' d)"
proof -
  obtain key stamp row where m: "encodeTime t = Inr key" "row \<in> set (dbRevisions d)" "rrID row = rid"
    "revRowOK d (stampRevision rid key row)" "scanRevision (stampRevision rid key row) = Inr rv"
    and d': "d' = d\<lparr>dbRevisions := map (stampRevision rid key) (dbRevisions d),
      dbSettings := Some (markSettings rid key stamp (dbSettings d))\<rparr>"
    unfolding assms(3) by (rule MarkApplied_Inr [OF assms(2)]) blast
  have key: "key = timeKey t" using m(1) encodeTime_key [OF assms(4)] by simp
  have "revRowOK d (stampRevision rid key r)" if "r \<in> set (dbRevisions d)" for r
    using that m(2-4) rev_by_id [OF assms(1) that m(2)] databaseOK_rev [OF assms(1) that]
    by (cases "rrID r = rid") (auto simp: stampRevision_def)
  then have ok: "databaseOK d'" by (intro databaseOK_revisions [OF assms(1), of _ "stampRevision rid key"]) (simp_all add: d')
  have "stampRevision rid key row \<in> set (dbRevisions d')" using m(2) by (simp add: d')
  from find_revision [OF ok this] m(3,5) have "GetRevision rid d' = Inr (Some rv)"
    by (simp add: GetRevision_def oneRevision_def optional_def)
  moreover have "rvAppliedAt rv = Some t"
    using scanRevision_fields(4) [OF m(5)] m(3) decodeRev_key [OF assms(4)]
    by (simp add: stampRevision_def optional_def key)
  moreover have "rvID rv = rid" using scanRevision_fields(1) [OF m(5)] m(3) by simp
  ultimately show ?thesis using ok by (simp add: d' markSettings_def GetRevision_def find_map_stamp)
qed

section \<open>Properties\<close>



text \<open>
  The reconcile target is always readable and is the revision of the applied job that finished last
  (by its finish time, its creation time when it has none, and the later creation among equals), among
  the jobs whose revision is stamped; only when there is no such job is it the revision with the highest
  number, and then only if that one is stamped.
\<close>
theorem LatestApplied_target:
  assumes "databaseOK d"
  shows "(\<exists>j r rv. (j, r) \<in> set (appliedPairs d) \<and> LatestApplied d = Inr (Some rv) \<and> rvID rv = jrRevisionID j \<and>
      rvAppliedAt rv \<noteq> None \<and>
      (\<forall>(j', r') \<in> set (appliedPairs d). finishKey j' < finishKey j \<or>
        (finishKey j' = finishKey j \<and> jrCreatedAt j' \<le> jrCreatedAt j))) \<or>
    (appliedPairs d = [] \<and>
     (LatestApplied d = Inr None \<and> (\<forall>r \<in> set (dbRevisions d). rrAppliedAt r \<noteq> None \<longrightarrow>
        (\<exists>r' \<in> set (dbRevisions d). rrRevisionNumber r < rrRevisionNumber r')) \<or>
      (\<exists>rv. LatestApplied d = Inr (Some rv) \<and> rvAppliedAt rv \<noteq> None \<and> rvID rv \<in> rrID ` set (dbRevisions d) \<and>
        (\<forall>r \<in> set (dbRevisions d). rrRevisionNumber r \<le> rvRevisionNumber rv))))"
proof (cases "firstBy finishedAfter (appliedPairs d)")
  case (Some p)
  obtain j r where p: "p = (j, r)" by (cases p)
  have max: "(j, r) \<in> set (appliedPairs d)" "\<And>x. x \<in> set (appliedPairs d) \<Longrightarrow> \<not> finishedAfter x (j, r)"
    using firstBy_finishedAfter [OF Some] p by blast+
  have mem: "r \<in> set (dbRevisions d)" "rrID r = jrRevisionID j" "rrAppliedAt r \<noteq> None"
    using max(1) by (simp_all add: appliedPairs_mem)
  obtain rv where rv: "scanRevision r = Inr rv" using scanRevision_ok [OF databaseOK_rev [OF assms mem(1)]] by blast
  have "LatestApplied d = Inr (Some rv)"
    by (simp add: LatestApplied_def Some p oneRevision_def optional_def rv)
  moreover have "rvAppliedAt rv \<noteq> None"
    using optional_Some [OF scanRevision_fields(4) [OF rv]] mem(3) by simp
  moreover have "finishKey j' < finishKey j \<or> (finishKey j' = finishKey j \<and> jrCreatedAt j' \<le> jrCreatedAt j)"
    if "(j', r') \<in> set (appliedPairs d)" for j' r'
    using max(2) [OF that] by (auto simp: finishedAfter_def not_less)
  ultimately show ?thesis
    using max(1) scanRevision_fields(1) [OF rv] mem(2)
    by (intro disjI1 exI [of _ j] exI [of _ r] exI [of _ rv] conjI) (assumption | simp | blast)+
next
  case None
  then have empty: "appliedPairs d = []" by simp
  let ?before = "\<lambda>a b :: revRow. rrRevisionNumber b < rrRevisionNumber a"
  show ?thesis
  proof (cases "firstBy ?before (dbRevisions d)")
    case None
    then have "dbRevisions d = []" by simp
    then show ?thesis using empty by (simp add: LatestApplied_def Latest_def oneRevision_def optional_def)
  next
    case (Some m)
    have m: "m \<in> set (dbRevisions d)" "\<forall>r \<in> set (dbRevisions d). rrRevisionNumber r \<le> rrRevisionNumber m"
      using firstBy_Some [of ?before, OF _ _ Some] by (auto simp: not_less)
    obtain rv where rv: "scanRevision m = Inr rv" using scanRevision_ok [OF databaseOK_rev [OF assms m(1)]] by blast
    have la: "LatestApplied d = Inr (if rvAppliedAt rv = None then None else Some rv)"
      by (simp add: LatestApplied_def Latest_def empty Some oneRevision_def optional_def rv)
    show ?thesis
    proof (cases "rvAppliedAt rv = None")
      case True
      then have "rrAppliedAt m = None" using optional_Some [OF scanRevision_fields(4) [OF rv]] by simp
      then have "rrRevisionNumber r < rrRevisionNumber m"
        if "r \<in> set (dbRevisions d)" "rrAppliedAt r \<noteq> None" for r
        using m that assms by (metis databaseOK_def distinct_map inj_on_def order_le_less)
      then show ?thesis using la True empty m(1) by auto
    next
      case False
      then show ?thesis using la empty m scanRevision_fields [OF rv] by auto
    qed
  qed
qed

theorem LatestApplied_target_witness:
  "\<exists>res. LatestApplied (sampleDB []) = Inr res"
proof -
  have "databaseOK (sampleDB [])" by (rule databaseOK_sample) simp_all
  from LatestApplied_target [OF this] show ?thesis by blast
qed

end
