(* ===== verification/GoJson.thy ===== *)
theory GoJson
  imports DomainModel
begin

text \<open>
  What the sources use of \<open>encoding/json\<close> and \<open>fmt\<close> for untyped values, and \<open>StableStringify\<close> of the domain
  package (\<open>snapshot.go\<close>).  Strings are valid UTF-8, as every string that came out of a JSON decoder is;
  integers stand for numbers up to 2^53 in absolute value and fractions for those not below 10^-6, the
  ranges in which Go prints a \<open>float64\<close> without an exponent and without rounding.
\<close>

section \<open>Strings\<close>

definition hexDigit :: "nat \<Rightarrow> char" where
  "hexDigit d = (if d < 10 then char_of (48 + d) else char_of (87 + d))"

definition u00 :: "char \<Rightarrow> string" where
  "u00 c = BS @ ''u00'' @ [hexDigit (of_char c div 16), hexDigit (of_char c mod 16)]"

text \<open>The escapes of \<open>appendString\<close>; \<open>html\<close> is the encoder's escapeHTML setting.\<close>

definition escapeByte :: "bool \<Rightarrow> char \<Rightarrow> string" where
  "escapeByte html c =
     (if c = CHR 0x22 \<or> c = CHR 0x5C then BS @ [c]
      else if c = CHR 0x08 then BS @ ''b''
      else if c = CHR 0x0C then BS @ ''f''
      else if c = CHR 0x0A then BS @ ''n''
      else if c = CHR 0x0D then BS @ ''r''
      else if c = CHR 0x09 then BS @ ''t''
      else if c < CHR '' '' then u00 c
      else if html \<and> c \<in> {CHR ''<'', CHR ''>'', CHR ''&''} then u00 c
      else [c])"

fun escapeString :: "bool \<Rightarrow> string \<Rightarrow> string" where
  "escapeString html [] = []"
| "escapeString html (c # s) =
     (if HasPrefix (c # s) [CHR 0xE2, CHR 0x80, CHR 0xA8] then BS @ ''u2028'' @ escapeString html (drop 2 s)
      else if HasPrefix (c # s) [CHR 0xE2, CHR 0x80, CHR 0xA9] then BS @ ''u2029'' @ escapeString html (drop 2 s)
      else escapeByte html c @ escapeString html s)"

definition jsonString :: "bool \<Rightarrow> string \<Rightarrow> string" where
  "jsonString html s = DQ @ escapeString html s @ DQ"

section \<open>Values\<close>

lemma size_member: "(k, v) \<in> set m \<Longrightarrow> size v < size (JObj m)"
  by (induction m) auto

lemma size_element: "v \<in> set xs \<Longrightarrow> size v < size (JArr xs)"
  by (induction xs) auto

text \<open>Compact output with the members of an object in the order of their keys, which is what
  \<open>encoding/json\<close> does with maps.\<close>

function jsonText :: "bool \<Rightarrow> json \<Rightarrow> string" where
  "jsonText html JNull = ''null''"
| "jsonText html (JBool b) = (if b then ''true'' else ''false'')"
| "jsonText html (JInt i) = Itoa i"
| "jsonText html (JFrac t) = t"
| "jsonText html (JStr s) = jsonString html s"
| "jsonText html (JArr xs) = ''['' @ Join (map (jsonText html) xs) '','' @ '']''"
| "jsonText html (JObj m) =
     ''{'' @ Join (map (\<lambda>(k, t). jsonString html k @ '':'' @ t)
                   (sort_key fst (map (\<lambda>(k, v). (k, jsonText html v)) m))) '','' @ ''}''"
  by pat_completeness auto
termination
  by (relation "measure (size \<circ> snd)") (auto dest: size_member size_element simp del: json.size)

text \<open>\<open>jsonStringify\<close> of the CoreDNS renderer: an encoder without HTML escaping ends its output with a
  newline, which is cut off again.\<close>

definition jsonStringify :: "json \<Rightarrow> string" where
  "jsonStringify value = TrimSuffix (jsonText False value @ NL) NL"

text \<open>\<open>writeStable\<close> of the domain package writes the tree itself and uses \<open>json.Marshal\<close>, which escapes
  HTML, for strings and keys.\<close>

function writeStable :: "json \<Rightarrow> string" where
  "writeStable JNull = ''null''"
| "writeStable (JBool b) = (if b then ''true'' else ''false'')"
| "writeStable (JInt i) = Itoa i"
| "writeStable (JFrac t) = t"
| "writeStable (JStr s) = jsonString True s"
| "writeStable (JArr xs) = ''['' @ Join (map writeStable xs) '','' @ '']''"
| "writeStable (JObj m) =
     ''{'' @ Join (map (\<lambda>(key, t). jsonString True key @ '':'' @ t)
                   (sort_key fst (map (\<lambda>(key, v). (key, writeStable v)) m))) '','' @ ''}''"
  by pat_completeness auto
termination
  by (relation "measure size") (auto dest: size_member size_element simp del: json.size)

text \<open>\<open>fmt.Sprint\<close> of a value.\<close>

function sprint :: "json \<Rightarrow> string" where
  "sprint JNull = ''<nil>''"
| "sprint (JBool b) = (if b then ''true'' else ''false'')"
| "sprint (JInt i) = Itoa i"
| "sprint (JFrac t) = t"
| "sprint (JStr s) = s"
| "sprint (JArr xs) = ''['' @ Join (map sprint xs) '' '' @ '']''"
| "sprint (JObj m) =
     ''map['' @ Join (map (\<lambda>(k, t). k @ '':'' @ t)
                      (sort_key fst (map (\<lambda>(k, v). (k, sprint v)) m))) '' '' @ '']''"
  by pat_completeness auto
termination
  by (relation "measure size") (auto dest: size_member size_element simp del: json.size)

section \<open>Lemmas\<close>

lemma sort_key_fst_perm:
  fixes m m' :: "('k :: linorder \<times> 'v) list"
  assumes "distinct (map fst m)" "mset m' = mset m"
  shows "sort_key fst m' = sort_key fst m"
proof (rule map_sorted_distinct_set_unique [of fst])
  have sm: "set m' = set m" using assms(2) by (metis set_mset_mset)
  have "inj_on fst (set m)" using assms(1) by (simp add: distinct_map)
  then show "inj_on fst (set (sort_key fst m') \<union> set (sort_key fst m))" by (simp add: sm)
  have "mset (map fst (sort_key fst m)) = mset (map fst m)"
    "mset (map fst (sort_key fst m')) = mset (map fst m)"
    using assms(2) by simp_all
  then show "distinct (map fst (sort_key fst m))" "distinct (map fst (sort_key fst m'))"
    using assms(1) mset_eq_imp_distinct_iff by blast+
  show "set (sort_key fst m') = set (sort_key fst m)" by (simp add: sm)
qed simp_all

text \<open>The text of an object does not depend on the order in which its members are listed.\<close>

lemma writeStable_member_order:
  assumes "distinct (map fst m)" "mset m' = mset m"
  shows "writeStable (JObj m') = writeStable (JObj m)"
proof -
  let ?f = "\<lambda>(key, v). (key, writeStable v)"
  have "distinct (map fst (map ?f m))"
    using assms(1) by (simp add: comp_def case_prod_unfold)
  moreover have "mset (map ?f m') = mset (map ?f m)" using assms(2) by (metis mset_map)
  ultimately have "sort_key fst (map ?f m') = sort_key fst (map ?f m)" by (rule sort_key_fst_perm)
  then show ?thesis by (simp only: writeStable.simps)
qed

lemma jsonStringify_text [simp]: "jsonStringify v = jsonText False v"
  by (simp add: jsonStringify_def TrimSuffix_def)

end
