(* ===== verification/Redact.thy ===== *)
theory Redact
  imports GoJson
begin

text \<open>
  What keeps secrets out of stored messages: \<open>RedactSecrets\<close> of package \<open>secrets\<close> and \<open>scrubMessage\<close> of the
  apply package (\<open>worker/apply/scrub.go\<close>).  The two regular expressions are written out as matchers on
  bytes; under case folding the letter s also matches the long s and k the Kelvin sign.  The decoder of
  \<open>encoding/json\<close> for a whole text is the parameter \<open>unmarshal\<close> of \<open>scrubMessage\<close>.
\<close>

section \<open>Sensitive words\<close>

text \<open>The rest of \<open>s\<close> behind a lower case word, under case folding.\<close>

fun stripWord :: "string \<Rightarrow> string \<Rightarrow> string option" where
  "stripWord [] s = Some s"
| "stripWord (k # ks) s =
     (case s of
        [] \<Rightarrow> None
      | c # cs \<Rightarrow>
          if lowerChar c = k then stripWord ks cs
          else if k = CHR ''s'' \<and> HasPrefix s [CHR 0xC5, CHR 0xBF] then stripWord ks (drop 2 s)
          else if k = CHR ''k'' \<and> HasPrefix s [CHR 0xE2, CHR 0x84, CHR 0xAA] then stripWord ks (drop 3 s)
          else None)"

text \<open>The number of bytes of the UTF-8 character that starts with a byte.\<close>

definition runeLen :: "char \<Rightarrow> nat" where
  "runeLen c = (if c < CHR 0xC0 then 1 else if c < CHR 0xE0 then 2 else if c < CHR 0xF0 then 3 else 4)"

definition sensitiveHere :: "string \<Rightarrow> bool" where
  "sensitiveHere s \<longleftrightarrow>
     list_ex (\<lambda>w. stripWord w s \<noteq> None) [''pass'', ''secret'', ''token'', ''ciphertext'', ''authorization''] \<or>
     (case stripWord ''private'' s of
        None \<Rightarrow> False
      | Some r \<Rightarrow> stripWord ''key'' r \<noteq> None \<or>
          (r \<noteq> [] \<and> hd r \<noteq> CHR 0x0A \<and> stripWord ''key'' (drop (runeLen (hd r)) r) \<noteq> None))"

text \<open>\<open>redactPattern\<close> matches anywhere in a key.\<close>

fun redactPattern :: "string \<Rightarrow> bool" where
  "redactPattern [] = False"
| "redactPattern (c # s) = (sensitiveHere (c # s) \<or> redactPattern s)"

definition redacted :: string where
  "redacted = ''[REDACTED]''"

function RedactSecrets :: "json \<Rightarrow> json" where
  "RedactSecrets (JArr xs) = JArr (map RedactSecrets xs)"
| "RedactSecrets (JObj m) =
     JObj (map (\<lambda>(key, item). (key, if redactPattern key then JStr redacted else RedactSecrets item)) m)"
| "RedactSecrets JNull = JNull"
| "RedactSecrets (JBool b) = JBool b"
| "RedactSecrets (JInt i) = JInt i"
| "RedactSecrets (JFrac t) = JFrac t"
| "RedactSecrets (JStr s) = JStr s"
  by pat_completeness auto
termination
  by (relation "measure size") (auto dest: size_member size_element simp del: json.size)

section \<open>Messages\<close>

definition isWord :: "char \<Rightarrow> bool" where
  "isWord c \<longleftrightarrow> isAlnum c \<or> c = CHR ''_''"

definition isReSpace :: "char \<Rightarrow> bool" where
  "isReSpace c \<longleftrightarrow> c \<in> {CHR 0x09, CHR 0x0A, CHR 0x0C, CHR 0x0D, CHR '' ''}"

text \<open>The key part of \<open>inlineSecret\<close>: the rest behind the sensitive word.\<close>

definition keyWord :: "string \<Rightarrow> string option" where
  "keyWord s =
     (case List.extract (\<lambda>w. stripWord w s \<noteq> None) [''pass'', ''secret'', ''token'', ''ciphertext'', ''authorization''] of
        Some (_, w, _) \<Rightarrow> stripWord w s
      | None \<Rightarrow>
          (case stripWord ''private'' s of
             None \<Rightarrow> None
           | Some r \<Rightarrow>
               stripWord ''key'' (if r \<noteq> [] \<and> hd r \<in> {CHR '' '', CHR ''_'', CHR ''.'', CHR ''-''} then tl r else r)))"

text \<open>The rest behind the value: a quoted text that is closed, or everything up to white space.\<close>

definition valueRest :: "string \<Rightarrow> string option" where
  "valueRest s =
     (if s = [] \<or> isReSpace (hd s) then None
      else if hd s \<in> {CHR 0x22, CHR 0x27} \<and> hd s \<in> set (tl s)
           then Some (tl (dropWhile (\<lambda>c. c \<noteq> hd s) (tl s)))
      else Some (dropWhile (\<lambda>c. \<not> isReSpace c) s))"

definition skipQuote :: "string \<Rightarrow> string" where
  "skipQuote s = (if s \<noteq> [] \<and> hd s \<in> {CHR 0x22, CHR 0x27} then tl s else s)"

text \<open>The rest behind the separator, with the white space around it.\<close>

definition separatorRest :: "string \<Rightarrow> string option" where
  "separatorRest s =
     (let r = dropWhile isReSpace s in
      if r = [] \<or> hd r \<notin> {CHR '':'', CHR ''=''} then None else Some (dropWhile isReSpace (tl r)))"

definition matchSecret :: "string \<Rightarrow> (string \<times> string) option" where
  "matchSecret s =
     (case keyWord s of
        None \<Rightarrow> None
      | Some r \<Rightarrow>
          (case separatorRest (skipQuote (dropWhile isWord r)) of
             None \<Rightarrow> None
           | Some value \<Rightarrow>
               (case valueRest value of
                  None \<Rightarrow> None
                | Some rest \<Rightarrow> Some (take (length s - length value) s, rest))))"

lemma length_dropWhile: "length (dropWhile P xs) \<le> length xs"
  by (induction xs) auto

lemma valueRest_shorter: "valueRest s = Some r \<Longrightarrow> length r < length s"
proof -
  assume v: "valueRest s = Some r"
  then obtain c t where s: "s = c # t" by (cases s) (auto simp: valueRest_def)
  show ?thesis
    using v s length_dropWhile [of "\<lambda>x. x \<noteq> c" t] length_dropWhile [of "\<lambda>c. \<not> isReSpace c" t]
    by (auto simp: valueRest_def split: if_splits)
qed

lemma stripWord_shorter: "stripWord w s = Some r \<Longrightarrow> length r \<le> length s"
  by (induction w s rule: stripWord.induct) (fastforce split: list.splits if_splits)+

lemma keyWord_shorter: "keyWord s = Some r \<Longrightarrow> length r \<le> length s"
proof -
  assume k: "keyWord s = Some r"
  show ?thesis
  proof (cases "List.extract (\<lambda>w. stripWord w s \<noteq> None) [''pass'', ''secret'', ''token'', ''ciphertext'', ''authorization'']")
    case (Some t)
    then show ?thesis using k stripWord_shorter by (cases t) (auto simp: keyWord_def)
  next
    case None
    then obtain q where q: "stripWord ''private'' s = Some q"
      "stripWord ''key'' (if q \<noteq> [] \<and> hd q \<in> {CHR '' '', CHR ''_'', CHR ''.'', CHR ''-''} then tl q else q) = Some r"
      using k by (simp add: keyWord_def split: option.splits)
    have "length r \<le> length q" using stripWord_shorter [OF q(2)] by (auto split: if_splits)
    then show ?thesis using stripWord_shorter [OF q(1)] by simp
  qed
qed

lemma separatorRest_shorter: "separatorRest s = Some r \<Longrightarrow> length r \<le> length s"
  using length_dropWhile [of isReSpace s] length_dropWhile [of isReSpace "tl (dropWhile isReSpace s)"]
  by (auto simp: separatorRest_def Let_def split: if_splits)

lemma matchSecret_shorter: "matchSecret s = Some (p, rest) \<Longrightarrow> length rest < length s"
proof -
  assume m: "matchSecret s = Some (p, rest)"
  then obtain r v where r: "keyWord s = Some r" "separatorRest (skipQuote (dropWhile isWord r)) = Some v" "valueRest v = Some rest"
    by (auto simp: matchSecret_def split: option.splits)
  have "length rest < length v" using valueRest_shorter [OF r(3)] .
  also have "length v \<le> length (skipQuote (dropWhile isWord r))" using separatorRest_shorter [OF r(2)] .
  also have "\<dots> \<le> length s"
    using length_dropWhile [of isWord r] keyWord_shorter [OF r(1)] by (auto simp: skipQuote_def)
  finally show ?thesis .
qed

function replaceSecrets :: "string \<Rightarrow> string" where
  "replaceSecrets s =
     (case s of
        [] \<Rightarrow> []
      | c # cs \<Rightarrow>
          (case matchSecret s of
             None \<Rightarrow> c # replaceSecrets cs
           | Some (p, rest) \<Rightarrow> p @ redacted @ replaceSecrets rest))"
  by pat_completeness auto
termination
  by (relation "measure length") (auto dest: matchSecret_shorter)

declare replaceSecrets.simps [simp del]

definition scrubMessage :: "(string \<Rightarrow> json option) \<Rightarrow> string \<Rightarrow> string" where
  "scrubMessage unmarshal message =
     (let trimmed = TrimSpace message in
      if HasPrefix trimmed ''{'' \<or> HasPrefix trimmed ''['' then
        (case unmarshal trimmed of
           Some decoded \<Rightarrow> jsonText False (RedactSecrets decoded)
         | None \<Rightarrow> replaceSecrets message)
      else replaceSecrets message)"

section \<open>Lemmas\<close>

text \<open>No member with a sensitive key holds anything but the marker, at any depth.\<close>

function noSecrets :: "json \<Rightarrow> bool" where
  "noSecrets (JArr xs) \<longleftrightarrow> (\<forall>x \<in> set xs. noSecrets x)"
| "noSecrets (JObj m) \<longleftrightarrow> (\<forall>(key, item) \<in> set m. if redactPattern key then item = JStr redacted else noSecrets item)"
| "noSecrets JNull \<longleftrightarrow> True"
| "noSecrets (JBool b) \<longleftrightarrow> True"
| "noSecrets (JInt i) \<longleftrightarrow> True"
| "noSecrets (JFrac t) \<longleftrightarrow> True"
| "noSecrets (JStr s) \<longleftrightarrow> True"
  by pat_completeness auto
termination
  by (relation "measure size") (auto dest: size_member size_element simp del: json.size)

lemma RedactSecrets_no: "noSecrets (RedactSecrets v)"
  by (induction v rule: RedactSecrets.induct) auto

lemma RedactSecrets_id: "noSecrets v \<Longrightarrow> RedactSecrets v = v"
proof (induction v rule: RedactSecrets.induct)
  case (1 xs)
  then show ?case by (simp add: map_idI)
next
  case (2 m)
  have "(\<lambda>(key, item). (key, if redactPattern key then JStr redacted else RedactSecrets item)) p = p" if "p \<in> set m" for p
    using 2 that by (cases p) (fastforce split: if_splits)
  then show ?case by (simp add: map_idI)
qed simp_all

section \<open>Properties\<close>



text \<open>The free text form, evaluated on a line of a failing tool.\<close>

lemma scrub_line:
  "scrubMessage (\<lambda>_. None) ''login failed: API_TOKEN = \"a b\" user=x passwd:hunter2'' =
   ''login failed: API_TOKEN = [REDACTED] user=x passwd:[REDACTED]''"
  by code_simp

end
