(* ===== verification/DomainNames.thy ===== *)
theory DomainNames
  imports DomainModel
begin

text \<open>
  DNS names (\<open>dns.go\<close>): \<open>normalizeDNSName\<close> and \<open>canonicalRecordName\<close>.  The specification is the
  predicate \<open>canonicalName\<close>, the names the function returns: the lemmas show that it returns exactly
  these, that it is the identity on them, and that a record name is placed inside its zone.
\<close>

section \<open>The code\<close>

text \<open>The character class \<open>[a-z0-9]\<close> and the pattern \<open>dnsLabelPattern\<close>.\<close>

definition labelEdge :: "char \<Rightarrow> bool" where
  "labelEdge c \<longleftrightarrow> isLower c \<or> isDigit c"

definition dnsLabelPattern :: "string \<Rightarrow> bool" where
  "dnsLabelPattern label \<longleftrightarrow>
     label \<noteq> [] \<and> length label \<le> 63 \<and> labelEdge (hd label) \<and> labelEdge (last label) \<and>
     list_all (\<lambda>c. labelEdge c \<or> c = CHR ''-'') label"

text \<open>The loop over the labels with its index.\<close>

fun checkLabels :: "bool \<Rightarrow> nat \<Rightarrow> string list \<Rightarrow> domain_error + unit" where
  "checkLabels allowWildcard index [] = Inr ()"
| "checkLabels allowWildcard index (label # labels) =
     (if allowWildcard \<and> index = 0 \<and> label = ''*'' then checkLabels allowWildcard (index + 1) labels
      else assertDomain (length label \<le> 63 \<and> dnsLabelPattern label)
             (''Invalid DNS label: '' @ label) ''DNS_LABEL_INVALID''
             (checkLabels allowWildcard (index + 1) labels))"

definition normalizeDNSName :: "string \<Rightarrow> bool \<Rightarrow> domain_error + string" where
  "normalizeDNSName value allowWildcard =
     (let withoutRoot = ToLower (TrimRight (TrimSpace value) ''.'');
          labels = Split (CHR ''.'') withoutRoot in
      assertDomain (length withoutRoot > 0) ''DNS name cannot be empty'' ''DNS_NAME_EMPTY''
      (assertDomain (length labels \<le> 127) ''DNS name has too many labels'' ''DNS_NAME_LABELS''
      (bindE (checkLabels allowWildcard 0 labels) (\<lambda>_.
       assertDomain (length withoutRoot \<le> 253) ''DNS name is too long'' ''DNS_NAME_LENGTH''
      (Inr withoutRoot)))))"

definition canonicalRecordName :: "string \<Rightarrow> string \<Rightarrow> domain_error + string" where
  "canonicalRecordName name zoneName =
     bindE (normalizeDNSName zoneName False) (\<lambda>zone.
       let value = TrimSpace name in
       if value = [] \<or> value = ''@'' then Inr zone
       else bindE (normalizeDNSName value True) (\<lambda>normalized.
         if normalized = zone \<or> HasSuffix normalized (''.'' @ zone) then Inr normalized
         else Inr (normalized @ ''.'' @ zone)))"

section \<open>The specification\<close>

definition goodLabels :: "bool \<Rightarrow> string list \<Rightarrow> bool" where
  "goodLabels wild labels \<longleftrightarrow>
     labels \<noteq> [] \<and> ((wild \<and> hd labels = ''*'') \<or> dnsLabelPattern (hd labels)) \<and>
     list_all dnsLabelPattern (tl labels)"

definition canonicalName :: "bool \<Rightarrow> string \<Rightarrow> bool" where
  "canonicalName wild n \<longleftrightarrow> n \<noteq> [] \<and> length n \<le> 253 \<and> goodLabels wild (Split (CHR ''.'') n)"

definition inZone :: "string \<Rightarrow> string \<Rightarrow> bool" where
  "inZone zone n \<longleftrightarrow> n = zone \<or> HasSuffix n (''.'' @ zone)"

section \<open>Lemmas\<close>

lemma checkLabels_Suc:
  "checkLabels w (Suc i) labels = Inr () \<longleftrightarrow> list_all dnsLabelPattern labels"
  by (induction labels arbitrary: i) (auto simp: dnsLabelPattern_def)

lemma checkLabels_0: "checkLabels w 0 labels = Inr () \<longleftrightarrow> labels = [] \<or> goodLabels w labels"
  by (cases labels) (auto simp: goodLabels_def checkLabels_Suc dnsLabelPattern_def)

text \<open>The bytes of a canonical name.\<close>

definition nameChar :: "char \<Rightarrow> bool" where
  "nameChar c \<longleftrightarrow> labelEdge c \<or> c = CHR ''-'' \<or> c = CHR ''*'' \<or> c = CHR ''.''"

lemma nameChar_plain: "nameChar c \<Longrightarrow> visible c \<and> c < CHR 0x80 \<and> \<not> isUpper c"
  unfolding nameChar_def labelEdge_def visible_def isSpace_def isLower_def isDigit_def isUpper_def
    less_eq_char_def less_char_def
  by auto

lemma goodLabels_chars:
  assumes "goodLabels w (Split (CHR ''.'') n)"
  shows "list_all nameChar n"
proof -
  have "list_all nameChar p" if "p \<in> set (Split (CHR ''.'') n)" for p
  proof -
    have "p = ''*'' \<or> dnsLabelPattern p"
      using assms that by (cases "Split (CHR ''.'') n") (auto simp: goodLabels_def list_all_iff)
    then show ?thesis by (auto simp: dnsLabelPattern_def nameChar_def list_all_iff)
  qed
  then show ?thesis
    using set_Split [of n "CHR ''.''"] by (fastforce simp: list_all_iff nameChar_def)
qed

lemma goodLabels_nonempty: "goodLabels w ls \<Longrightarrow> l \<in> set ls \<Longrightarrow> l \<noteq> []"
  by (cases ls) (auto simp: goodLabels_def list_all_iff dnsLabelPattern_def)

lemma goodLabels_last_dot:
  assumes "goodLabels w (Split (CHR ''.'') n)"
  shows "last n \<noteq> CHR ''.''"
proof
  assume dot: "last n = CHR ''.''"
  show False
  proof (cases n rule: rev_cases)
    case Nil
    then show False using goodLabels_nonempty [OF assms, of "[]"] by simp
  next
    case (snoc m c)
    then have "Split (CHR ''.'') n = Split (CHR ''.'') m @ [[]]"
      using dot Split_append [of "CHR ''.''" m "[]"] by simp
    then show False using goodLabels_nonempty [OF assms, of "[]"] by simp
  qed
qed

text \<open>Every label costs a byte and a dot, so the length bound implies the bound on the labels.\<close>

lemma labels_by_length:
  "(\<forall>l \<in> set ls. l \<noteq> []) \<Longrightarrow> ls \<noteq> [] \<Longrightarrow> 2 * length ls \<le> Suc (length (Join ls [sep]))"
proof (induction ls)
  case (Cons l ls)
  obtain c t where "l = c # t" using Cons.prems by (cases l) auto
  then show ?case using Cons by (cases "ls = []") (auto simp: Join_Cons)
qed simp

lemma canonicalName_labels:
  assumes "canonicalName w n"
  shows "length (Split (CHR ''.'') n) \<le> 127"
proof -
  let ?ls = "Split (CHR ''.'') n"
  have g: "goodLabels w ?ls" using assms by (simp add: canonicalName_def)
  have "2 * length ?ls \<le> Suc (length n)"
    using labels_by_length [of ?ls "CHR ''.''"] goodLabels_nonempty [OF g] by simp
  then show ?thesis using assms by (simp add: canonicalName_def)
qed

lemma canonicalName_trim:
  assumes "n \<noteq> []" "goodLabels w (Split (CHR ''.'') n)"
  shows "TrimSpace n = n" "TrimRight n ''.'' = n" "ToLower n = n"
proof -
  have c: "list_all nameChar n" by (rule goodLabels_chars [OF assms(2)])
  then have "visible (hd n)" "visible (last n)"
    using assms(1) nameChar_plain by (auto simp: list_all_iff)
  then show "TrimSpace n = n" by (simp add: TrimSpace_id)
  show "TrimRight n ''.'' = n"
    using goodLabels_last_dot [OF assms(2)] by (simp add: TrimRight_id)
  show "ToLower n = n"
    using c nameChar_plain by (intro ToLower_id) (auto simp: list_all_iff)
qed

lemma normalizeDNSName_canonical:
  "normalizeDNSName v w = Inr n \<Longrightarrow> canonicalName w n"
  by (auto simp: normalizeDNSName_def Let_def checkLabels_0 canonicalName_def)

lemma normalizeDNSName_id:
  assumes "canonicalName w n"
  shows "normalizeDNSName n w = Inr n"
proof -
  have "n \<noteq> []" and g: "goodLabels w (Split (CHR ''.'') n)" and "length n \<le> 253"
    using assms by (auto simp: canonicalName_def)
  then show ?thesis
    using canonicalName_labels [OF assms]
    by (simp add: normalizeDNSName_def canonicalName_trim [OF _ g] checkLabels_0)
qed

lemma goodLabels_wild: "goodLabels False ls \<Longrightarrow> goodLabels True ls"
  by (auto simp: goodLabels_def)

lemma canonicalName_wild: "canonicalName False n \<Longrightarrow> canonicalName True n"
  by (auto simp: canonicalName_def goodLabels_wild)

lemma goodLabels_append: "goodLabels w ls \<Longrightarrow> goodLabels False ms \<Longrightarrow> goodLabels w (ls @ ms)"
  by (cases ls; cases ms) (auto simp: goodLabels_def)

text \<open>What a successful \<open>canonicalRecordName\<close> returns: a name in the zone with well-formed labels.\<close>

lemma canonicalRecordName_Inr:
  assumes "canonicalRecordName name zoneName = Inr r"
  obtains zone where "normalizeDNSName zoneName False = Inr zone" "inZone zone r"
    "goodLabels True (Split (CHR ''.'') r)" "r \<noteq> []"
proof -
  obtain zone where z: "normalizeDNSName zoneName False = Inr zone"
    using assms by (auto simp: canonicalRecordName_def)
  have cz: "canonicalName False zone" by (rule normalizeDNSName_canonical [OF z])
  consider "r = zone"
    | n where "normalizeDNSName (TrimSpace name) True = Inr n" "inZone zone n" "r = n"
    | n where "normalizeDNSName (TrimSpace name) True = Inr n" "r = n @ ''.'' @ zone"
    using assms z by (auto simp: canonicalRecordName_def Let_def inZone_def split: if_splits)
  then show thesis
  proof cases
    case 1
    then show ?thesis
      using that [OF z] cz by (simp add: inZone_def canonicalName_def goodLabels_wild)
  next
    case (2 n)
    then show ?thesis
      using that [OF z] normalizeDNSName_canonical [OF 2(1)] by (simp add: canonicalName_def)
  next
    case (3 n)
    have "goodLabels True (Split (CHR ''.'') r)"
      using normalizeDNSName_canonical [OF 3(1)] cz
      by (simp add: 3(2) Split_append goodLabels_append canonicalName_def)
    moreover have "inZone zone r"
      using HasSuffix_append [of n "''.'' @ zone"] by (simp add: inZone_def 3(2))
    ultimately show ?thesis
      using that [OF z] 3(2) by simp
  qed
qed

text \<open>A name that fits is a fixed point, so validating stored records again changes nothing.\<close>

lemma canonicalRecordName_id:
  assumes "normalizeDNSName zoneName False = Inr zone" "inZone zone r"
    "goodLabels True (Split (CHR ''.'') r)" "r \<noteq> []" "length r \<le> 253"
  shows "canonicalRecordName r zoneName = Inr r"
proof -
  have t: "TrimSpace r = r" using assms(3,4) by (simp add: canonicalName_trim)
  have "r \<noteq> ''@''"
    using goodLabels_chars [OF assms(3)]
    by (auto simp: nameChar_def labelEdge_def isLower_def isDigit_def)
  moreover have "normalizeDNSName r True = Inr r"
    using assms by (intro normalizeDNSName_id) (simp add: canonicalName_def)
  ultimately show ?thesis
    using assms by (auto simp: canonicalRecordName_def t inZone_def)
qed

end
