(* ===== verification/DomainProxy.thy ===== *)
theory DomainProxy
  imports DomainModel
begin

text \<open>
  Proxy settings, path and header rules, raw nginx directives and stream routes (\<open>proxy.go\<close>).  The
  regular expressions of the file are predicates on byte strings; the validators follow the order of
  the checks in the code, so the first failing check decides the error.
\<close>

section \<open>Patterns\<close>

definition crlfPattern :: "string \<Rightarrow> bool" where
  "crlfPattern s \<longleftrightarrow> CHR 0x0D \<in> set s \<or> CHR 0x0A \<in> set s"

definition basicAuthUsernamePattern :: "string \<Rightarrow> bool" where
  "basicAuthUsernamePattern s \<longleftrightarrow>
     1 \<le> length s \<and> length s \<le> 64 \<and> list_all (\<lambda>c. isAlnum c \<or> c \<in> set ''._@+=-'') s"

definition basicAuthSecretPattern :: "string \<Rightarrow> bool" where
  "basicAuthSecretPattern s \<longleftrightarrow>
     8 \<le> length s \<and> length s \<le> 128 \<and> list_all (\<lambda>c. isAlnum c \<or> c \<in> set ''_-'') s"

definition headerNamePattern :: "string \<Rightarrow> bool" where
  "headerNamePattern s \<longleftrightarrow>
     s \<noteq> [] \<and> list_all (\<lambda>c. isAlnum c \<or> c \<in> set ''!#$%&*+-.^_|~'' \<or> c = CHR 0x27 \<or> c = CHR 0x60) s"

definition pathCharsPattern :: "string \<Rightarrow> bool" where
  "pathCharsPattern s \<longleftrightarrow> list_ex (\<lambda>c. c \<in> {CHR 0x0D, CHR 0x0A, CHR ''?'', CHR ''#'', CHR 0x5B, CHR 0x5D}) s"

text \<open>
  \<open>nginxBlockContextPattern\<close>: at the start of a line, after white space, one of five keywords in any
  case, up to a word boundary.  Under case folding \<open>s\<close> also matches the long s (bytes C5 BF), which is
  not a word character.
\<close>

definition reSpace :: "char \<Rightarrow> bool" where
  "reSpace c \<longleftrightarrow> c \<in> {CHR 0x09, CHR 0x0A, CHR 0x0C, CHR 0x0D, CHR '' ''}"

definition wordChar :: "char \<Rightarrow> bool" where
  "wordChar c \<longleftrightarrow> isAlnum c \<or> c = CHR ''_''"

fun matchFold :: "string \<Rightarrow> string \<Rightarrow> bool \<Rightarrow> (string \<times> bool) option" where
  "matchFold [] s lastWord = Some (s, lastWord)"
| "matchFold (k # ks) s lastWord =
     (case s of
        [] \<Rightarrow> None
      | c # cs \<Rightarrow>
          if lowerChar c = k then matchFold ks cs True
          else if k = CHR ''s'' \<and> HasPrefix s [CHR 0xC5, CHR 0xBF] then matchFold ks (drop 2 s) False
          else None)"

definition blockKeywords :: "string list" where
  "blockKeywords = [''events'', ''http'', ''server'', ''stream'', ''location'']"

definition keywordAt :: "string \<Rightarrow> bool" where
  "keywordAt s \<longleftrightarrow>
     list_ex (\<lambda>k. case matchFold k s False of
                    None \<Rightarrow> False
                  | Some (rest, lastWord) \<Rightarrow> lastWord \<noteq> (rest \<noteq> [] \<and> wordChar (hd rest)))
       blockKeywords"

fun blockContextFrom :: "bool \<Rightarrow> string \<Rightarrow> bool" where
  "blockContextFrom lineStart [] = False"
| "blockContextFrom lineStart (c # cs) =
     ((lineStart \<and> keywordAt (dropWhile reSpace (c # cs))) \<or> blockContextFrom (c = CHR 0x0A) cs)"

definition nginxBlockContextPattern :: "string \<Rightarrow> bool" where
  "nginxBlockContextPattern s = blockContextFrom True s"

section \<open>Paths, headers and raw directives\<close>

definition validateDNSPath :: "string \<Rightarrow> domain_error + string" where
  "validateDNSPath path =
     (let normalized = TrimSpace path in
      assertDomain (HasPrefix normalized ''/'') ''Path must start with /'' ''PATH_START''
      (assertDomain (\<not> pathCharsPattern normalized) ''Path contains unsupported characters'' ''PATH_CHARACTERS''
      (assertDomain (length normalized \<le> 2048) ''Path is too long'' ''PATH_LENGTH''
      (if length normalized > 1 then Inr (TrimRight normalized ''/'') else Inr normalized))))"

definition validateAction :: "object option \<Rightarrow> domain_error + unit" where
  "validateAction act =
     (case act of
        None \<Rightarrow> Inr ()
      | Some action \<Rightarrow>
          if proxyString action ''type'' = ''redirect'' then
            let status = (case toInt (member action ''status'') of None \<Rightarrow> 0 | Some i \<Rightarrow> i);
                location = proxyString action ''location'' in
            assertDomain (status = 301 \<or> status = 302 \<or> status = 307 \<or> status = 308)
              ''Redirect status is not allowed'' ''REDIRECT_STATUS''
            (assertDomain (location = [] \<or> \<not> crlfPattern location)
              ''Redirect location cannot contain newlines'' ''REDIRECT_LOCATION''
            (Inr ()))
          else
            let rewrite = proxyString action ''rewrite'' in
            if rewrite \<noteq> [] then bindE (validateDNSPath rewrite) (\<lambda>_. Inr ()) else Inr ())"

text \<open>\<open>validatePathRules\<close>: \<open>seen\<close> holds the keys \<open>kind:pattern\<close> and \<open>patterns\<close> the normalized patterns of
  the rules already accepted.\<close>

fun pathRulesLoop :: "string list \<Rightarrow> string list \<Rightarrow> json list \<Rightarrow> domain_error + unit" where
  "pathRulesLoop seen patterns [] = Inr ()"
| "pathRulesLoop seen patterns (raw # rules) =
     (case asObject raw of
        None \<Rightarrow> assertDomain False ''Path rule must be an object'' ''PATH_RULE'' (Inr ())
      | Some rule \<Rightarrow>
          bindE (validateDNSPath (proxyString rule ''pattern'')) (\<lambda>pattern.
            let key = proxyString rule ''kind'' @ '':'' @ pattern in
            assertDomain (key \<notin> set seen) (''Duplicate path rule: '' @ pattern) ''PATH_DUPLICATE''
            (assertDomain (\<forall>existing \<in> set patterns. existing \<noteq> pattern)
               (''Ambiguous path rule: '' @ pattern) ''PATH_AMBIGUOUS''
            (bindE (validateAction (asObject (member rule ''action''))) (\<lambda>_.
               pathRulesLoop (seen @ [key]) (patterns @ [pattern]) rules)))))"

definition validatePathRules :: "json list \<Rightarrow> domain_error + unit" where
  "validatePathRules rules = pathRulesLoop [] [] rules"

fun headerRulesLoop :: "string list \<Rightarrow> json list \<Rightarrow> domain_error + unit" where
  "headerRulesLoop seen [] = Inr ()"
| "headerRulesLoop seen (raw # headers) =
     (case asObject raw of
        None \<Rightarrow> assertDomain False ''Header rule must be an object'' ''HEADER_RULE'' (Inr ())
      | Some header \<Rightarrow>
          let name = proxyString header ''name''; lower = ToLower name in
          assertDomain (headerNamePattern name) (''Invalid header name: '' @ name) ''HEADER_NAME''
          (assertDomain (\<not> crlfPattern (proxyString header ''value''))
             ''Header value cannot contain newlines'' ''HEADER_VALUE''
          (assertDomain (lower \<notin> set seen) (''Duplicate header: '' @ name) ''HEADER_DUPLICATE''
          (headerRulesLoop (seen @ [lower]) headers))))"

definition validateHeaderRules :: "json list \<Rightarrow> domain_error + unit" where
  "validateHeaderRules headers = headerRulesLoop [] headers"

text \<open>\<open>containsUnquotedBrace\<close>: \<open>quote\<close> is the open quotation mark.  The code walks the runes; every
  character it compares is ASCII, so walking the bytes decides the same.\<close>

fun unquotedBrace :: "char option \<Rightarrow> bool \<Rightarrow> string \<Rightarrow> bool" where
  "unquotedBrace quote escaped [] = False"
| "unquotedBrace quote escaped (c # cs) =
     (if escaped then unquotedBrace quote False cs
      else if quote \<noteq> None \<and> c = CHR 0x5C then unquotedBrace quote True cs
      else if quote \<noteq> None then
        if quote = Some c then unquotedBrace None False cs else unquotedBrace quote False cs
      else if c = CHR 0x22 \<or> c = CHR 0x27 then unquotedBrace (Some c) False cs
      else if c = CHR ''{'' \<or> c = CHR ''}'' then True
      else unquotedBrace quote False cs)"

definition containsUnquotedBrace :: "string \<Rightarrow> bool" where
  "containsUnquotedBrace value = unquotedBrace None False value"

definition validateNginxDirectives :: "json \<Rightarrow> domain_error + unit" where
  "validateNginxDirectives value =
     (if value = JNull then Inr ()
      else case asString value of
        None \<Rightarrow> assertDomain False ''Nginx directives must be text'' ''NGINX_DIRECTIVES_TYPE'' (Inr ())
      | Some directives \<Rightarrow>
          let normalized = TrimSpace (ReplaceAll (ReplaceAll directives (CR @ NL) NL) CR NL) in
          if normalized = [] then Inr ()
          else
            assertDomain (length normalized \<le> 32000) ''Nginx directives are too long'' ''NGINX_DIRECTIVES_LENGTH''
            (assertDomain (\<not> Contains normalized [CHR 0x00])
               ''Nginx directives contain an invalid character'' ''NGINX_DIRECTIVES_CHARACTERS''
            (assertDomain (\<not> containsUnquotedBrace normalized)
               ''Nginx directives cannot contain configuration blocks'' ''NGINX_DIRECTIVES_BLOCK''
            (assertDomain (\<not> nginxBlockContextPattern normalized)
               ''Nginx block directives are not allowed here'' ''NGINX_DIRECTIVES_CONTEXT''
            (Inr ())))))"

section \<open>Proxy settings\<close>

definition timeoutOrDefault :: "object option \<Rightarrow> string \<Rightarrow> int \<Rightarrow> int" where
  "timeoutOrDefault timeouts key fallback =
     (case timeouts of
        None \<Rightarrow> fallback
      | Some t \<Rightarrow> (case toInt (member t key) of None \<Rightarrow> fallback | Some i \<Rightarrow> i))"

definition validateOrigin :: "object \<Rightarrow> domain_error + unit" where
  "validateOrigin proxy =
     (case asObject (member proxy ''origin'') of
        None \<Rightarrow> assertDomain False ''Proxy origin must be a literal IP'' ''ORIGIN_IP'' (Inr ())
      | Some origin \<Rightarrow>
          assertDomain (ipVersion (proxyString origin ''ip'') > 0)
            ''Proxy origin must be a literal IP'' ''ORIGIN_IP''
          (assertDomain
             (case toInt (member origin ''port'') of None \<Rightarrow> False | Some port \<Rightarrow> port \<ge> 1 \<and> port \<le> 65535)
             ''Port is invalid'' ''ORIGIN_PORT''
          (let protocol = proxyString origin ''protocol'' in
           assertDomain (protocol = ''http'' \<or> protocol = ''https'')
             ''Proxy origin protocol must be http or https'' ''ORIGIN_PROTOCOL'' (Inr ()))))"

definition validateBasicAuth :: "object \<Rightarrow> bool \<Rightarrow> domain_error + unit" where
  "validateBasicAuth proxy tlsEnabled =
     (case asObject (member proxy ''basicAuth'') of
        None \<Rightarrow> Inr ()
      | Some basicAuth \<Rightarrow>
          assertDomain tlsEnabled ''Basic Auth requires client TLS'' ''BASIC_AUTH_TLS''
          (assertDomain (basicAuthUsernamePattern (proxyString basicAuth ''username''))
             ''Basic Auth username is invalid'' ''BASIC_AUTH_USERNAME''
          (assertDomain (basicAuthSecretPattern (proxyString basicAuth ''passwordSecretId''))
             ''Basic Auth secret reference is invalid'' ''BASIC_AUTH_SECRET'' (Inr ()))))"

definition validateHttp3 :: "object \<Rightarrow> (string \<Rightarrow> bool) option \<Rightarrow> bool \<Rightarrow> domain_error + unit" where
  "validateHttp3 proxy capabilities tlsEnabled =
     (if proxyBool proxy ''http3'' then
        assertDomain
          (case capabilities of
             None \<Rightarrow> False
           | Some c \<Rightarrow> c ''http3Module'' \<and> c ''tcp443Published'' \<and> c ''udp443Published'')
          ''HTTP/3 requires binary support and published TCP/UDP 443'' ''HTTP3_UNAVAILABLE''
        (assertDomain tlsEnabled ''HTTP/3 requires client TLS'' ''HTTP3_TLS'' (Inr ()))
      else Inr ())"

definition validateCache :: "object \<Rightarrow> domain_error + unit" where
  "validateCache proxy =
     (case asObject (member proxy ''cache'') of
        None \<Rightarrow> Inr ()
      | Some cache \<Rightarrow>
          if proxyBool cache ''enabled'' then
            assertDomain (asObject (member proxy ''basicAuth'') = None)
              ''Authenticated routes cannot enable cache'' ''CACHE_AUTH''
            (assertDomain (\<not> proxyBool proxy ''websocket'')
              ''WebSocket routes cannot enable cache'' ''CACHE_WEBSOCKET'' (Inr ()))
          else Inr ())"

definition validateTimeouts :: "object \<Rightarrow> domain_error + unit" where
  "validateTimeouts proxy =
     (let timeouts = asObject (member proxy ''timeouts'');
          connect = timeoutOrDefault timeouts ''connectSeconds'' 5;
          sendRead = timeoutOrDefault timeouts ''sendReadSeconds'' 60;
          clientHeader = timeoutOrDefault timeouts ''clientHeaderSeconds'' 15;
          bodyLimit = timeoutOrDefault timeouts ''bodyLimitMb'' 10 in
      assertDomain (connect > 0 \<and> connect \<le> 300) ''Connect timeout is invalid'' []
      (assertDomain (sendRead > 0 \<and> sendRead \<le> 3600) ''Send/read timeout is invalid'' []
      (assertDomain (clientHeader > 0 \<and> clientHeader \<le> 300) ''Client timeout is invalid'' []
      (assertDomain (bodyLimit > 0 \<and> bodyLimit \<le> 1024) ''Body limit is invalid'' [] (Inr ())))))"

definition validateProxySettings ::
  "object \<Rightarrow> (string \<Rightarrow> bool) option \<Rightarrow> domain_error + object" where
  "validateProxySettings proxy capabilities =
     bindE (validateOrigin proxy) (\<lambda>_.
     assertDomain (asBool (member proxy ''tlsEnabled'') \<noteq> None) ''TLS setting is required'' ''TLS_REQUIRED''
     (let tlsEnabled = proxyBool proxy ''tlsEnabled'' in
      bindE (validateBasicAuth proxy tlsEnabled) (\<lambda>_.
      bindE (validateHttp3 proxy capabilities tlsEnabled) (\<lambda>_.
      bindE (validatePathRules (sliceOf (member proxy ''pathRules''))) (\<lambda>_.
      bindE (validateHeaderRules (sliceOf (member proxy ''headers''))) (\<lambda>_.
      bindE (validateNginxDirectives (member proxy ''nginxDirectives'')) (\<lambda>_.
      bindE (validateCache proxy) (\<lambda>_.
      bindE (validateTimeouts proxy) (\<lambda>_. Inr proxy)))))))))"

section \<open>Stream routes\<close>

definition streamKey :: "StreamRoute \<Rightarrow> string" where
  "streamKey route =
     strProtocol route @ '':'' @ strListenAddress route @ '':'' @ Itoa (strListenPort route)"

fun streamRoutesLoop :: "string list \<Rightarrow> StreamRoute list \<Rightarrow> domain_error + unit" where
  "streamRoutesLoop listeners [] = Inr ()"
| "streamRoutesLoop listeners (route # routes) =
     assertDomain (ipVersion (strListenAddress route) > 0)
       ''Stream listen address must be a literal IP'' ''STREAM_LISTEN_IP''
     (assertDomain (strListenPort route \<ge> 1 \<and> strListenPort route \<le> 65535)
       ''Port is invalid'' ''STREAM_LISTEN_PORT''
     (assertDomain (upProtocol (strUpstream route) = strProtocol route)
       ''Stream protocol and upstream protocol must match'' ''STREAM_PROTOCOL''
     (assertDomain (ipVersion (upIP (strUpstream route)) > 0)
       ''Stream upstream must be a literal IP'' ''STREAM_UPSTREAM_IP''
     (assertDomain (upPort (strUpstream route) \<ge> 1 \<and> upPort (strUpstream route) \<le> 65535)
       ''Port is invalid'' ''STREAM_UPSTREAM_PORT''
     (assertDomain (streamKey route \<notin> set listeners)
       (''Stream listener conflict: '' @ streamKey route) ''STREAM_CONFLICT''
     (streamRoutesLoop (listeners @ [streamKey route]) routes))))))"

definition validateStreamRoutes :: "StreamRoute list \<Rightarrow> domain_error + StreamRoute list" where
  "validateStreamRoutes routes = bindE (streamRoutesLoop [] routes) (\<lambda>_. Inr routes)"

section \<open>The specification\<close>

text \<open>The normalized pattern of a path rule and the name of a header rule.\<close>

definition rulePattern :: "json \<Rightarrow> domain_error + string" where
  "rulePattern raw =
     (case asObject raw of
        None \<Rightarrow> Inl (newValidationError ''Path rule must be an object'' ''PATH_RULE'')
      | Some rule \<Rightarrow> validateDNSPath (proxyString rule ''pattern''))"

definition memberString :: "string \<Rightarrow> json \<Rightarrow> string" where
  "memberString key raw = (case asObject raw of None \<Rightarrow> [] | Some m \<Rightarrow> proxyString m key)"

definition headerKey :: "json \<Rightarrow> string" where
  "headerKey raw = ToLower (memberString ''name'' raw)"

definition headerOK :: "json \<Rightarrow> bool" where
  "headerOK raw \<longleftrightarrow> headerNamePattern (memberString ''name'' raw) \<and> \<not> crlfPattern (memberString ''value'' raw)"

definition endpointOK :: "string \<Rightarrow> int \<Rightarrow> bool" where
  "endpointOK ip port \<longleftrightarrow> ipVersion ip > 0 \<and> 1 \<le> port \<and> port \<le> 65535"

definition originOK :: "object \<Rightarrow> bool" where
  "originOK proxy \<longleftrightarrow>
     (\<exists>origin port. member proxy ''origin'' = JObj origin \<and> member origin ''port'' = JInt port \<and>
        endpointOK (proxyString origin ''ip'') port \<and> proxyString origin ''protocol'' \<in> {''http'', ''https''})"

definition streamOK :: "StreamRoute \<Rightarrow> bool" where
  "streamOK route \<longleftrightarrow>
     endpointOK (strListenAddress route) (strListenPort route) \<and>
     endpointOK (upIP (strUpstream route)) (upPort (strUpstream route)) \<and>
     upProtocol (strUpstream route) = strProtocol route"

text \<open>The text that nginx would read: the line ends are normalized and the outer space is removed.\<close>

definition directiveText :: "string \<Rightarrow> string" where
  "directiveText d = TrimSpace (ReplaceAll (ReplaceAll d (CR @ NL) NL) CR NL)"

section \<open>Lemmas: paths and headers\<close>

lemma validateDNSPath_Inr:
  assumes "validateDNSPath path = Inr p"
  shows "length p \<le> 2048" "\<not> crlfPattern p" "p = [] \<or> hd p = CHR ''/''"
    "p \<noteq> [] \<Longrightarrow> p \<noteq> ''/'' \<Longrightarrow> last p \<noteq> CHR ''/''"
proof -
  let ?n = "TrimSpace path"
  have ok: "HasPrefix ?n ''/''" "\<not> pathCharsPattern ?n" "length ?n \<le> 2048"
    and p: "p = (if length ?n > 1 then TrimRight ?n ''/'' else ?n)"
    using assms by (auto simp: validateDNSPath_def Let_def split: if_splits)
  obtain r where r: "?n = p @ r"
    using p TrimRight_prefix [of ?n "''/''"] by (cases "length ?n > 1") auto
  then show "length p \<le> 2048" using ok(3) by simp
  show "\<not> crlfPattern p"
    using ok(2) r by (auto simp: crlfPattern_def pathCharsPattern_def list_ex_iff)
  show "p = [] \<or> hd p = CHR ''/''"
    using ok(1) r by (cases p) (auto simp: HasPrefix_iff)
  assume "p \<noteq> []" "p \<noteq> ''/''"
  moreover have "?n = ''/''" if "\<not> length ?n > 1"
    using ok(1) that by (cases ?n) auto
  ultimately show "last p \<noteq> CHR ''/''"
    using p TrimRight_last [of ?n "''/''"] by (auto split: if_splits)
qed

lemma pathRulesLoop_distinct:
  "pathRulesLoop seen pats rules = Inr () \<Longrightarrow> distinct pats \<Longrightarrow>
   \<exists>ps. mapE rulePattern rules = Inr ps \<and> distinct (pats @ ps)"
proof (induction seen pats rules rule: pathRulesLoop.induct)
  case (2 seen pats raw rules)
  obtain rule where rule: "asObject raw = Some rule"
    using "2.prems" by (cases "asObject raw") auto
  obtain p where p: "validateDNSPath (proxyString rule ''pattern'') = Inr p" "p \<notin> set pats"
    and rest: "pathRulesLoop (seen @ [proxyString rule ''kind'' @ '':'' @ p]) (pats @ [p]) rules = Inr ()"
    and act: "validateAction (asObject (member rule ''action'')) = Inr ()"
    and key: "proxyString rule ''kind'' @ '':'' @ p \<notin> set seen"
    using "2.prems" rule by (auto simp: Let_def)
  have "\<exists>ps. mapE rulePattern rules = Inr ps \<and> distinct ((pats @ [p]) @ ps)"
    using p "2.prems" by (intro "2.IH" [OF rule p(1) refl key _ act rest]) auto
  moreover have "rulePattern raw = Inr p" using rule p by (simp add: rulePattern_def)
  ultimately show ?case by auto
qed auto

lemma validatePathRules_distinct:
  "validatePathRules rules = Inr () \<Longrightarrow> \<exists>ps. mapE rulePattern rules = Inr ps \<and> distinct ps"
  unfolding validatePathRules_def by (drule pathRulesLoop_distinct) auto

lemma headerRulesLoop_ok:
  "headerRulesLoop seen hs = Inr () \<Longrightarrow> distinct seen \<Longrightarrow>
   distinct (seen @ map headerKey hs) \<and> list_all headerOK hs"
proof (induction seen hs rule: headerRulesLoop.induct)
  case (2 seen raw hs)
  obtain h where h: "asObject raw = Some h" using "2.prems" by (cases "asObject raw") auto
  have m: "memberString k raw = proxyString h k" for k using h by (simp add: memberString_def)
  let ?l = "ToLower (proxyString h ''name'')"
  have ok: "headerNamePattern (proxyString h ''name'')" "\<not> crlfPattern (proxyString h ''value'')"
    "?l \<notin> set seen" and rest: "headerRulesLoop (seen @ [?l]) hs = Inr ()"
    using "2.prems" h by (auto simp: Let_def)
  have "distinct ((seen @ [?l]) @ map headerKey hs) \<and> list_all headerOK hs"
    using "2.prems" ok by (intro "2.IH" [OF h refl refl _ _ _ rest]) auto
  moreover have "headerOK raw" "headerKey raw = ?l"
    using ok by (simp_all add: headerOK_def headerKey_def m)
  ultimately show ?case by auto
qed auto

lemma validateHeaderRules_ok:
  "validateHeaderRules hs = Inr () \<Longrightarrow>
   distinct (map headerKey hs) \<and> list_all headerOK hs"
  unfolding validateHeaderRules_def by (drule headerRulesLoop_ok) auto

section \<open>Lemmas: braces\<close>

lemma unquotedBrace_plain_prefix:
  "CHR 0x22 \<notin> set p \<Longrightarrow> CHR 0x27 \<notin> set p \<Longrightarrow>
   unquotedBrace None False (p @ s) \<longleftrightarrow> CHR ''{'' \<in> set p \<or> CHR ''}'' \<in> set p \<or> unquotedBrace None False s"
  by (induction p) auto

lemma containsUnquotedBrace_plain:
  "CHR 0x22 \<notin> set s \<Longrightarrow> CHR 0x27 \<notin> set s \<Longrightarrow>
   containsUnquotedBrace s \<longleftrightarrow> CHR ''{'' \<in> set s \<or> CHR ''}'' \<in> set s"
  using unquotedBrace_plain_prefix [of s "[]"] by (simp add: containsUnquotedBrace_def)

text \<open>A closed quotation without escapes is skipped as a whole.\<close>

lemma unquotedBrace_quoted:
  "q \<notin> set p \<Longrightarrow> CHR 0x5C \<notin> set p \<Longrightarrow>
   unquotedBrace (Some q) False (p @ q # s) \<longleftrightarrow>
     (if q = CHR 0x5C then unquotedBrace (Some q) True s else unquotedBrace None False s)"
  by (induction p) auto

section \<open>Lemmas: proxy settings and streams\<close>

lemma validateOrigin_ok: "validateOrigin proxy = Inr () \<Longrightarrow> originOK proxy"
  by (auto simp: validateOrigin_def originOK_def endpointOK_def Let_def dest!: toInt_range
           split: option.splits)

lemma validateProxySettings_Inr:
  "validateProxySettings proxy caps = Inr p \<longleftrightarrow>
     p = proxy \<and> validateOrigin proxy = Inr () \<and> asBool (member proxy ''tlsEnabled'') \<noteq> None \<and>
     validateBasicAuth proxy (proxyBool proxy ''tlsEnabled'') = Inr () \<and>
     validateHttp3 proxy caps (proxyBool proxy ''tlsEnabled'') = Inr () \<and>
     validatePathRules (sliceOf (member proxy ''pathRules'')) = Inr () \<and>
     validateHeaderRules (sliceOf (member proxy ''headers'')) = Inr () \<and>
     validateNginxDirectives (member proxy ''nginxDirectives'') = Inr () \<and>
     validateCache proxy = Inr () \<and> validateTimeouts proxy = Inr ()"
  by (auto simp: validateProxySettings_def Let_def)

lemma streamRoutesLoop_ok:
  "streamRoutesLoop seen routes = Inr () \<Longrightarrow> distinct seen \<Longrightarrow>
   distinct (seen @ map streamKey routes) \<and> list_all streamOK routes"
proof (induction seen routes rule: streamRoutesLoop.induct)
  case (2 seen route routes)
  have ok: "streamOK route" "streamKey route \<notin> set seen"
    and rest: "streamRoutesLoop (seen @ [streamKey route]) routes = Inr ()"
    using "2.prems" by (auto simp: streamOK_def endpointOK_def)
  have "distinct ((seen @ [streamKey route]) @ map streamKey routes) \<and> list_all streamOK routes"
    using "2.prems" ok by (intro "2.IH") auto
  then show ?case using ok by auto
qed auto

lemma streamRoutesLoop_complete:
  "list_all streamOK routes \<Longrightarrow> distinct (seen @ map streamKey routes) \<Longrightarrow>
   streamRoutesLoop seen routes = Inr ()"
  by (induction seen routes rule: streamRoutesLoop.induct) (auto simp: streamOK_def endpointOK_def)

section \<open>Lemmas: block keywords\<close>

lemma matchFold_self:
  "list_all (\<lambda>c. \<not> isUpper c) k \<Longrightarrow> matchFold k (k @ r) w = Some (r, w \<or> k \<noteq> [])"
  by (induction k arbitrary: w) (auto simp: lowerChar_id)

lemma keywordAt_keyword:
  assumes "k \<in> set blockKeywords" "r = [] \<or> \<not> wordChar (hd r)"
  shows "keywordAt (k @ r)"
proof -
  have "matchFold k (k @ r) False = Some (r, True)"
    using matchFold_self [of k r False] assms(1)
    by (auto simp: blockKeywords_def isUpper_def)
  then show ?thesis
    using assms unfolding keywordAt_def list_ex_iff by (intro bexI [of _ k]) auto
qed

lemma blockContextFrom_line:
  assumes "list_all reSpace ws" "k \<in> set blockKeywords" "r = [] \<or> \<not> wordChar (hd r)"
    "if a = [] then b else last a = CHR 0x0A"
  shows "blockContextFrom b (a @ ws @ k @ r)"
  using assms(4)
proof (induction a arbitrary: b)
  case Nil
  have k: "k \<noteq> []" "\<not> reSpace (hd k)"
    using assms(2) by (auto simp: blockKeywords_def reSpace_def)
  have "dropWhile reSpace (ws @ k @ r) = k @ r"
    using assms(1) k by (auto simp: dropWhile_append list_all_iff neq_Nil_conv)
  moreover obtain c t where "ws @ k @ r = c # t" using k by (cases "ws @ k @ r") auto
  ultimately show ?case
    using Nil keywordAt_keyword [OF assms(2,3)] by simp
next
  case (Cons c a)
  then show ?case by (auto split: if_splits)
qed

section \<open>Properties\<close>


definition sampleProxy :: object where
  "sampleProxy =
     [(''origin'', JObj [(''ip'', JStr ''10.0.0.9''), (''port'', JInt 8080), (''protocol'', JStr ''http'')]),
      (''tlsEnabled'', JBool True),
      (''certificateId'', JStr ''c1''),
      (''basicAuth'', JObj [(''username'', JStr ''ops''), (''passwordSecretId'', JStr ''secret-01'')]),
      (''pathRules'', JArr [JObj [(''kind'', JStr ''prefix''), (''pattern'', JStr ''/api/'')],
                            JObj [(''kind'', JStr ''exact''), (''pattern'', JStr ''/'')]]),
      (''headers'', JArr [JObj [(''name'', JStr ''X-Frame''), (''value'', JStr ''deny'')]])]"

lemma sampleProxy_valid: "validateProxySettings sampleProxy None = Inr sampleProxy"
  by code_simp


text \<open>
  Stream routes are accepted exactly when every route listens on and forwards to a literal IP
  with a port in 1..65535 under one protocol and no two routes share protocol, address and port.
\<close>
theorem validateStreamRoutes_iff:
  "validateStreamRoutes routes = Inr r \<longleftrightarrow>
     r = routes \<and> list_all streamOK routes \<and> distinct (map streamKey routes)"
  using streamRoutesLoop_ok [of "[]" routes] streamRoutesLoop_complete [of routes "[]"]
  by (auto simp: validateStreamRoutes_def)

text \<open>
  Accepted raw nginx directives cannot open a block context: no line of the text starts, after
  white space, with one of the block keywords as a whole word, and a text without quotation marks
  has no brace at all.
\<close>
theorem validateNginxDirectives_sound:
  assumes "validateNginxDirectives (JStr d) = Inr ()"
  shows "(CHR 0x22 \<notin> set (directiveText d) \<and> CHR 0x27 \<notin> set (directiveText d) \<longrightarrow>
            CHR ''{'' \<notin> set (directiveText d) \<and> CHR ''}'' \<notin> set (directiveText d)) \<and>
    (\<nexists>a ws k r. directiveText d = a @ ws @ k @ r \<and> (a = [] \<or> last a = CHR 0x0A) \<and>
        list_all reSpace ws \<and> k \<in> set blockKeywords \<and> (r = [] \<or> \<not> wordChar (hd r)))"
proof (cases "directiveText d = []")
  case True
  then show ?thesis by (auto simp: blockKeywords_def)
next
  case False
  then have ok: "\<not> containsUnquotedBrace (directiveText d)" "\<not> blockContextFrom True (directiveText d)"
    using assms unfolding validateNginxDirectives_def directiveText_def nginxBlockContextPattern_def
    by (auto simp: Let_def split: if_splits)
  have "\<not> (a = [] \<or> last a = CHR 0x0A)"
    if "directiveText d = a @ ws @ k @ r" "list_all reSpace ws" "k \<in> set blockKeywords"
      "r = [] \<or> \<not> wordChar (hd r)" for a ws k r
    using blockContextFrom_line [OF that(2-4), of a True] ok(2) that(1) by (cases "a = []") auto
  then show ?thesis
    using ok(1) containsUnquotedBrace_plain by blast
qed

theorem validateNginxDirectives_sound_witness:
  "CHR ''{'' \<notin> set (directiveText ''proxy_buffering off;'')"
proof -
  have "validateNginxDirectives (JStr ''proxy_buffering off;'') = Inr ()" by code_simp
  moreover have "directiveText ''proxy_buffering off;'' = ''proxy_buffering off;''" by code_simp
  ultimately show ?thesis using validateNginxDirectives_sound [of "''proxy_buffering off;''"] by simp
qed

section \<open>Observations\<close>

text \<open>The path of two slashes is accepted and normalized to the empty path.\<close>

lemma validateDNSPath_slashes: "validateDNSPath ''//'' = Inr []"
  by code_simp

text \<open>An apostrophe in an nginx comment hides a closing brace on the next line from
  \<open>containsUnquotedBrace\<close>.\<close>

lemma comment_apostrophe_hides_brace:
  "validateNginxDirectives (JStr (''# don'' @ [CHR 0x27] @ ''t'' @ NL @ ''}'')) = Inr ()"
  by code_simp

text \<open>Two spellings of one IPv6 listen address are not recognised as a conflict.\<close>

lemma stream_listener_spellings:
  "ParseIP ''::1'' = ParseIP ''0:0::1'' \<and>
   (let up = \<lparr>upIP = ''10.0.0.1'', upPort = 53, upProtocol = ''udp''\<rparr>;
        a = \<lparr>strID = ''a'', strEnabled = True, strProtocol = ''udp'', strListenAddress = ''::1'',
             strListenPort = 53, strUpstream = up\<rparr>;
        b = a\<lparr>strListenAddress := ''0:0::1''\<rparr> in
    validateStreamRoutes [a, b] = Inr [a, b])"
  by code_simp

end
