(* ===== verification/DomainRecords.thy ===== *)
theory DomainRecords
  imports DomainNames DomainProxy
begin

text \<open>
  Record sets, certificates for proxied hosts, resolver pools and forwarding rules (\<open>dns.go\<close>).  The
  second loop of \<open>validateRecordSet\<close> ranges over a Go map, whose order is unspecified: the model visits
  the names in the order of their first enabled record, and \<open>checkGroups_perm\<close> shows that any other
  order accepts the same record sets.
\<close>

section \<open>Record values\<close>

definition MinTTL :: int where "MinTTL = 30"
definition MaxTTL :: int where "MaxTTL = 86400"
definition DefaultTTL :: int where "DefaultTTL = 300"

definition recordTypeSet :: "string list" where
  "recordTypeSet = [''A'', ''AAAA'', ''CNAME'', ''TXT'', ''MX'', ''SRV'']"

definition uint16 :: "json \<Rightarrow> bool" where
  "uint16 v = (case toInt v of None \<Rightarrow> False | Some i \<Rightarrow> i \<ge> 0 \<and> i \<le> 65535)"

definition assertMxValue :: "json \<Rightarrow> string \<Rightarrow> domain_error + unit" where
  "assertMxValue value name =
     (let object = asObject value; exchange = asString (objectGet object ''exchange'') in
      assertDomain (object \<noteq> None \<and> uint16 (objectGet object ''priority'') \<and> exchange \<noteq> None)
        (''Invalid MX value for '' @ name) ''MX_VALUE''
      (bindE (normalizeDNSName (the exchange) True) (\<lambda>_. Inr ())))"

definition assertSrvValue :: "json \<Rightarrow> string \<Rightarrow> domain_error + unit" where
  "assertSrvValue value name =
     (let object = asObject value; target = asString (objectGet object ''target'') in
      assertDomain
        (object \<noteq> None \<and> uint16 (objectGet object ''priority'') \<and>
         uint16 (objectGet object ''weight'') \<and> uint16 (objectGet object ''port'') \<and> target \<noteq> None)
        (''Invalid SRV value for '' @ name) ''SRV_VALUE''
      (bindE (normalizeDNSName (the target) True) (\<lambda>_. Inr ())))"

definition stringIs :: "(string \<Rightarrow> bool) \<Rightarrow> json \<Rightarrow> bool" where
  "stringIs P v = (case asString v of None \<Rightarrow> False | Some s \<Rightarrow> P s)"

definition validateRecordValue :: "string \<Rightarrow> json \<Rightarrow> string \<Rightarrow> domain_error + unit" where
  "validateRecordValue recordType value name =
     (if recordType = ''A'' then
        assertDomain (stringIs (\<lambda>s. ipVersion s = 4) value) (''Invalid A value for '' @ name) ''A_VALUE'' (Inr ())
      else if recordType = ''AAAA'' then
        assertDomain (stringIs (\<lambda>s. ipVersion s = 6) value) (''Invalid AAAA value for '' @ name) ''AAAA_VALUE'' (Inr ())
      else if recordType = ''CNAME'' then
        (case asString value of
           None \<Rightarrow> assertDomain False (''Invalid CNAME value for '' @ name) ''CNAME_VALUE'' (Inr ())
         | Some str \<Rightarrow> bindE (normalizeDNSName str True) (\<lambda>_. Inr ()))
      else if recordType = ''TXT'' then
        assertDomain (stringIs (\<lambda>s. length s > 0 \<and> length s \<le> 255 \<and> \<not> crlfPattern s) value)
          (''Invalid TXT value for '' @ name) ''TXT_VALUE'' (Inr ())
      else if recordType = ''MX'' then assertMxValue value name
      else if recordType = ''SRV'' then assertSrvValue value name
      else Inr ())"

section \<open>Ingress and certificates\<close>

definition validateIngressForRecord :: "string \<Rightarrow> Ingress option \<Rightarrow> domain_error + unit" where
  "validateIngressForRecord recordType ingress =
     (case ingress of
        None \<Rightarrow> assertDomain False ''Proxy ingress addresses are required'' ''INGRESS_REQUIRED'' (Inr ())
      | Some ing \<Rightarrow>
          if recordType = ''A'' then
            assertDomain (ipVersion (IPv4 ing) = 4) ''IPv4 proxy ingress is required'' ''INGRESS_IPV4_REQUIRED'' (Inr ())
          else if recordType = ''AAAA'' then
            assertDomain (ipVersion (IPv6 ing) = 6) ''IPv6 proxy ingress is required'' ''INGRESS_IPV6_REQUIRED'' (Inr ())
          else
            assertDomain (ipVersion (IPv4 ing) = 4 \<or> ipVersion (IPv6 ing) = 6)
              ''At least one proxy ingress address is required'' ''INGRESS_REQUIRED'' (Inr ()))"

text \<open>One iteration of the loop over the hostnames of a certificate; \<open>normalizedCandidate[1:]\<close> drops
  the asterisk.\<close>

definition coversHost :: "string \<Rightarrow> string \<Rightarrow> bool" where
  "coversHost normalizedHostname candidate =
     (let normalizedCandidate = TrimRight (ToLower candidate) ''.'' in
      normalizedCandidate = normalizedHostname \<or>
      (HasPrefix normalizedCandidate ''*.'' \<and>
       HasSuffix normalizedHostname (drop 1 normalizedCandidate) \<and>
       length (Split (CHR ''.'') normalizedHostname) = length (Split (CHR ''.'') normalizedCandidate)))"

definition validateProxyCertificate ::
  "string \<Rightarrow> bool \<Rightarrow> string \<Rightarrow> CertificateStatus list option \<Rightarrow> domain_error + unit" where
  "validateProxyCertificate hostname tlsEnabled certificateID certificates =
     (if \<not> tlsEnabled then Inr ()
      else
        assertDomain (certificateID \<noteq> []) (''Proxied TLS record '' @ hostname @ '' requires a certificate'')
          ''CERTIFICATE_REQUIRED''
        (case certificates of
           None \<Rightarrow> Inr ()
         | Some certs \<Rightarrow>
             (case find (\<lambda>c. certID c = certificateID) certs of
                None \<Rightarrow> assertDomain False (''Certificate not found: '' @ certificateID) ''CERTIFICATE_NOT_FOUND'' (Inr ())
              | Some certificate \<Rightarrow>
                  assertDomain (certStatus certificate = ''active'' \<or> certStatus certificate = ''issued'')
                    (''Certificate is not active: '' @ certificateID) ''CERTIFICATE_NOT_ACTIVE''
                  (let normalizedHostname = TrimRight (ToLower hostname) ''.'' in
                   assertDomain (list_ex (coversHost normalizedHostname) (certHostnames certificate))
                     (''Certificate does not cover '' @ hostname) ''CERTIFICATE_HOSTNAME'' (Inr ())))))"

section \<open>Record sets\<close>

record RecordSetOptions =
  optZoneName :: string
  optIngress :: "Ingress option"
  optCertificates :: "CertificateStatus list option"

definition validateProxied ::
  "DNSRecord \<Rightarrow> string \<Rightarrow> RecordSetOptions \<Rightarrow> domain_error + unit" where
  "validateProxied record name options =
     (if recProxied record then
        assertDomain (recType record = ''A'' \<or> recType record = ''AAAA'' \<or> recType record = ''CNAME'')
          (recType record @ '' records cannot be proxied'') ''PROXY_RECORD_TYPE''
        (case recProxy record of
           None \<Rightarrow> assertDomain False ''Proxied records require proxy settings'' ''PROXY_SETTINGS_REQUIRED'' (Inr ())
         | Some settings \<Rightarrow>
             bindE (validateIngressForRecord (recType record) (optIngress options)) (\<lambda>_.
             bindE (validateProxySettings settings None) (\<lambda>proxy.
               if optCertificates options \<noteq> None then
                 validateProxyCertificate name (proxyBool proxy ''tlsEnabled'')
                   (proxyString proxy ''certificateId'') (optCertificates options)
               else Inr ())))
      else (case recProxy record of
              None \<Rightarrow> Inr ()
            | Some settings \<Rightarrow> bindE (validateProxySettings settings None) (\<lambda>_. Inr ())))"

text \<open>The body of the first loop, \<open>seenIDs\<close> the ids of the records before this one.\<close>

definition validateRecord ::
  "string \<Rightarrow> RecordSetOptions \<Rightarrow> string list \<Rightarrow> DNSRecord \<Rightarrow> domain_error + DNSRecord" where
  "validateRecord zoneName options seenIDs record =
     assertDomain (length (TrimSpace (recID record)) > 0) ''Record id is required'' ''RECORD_ID_REQUIRED''
     (assertDomain (recID record \<notin> set seenIDs) (''Duplicate record id: '' @ recID record) ''RECORD_ID_DUPLICATE''
     (assertDomain (recType record \<in> set recordTypeSet) (''Unsupported record type: '' @ recType record) ''RECORD_TYPE''
     (bindE (canonicalRecordName (recName record) zoneName) (\<lambda>name.
        let ttl = (if recTTL record \<noteq> 0 then recTTL record else DefaultTTL) in
        assertDomain (ttl \<ge> MinTTL \<and> ttl \<le> MaxTTL) ''TTL must be between 30 and 86400'' ''TTL_INVALID''
        (bindE (validateRecordValue (recType record) (recValue record) name) (\<lambda>_.
         bindE (validateProxied record name options) (\<lambda>_.
         Inr (record\<lparr>recName := name, recTTL := ttl\<rparr>))))))))"

fun validateRecords ::
  "string \<Rightarrow> RecordSetOptions \<Rightarrow> string list \<Rightarrow> DNSRecord list \<Rightarrow> domain_error + DNSRecord list" where
  "validateRecords zoneName options seenIDs [] = Inr []"
| "validateRecords zoneName options seenIDs (record # records) =
     bindE (validateRecord zoneName options seenIDs record) (\<lambda>next.
     bindE (validateRecords zoneName options (seenIDs @ [recID record]) records) (\<lambda>normalized.
     Inr (next # normalized)))"

definition enabledByName :: "DNSRecord list \<Rightarrow> string \<Rightarrow> DNSRecord list" where
  "enabledByName records name = filter (\<lambda>r. recEnabled r \<and> recName r = name) records"

definition enabledNames :: "DNSRecord list \<Rightarrow> string list" where
  "enabledNames records = remdups (map recName (filter recEnabled records))"

definition checkGroup :: "string \<Rightarrow> DNSRecord list \<Rightarrow> domain_error + unit" where
  "checkGroup name grp =
     (let hasCNAME = list_ex (\<lambda>r. recType r = ''CNAME'') grp;
          proxied = length (filter recProxied grp) in
      assertDomain (\<not> hasCNAME \<or> length grp \<le> 1)
        (''CNAME cannot coexist with other records for '' @ name) ''CNAME_COEXISTENCE''
      (assertDomain (proxied \<le> 1) (''Only one record may be proxied for '' @ name) ''PROXY_HOST_CONFLICT''
      (Inr ())))"

fun checkGroups :: "DNSRecord list \<Rightarrow> string list \<Rightarrow> domain_error + unit" where
  "checkGroups records [] = Inr ()"
| "checkGroups records (name # names) =
     bindE (checkGroup name (enabledByName records name)) (\<lambda>_. checkGroups records names)"

definition validateRecordSet ::
  "DNSRecord list \<Rightarrow> RecordSetOptions \<Rightarrow> domain_error + DNSRecord list" where
  "validateRecordSet records options =
     bindE (normalizeDNSName (optZoneName options) False) (\<lambda>zoneName.
     bindE (validateRecords zoneName options [] records) (\<lambda>normalized.
     bindE (checkGroups normalized (enabledNames normalized)) (\<lambda>_.
     Inr normalized)))"

section \<open>Resolver pools and forwarding rules\<close>

definition validateResolverEndpoint :: "ResolverEndpoint \<Rightarrow> domain_error + ResolverEndpoint" where
  "validateResolverEndpoint endpoint =
     assertDomain (ipVersion (epHost endpoint) > 0) ''Resolver endpoint must be a literal IP'' ''RESOLVER_IP''
     (assertDomain (epPort endpoint \<ge> 1 \<and> epPort endpoint \<le> 65535) ''Resolver endpoint port is invalid'' ''RESOLVER_PORT''
     (Inr endpoint))"

definition validateResolverPool :: "ResolverPool \<Rightarrow> domain_error + ResolverPool" where
  "validateResolverPool pool =
     assertDomain (length (TrimSpace (poolID pool)) > 0) ''Resolver pool id is required'' ''POOL_ID''
     (assertDomain (length (poolEndpoints pool) > 0) ''Resolver pool needs an endpoint'' ''POOL_EMPTY''
     (bindE (mapE validateResolverEndpoint (poolEndpoints pool)) (\<lambda>endpoints.
      Inr \<lparr>poolID = poolID pool, poolEndpoints = endpoints\<rparr>)))"

fun forwardingLoop :: "string list \<Rightarrow> ForwardingRule list \<Rightarrow> domain_error + ForwardingRule list" where
  "forwardingLoop seen [] = Inr []"
| "forwardingLoop seen (rule # rules) =
     bindE (normalizeDNSName (ruleSuffix rule) False) (\<lambda>suffix.
     assertDomain (suffix \<notin> set seen) (''Duplicate forwarding suffix: '' @ suffix) ''FORWARD_SUFFIX_DUPLICATE''
     (bindE (validateResolverPool (rulePool rule)) (\<lambda>pool.
      bindE (forwardingLoop (seen @ [suffix]) rules) (\<lambda>out.
      Inr (\<lparr>ruleSuffix = suffix, rulePool = pool\<rparr> # out)))))"

definition validateForwardingRules :: "ForwardingRule list \<Rightarrow> domain_error + ForwardingRule list" where
  "validateForwardingRules rules = forwardingLoop [] rules"

section \<open>The specification\<close>

definition recordOK :: "string \<Rightarrow> DNSRecord \<Rightarrow> bool" where
  "recordOK zone r \<longleftrightarrow>
     recType r \<in> {''A'', ''AAAA'', ''CNAME'', ''TXT'', ''MX'', ''SRV''} \<and> 30 \<le> recTTL r \<and> recTTL r \<le> 86400 \<and>
     inZone zone (recName r) \<and> goodLabels True (Split (CHR ''.'') (recName r)) \<and>
     (recProxied r \<longrightarrow> recType r \<in> {''A'', ''AAAA'', ''CNAME''} \<and>
        (\<exists>p. recProxy r = Some p \<and> validateProxySettings p None = Inr p))"

text \<open>Among the enabled records of one name a CNAME stands alone and at most one record is proxied.\<close>

definition namesOK :: "DNSRecord list \<Rightarrow> bool" where
  "namesOK rs \<longleftrightarrow>
     (\<forall>name. let g = enabledByName rs name in
        ((\<exists>r \<in> set g. recType r = ''CNAME'') \<longrightarrow> length g = 1) \<and> length (filter recProxied g) \<le> 1)"

definition poolOK :: "ResolverPool \<Rightarrow> bool" where
  "poolOK p \<longleftrightarrow> poolEndpoints p \<noteq> [] \<and> (\<forall>e \<in> set (poolEndpoints p). endpointOK (epHost e) (epPort e))"

section \<open>Lemmas\<close>

lemma checkGroup_iff:
  "checkGroup name g = Inr () \<longleftrightarrow>
     ((\<exists>r \<in> set g. recType r = ''CNAME'') \<longrightarrow> length g \<le> 1) \<and> length (filter recProxied g) \<le> 1"
  by (auto simp: checkGroup_def Let_def list_ex_iff)

lemma checkGroups_iff:
  "checkGroups rs names = Inr () \<longleftrightarrow> (\<forall>n \<in> set names. checkGroup n (enabledByName rs n) = Inr ())"
  by (induction names) auto

lemma checkGroups_perm:
  "set names = set names' \<Longrightarrow> checkGroups rs names = Inr () \<longleftrightarrow> checkGroups rs names' = Inr ()"
  by (simp add: checkGroups_iff)

lemma enabledByName_Nil: "n \<notin> set (enabledNames rs) \<Longrightarrow> enabledByName rs n = []"
  by (auto simp: enabledNames_def enabledByName_def filter_empty_conv)

lemma checkGroups_namesOK:
  "checkGroups rs (enabledNames rs) = Inr () \<longleftrightarrow> namesOK rs"
proof
  assume ok: "checkGroups rs (enabledNames rs) = Inr ()"
  have "checkGroup n (enabledByName rs n) = Inr ()" for n
    using ok enabledByName_Nil [of n rs]
    by (cases "n \<in> set (enabledNames rs)") (auto simp: checkGroups_iff checkGroup_iff)
  then show "namesOK rs"
    unfolding namesOK_def checkGroup_iff Let_def
    by (metis One_nat_def Suc_leI le_antisym length_pos_if_in_set)
next
  assume "namesOK rs"
  then show "checkGroups rs (enabledNames rs) = Inr ()"
    by (auto simp: namesOK_def checkGroups_iff checkGroup_iff Let_def)
qed

lemma validateRecordValue_name:
  "validateRecordValue t v n = Inr () \<longleftrightarrow> validateRecordValue t v m = Inr ()"
  by (auto simp: validateRecordValue_def assertMxValue_def assertSrvValue_def Let_def split: option.splits)

lemma validateRecord_Inr:
  "validateRecord zone opts seen r = Inr r' \<longleftrightarrow>
     TrimSpace (recID r) \<noteq> [] \<and> recID r \<notin> set seen \<and> recType r \<in> set recordTypeSet \<and>
     (\<exists>name. canonicalRecordName (recName r) zone = Inr name \<and>
        (let ttl = (if recTTL r \<noteq> 0 then recTTL r else DefaultTTL) in
         MinTTL \<le> ttl \<and> ttl \<le> MaxTTL \<and> r' = r\<lparr>recName := name, recTTL := ttl\<rparr>) \<and>
        validateRecordValue (recType r) (recValue r) name = Inr () \<and>
        validateProxied r name opts = Inr ())"
  by (auto simp: validateRecord_def Let_def)

lemma validateProxied_ok:
  "validateProxied r name opts = Inr () \<Longrightarrow> recProxied r \<Longrightarrow>
   recType r \<in> {''A'', ''AAAA'', ''CNAME''} \<and> (\<exists>p. recProxy r = Some p \<and> validateProxySettings p None = Inr p)"
  by (auto simp: validateProxied_def validateProxySettings_Inr split: option.splits)

lemma validateProxied_cong [simp]:
  "validateProxied (r\<lparr>recName := a, recTTL := b\<rparr>) name opts = validateProxied r name opts"
  by (cases "recProxy r") (simp_all add: validateProxied_def)

lemma validateRecord_recordOK:
  assumes z: "normalizeDNSName zone False = Inr zone" and "validateRecord zone opts seen r = Inr r'"
  shows "recordOK zone r'" "recID r' = recID r" "recID r \<notin> set seen"
proof -
  obtain name where n: "canonicalRecordName (recName r) zone = Inr name"
    and r': "r' = r\<lparr>recName := name, recTTL := (if recTTL r \<noteq> 0 then recTTL r else DefaultTTL)\<rparr>"
    and ttl: "30 \<le> recTTL r'" "recTTL r' \<le> 86400" and t: "recType r \<in> set recordTypeSet"
    and p: "validateProxied r name opts = Inr ()"
    using assms(2) by (auto simp: validateRecord_Inr Let_def MinTTL_def MaxTTL_def)
  have "inZone zone name \<and> goodLabels True (Split (CHR ''.'') name)"
    using canonicalRecordName_Inr [OF n] z by (metis sum.inject(2))
  then show "recordOK zone r'"
    using ttl t validateProxied_ok [OF p] by (auto simp: recordOK_def r' recordTypeSet_def)
  show "recID r' = recID r" "recID r \<notin> set seen"
    using assms(2) by (auto simp: validateRecord_Inr Let_def)
qed

lemma validateRecords_ok:
  assumes "normalizeDNSName zone False = Inr zone"
  shows "validateRecords zone opts seen rs = Inr out \<Longrightarrow> distinct seen \<Longrightarrow>
    map recID out = map recID rs \<and> distinct (seen @ map recID rs) \<and> list_all (recordOK zone) out"
proof (induction rs arbitrary: seen out)
  case (Cons r rs)
  obtain r' out' where r': "validateRecord zone opts seen r = Inr r'"
    and o': "validateRecords zone opts (seen @ [recID r]) rs = Inr out'" "out = r' # out'"
    using Cons.prems by auto
  note rok = validateRecord_recordOK [OF assms r']
  have "distinct (seen @ [recID r])" using Cons.prems rok by simp
  from Cons.IH [OF o'(1) this] show ?case using rok by (auto simp: o')
qed simp

text \<open>Validating an accepted record again, with the same earlier ids, returns it unchanged.\<close>

lemma validateRecord_again:
  assumes z: "normalizeDNSName zone False = Inr zone" and "validateRecord zone opts seen r = Inr r'"
    and len: "length (recName r') \<le> 253"
  shows "validateRecord zone opts seen r' = Inr r'"
proof -
  obtain name where n: "canonicalRecordName (recName r) zone = Inr name"
    and r': "r' = r\<lparr>recName := name, recTTL := (if recTTL r \<noteq> 0 then recTTL r else DefaultTTL)\<rparr>"
    using assms(2) by (auto simp: validateRecord_Inr Let_def)
  have "inZone zone name" "goodLabels True (Split (CHR ''.'') name)" "name \<noteq> []"
    using canonicalRecordName_Inr [OF n] z by (metis sum.inject(2))+
  then have "canonicalRecordName name zone = Inr name"
    using canonicalRecordName_id [OF z] len by (simp add: r')
  then show ?thesis
    using assms(2) n by (auto simp: validateRecord_Inr Let_def r' DefaultTTL_def)
qed

lemma validateRecords_again:
  assumes z: "normalizeDNSName zone False = Inr zone"
  shows "validateRecords zone opts seen rs = Inr out \<Longrightarrow> \<forall>r \<in> set out. length (recName r) \<le> 253 \<Longrightarrow>
    validateRecords zone opts seen out = Inr out"
proof (induction rs arbitrary: seen out)
  case (Cons r rs)
  obtain r' out' where r': "validateRecord zone opts seen r = Inr r'"
    and o': "validateRecords zone opts (seen @ [recID r]) rs = Inr out'" "out = r' # out'"
    using Cons.prems by auto
  have "validateRecord zone opts seen r' = Inr r'"
    using validateRecord_again [OF z r'] Cons.prems o' by simp
  then show ?case
    using Cons.IH [OF o'(1)] Cons.prems o' validateRecord_recordOK(2) [OF z r'] by simp
qed simp

lemma mapE_endpoints:
  "mapE validateResolverEndpoint es = Inr out \<longleftrightarrow>
     out = es \<and> list_all (\<lambda>e. endpointOK (epHost e) (epPort e)) es"
  by (induction es arbitrary: out) (auto simp: validateResolverEndpoint_def endpointOK_def)

lemma validateResolverPool_ok: "validateResolverPool p = Inr q \<Longrightarrow> poolOK q"
  by (auto simp: validateResolverPool_def mapE_endpoints poolOK_def list_all_iff)

lemma forwardingLoop_ok:
  "forwardingLoop seen rules = Inr out \<Longrightarrow> distinct seen \<Longrightarrow>
   distinct (seen @ map ruleSuffix out) \<and> length out = length rules \<and>
   list_all (\<lambda>r. canonicalName False (ruleSuffix r) \<and> poolOK (rulePool r)) out"
proof (induction seen rules arbitrary: out rule: forwardingLoop.induct)
  case (2 seen rule rules)
  obtain suffix pool out' where s: "normalizeDNSName (ruleSuffix rule) False = Inr suffix" "suffix \<notin> set seen"
    and p: "validateResolverPool (rulePool rule) = Inr pool"
    and o': "forwardingLoop (seen @ [suffix]) rules = Inr out'"
    and out: "out = \<lparr>ruleSuffix = suffix, rulePool = pool\<rparr> # out'"
    using "2.prems" by auto
  have "poolOK pool" by (rule validateResolverPool_ok [OF p])
  moreover have "distinct (seen @ [suffix])" using "2.prems" s by simp
  ultimately show ?case
    using "2.IH" [OF s(1) s(2) p o'] normalizeDNSName_canonical [OF s(1)] by (auto simp: out)
qed auto

section \<open>Certificates of proxied hosts\<close>

lemma Split_length_1: "length (Split sep l) = 1 \<longleftrightarrow> sep \<notin> set l"
proof
  assume "length (Split sep l) = 1"
  then obtain p where p: "Split sep l = [p]" by (auto simp: length_Suc_conv)
  then have "l = p" using Join_Split [of sep l] by simp
  then show "sep \<notin> set l" using p Split_no_sep [of p sep l] by simp
qed (simp add: Split_single)

lemma coversHost_wildcard:
  assumes d: "canonicalName False d" and len: "length d \<le> 251"
  shows "coversHost host (''*.'' @ d) \<longleftrightarrow> (\<exists>l. host = l @ ''.'' @ d \<and> CHR ''.'' \<notin> set l)"
proof -
  have "goodLabels True (Split (CHR ''.'') (''*.'' @ d))"
    using goodLabels_append [of True "[''*'']" "Split (CHR ''.'') d"] d
    by (simp add: canonicalName_def goodLabels_def)
  then have norm: "TrimRight (ToLower (''*.'' @ d)) ''.'' = ''*.'' @ d"
    using canonicalName_trim(2,3) [of "''*.'' @ d" True] by simp
  have lab: "length (Split (CHR ''.'') (l @ ''.'' @ d)) = length (Split (CHR ''.'') (''*.'' @ d)) \<longleftrightarrow>
      CHR ''.'' \<notin> set l" for l
    using Split_length_1 [of "CHR ''.''" l] by (simp add: Split_append)
  show ?thesis
    unfolding coversHost_def Let_def norm
    using lab by (force simp: HasSuffix_iff)
qed

lemma validateProxyCertificate_ok:
  "validateProxyCertificate host True cid (Some certs) = Inr () \<Longrightarrow>
   \<exists>c \<in> set certs. certID c = cid \<and> certStatus c \<in> {''active'', ''issued''} \<and>
     list_ex (coversHost (TrimRight (ToLower host) ''.'')) (certHostnames c)"
  by (auto simp: validateProxyCertificate_def Let_def split: option.splits dest!: find_some)

lemma validateRecord_certificate:
  assumes z: "normalizeDNSName zone False = Inr zone" and v: "validateRecord zone opts seen r = Inr r'"
    and o: "optCertificates opts = Some certs" and pr: "recProxied r'" "recProxy r' = Some p"
    "proxyBool p ''tlsEnabled''"
  shows "\<exists>c \<in> set certs. certID c = proxyString p ''certificateId'' \<and>
    certStatus c \<in> {''active'', ''issued''} \<and> list_ex (coversHost (recName r')) (certHostnames c)"
proof -
  obtain name where n: "canonicalRecordName (recName r) zone = Inr name"
    and p: "validateProxied r name opts = Inr ()" and r': "recName r' = name"
      "recProxied r' = recProxied r" "recProxy r' = recProxy r"
    using v by (auto simp: validateRecord_Inr Let_def)
  have "goodLabels True (Split (CHR ''.'') name)" "name \<noteq> []"
    using canonicalRecordName_Inr [OF n] by blast+
  then have name: "TrimRight (ToLower name) ''.'' = name"
    by (simp add: canonicalName_trim)
  have "validateProxyCertificate name True (proxyString p ''certificateId'') (Some certs) = Inr ()"
    using p pr r' o by (auto simp: validateProxied_def validateProxySettings_Inr)
  from validateProxyCertificate_ok [OF this] show ?thesis by (simp add: name r')
qed

lemma validateRecords_each:
  "validateRecords zone opts seen rs = Inr out \<Longrightarrow> r' \<in> set out \<Longrightarrow>
   \<exists>r seen'. validateRecord zone opts seen' r = Inr r'"
  by (induction rs arbitrary: seen out) (auto, blast+)

lemma validateRecordSet_Inr:
  "validateRecordSet records opts = Inr out \<longleftrightarrow>
     (\<exists>zone. normalizeDNSName (optZoneName opts) False = Inr zone \<and>
        validateRecords zone opts [] records = Inr out \<and> namesOK out)"
  by (auto simp: validateRecordSet_def checkGroups_namesOK)

lemma normalizeDNSName_idem:
  "normalizeDNSName v w = Inr n \<Longrightarrow> normalizeDNSName n w = Inr n"
  using normalizeDNSName_id normalizeDNSName_canonical by blast

section \<open>Properties\<close>

text \<open>
  A name is returned by \<open>normalizeDNSName\<close> exactly when it is canonical (1 to 253 bytes of lower
  case labels, each 1 to 63 letters, digits and inner hyphens, with a leading asterisk only where
  allowed), and the canonical names are the fixed points of the function.
\<close>
theorem normalizeDNSName_range:
  "((\<exists>v. normalizeDNSName v w = Inr n) \<longleftrightarrow> canonicalName w n) \<and>
   (normalizeDNSName n w = Inr n \<longleftrightarrow> canonicalName w n)"
  using normalizeDNSName_canonical normalizeDNSName_id by blast


definition sampleOptions :: RecordSetOptions where
  "sampleOptions =
     \<lparr>optZoneName = ''Example.com.'', optIngress = Some \<lparr>IPv4 = ''192.0.2.1'', IPv6 = []\<rparr>,
      optCertificates = Some [\<lparr>certID = ''c1'', certHostnames = [''*.example.com''], certIssuer = ''acme'',
        certChallenge = ''dns-01'', certEnvironment = ''production'', certStatus = ''active'',
        certExpiresAt = None, certRenewAfter = None, certSecretID = ''s1'', certPEM = [],
        certFailureReason = []\<rparr>]\<rparr>"

definition sampleRecords :: "DNSRecord list" where
  "sampleRecords =
     [\<lparr>recID = ''r1'', recName = ''WWW'', recType = ''A'', recValue = JStr ''10.0.0.1'', recTTL = 0,
       recEnabled = True, recComment = None, recProxied = True, recProxy = Some sampleProxy\<rparr>,
      \<lparr>recID = ''r2'', recName = ''@'', recType = ''TXT'', recValue = JStr ''v=spf1 -all'', recTTL = 60,
       recEnabled = True, recComment = None, recProxied = False, recProxy = None\<rparr>]"

definition sampleOut :: "DNSRecord list" where
  "sampleOut =
     [(sampleRecords ! 0)\<lparr>recName := ''www.example.com'', recTTL := 300\<rparr>,
      (sampleRecords ! 1)\<lparr>recName := ''example.com''\<rparr>]"

lemma sampleRecords_valid: "validateRecordSet sampleRecords sampleOptions = Inr sampleOut"
  by code_simp






text \<open>
  A wildcard certificate name covers exactly the hosts with one more label than its domain,
  never the domain itself and never a deeper name.
\<close>
theorem wildcard_single_level:
  assumes "canonicalName False d" "length d \<le> 251"
  shows "coversHost host (''*.'' @ d) \<longleftrightarrow> (\<exists>l. host = l @ ''.'' @ d \<and> CHR ''.'' \<notin> set l)"
  by (rule coversHost_wildcard [OF assms])

theorem wildcard_single_level_witness:
  "coversHost ''a.example.com'' (''*.'' @ ''example.com'')"
proof -
  have "canonicalName False ''example.com''" by code_simp
  then show ?thesis
    using wildcard_single_level [of "''example.com''" "''a.example.com''"] by (auto intro: exI [of _ "''a''"])
qed

text \<open>
  The order in which Go visits the map of names does not matter: the group checks accept a record
  set under one order of the names exactly when they accept it under any other.
\<close>
theorem validateRecordSet_order:
  "validateRecordSet records opts = Inr out \<longleftrightarrow>
     (\<exists>zone names. normalizeDNSName (optZoneName opts) False = Inr zone \<and>
        validateRecords zone opts [] records = Inr out \<and>
        set names = recName ` {r \<in> set out. recEnabled r} \<and> checkGroups out names = Inr ())"
proof -
  have "set (enabledNames out) = recName ` {r \<in> set out. recEnabled r}"
    by (auto simp: enabledNames_def)
  then have "(\<exists>names. set names = recName ` {r \<in> set out. recEnabled r} \<and> checkGroups out names = Inr ()) \<longleftrightarrow>
      namesOK out"
    unfolding checkGroups_namesOK [symmetric] by (metis checkGroups_perm)
  then show ?thesis unfolding validateRecordSet_Inr by blast
qed

text \<open>
  Accepted forwarding rules have distinct canonical suffixes, one per input rule, and pools with
  at least one endpoint, each a literal IP with a port in 1..65535.
\<close>
theorem validateForwardingRules_sound:
  assumes "validateForwardingRules rules = Inr out"
  shows "distinct (map ruleSuffix out) \<and> length out = length rules \<and>
    list_all (\<lambda>r. canonicalName False (ruleSuffix r) \<and> poolOK (rulePool r)) out"
  using forwardingLoop_ok [of "[]"] assms by (simp add: validateForwardingRules_def)

definition sampleRules :: "ForwardingRule list" where
  "sampleRules =
     [\<lparr>ruleSuffix = ''corp.'', rulePool = \<lparr>poolID = ''p'', poolEndpoints = [\<lparr>epHost = ''10.0.0.53'', epPort = 53\<rparr>]\<rparr>\<rparr>]"

theorem validateForwardingRules_sound_witness:
  "distinct (map ruleSuffix [(sampleRules ! 0)\<lparr>ruleSuffix := ''corp''\<rparr>])"
proof -
  have "validateForwardingRules sampleRules = Inr [(sampleRules ! 0)\<lparr>ruleSuffix := ''corp''\<rparr>]"
    by code_simp
  from validateForwardingRules_sound [OF this] show ?thesis by simp
qed

section \<open>Observation\<close>

text \<open>\<open>canonicalRecordName\<close> appends the zone without checking the length again: an accepted name can be
  longer than 253 bytes, and the name it returns is then refused when it is validated again.\<close>

definition longLabels :: "char \<Rightarrow> string" where
  "longLabels c = replicate 63 c @ ''.'' @ replicate 63 c @ ''.'' @ replicate 20 c"

lemma dnsLabelPattern_replicate: "labelEdge c \<Longrightarrow> 0 < k \<Longrightarrow> k \<le> 63 \<Longrightarrow> dnsLabelPattern (replicate k c)"
  by (auto simp: dnsLabelPattern_def list_all_iff)

lemma longLabels_canonical: "labelEdge c \<Longrightarrow> canonicalName w (longLabels c)"
proof -
  assume c: "labelEdge c"
  then have "c \<noteq> CHR ''.''" by (auto simp: labelEdge_def isLower_def isDigit_def)
  then have "Split (CHR ''.'') (replicate k c) = [replicate k c]" for k
    by (intro Split_single) auto
  then have "Split (CHR ''.'') (longLabels c) = [replicate 63 c, replicate 63 c, replicate 20 c]"
    by (simp add: longLabels_def Split_append del: replicate.simps)
  then show ?thesis
    using c by (simp add: canonicalName_def goodLabels_def dnsLabelPattern_replicate longLabels_def
        del: replicate.simps)
qed

lemma canonicalRecordName_too_long:
  fixes a z
  defines "a \<equiv> longLabels (CHR ''a'')" and "z \<equiv> longLabels (CHR ''b'')"
  shows "canonicalRecordName a z = Inr (a @ ''.'' @ z) \<and> (\<exists>e. canonicalRecordName (a @ ''.'' @ z) z = Inl e)"
proof -
  have edge: "labelEdge (CHR ''a'')" "labelEdge (CHR ''b'')"
    by (simp_all add: labelEdge_def isLower_def)
  note ca = longLabels_canonical [OF edge(1), folded a_def]
  note cz = longLabels_canonical [OF edge(2), folded z_def]
  have out: "\<not> inZone z a"
  proof
    assume "inZone z a"
    then have "length z \<le> length a" "last z = last a"
      by (auto simp: inZone_def HasSuffix_iff z_def longLabels_def)
    then show False by (simp add: a_def z_def longLabels_def)
  qed
  have ta: "TrimSpace a = a" "a \<noteq> []" "a \<noteq> ''@''"
    using canonicalName_trim(1) [of a True] ca [of True] by (auto simp: canonicalName_def a_def longLabels_def)
  have first: "canonicalRecordName a z = Inr (a @ ''.'' @ z)"
    using normalizeDNSName_id [OF cz] normalizeDNSName_id [OF ca] out ta
    by (auto simp: canonicalRecordName_def inZone_def)
  let ?n = "a @ ''.'' @ z"
  have good: "goodLabels True (Split (CHR ''.'') ?n)"
    using ca [of True] cz [of False] by (simp add: Split_append goodLabels_append canonicalName_def)
  note tn = canonicalName_trim [OF _ good]
  have "normalizeDNSName ?n True \<noteq> Inr m" for m
  proof
    assume n: "normalizeDNSName ?n True = Inr m"
    then have "m = ?n" using tn by (auto simp: normalizeDNSName_def Let_def)
    then show False
      using normalizeDNSName_canonical [OF n] by (simp add: canonicalName_def a_def z_def longLabels_def)
  qed
  then obtain e where "normalizeDNSName ?n True = Inl e" by (metis old.sum.exhaust)
  then have "canonicalRecordName ?n z = Inl e"
    using normalizeDNSName_id [OF cz] tn ta(2)
    by (auto simp: canonicalRecordName_def Let_def append_eq_Cons_conv)
  with first show ?thesis by blast
qed

end
