(* ===== verification/GoHash.thy ===== *)
theory GoHash
  imports GoStrings "HOL-Library.Word"
begin

text \<open>
  \<open>crypto/sha256\<close> and \<open>encoding/hex\<close> as the sources use them: the SHA-256 of FIPS 180-4 on 32-bit words and
  the lower case hex text of a byte sequence.
\<close>

unbundle bit_operations_syntax

section \<open>SHA-256\<close>

type_synonym word32 = "32 word"

definition rotr :: "nat \<Rightarrow> word32 \<Rightarrow> word32" where
  "rotr n x = (drop_bit n x) OR (push_bit (32 - n) x)"

definition shaK :: "word32 list" where
  "shaK =
     [1116352408, 1899447441, 3049323471, 3921009573, 961987163, 1508970993,
      2453635748, 2870763221, 3624381080, 310598401, 607225278, 1426881987,
      1925078388, 2162078206, 2614888103, 3248222580, 3835390401, 4022224774,
      264347078, 604807628, 770255983, 1249150122, 1555081692, 1996064986,
      2554220882, 2821834349, 2952996808, 3210313671, 3336571891, 3584528711,
      113926993, 338241895, 666307205, 773529912, 1294757372, 1396182291,
      1695183700, 1986661051, 2177026350, 2456956037, 2730485921, 2820302411,
      3259730800, 3345764771, 3516065817, 3600352804, 4094571909, 275423344,
      430227734, 506948616, 659060556, 883997877, 958139571, 1322822218,
      1537002063, 1747873779, 1955562222, 2024104815, 2227730452, 2361852424,
      2428436474, 2756734187, 3204031479, 3329325298]"

definition shaInit :: "word32 list" where
  "shaInit = [1779033703, 3144134277, 1013904242, 2773480762, 1359893119, 2600822924,
      528734635, 1541459225]"

text \<open>A one bit, zeros up to 56 bytes modulo 64, and the length in bits as eight bytes.\<close>

definition shaPad :: "nat list \<Rightarrow> nat list" where
  "shaPad m =
     (let l = length m; z = (119 - l mod 64) mod 64 in
      m @ [128] @ replicate z 0 @ map (\<lambda>i. nat (8 * int l div 256 ^ (7 - i) mod 256)) [0..<8])"

definition be32 :: "nat list \<Rightarrow> word32" where
  "be32 bs = foldl (\<lambda>w b. push_bit 8 w OR word_of_nat b) 0 bs"

fun chunks :: "nat \<Rightarrow> nat \<Rightarrow> 'a list \<Rightarrow> 'a list list" where
  "chunks k 0 xs = []"
| "chunks k (Suc n) xs = take k xs # chunks k n (drop k xs)"

text \<open>The message schedule, newest word first.\<close>

fun shaExpand :: "nat \<Rightarrow> word32 list \<Rightarrow> word32 list" where
  "shaExpand 0 ws = ws"
| "shaExpand (Suc n) ws =
     (let w2 = ws ! 1; w15 = ws ! 14;
          s1 = rotr 17 w2 XOR rotr 19 w2 XOR drop_bit 10 w2;
          s0 = rotr 7 w15 XOR rotr 18 w15 XOR drop_bit 3 w15 in
      shaExpand n ((s1 + ws ! 6 + s0 + ws ! 15) # ws))"

definition shaSchedule :: "nat list \<Rightarrow> word32 list" where
  "shaSchedule block = rev (shaExpand 48 (rev (map be32 (chunks 4 16 block))))"

fun shaRound :: "word32 list \<Rightarrow> word32 \<times> word32 \<Rightarrow> word32 list" where
  "shaRound [a, b, c, d, e, f, g, h] (k, w) =
     (let t1 = h + (rotr 6 e XOR rotr 11 e XOR rotr 25 e) + ((e AND f) XOR (NOT e AND g)) + k + w;
          t2 = (rotr 2 a XOR rotr 13 a XOR rotr 22 a) + ((a AND b) XOR (a AND c) XOR (b AND c)) in
      [t1 + t2, a, b, c, d + t1, e, f, g])"
| "shaRound st _ = st"

definition shaBlock :: "word32 list \<Rightarrow> nat list \<Rightarrow> word32 list" where
  "shaBlock st block = map2 (+) st (foldl shaRound st (zip shaK (shaSchedule block)))"

definition wordBytes :: "word32 \<Rightarrow> nat list" where
  "wordBytes w = map (\<lambda>i. unat (drop_bit i w AND 255)) [24, 16, 8, 0]"

definition sha256 :: "string \<Rightarrow> nat list" where
  "sha256 s =
     (let p = shaPad (map of_char s) in
      concat (map wordBytes (foldl shaBlock shaInit (chunks 64 (length p div 64) p))))"

section \<open>Hex\<close>

definition hexByte :: "nat \<Rightarrow> char" where
  "hexByte d = (if d < 10 then char_of (48 + d) else char_of (87 + d))"

definition hexEncode :: "nat list \<Rightarrow> string" where
  "hexEncode bs = concat (map (\<lambda>b. [hexByte (b div 16), hexByte (b mod 16)]) bs)"

definition isHexText :: "string \<Rightarrow> bool" where
  "isHexText s \<longleftrightarrow> list_all (\<lambda>c. isDigit c \<or> (CHR ''a'' \<le> c \<and> c \<le> CHR ''f'')) s"

section \<open>Lemmas\<close>

lemma shaRound_length: "length st = 8 \<Longrightarrow> length (shaRound st kw) = 8"
  by (cases kw; cases "(st, kw)" rule: shaRound.cases) (auto simp: Let_def)

lemma shaRounds_length: "length st = 8 \<Longrightarrow> length (foldl shaRound st kws) = 8"
  by (induction kws arbitrary: st) (auto simp: shaRound_length)

lemma shaBlock_length: "length st = 8 \<Longrightarrow> length (shaBlock st b) = 8"
  by (simp add: shaBlock_def shaRounds_length)

lemma shaBlocks_length: "length st = 8 \<Longrightarrow> length (foldl shaBlock st bs) = 8"
  by (induction bs arbitrary: st) (auto simp: shaBlock_length)

lemma wordBytes_ok: "length (wordBytes w) = 4 \<and> list_all (\<lambda>b. b < 256) (wordBytes w)"
proof -
  have "unat (x AND 255) < 256" for x :: word32
  proof -
    have "x AND 255 = take_bit 8 x" by (simp add: take_bit_eq_mask mask_eq_exp_minus_1)
    moreover have "unat (take_bit 8 x) = take_bit 8 (unat x)" by (rule unsigned_take_bit_eq)
    ultimately show ?thesis using take_bit_nat_less_exp [of 8 "unat x"] by simp
  qed
  then show ?thesis by (simp add: wordBytes_def)
qed

lemma sha256_ok: "length (sha256 s) = 32 \<and> list_all (\<lambda>b. b < 256) (sha256 s)"
proof -
  let ?ws = "foldl shaBlock shaInit (chunks 64 (length (shaPad (map of_char s)) div 64) (shaPad (map of_char s)))"
  have l: "length ?ws = 8" by (rule shaBlocks_length) (simp add: shaInit_def)
  have "length (concat (map wordBytes ws)) = 4 * length ws" for ws
    using wordBytes_ok by (induction ws) auto
  then show ?thesis
    using l wordBytes_ok by (auto simp: sha256_def Let_def list_all_iff)
qed

lemma hexEncode_length: "length (hexEncode bs) = 2 * length bs"
  by (induction bs) (auto simp: hexEncode_def)

lemma hexByte_ok: "d < 16 \<Longrightarrow> isDigit (hexByte d) \<or> (CHR ''a'' \<le> hexByte d \<and> hexByte d \<le> CHR ''f'')"
  by (auto simp: hexByte_def isDigit_def less_eq_char_def)

lemma hexEncode_hex: "list_all (\<lambda>b. b < 256) bs \<Longrightarrow> isHexText (hexEncode bs)"
  by (induction bs) (auto simp: hexEncode_def isHexText_def intro!: hexByte_ok)

end
