(* ===== verification/RenderCoreDNS.thy ===== *)
theory RenderCoreDNS
  imports DomainRecords GoJson GoHash
begin

text \<open>
  The CoreDNS renderer (\<open>renderers/coredns.go\<close>, \<open>renderers/collate.go\<close>).  The map of rendered files is an
  association list with one entry per path; \<open>setFile\<close> is the assignment to a map entry.  The errors of
  the renderer are those of the domain validators (the encoder never fails on a JSON value).
\<close>

section \<open>Collation\<close>

text \<open>\<open>localeCompare\<close>.  The tie-break walks the runes of both strings; UTF-8 keeps the order of code
  points, so the first differing bytes decide as the first differing runes do.\<close>

fun tieBreak :: "string \<Rightarrow> string \<Rightarrow> int" where
  "tieBreak (l # ls) (r # rs) = (if l = r then tieBreak ls rs else if l > r then - 1 else 1)"
| "tieBreak _ _ = 0"

definition localeCompare :: "string \<Rightarrow> string \<Rightarrow> int" where
  "localeCompare left right =
     (if ToLower left < ToLower right then - 1
      else if ToLower right < ToLower left then 1
      else tieBreak left right)"

section \<open>Rendering\<close>

record CoreDNSZoneInput =
  zinName :: string
  zinRecords :: "DNSRecord list"

record CoreDNSRenderInput =
  rinZones :: "CoreDNSZoneInput list"
  rinIngress :: Ingress
  rinDefaultPool :: ResolverPool
  rinForwardingRules :: "ForwardingRule list"

type_synonym files = "(string \<times> string) list"

record CoreDNSCandidate =
  cdnCorefile :: string
  cdnFiles :: files
  cdnChecksum :: string

fun setFile :: "string \<Rightarrow> string \<Rightarrow> files \<Rightarrow> files" where
  "setFile path body [] = [(path, body)]"
| "setFile path body ((p, b) # fs) = (if p = path then (path, body) # fs else (p, b) # setFile path body fs)"

definition ownerName :: "string \<Rightarrow> string \<Rightarrow> string" where
  "ownerName name zone =
     (if name = zone then ''@''
      else if HasSuffix name (''.'' @ zone) then take (length name - (length zone + 1)) name
      else name)"

definition ensureFQDN :: "string \<Rightarrow> string" where
  "ensureFQDN value = (if HasSuffix value ''.'' then value else value @ ''.'')"

definition formatIP :: "string \<Rightarrow> string" where
  "formatIP ip = (if Contains ip '':'' then ''['' @ ip @ '']'' else ip)"

fun stringValue :: "json \<Rightarrow> string" where
  "stringValue JNull = ''null''"
| "stringValue (JStr s) = s"
| "stringValue v = sprint v"

definition numberValue :: "json \<Rightarrow> string" where
  "numberValue value = stringValue value"

definition objectValue :: "json \<Rightarrow> object option" where
  "objectValue value = asObject value"

definition quoteTXT :: "string \<Rightarrow> string" where
  "quoteTXT s = DQ @ ReplaceAll (ReplaceAll s BS (BS @ BS)) DQ (BS @ DQ) @ DQ"

definition renderValue :: "DNSRecord \<Rightarrow> string" where
  "renderValue record =
     (if recType record = ''TXT'' then quoteTXT (stringValue (recValue record))
      else if recType record = ''MX'' then
        let value = objectValue (recValue record) in
        numberValue (objectGet value ''priority'') @ '' '' @ ensureFQDN (stringValue (objectGet value ''exchange''))
      else if recType record = ''SRV'' then
        let value = objectValue (recValue record) in
        numberValue (objectGet value ''priority'') @ '' '' @ numberValue (objectGet value ''weight'') @ '' '' @
        numberValue (objectGet value ''port'') @ '' '' @ ensureFQDN (stringValue (objectGet value ''target''))
      else if recType record = ''CNAME'' then ensureFQDN (stringValue (recValue record))
      else stringValue (recValue record))"

definition proxiedAnswers :: "string \<Rightarrow> DNSRecord \<Rightarrow> Ingress \<Rightarrow> string list" where
  "proxiedAnswers owner record ingress =
     (if (recType record = ''A'' \<or> recType record = ''CNAME'') \<and> IPv4 ingress \<noteq> []
      then [owner @ '' '' @ Itoa (recTTL record) @ '' IN A '' @ IPv4 ingress] else []) @
     (if (recType record = ''AAAA'' \<or> recType record = ''CNAME'') \<and> IPv6 ingress \<noteq> []
      then [owner @ '' '' @ Itoa (recTTL record) @ '' IN AAAA '' @ IPv6 ingress] else [])"

text \<open>The comparison of \<open>renderZoneFile\<close>: name, type, then the JSON text of the value.  The record set was
  validated, so its ids are distinct and the map of sort keys gives every record its own key.\<close>

definition recordLess :: "DNSRecord \<Rightarrow> DNSRecord \<Rightarrow> bool" where
  "recordLess left right =
     (let byName = localeCompare (recName left) (recName right);
          byType = localeCompare (recType left) (recType right) in
      if byName \<noteq> 0 then byName < 0
      else if byType \<noteq> 0 then byType < 0
      else localeCompare (jsonStringify (recValue left)) (jsonStringify (recValue right)) < 0)"

definition recordLines :: "string \<Rightarrow> Ingress \<Rightarrow> DNSRecord \<Rightarrow> string list" where
  "recordLines zone ingress record =
     (let owner = ownerName (recName record) zone in
      if recProxied record then proxiedAnswers owner record ingress
      else [owner @ '' '' @ Itoa (recTTL record) @ '' IN '' @ recType record @ '' '' @ renderValue record])"

definition zoneLines :: "string \<Rightarrow> DNSRecord list \<Rightarrow> Ingress \<Rightarrow> string list" where
  "zoneLines zone records ingress =
     [''$ORIGIN '' @ zone @ ''.'',
      ''$TTL 300'',
      ''@ 300 IN SOA ns1.'' @ zone @ ''. hostmaster.'' @ zone @ ''. 1 60 300 3600 60'',
      ''@ 300 IN NS ns1.'' @ zone @ ''.''] @
     concat (map (recordLines zone ingress) (stableSort recordLess (filter recEnabled records)))"

definition renderZoneFile :: "string \<Rightarrow> DNSRecord list \<Rightarrow> Ingress \<Rightarrow> string" where
  "renderZoneFile zone records ingress = Join (zoneLines zone records ingress) NL @ NL"

definition renderForwardBlock :: "ResolverPool \<Rightarrow> string" where
  "renderForwardBlock pool =
     ''    forward . '' @
     Join (map (\<lambda>e. formatIP (epHost e) @ '':'' @ Itoa (epPort e)) (poolEndpoints pool)) '' '' @
     '' {'' @ NL @ ''        policy sequential'' @ NL @ ''    }''"

definition zonePath :: "string \<Rightarrow> string" where
  "zonePath zone = ''zones/'' @ zone @ ''.zone''"

definition zoneBlock :: "string \<Rightarrow> string" where
  "zoneBlock zone = zone @ '':53 {'' @ NL @ ''    file /etc/coredns/'' @ zonePath zone @ NL @ ''}''"

fun renderZones ::
  "Ingress \<Rightarrow> CoreDNSZoneInput list \<Rightarrow> files \<Rightarrow> string list \<Rightarrow> domain_error + files \<times> string list" where
  "renderZones ingress [] files zoneBlocks = Inr (files, zoneBlocks)"
| "renderZones ingress (zone # zones) files zoneBlocks =
     bindE (normalizeDNSName (zinName zone) False) (\<lambda>normalizedZone.
     bindE (validateRecordSet (zinRecords zone)
              \<lparr>optZoneName = normalizedZone, optIngress = Some ingress, optCertificates = None\<rparr>) (\<lambda>records.
     renderZones ingress zones
       (setFile (zonePath normalizedZone) (renderZoneFile normalizedZone records ingress) files)
       (zoneBlocks @ [zoneBlock normalizedZone])))"

text \<open>The text hashed for the files: they are listed in the order of their paths.\<close>

definition filesText :: "files \<Rightarrow> string" where
  "filesText fs = Join (map (\<lambda>(path, body). path @ NL @ body) (sort_key fst fs)) NL"

definition defaultBlock :: "ResolverPool \<Rightarrow> string" where
  "defaultBlock pool =
     ''.:53 {'' @ NL @ ''    errors'' @ NL @ ''    health'' @ NL @ ''    ready'' @ NL @ ''    loop'' @ NL @
     ''    reload'' @ NL @ ''    cache 30'' @ NL @ renderForwardBlock pool @ NL @ ''}''"

definition ruleBlock :: "ForwardingRule \<Rightarrow> string" where
  "ruleBlock rule = ruleSuffix rule @ '':53 {'' @ NL @ renderForwardBlock (rulePool rule) @ NL @ ''}''"

text \<open>The Corefile: the zones, the forwarding rules with the longest suffix first, the default block.\<close>

definition corefileText :: "string list \<Rightarrow> ForwardingRule list \<Rightarrow> ResolverPool \<Rightarrow> string" where
  "corefileText zoneBlocks rules defaultPool =
     (let sortedRules = stableSort (\<lambda>a b. length (ruleSuffix a) > length (ruleSuffix b)) rules;
          blocks = zoneBlocks @ map ruleBlock sortedRules @ [defaultBlock defaultPool] in
      Join blocks (NL @ NL) @ NL)"

definition RenderCoreDNSCandidate :: "CoreDNSRenderInput \<Rightarrow> domain_error + CoreDNSCandidate" where
  "RenderCoreDNSCandidate input =
     bindE (validateResolverPool (rinDefaultPool input)) (\<lambda>defaultPool.
     bindE (validateForwardingRules (rinForwardingRules input)) (\<lambda>rules.
     let zones = stableSort (\<lambda>a b. localeCompare (zinName a) (zinName b) < 0) (rinZones input) in
     bindE (renderZones (rinIngress input) zones [] []) (\<lambda>(files, zoneBlocks).
     let corefile = corefileText zoneBlocks rules defaultPool in
     Inr \<lparr>cdnCorefile = corefile, cdnFiles = files,
          cdnChecksum = hexEncode (sha256 (corefile @ filesText files))\<rparr>)))"

section \<open>Lemmas: collation\<close>

text \<open>On names the renderers sort, which are lower case ASCII, the collation is the byte order.\<close>

lemma tieBreak_refl [simp]: "tieBreak s s = 0"
  by (induction s) auto

lemma localeCompare_plain:
  assumes "ToLower a = a" "ToLower b = b"
  shows "localeCompare a b < 0 \<longleftrightarrow> a < b" "localeCompare a b = 0 \<longleftrightarrow> a = b"
  using assms by (auto simp: localeCompare_def)

section \<open>Lemmas: quoting\<close>

text \<open>The reading of a quoted string in a zone file (RFC 1035, section 5.1): a backslash before a byte that
  is not a digit stands for that byte.  The result is the content and the rest of the text.\<close>

fun readQuotedBody :: "string \<Rightarrow> (string \<times> string) option" where
  "readQuotedBody [] = None"
| "readQuotedBody (c # s) =
     (if c = CHR 0x22 then Some ([], s)
      else if c = CHR 0x5C then
        (case s of
           [] \<Rightarrow> None
         | d # s' \<Rightarrow> if isDigit d then None else map_option (\<lambda>(t, r). (d # t, r)) (readQuotedBody s'))
      else map_option (\<lambda>(t, r). (c # t, r)) (readQuotedBody s))"

definition readQuoted :: "string \<Rightarrow> (string \<times> string) option" where
  "readQuoted s = (case s of [] \<Rightarrow> None | c # s' \<Rightarrow> if c = CHR 0x22 then readQuotedBody s' else None)"

lemma ReplaceAll_Nil [simp]: "ReplaceAll [] old new = []"
  by (subst ReplaceAll.simps) simp

lemma ReplaceAll_byte [simp]:
  "ReplaceAll (c # s) [d] new = (if c = d then new else [c]) @ ReplaceAll s [d] new"
  by (subst ReplaceAll.simps) simp

lemma readQuotedBody_escaped:
  "readQuotedBody (ReplaceAll (ReplaceAll s BS (BS @ BS)) DQ (BS @ DQ) @ CHR 0x22 # r) = Some (s, r)"
  by (induction s) (auto simp: isDigit_def)

lemma readQuoted_quoteTXT: "readQuoted (quoteTXT s @ r) = Some (s, r)"
  using readQuotedBody_escaped [of s r] by (simp add: quoteTXT_def readQuoted_def)

lemma set_escaped:
  "set (ReplaceAll (ReplaceAll s BS (BS @ BS)) DQ (BS @ DQ)) \<subseteq> set s \<union> {CHR 0x22, CHR 0x5C}"
  by (induction s) auto

section \<open>Lemmas: owner names\<close>

text \<open>How a zone file reads an owner: relative to the origin.\<close>

definition absoluteName :: "string \<Rightarrow> string \<Rightarrow> string" where
  "absoluteName zone owner = (if owner = ''@'' then zone else owner @ ''.'' @ zone)"

lemma ownerName_absolute:
  assumes "inZone zone name" "goodLabels True (Split (CHR ''.'') name)"
  shows "absoluteName zone (ownerName name zone) = name"
proof (cases "name = zone")
  case False
  then obtain p where p: "name = p @ ''.'' @ zone"
    using assms(1) by (auto simp: inZone_def HasSuffix_iff)
  have "p \<noteq> ''@''"
    using goodLabels_chars [OF assms(2)] by (auto simp: p nameChar_def labelEdge_def isLower_def isDigit_def)
  moreover have "HasSuffix name (''.'' @ zone)"
    using HasSuffix_append [of p "''.'' @ zone"] by (simp add: p)
  ultimately show ?thesis using False by (simp add: ownerName_def absoluteName_def p)
qed (simp add: ownerName_def absoluteName_def)

section \<open>Lemmas: lines\<close>

definition oneLine :: "string \<Rightarrow> bool" where
  "oneLine s \<longleftrightarrow> CHR 0x0A \<notin> set s"

lemma oneLine_simps [simp]:
  "oneLine []" "oneLine (c # s) \<longleftrightarrow> c \<noteq> CHR 0x0A \<and> oneLine s" "oneLine (s @ t) \<longleftrightarrow> oneLine s \<and> oneLine t"
  by (auto simp: oneLine_def)

lemma nameChar_oneLine: "list_all nameChar s \<Longrightarrow> oneLine s"
  by (auto simp: list_all_iff oneLine_def nameChar_def labelEdge_def isLower_def isDigit_def)

lemma isDigit_oneLine: "list_all isDigit s \<Longrightarrow> oneLine s"
  by (auto simp: list_all_iff oneLine_def isDigit_def)

lemma natItoa_oneLine [simp]: "oneLine (natItoa n)"
  by (rule isDigit_oneLine [OF natItoa_digits])

lemma Itoa_oneLine [simp]: "oneLine (Itoa i)"
  by (simp add: Itoa_def)

lemma addr_oneLine: "list_all addrChar s \<Longrightarrow> oneLine s"
  by (auto simp: list_all_iff oneLine_def addrChar_def isHex_def isDigit_def)

text \<open>\<open>ToLower\<close> loses no line break, so a name that is accepted without trimming is one line.\<close>

lemma ToLower_NL: "CHR 0x0A \<in> set s \<Longrightarrow> CHR 0x0A \<in> set (ToLower s)"
proof (induction s rule: ToLower.induct)
  case (2 c s)
  show ?case
  proof (cases "HasPrefix (c # s) [CHR 0xE2, CHR 0x84, CHR 0xAA] \<or> HasPrefix (c # s) [CHR 0xC4, CHR 0xB0]")
    case True
    then show ?thesis using 2 by (fastforce simp: HasPrefix_iff)
  next
    case False
    then show ?thesis using 2 by (auto simp: lowerChar_def isUpper_def)
  qed
qed simp

lemma normalizeDNSName_oneLine:
  assumes "normalizeDNSName s w = Inr n" "TrimSpace s = s"
  shows "oneLine s"
proof -
  have n: "n = ToLower (TrimRight s ''.'')"
    using assms by (auto simp: normalizeDNSName_def Let_def)
  have "oneLine n"
    using normalizeDNSName_canonical [OF assms(1)] goodLabels_chars nameChar_oneLine
    by (auto simp: canonicalName_def)
  then have t: "oneLine (TrimRight s ''.'')" using ToLower_NL n by (auto simp: oneLine_def)
  obtain r where r: "s = TrimRight s ''.'' @ r" "set r \<subseteq> set ''.''"
    using TrimRight_prefix by blast
  have "oneLine r" using r(2) by (auto simp: oneLine_def)
  with t have "oneLine (TrimRight s ''.'' @ r)" by (simp only: oneLine_simps)
  then show ?thesis by (simp only: r(1) [symmetric])
qed


text \<open>The DNS names inside a record value carry no outer white space.\<close>

definition valueTrimmed :: "DNSRecord \<Rightarrow> bool" where
  "valueTrimmed r \<longleftrightarrow>
     (let trimmed = (\<lambda>v. TrimSpace (stringValue v) = stringValue v) in
      (recType r = ''CNAME'' \<longrightarrow> trimmed (recValue r)) \<and>
      (recType r = ''MX'' \<longrightarrow> trimmed (objectGet (asObject (recValue r)) ''exchange'')) \<and>
      (recType r = ''SRV'' \<longrightarrow> trimmed (objectGet (asObject (recValue r)) ''target'')))"

definition ingressOK :: "Ingress \<Rightarrow> bool" where
  "ingressOK ing \<longleftrightarrow> (IPv4 ing = [] \<or> ipVersion (IPv4 ing) = 4) \<and> (IPv6 ing = [] \<or> ipVersion (IPv6 ing) = 6)"

lemma uint16_oneLine: "uint16 v \<Longrightarrow> oneLine (numberValue v)"
  by (cases v) (auto simp: uint16_def numberValue_def split: if_splits)

lemma ensureFQDN_oneLine: "oneLine s \<Longrightarrow> oneLine (ensureFQDN s)"
  by (simp add: ensureFQDN_def)

lemma renderValue_oneLine:
  assumes "validateRecordValue (recType r) (recValue r) n = Inr ()"
    "recType r \<in> set recordTypeSet" "valueTrimmed r"
  shows "oneLine (renderValue r)"
proof -
  consider "recType r = ''A''" | "recType r = ''AAAA''" | "recType r = ''CNAME''" | "recType r = ''TXT''"
    | "recType r = ''MX''" | "recType r = ''SRV''"
    using assms(2) by (auto simp: recordTypeSet_def)
  then show ?thesis
  proof cases
    case 1
    then show ?thesis
      using assms(1) addr_oneLine ipVersion_chars
      by (auto simp: validateRecordValue_def renderValue_def stringIs_def split: option.splits)
  next
    case 2
    then show ?thesis
      using assms(1) addr_oneLine ipVersion_chars
      by (auto simp: validateRecordValue_def renderValue_def stringIs_def split: option.splits)
  next
    case 3
    then show ?thesis
      using assms normalizeDNSName_oneLine
      by (auto simp: validateRecordValue_def renderValue_def valueTrimmed_def
               intro!: ensureFQDN_oneLine split: option.splits)
  next
    case 4
    then obtain s where "recValue r = JStr s" "oneLine s"
      using assms(1) by (auto simp: validateRecordValue_def stringIs_def crlfPattern_def oneLine_def split: option.splits)
    then show ?thesis
      using 4 set_escaped [of s] by (auto simp: renderValue_def quoteTXT_def oneLine_def)
  next
    case 5
    then show ?thesis
      using assms normalizeDNSName_oneLine
      by (auto simp: validateRecordValue_def renderValue_def valueTrimmed_def assertMxValue_def Let_def
               objectValue_def uint16_oneLine intro!: ensureFQDN_oneLine)
  next
    case 6
    then show ?thesis
      using assms normalizeDNSName_oneLine
      by (auto simp: validateRecordValue_def renderValue_def valueTrimmed_def assertSrvValue_def Let_def
               objectValue_def uint16_oneLine intro!: ensureFQDN_oneLine)
  qed
qed

lemma ownerName_oneLine:
  assumes "goodLabels True (Split (CHR ''.'') name)"
  shows "oneLine (ownerName name zone)"
  using nameChar_oneLine [OF goodLabels_chars [OF assms]]
  by (auto simp: ownerName_def oneLine_def dest: in_set_takeD)

lemma recordLines_oneLine:
  assumes "recordOK zone r" "validateRecordValue (recType r) (recValue r) n = Inr ()"
    "valueTrimmed r" "ingressOK ing"
  shows "list_all oneLine (recordLines zone ing r)"
proof -
  have t: "recType r \<in> set recordTypeSet" using assms(1) by (auto simp: recordOK_def recordTypeSet_def)
  then have "oneLine (recType r)" by (auto simp: recordTypeSet_def)
  moreover have "oneLine (ownerName (recName r) zone)"
    using assms(1) by (simp add: recordOK_def ownerName_oneLine)
  moreover have "IPv4 ing \<noteq> [] \<longrightarrow> oneLine (IPv4 ing)" "IPv6 ing \<noteq> [] \<longrightarrow> oneLine (IPv6 ing)"
    using assms(4) addr_oneLine ipVersion_chars by (auto simp: ingressOK_def)
  ultimately show ?thesis
    using renderValue_oneLine [OF assms(2) t assms(3)]
    by (auto simp: recordLines_def proxiedAnswers_def Let_def)
qed

lemma Split_lines:
  "list_all oneLine ls \<Longrightarrow> ls \<noteq> [] \<Longrightarrow> Split (CHR 0x0A) (Join ls NL @ NL) = ls @ [[]]"
proof (induction ls)
  case (Cons l ls)
  then have l: "Split (CHR 0x0A) l = [l]" by (simp add: Split_single oneLine_def)
  show ?case
  proof (cases "ls = []")
    case True
    then show ?thesis using l Split_append [of "CHR 0x0A" l "[]"] by simp
  next
    case False
    then show ?thesis
      using Cons l Split_append [of "CHR 0x0A" l "Join ls NL @ NL"] by (simp add: Join_Cons)
  qed
qed simp

lemma validateRecords_values:
  "validateRecords zone opts seen rs = Inr out \<Longrightarrow>
   \<forall>r \<in> set out. validateRecordValue (recType r) (recValue r) (recName r) = Inr () \<and>
     validateProxied r (recName r) opts = Inr ()"
proof (induction rs arbitrary: seen out)
  case (Cons r rs)
  obtain r' out' where r': "validateRecord zone opts seen r = Inr r'"
    and o': "validateRecords zone opts (seen @ [recID r]) rs = Inr out'" "out = r' # out'"
    using Cons.prems by auto
  have "validateRecordValue (recType r') (recValue r') (recName r') = Inr ()"
    "validateProxied r' (recName r') opts = Inr ()"
    using r' by (auto simp: validateRecord_Inr Let_def)
  then show ?case using Cons.IH [OF o'(1)] by (simp add: o')
qed simp

section \<open>Lemmas: files\<close>

lemma map_of_setFile [simp]: "map_of (setFile p b fs) = (map_of fs)(p \<mapsto> b)"
  by (induction fs) (auto simp: fun_upd_twist)

lemma setFile_keys: "fst ` set (setFile p b fs) = insert p (fst ` set fs)"
  by (metis dom_map_of_conv_image_fst map_of_setFile dom_fun_upd option.distinct(1))

lemma setFile_distinct: "distinct (map fst fs) \<Longrightarrow> distinct (map fst (setFile p b fs))"
  by (induction fs) (auto simp: setFile_keys)

text \<open>What one zone contributes: the path and the content of its file.\<close>

definition zoneOptions :: "string \<Rightarrow> Ingress \<Rightarrow> RecordSetOptions" where
  "zoneOptions zone ing = \<lparr>optZoneName = zone, optIngress = Some ing, optCertificates = None\<rparr>"

definition zoneResult :: "Ingress \<Rightarrow> CoreDNSZoneInput \<Rightarrow> domain_error + string \<times> string" where
  "zoneResult ing zone =
     bindE (normalizeDNSName (zinName zone) False) (\<lambda>n.
     bindE (validateRecordSet (zinRecords zone) (zoneOptions n ing)) (\<lambda>rs.
     Inr (zonePath n, renderZoneFile n rs ing)))"

lemma renderZones_results:
  "renderZones ing zones fs bs = Inr (fs', bs') \<Longrightarrow>
   \<exists>ps. mapE (zoneResult ing) zones = Inr ps \<and> fs' = foldl (\<lambda>fs (p, b). setFile p b fs) fs ps \<and>
     length bs' = length bs + length zones"
proof (induction zones arbitrary: fs bs)
  case (Cons zone zones)
  obtain n rs where n: "normalizeDNSName (zinName zone) False = Inr n"
    and rs: "validateRecordSet (zinRecords zone) (zoneOptions n ing) = Inr rs"
    and rest: "renderZones ing zones (setFile (zonePath n) (renderZoneFile n rs ing) fs)
        (bs @ [zoneBlock n]) = Inr (fs', bs')"
    using Cons.prems by (auto simp: zoneOptions_def)
  have "zoneResult ing zone = Inr (zonePath n, renderZoneFile n rs ing)"
    using n rs by (simp add: zoneResult_def)
  with Cons.IH [OF rest] show ?case by auto
qed auto

lemma foldl_setFile_other:
  "p \<notin> fst ` set ps \<Longrightarrow> map_of (foldl (\<lambda>fs (p, b). setFile p b fs) fs ps) p = map_of fs p"
  by (induction ps arbitrary: fs) (auto split: prod.splits)

lemma foldl_setFile_map_of:
  "distinct (map fst ps) \<Longrightarrow> (p, b) \<in> set ps \<Longrightarrow>
   map_of (foldl (\<lambda>fs (p, b). setFile p b fs) fs ps) p = Some b"
  by (induction ps arbitrary: fs) (force simp: foldl_setFile_other)+

lemma zoneResult_Inr:
  "zoneResult ing z = Inr (q, b) \<longleftrightarrow>
     (\<exists>n rs. normalizeDNSName (zinName z) False = Inr n \<and> q = zonePath n \<and>
        validateRecordSet (zinRecords z) (zoneOptions n ing) = Inr rs \<and> b = renderZoneFile n rs ing)"
  by (auto simp: zoneResult_def)

lemma zonePath_inject [simp]: "zonePath m = zonePath n \<longleftrightarrow> m = n"
  by (simp add: zonePath_def)

lemma zoneResults_distinct:
  "list_all2 (\<lambda>y pb. zoneResult ing y = Inr pb) zones ps \<Longrightarrow>
   distinct (map (\<lambda>z. normalizeDNSName (zinName z) False) zones) \<Longrightarrow> distinct (map fst ps)"
proof (induction rule: list_all2_induct)
  case (Cons y ys pb pbs)
  have "fst pb \<notin> fst ` set pbs"
  proof
    assume "fst pb \<in> fst ` set pbs"
    then obtain i where i: "i < length pbs" "fst (pbs ! i) = fst pb" by (auto simp: in_set_conv_nth)
    have "i < length ys" using i(1) list_all2_lengthD [OF Cons.hyps(2)] by simp
    have "zoneResult ing (ys ! i) = Inr (fst (pbs ! i), snd (pbs ! i))"
      using list_all2_nthD2 [OF Cons.hyps(2) i(1)] by simp
    then have "zoneResult ing (ys ! i) = Inr (fst pb, snd (pbs ! i))" using i(2) by simp
    moreover have "zoneResult ing y = Inr (fst pb, snd pb)" using Cons.hyps(1) by simp
    ultimately have "normalizeDNSName (zinName (ys ! i)) False = normalizeDNSName (zinName y) False"
      unfolding zoneResult_Inr by auto
    moreover have "ys ! i \<in> set ys" using \<open>i < length ys\<close> by simp
    ultimately show False using Cons.prems by (metis (mono_tags, lifting) distinct.simps(2) image_eqI list.simps(9) set_map)
  qed
  then show ?case using Cons by auto
qed simp

lemma RenderCoreDNSCandidate_Inr:
  assumes "RenderCoreDNSCandidate input = Inr c"
  obtains zones bs where "mset zones = mset (rinZones input)"
    "renderZones (rinIngress input) zones [] [] = Inr (cdnFiles c, bs)"
    "cdnChecksum c = hexEncode (sha256 (cdnCorefile c @ filesText (cdnFiles c)))"
proof -
  let ?zones = "stableSort (\<lambda>a b. localeCompare (zinName a) (zinName b) < 0) (rinZones input)"
  have "mset ?zones = mset (rinZones input)" by simp
  moreover have "\<exists>bs. renderZones (rinIngress input) ?zones [] [] = Inr (cdnFiles c, bs) \<and>
      cdnChecksum c = hexEncode (sha256 (cdnCorefile c @ filesText (cdnFiles c)))"
    using assms by (auto simp: RenderCoreDNSCandidate_def Let_def)
  ultimately show thesis using that by blast
qed

section \<open>Properties\<close>


definition sampleZone :: "DNSRecord list" where
  "sampleZone =
     [\<lparr>recID = ''r1'', recName = ''www'', recType = ''CNAME'', recValue = JStr ''web.example.net'', recTTL = 0,
       recEnabled = True, recComment = None, recProxied = False, recProxy = None\<rparr>]"


text \<open>
  A TXT record round-trips through the zone file: reading the quoted value, whatever follows it,
  returns the stored text, backslashes and quotation marks included.
\<close>
theorem renderValue_TXT_roundtrip:
  "readQuoted (renderValue (record\<lparr>recType := ''TXT'', recValue := JStr s\<rparr>) @ rest) = Some (s, rest)"
  by (simp add: renderValue_def readQuoted_quoteTXT)

text \<open>
  The owner written for an accepted record, read relative to the origin, is the record's full
  name.
\<close>
theorem ownerName_roundtrip:
  assumes "validateRecordSet records (zoneOptions zone ing) = Inr out" "canonicalName False zone"
    and "r \<in> set out"
  shows "absoluteName zone (ownerName (recName r) zone) = recName r"
proof -
  have z: "normalizeDNSName zone False = Inr zone" by (rule normalizeDNSName_id [OF assms(2)])
  then have v: "validateRecords zone (zoneOptions zone ing) [] records = Inr out"
    using assms(1) by (simp add: validateRecordSet_Inr zoneOptions_def)
  have "recordOK zone r" using validateRecords_ok [OF z v] assms(3) by (simp add: list_all_iff)
  then show ?thesis by (simp add: recordOK_def ownerName_absolute)
qed

theorem ownerName_roundtrip_witness:
  "absoluteName ''example.com'' (ownerName ''www.example.com'' ''example.com'') = ''www.example.com''"
proof -
  let ?out = "map (recName_update (\<lambda>_. ''www.example.com'') \<circ> recTTL_update (\<lambda>_. 300)) sampleZone"
    and ?ing = "\<lparr>IPv4 = ''192.0.2.1'', IPv6 = []\<rparr>"
  have "validateRecordSet sampleZone (zoneOptions ''example.com'' ?ing) = Inr ?out" by code_simp
  moreover have "canonicalName False ''example.com''" by code_simp
  moreover have "hd ?out \<in> set ?out" "recName (hd ?out) = ''www.example.com''"
    by (simp_all add: sampleZone_def)
  ultimately show ?thesis
    using ownerName_roundtrip [of sampleZone "''example.com''" ?ing ?out "hd ?out"] by simp
qed



text \<open>
  A rendered candidate holds the zone file of every input zone: when the normalized zone names are
  distinct, the file at the path of a zone is the rendering of its validated records; the Corefile's
  checksum is 64 lower case hex digits.
\<close>
theorem RenderCoreDNSCandidate_files:
  assumes "RenderCoreDNSCandidate input = Inr c"
    and "distinct (map (\<lambda>z. normalizeDNSName (zinName z) False) (rinZones input))"
    and "z \<in> set (rinZones input)"
  shows "(\<exists>n rs. normalizeDNSName (zinName z) False = Inr n \<and>
      validateRecordSet (zinRecords z) (zoneOptions n (rinIngress input)) = Inr rs \<and>
      map_of (cdnFiles c) (zonePath n) = Some (renderZoneFile n rs (rinIngress input))) \<and>
    length (cdnChecksum c) = 64 \<and> isHexText (cdnChecksum c)"
proof -
  let ?ing = "rinIngress input" and ?nm = "\<lambda>z. normalizeDNSName (zinName z) False"
  obtain zones bs where zs: "mset zones = mset (rinZones input)"
    and r: "renderZones ?ing zones [] [] = Inr (cdnFiles c, bs)"
    and sum: "cdnChecksum c = hexEncode (sha256 (cdnCorefile c @ filesText (cdnFiles c)))"
    using RenderCoreDNSCandidate_Inr [OF assms(1)] by blast
  obtain ps where ps: "list_all2 (\<lambda>y pb. zoneResult ?ing y = Inr pb) zones ps"
    and fs: "cdnFiles c = foldl (\<lambda>fs (p, b). setFile p b fs) [] ps"
    using renderZones_results [OF r] by (auto simp: mapE_Inr)
  have "mset (map ?nm zones) = mset (map ?nm (rinZones input))" using zs by simp
  then have "distinct (map ?nm zones)" using assms(2) mset_eq_imp_distinct_iff by blast
  with ps have d: "distinct (map fst ps)" by (rule zoneResults_distinct)
  have "z \<in> set zones" using assms(3) zs by (metis set_mset_mset)
  then obtain q b where qb: "zoneResult ?ing z = Inr (q, b)" "(q, b) \<in> set ps"
    using ps unfolding list_all2_conv_all_nth in_set_conv_nth by (metis surj_pair)
  have "map_of (cdnFiles c) q = Some b" unfolding fs by (rule foldl_setFile_map_of [OF d qb(2)])
  then show ?thesis
    using qb(1) sha256_ok by (auto simp: zoneResult_Inr sum hexEncode_length hexEncode_hex)
qed

definition sampleInput :: CoreDNSRenderInput where
  "sampleInput =
     \<lparr>rinZones = [\<lparr>zinName = ''Example.com'', zinRecords = sampleZone\<rparr>],
      rinIngress = \<lparr>IPv4 = ''192.0.2.1'', IPv6 = []\<rparr>,
      rinDefaultPool = \<lparr>poolID = ''default'', poolEndpoints = [\<lparr>epHost = ''9.9.9.9'', epPort = 53\<rparr>]\<rparr>,
      rinForwardingRules = sampleRules\<rparr>"

lemma sampleInput_renders: "\<exists>c. RenderCoreDNSCandidate sampleInput = Inr c"
proof -
  have "validateResolverPool (rinDefaultPool sampleInput) = Inr (rinDefaultPool sampleInput)"
    and "\<exists>rules. validateForwardingRules (rinForwardingRules sampleInput) = Inr rules"
    and "stableSort (\<lambda>a b. localeCompare (zinName a) (zinName b) < 0) (rinZones sampleInput) = rinZones sampleInput"
    and "\<exists>fb. renderZones (rinIngress sampleInput) (rinZones sampleInput) [] [] = Inr fb"
  proof -
    have "isl (validateForwardingRules (rinForwardingRules sampleInput)) = False"
      "isl (renderZones (rinIngress sampleInput) (rinZones sampleInput) [] []) = False"
      by code_simp+
    then show "\<exists>rules. validateForwardingRules (rinForwardingRules sampleInput) = Inr rules"
      "\<exists>fb. renderZones (rinIngress sampleInput) (rinZones sampleInput) [] [] = Inr fb"
      by (metis sum.collapse(2))+
  qed code_simp+
  then show ?thesis by (auto simp: RenderCoreDNSCandidate_def Let_def)
qed

theorem RenderCoreDNSCandidate_files_witness:
  "\<exists>c. RenderCoreDNSCandidate sampleInput = Inr c \<and> map_of (cdnFiles c) ''zones/example.com.zone'' \<noteq> None"
proof -
  obtain c where c: "RenderCoreDNSCandidate sampleInput = Inr c" using sampleInput_renders by blast
  let ?z = "\<lparr>zinName = ''Example.com'', zinRecords = sampleZone\<rparr>"
  have n: "normalizeDNSName ''Example.com'' False = Inr ''example.com''" by code_simp
  have "distinct (map (\<lambda>z. normalizeDNSName (zinName z) False) (rinZones sampleInput))"
    "?z \<in> set (rinZones sampleInput)"
    by (simp_all add: sampleInput_def)
  from RenderCoreDNSCandidate_files [OF c this] n have "map_of (cdnFiles c) ''zones/example.com.zone'' \<noteq> None"
    by (auto simp: zonePath_def)
  with c show ?thesis by blast
qed

section \<open>Observation\<close>

text \<open>A target name is validated after trimming but written untrimmed: a CNAME value that ends with a line
  break is accepted and its rendered value spans two lines.\<close>

lemma cname_line_break:
  "validateRecordValue ''CNAME'' (JStr (''web.example.net'' @ NL)) ''www.example.com'' = Inr () \<and>
   renderValue ((hd sampleZone)\<lparr>recValue := JStr (''web.example.net'' @ NL)\<rparr>) = ''web.example.net'' @ NL @ ''.''"
  by code_simp

end
