(* ===== verification/Candidates.thy ===== *)
theory Candidates
  imports GoStrings RenderCoreDNS "HOL-Library.Sublist"
begin

text \<open>
  Candidate trees and how they are written (\<open>worker/apply/candidate.go\<close>), with the parts of
  \<open>path/filepath\<close> they use.  Code that talks to the world is a function from the state of the world to an
  error or a value and the next state; an error is its message.  The file system is an interface, as in
  the code.
\<close>

section \<open>Effects\<close>

type_synonym goerror = string

type_synonym ('w, 'a) io = "'w \<Rightarrow> (goerror + 'a) \<times> 'w"

definition returnIO :: "'a \<Rightarrow> ('w, 'a) io" where
  "returnIO x w = (Inr x, w)"

definition throwIO :: "goerror \<Rightarrow> ('w, 'a) io" where
  "throwIO e w = (Inl e, w)"

definition bindIO :: "('w, 'a) io \<Rightarrow> ('a \<Rightarrow> ('w, 'b) io) \<Rightarrow> ('w, 'b) io" where
  "bindIO m f w = (case m w of (Inl e, w') \<Rightarrow> (Inl e, w') | (Inr x, w') \<Rightarrow> f x w')"

section \<open>Paths\<close>

text \<open>The elements of a path after \<open>Clean\<close>, as a stack.\<close>

fun cleanStep :: "bool \<Rightarrow> string list \<Rightarrow> string \<Rightarrow> string list" where
  "cleanStep rooted stack p =
     (if p = [] \<or> p = ''.'' then stack
      else if p = ''..'' then
        (if stack \<noteq> [] \<and> last stack \<noteq> ''..'' then butlast stack
         else if rooted then stack
         else stack @ [p])
      else stack @ [p])"

definition Clean :: "string \<Rightarrow> string" where
  "Clean path =
     (if path = [] then ''.''
      else let rooted = HasPrefix path ''/'';
               out = (if rooted then ''/'' else []) @ Join (foldl (cleanStep rooted) [] (Split (CHR ''/'') path)) ''/'' in
           if out = [] then ''.'' else out)"

definition PathJoin :: "string list \<Rightarrow> string" where
  "PathJoin elems = (let es = filter (\<lambda>e. e \<noteq> []) elems in if es = [] then [] else Clean (Join es ''/''))"

definition Dir :: "string \<Rightarrow> string" where
  "Dir path = Clean (rev (dropWhile (\<lambda>c. c \<noteq> CHR ''/'') (rev path)))"

section \<open>Candidates\<close>

record Candidate =
  cdService :: string
  cdCandidatePath :: string
  cdChecksum :: string
  cdFiles :: "files option"

record 'w FS =
  MkdirAll :: "string \<Rightarrow> nat \<Rightarrow> ('w, unit) io"
  WriteFile :: "string \<Rightarrow> string \<Rightarrow> nat \<Rightarrow> ('w, unit) io"

definition DefaultCandidateRoot :: string where
  "DefaultCandidateRoot = ''/var/lib/proxycore/candidates''"

definition dirMode :: nat where "dirMode = 7 * 64 + 5 * 8 + 5"

definition fileMode :: nat where "fileMode = 6 * 64 + 4 * 8 + 4"

definition badFileName :: "string \<Rightarrow> bool" where
  "badFileName name \<longleftrightarrow> HasPrefix name ''/'' \<or> Contains name ''..'' \<or> CHR 0x00 \<in> set name"

fun writeFiles :: "'w FS \<Rightarrow> string \<Rightarrow> files \<Rightarrow> ('w, unit) io" where
  "writeFiles fs path [] = returnIO ()"
| "writeFiles fs path ((name, content) # rest) =
     bindIO (MkdirAll fs (Dir (PathJoin [path, name])) dirMode) (\<lambda>_.
     bindIO (WriteFile fs (PathJoin [path, name]) content fileMode) (\<lambda>_.
     writeFiles fs path rest))"

definition writeCandidate :: "'w FS \<Rightarrow> Candidate \<Rightarrow> string \<Rightarrow> ('w, unit) io" where
  "writeCandidate fs candidate candidateRoot =
     (case cdFiles candidate of
        None \<Rightarrow> returnIO ()
      | Some files \<Rightarrow>
          let root = TrimRight candidateRoot ''/'' in
          if \<not> HasPrefix (cdCandidatePath candidate) (root @ ''/'') \<or> Contains (cdCandidatePath candidate) ''..''
          then throwIO ''Candidate path is outside the worker candidate root''
          else if list_ex badFileName (map fst files) then throwIO ''Candidate file path is invalid''
          else
            bindIO (MkdirAll fs (cdCandidatePath candidate) dirMode) (\<lambda>_.
            writeFiles fs (cdCandidatePath candidate) (sort_key fst files)))"

section \<open>Lemmas: effects\<close>

lemma returnIO_simp [simp, go_simps]: "returnIO x w = (Inr x, w)"
  by (simp add: returnIO_def)

lemma throwIO_simp [simp, go_simps]: "throwIO e w = (Inl e, w)"
  by (simp add: throwIO_def)

lemma bindIO_Inr: "bindIO m f w = (Inr y, w') \<longleftrightarrow> (\<exists>x w1. m w = (Inr x, w1) \<and> f x w1 = (Inr y, w'))"
  by (auto simp: bindIO_def split: prod.splits sum.splits)

lemma bindIO_cases:
  assumes "bindIO m f w = (res, w')"
  obtains (fails) e where "m w = (Inl e, w')" "res = Inl e" | (works) x w1 where "m w = (Inr x, w1)" "f x w1 = (res, w')"
  using assms by (auto simp: bindIO_def split: prod.splits sum.splits)

section \<open>Lemmas: paths\<close>

definition pathParts :: "string \<Rightarrow> string list" where
  "pathParts p = filter (\<lambda>e. e \<noteq> [] \<and> e \<noteq> ''.'') (Split (CHR ''/'') p)"

definition noDots :: "string \<Rightarrow> bool" where
  "noDots p \<longleftrightarrow> ''..'' \<notin> set (pathParts p)"

lemma Join_element: "e \<in> set es \<Longrightarrow> \<exists>a b. Join es sep = a @ e @ b"
proof (induction es)
  case (Cons x es)
  show ?case
  proof (cases "e = x")
    case True
    then show ?thesis by (cases es) (auto intro: exI [of _ "[]"])
  next
    case False
    then have "e \<in> set es" using Cons.prems by simp
    then have ne: "es \<noteq> []" by auto
    from \<open>e \<in> set es\<close> obtain a b where ab: "Join es sep = a @ e @ b" using Cons.IH by blast
    have "Join (x # es) sep = (x @ sep @ a) @ e @ b" by (simp add: Join_Cons [OF ne] ab)
    then show ?thesis by blast
  qed
qed simp

lemma Contains_noDots: "\<not> Contains p ''..'' \<Longrightarrow> noDots p"
proof (rule ccontr)
  assume c: "\<not> Contains p ''..''" "\<not> noDots p"
  then have "''..'' \<in> set (Split (CHR ''/'') p)" by (auto simp: noDots_def pathParts_def)
  from Join_element [OF this, of "''/''"] c(1) show False by (metis Contains_iff Join_Split)
qed

lemma pathParts_append: "pathParts (p @ CHR ''/'' # q) = pathParts p @ pathParts q"
  by (simp add: pathParts_def Split_append)

lemma pathParts_Nil [simp]: "pathParts [] = []" "pathParts ''.'' = []" "pathParts ''/'' = []"
  by (simp_all add: pathParts_def)

lemma pathParts_slashes: "set r \<subseteq> {CHR ''/''} \<Longrightarrow> pathParts (p @ r) = pathParts p"
proof (induction r arbitrary: p)
  case (Cons c r)
  then have "pathParts (p @ c # r) = pathParts p @ pathParts r" by (simp add: pathParts_append)
  moreover have "pathParts r = []" using Cons.IH [of "[]"] Cons.prems by simp
  ultimately show ?case by simp
qed simp

lemma Split_Join: "ps \<noteq> [] \<Longrightarrow> \<forall>p \<in> set ps. c \<notin> set p \<Longrightarrow> Split c (Join ps [c]) = ps"
proof (induction ps)
  case (Cons p ps)
  show ?case
  proof (cases ps)
    case Nil
    then show ?thesis using Cons.prems by (simp add: Split_single)
  next
    case (Cons q qs)
    then have "Split c (p @ c # Join ps [c]) = p # ps"
      using Cons.prems Cons.IH by (simp add: Split_append Split_single)
    then show ?thesis using Cons by simp
  qed
qed simp

lemma cleanStep_noDots:
  "''..'' \<notin> set es \<Longrightarrow> foldl (cleanStep r) st es = st @ filter (\<lambda>e. e \<noteq> [] \<and> e \<noteq> ''.'') es"
  by (induction es arbitrary: st) auto

lemma Clean_noDots:
  assumes "noDots p" "p \<noteq> []"
  shows "Clean p = (let out = (if HasPrefix p ''/'' then ''/'' else []) @ Join (pathParts p) ''/'' in if out = [] then ''.'' else out)"
proof -
  have "''..'' \<notin> set (Split (CHR ''/'') p)" using assms(1) by (auto simp: noDots_def pathParts_def)
  then show ?thesis using assms(2) by (simp add: Clean_def cleanStep_noDots pathParts_def [symmetric])
qed

lemma pathParts_clean_elements: "e \<in> set (pathParts p) \<Longrightarrow> e \<noteq> [] \<and> e \<noteq> ''.'' \<and> CHR ''/'' \<notin> set e"
  using Split_no_sep by (auto simp: pathParts_def)

lemma pathParts_Join:
  assumes "\<forall>e \<in> set ps. e \<noteq> [] \<and> e \<noteq> ''.'' \<and> CHR ''/'' \<notin> set e"
  shows "pathParts (Join ps ''/'') = ps"
proof (cases "ps = []")
  case False
  then have "Split (CHR ''/'') (Join ps ''/'') = ps" using assms by (intro Split_Join) auto
  then show ?thesis using assms by (simp add: pathParts_def)
qed simp

lemma pathParts_lead: "pathParts (CHR ''/'' # s) = pathParts s"
  using pathParts_append [of "[]" s] by simp

lemma pathParts_Clean: "noDots p \<Longrightarrow> pathParts (Clean p) = pathParts p"
proof (cases "p = []")
  case True
  then show ?thesis by (simp add: Clean_def)
next
  case False
  assume "noDots p"
  note c = Clean_noDots [OF this False]
  have "pathParts (Join (pathParts p) ''/'') = pathParts p"
    by (rule pathParts_Join) (simp add: pathParts_clean_elements)
  then show ?thesis unfolding c by (auto simp: Let_def pathParts_lead)
qed

lemma noDots_append: "noDots p \<Longrightarrow> noDots q \<Longrightarrow> noDots (p @ CHR ''/'' # q)"
  by (simp add: noDots_def pathParts_append)

lemma pathParts_PathJoin:
  assumes "noDots p" "noDots q" "p \<noteq> []"
  shows "pathParts (PathJoin [p, q]) = pathParts p @ pathParts q"
proof (cases "q = []")
  case True
  then show ?thesis using assms by (simp add: PathJoin_def pathParts_Clean)
next
  case False
  then have "PathJoin [p, q] = Clean (p @ CHR ''/'' # q)" using assms(3) by (simp add: PathJoin_def)
  then show ?thesis using pathParts_Clean [OF noDots_append [OF assms(1,2)]] by (simp add: pathParts_append)
qed

lemma upToSlash:
  assumes "CHR ''/'' \<notin> set u"
  shows "rev (dropWhile (\<lambda>c. c \<noteq> CHR ''/'') (rev (x @ CHR ''/'' # u))) = x @ ''/''"
    "rev (dropWhile (\<lambda>c. c \<noteq> CHR ''/'') (rev u)) = []"
proof -
  have "dropWhile (\<lambda>c. c \<noteq> CHR ''/'') (rev u @ y) = dropWhile (\<lambda>c. c \<noteq> CHR ''/'') y" for y
    using assms by (intro dropWhile_append2) auto
  from this [of "CHR ''/'' # rev x"] this [of "[]"]
  show "rev (dropWhile (\<lambda>c. c \<noteq> CHR ''/'') (rev (x @ CHR ''/'' # u))) = x @ ''/''"
    "rev (dropWhile (\<lambda>c. c \<noteq> CHR ''/'') (rev u)) = []" by simp_all
qed

lemma Join_snoc: "us \<noteq> [] \<Longrightarrow> Join (us @ [u]) sep = Join us sep @ sep @ u"
proof (induction us)
  case (Cons a us)
  then show ?case by (cases "us = []") (simp_all add: Join_Cons)
qed simp

text \<open>The directory of a clean path has all its elements but the last.\<close>

lemma pathParts_Dir:
  assumes "noDots p" "pathParts p \<noteq> []"
  shows "pathParts (Dir (Clean p)) = butlast (pathParts p)"
proof -
  obtain us u where ps: "pathParts p = us @ [u]" using assms(2) by (metis rev_exhaust)
  then have u: "u \<noteq> []" "CHR ''/'' \<notin> set u" using pathParts_clean_elements [of u p] by auto
  have us: "\<forall>e \<in> set us. e \<noteq> [] \<and> e \<noteq> ''.'' \<and> CHR ''/'' \<notin> set e"
    using pathParts_clean_elements [of _ p] ps by auto
  have ne: "p \<noteq> []" using assms(2) by auto
  define lead where "lead = (if HasPrefix p ''/'' then ''/'' else [])"
  have lead: "pathParts lead = []" "lead = [] \<or> lead = ''/''" by (auto simp: lead_def)
  have c: "Clean p = lead @ Join (us @ [u]) ''/''"
    using Clean_noDots [OF assms(1) ne] u(1) by (cases "us = []") (auto simp: ps lead_def Let_def Join_snoc)
  define x where "x = (if us = [] then lead else lead @ Join us ''/'' @ ''/'')"
  have "rev (dropWhile (\<lambda>c. c \<noteq> CHR ''/'') (rev (Clean p))) = x"
  proof (cases "us = []")
    case True
    with lead(2) show ?thesis
      using upToSlash(1) [OF u(2), of "[]"] upToSlash(2) [OF u(2)] by (elim disjE) (simp_all only: c x_def, simp_all)
  next
    case False
    then show ?thesis using upToSlash(1) [OF u(2), of "lead @ Join us ''/''"] by (simp add: c x_def Join_snoc)
  qed
  then have d: "Dir (Clean p) = Clean x" by (simp add: Dir_def)
  have "pathParts x = us"
    using lead pathParts_Join [OF us] pathParts_append [of "Join us ''/''" "[]"] by (auto simp: x_def pathParts_lead)
  moreover from this have "noDots x" using assms(1) ps by (simp add: noDots_def)
  ultimately show ?thesis using d pathParts_Clean [of x] ps by simp
qed

section \<open>Lemmas: writing\<close>

text \<open>A file system that also records the calls it gets.\<close>

datatype fsCall = Mkdir string nat | Put string string nat

primrec callPath :: "fsCall \<Rightarrow> string" where
  "callPath (Mkdir p m) = p"
| "callPath (Put p body m) = p"

definition recording :: "('w, 'a) io \<Rightarrow> 'e \<Rightarrow> ('w \<times> 'e list, 'a) io" where
  "recording m e s = (case m (fst s) of (r, w') \<Rightarrow> (r, (w', snd s @ [e])))"

definition tracedFS :: "'w FS \<Rightarrow> ('w \<times> fsCall list) FS" where
  "tracedFS fs = \<lparr>MkdirAll = \<lambda>p m. recording (MkdirAll fs p m) (Mkdir p m),
     WriteFile = \<lambda>p body m. recording (WriteFile fs p body m) (Put p body m)\<rparr>"

text \<open>The calls for one file, and for all files of a candidate.\<close>

definition fileCalls :: "string \<Rightarrow> string \<times> string \<Rightarrow> fsCall list" where
  "fileCalls path f =
     [Mkdir (Dir (PathJoin [path, fst f])) dirMode, Put (PathJoin [path, fst f]) (snd f) fileMode]"

definition candidateCalls :: "string \<Rightarrow> files \<Rightarrow> fsCall list" where
  "candidateCalls path files = Mkdir path dirMode # concat (map (fileCalls path) (sort_key fst files))"

lemma writeFiles_calls:
  "writeFiles (tracedFS fs) path files (w, tr) = (res, (w', tr')) \<Longrightarrow>
   \<exists>evs. tr' = tr @ evs \<and> prefix evs (concat (map (fileCalls path) files)) \<and>
     (res = Inr () \<longrightarrow> evs = concat (map (fileCalls path) files))"
proof (induction files arbitrary: w tr)
  case Nil
  then show ?case by simp
next
  case (Cons f files)
  obtain name body where f: "f = (name, body)" by (cases f)
  obtain r1 w1 where m1: "MkdirAll fs (Dir (PathJoin [path, name])) dirMode w = (r1, w1)" by fastforce
  obtain r2 w2 where m2: "WriteFile fs (PathJoin [path, name]) body fileMode w1 = (r2, w2)" by fastforce
  have calls: "fileCalls path f = [Mkdir (Dir (PathJoin [path, name])) dirMode, Put (PathJoin [path, name]) body fileMode]"
    by (simp add: fileCalls_def f)
  consider e where "r1 = Inl e" | e where "r1 = Inr ()" "r2 = Inl e" | "r1 = Inr ()" "r2 = Inr ()"
    by (metis old.unit.exhaust sum.exhaust)
  then show ?case
  proof cases
    case 1
    then show ?thesis using Cons.prems m1 calls f
      by (auto simp: bindIO_def tracedFS_def recording_def)
  next
    case 2
    then show ?thesis using Cons.prems m1 m2 calls f
      by (auto simp: bindIO_def tracedFS_def recording_def)
  next
    case 3
    then have "writeFiles (tracedFS fs) path files (w2, tr @ fileCalls path f) = (res, (w', tr'))"
      using Cons.prems m1 m2 calls f by (simp add: bindIO_def tracedFS_def recording_def)
    from Cons.IH [OF this] obtain evs where
      "tr' = (tr @ fileCalls path f) @ evs" "prefix evs (concat (map (fileCalls path) files))"
      "res = Inr () \<longrightarrow> evs = concat (map (fileCalls path) files)" by blast
    then show ?thesis by (intro exI [of _ "fileCalls path f @ evs"]) simp
  qed
qed

text \<open>What the checks of \<open>writeCandidate\<close> leave: a prefix of the calls of an acceptable candidate.\<close>

lemma writeCandidate_calls:
  assumes "writeCandidate (tracedFS fs) c root (w, []) = (res, (w', calls))" "cdFiles c = Some files"
  shows "calls = [] \<and> isl res \<or>
    (HasPrefix (cdCandidatePath c) (TrimRight root ''/'' @ ''/'') \<and> noDots (cdCandidatePath c) \<and>
     (\<forall>name \<in> fst ` set files. noDots name \<and> \<not> HasPrefix name ''/'') \<and>
     prefix calls (candidateCalls (cdCandidatePath c) files) \<and>
     (res = Inr () \<longrightarrow> calls = candidateCalls (cdCandidatePath c) files))"
proof -
  let ?path = "cdCandidatePath c"
  show ?thesis
  proof (cases "HasPrefix ?path (TrimRight root ''/'' @ ''/'') \<and> \<not> Contains ?path ''..'' \<and> \<not> list_ex badFileName (map fst files)")
    case False
    then show ?thesis using assms by (auto simp: writeCandidate_def Let_def split: if_splits)
  next
    case True
    then have run: "bindIO (MkdirAll (tracedFS fs) ?path dirMode) (\<lambda>_. writeFiles (tracedFS fs) ?path (sort_key fst files)) (w, []) = (res, (w', calls))"
      using assms by (simp add: writeCandidate_def Let_def)
    have names: "\<forall>name \<in> fst ` set files. noDots name \<and> \<not> HasPrefix name ''/''"
      using True Contains_noDots by (auto simp: badFileName_def list_ex_iff)
    obtain r1 w1 where m1: "MkdirAll fs ?path dirMode w = (r1, w1)" by fastforce
    have "prefix calls (candidateCalls ?path files) \<and> (res = Inr () \<longrightarrow> calls = candidateCalls ?path files)"
    proof (cases r1)
      case (Inl e)
      then show ?thesis using run m1
        by (auto simp: bindIO_def tracedFS_def recording_def candidateCalls_def)
    next
      case (Inr u)
      then have "writeFiles (tracedFS fs) ?path (sort_key fst files) (w1, [Mkdir ?path dirMode]) = (res, (w', calls))"
        using run m1 by (simp add: bindIO_def tracedFS_def recording_def)
      from writeFiles_calls [OF this] show ?thesis by (auto simp: candidateCalls_def)
    qed
    then show ?thesis using True names Contains_noDots by blast
  qed
qed

lemma below_root:
  assumes "HasPrefix path (TrimRight root ''/'' @ ''/'')"
  shows "prefix (pathParts root) (pathParts path)"
proof -
  obtain rest where "path = (TrimRight root ''/'' @ ''/'') @ rest"
    using assms unfolding HasPrefix_def by (metis append_take_drop_id)
  then have path: "path = TrimRight root ''/'' @ CHR ''/'' # rest" by simp
  obtain r where r: "root = TrimRight root ''/'' @ r" "set r \<subseteq> {CHR ''/''}"
    using TrimRight_prefix [of root "''/''"] by auto
  have "pathParts root = pathParts (TrimRight root ''/'')" using pathParts_slashes [OF r(2)] r(1) by metis
  then show ?thesis by (simp add: path pathParts_append)
qed

lemma candidateCalls_path:
  assumes "call \<in> set (candidateCalls path files)" "noDots path" "path \<noteq> []"
    "\<forall>name \<in> fst ` set files. noDots name \<and> pathParts name \<noteq> []"
  shows "prefix (pathParts path) (pathParts (callPath call)) \<and> noDots (callPath call)"
proof -
  consider "call = Mkdir path dirMode" | name body where "(name, body) \<in> set files" "call \<in> set (fileCalls path (name, body))"
    using assms(1) by (auto simp: candidateCalls_def)
  then show ?thesis
  proof cases
    case 1
    then show ?thesis using assms(2) by simp
  next
    case 2
    then have n: "noDots name" "pathParts name \<noteq> []" using assms(4) by force+
    have j: "pathParts (PathJoin [path, name]) = pathParts path @ pathParts name"
      by (rule pathParts_PathJoin [OF assms(2) n(1) assms(3)])
    have "name \<noteq> []" using n(2) by auto
    then have c: "PathJoin [path, name] = Clean (path @ CHR ''/'' # name)" using assms(3) by (simp add: PathJoin_def)
    have d: "pathParts (Dir (PathJoin [path, name])) = pathParts path @ butlast (pathParts name)"
      using pathParts_Dir [OF noDots_append [OF assms(2) n(1)]] n(2) c by (simp add: pathParts_append butlast_append)
    show ?thesis
      using 2(2) j d assms(2) n by (auto simp: fileCalls_def noDots_def dest: in_set_butlastD)
  qed
qed

section \<open>Properties\<close>


definition nullFS :: "unit FS" where
  "nullFS = \<lparr>MkdirAll = \<lambda>_ _. returnIO (), WriteFile = \<lambda>_ _ _. returnIO ()\<rparr>"

definition sampleCandidate :: Candidate where
  "sampleCandidate = \<lparr>cdService = ''coredns'', cdCandidatePath = ''/srv/c/r1/coredns'', cdChecksum = ''x'',
     cdFiles = Some [(''zones/a.zone'', ''z''), (''Corefile'', ''f'')]\<rparr>"


end
