(* ===== verification/RenderNginx.thy ===== *)
theory RenderNginx
  imports RenderCoreDNS
begin

text \<open>
  The nginx renderer (\<open>renderers/proxy.go\<close>, \<open>renderers/nginx.go\<close>).  \<open>normalizeProxySettings\<close> validates the
  untyped settings of a record and then decodes them with \<open>encoding/json\<close> into a struct.  The decoder
  matches object keys to field names without regard to case, in the order of the keys (the object was
  encoded from a map, so its keys are sorted), and a later match overwrites an earlier one; the model
  keeps this.  The text of a decoding error is not modelled.
\<close>

section \<open>Typed proxy settings\<close>

datatype render_error =
    DomainError domain_error
  | RenderError string
  | DecodeError

record Http3Capabilities =
  capHttp3Module :: bool
  capTCP443Published :: bool
  capUDP443Published :: bool

record headerRule =
  hrName :: string
  hrValue :: string

record pathAction =
  paType :: string
  paStatus :: int
  paLocation :: "string option"
  paRewrite :: string

record pathRule =
  prKind :: string
  prPattern :: string
  prAction :: pathAction

record proxyOrigin =
  orIP :: string
  orPort :: int
  orProtocol :: string

record basicAuthSettings =
  baUsername :: string
  baPasswordSecretID :: string

record proxyTimeouts =
  toConnect :: "int option"
  toSendRead :: "int option"
  toClientHeader :: "int option"
  toBodyLimit :: "int option"

record proxySettings =
  psOrigin :: proxyOrigin
  psTLSEnabled :: bool
  psCertificateID :: string
  psHTTP2 :: "bool option"
  psHTTP3 :: bool
  psRedirect :: "bool option"
  psBackendTLSVerify :: bool
  psWebsocket :: bool
  psCache :: "bool option"
  psBasicAuth :: "basicAuthSettings option"
  psTimeouts :: proxyTimeouts
  psHeaders :: "headerRule list"
  psPathRules :: "pathRule list"
  psNginxDirectives :: string

definition zeroSettings :: proxySettings where
  "zeroSettings =
     \<lparr>psOrigin = \<lparr>orIP = [], orPort = 0, orProtocol = []\<rparr>, psTLSEnabled = False, psCertificateID = [],
      psHTTP2 = None, psHTTP3 = False, psRedirect = None, psBackendTLSVerify = False, psWebsocket = False,
      psCache = None, psBasicAuth = None,
      psTimeouts = \<lparr>toConnect = None, toSendRead = None, toClientHeader = None, toBodyLimit = None\<rparr>,
      psHeaders = [], psPathRules = [], psNginxDirectives = []\<rparr>"

text \<open>The accessors with the defaults of an absent value.\<close>

definition http2 :: "proxySettings \<Rightarrow> bool" where
  "http2 s = (case psHTTP2 s of Some b \<Rightarrow> b | None \<Rightarrow> psTLSEnabled s)"

definition redirectHTTPToHTTPS :: "proxySettings \<Rightarrow> bool" where
  "redirectHTTPToHTTPS s = (case psRedirect s of Some b \<Rightarrow> b | None \<Rightarrow> True)"

definition cacheEnabled :: "proxySettings \<Rightarrow> bool" where
  "cacheEnabled s = (case psCache s of Some b \<Rightarrow> b | None \<Rightarrow> False)"

definition intOr :: "int option \<Rightarrow> int \<Rightarrow> int" where
  "intOr value fallback = (case value of Some i \<Rightarrow> i | None \<Rightarrow> fallback)"

section \<open>Decoding\<close>

text \<open>The case folding of the decoder: ASCII case, the Kelvin sign and the long s.\<close>

fun foldKey :: "string \<Rightarrow> string" where
  "foldKey [] = []"
| "foldKey (c # s) =
     (if HasPrefix (c # s) [CHR 0xE2, CHR 0x84, CHR 0xAA] then CHR ''k'' # foldKey (drop 2 s)
      else if HasPrefix (c # s) [CHR 0xC5, CHR 0xBF] then CHR ''s'' # foldKey (drop 1 s)
      else lowerChar c # foldKey s)"

definition keyIs :: "string \<Rightarrow> string \<Rightarrow> bool" where
  "keyIs field key \<longleftrightarrow> foldKey key = foldKey field"

text \<open>A null leaves a value as it was; a value of another type is an error.\<close>

fun decodeString :: "json \<Rightarrow> string \<Rightarrow> render_error + string" where
  "decodeString (JStr s) old = Inr s"
| "decodeString JNull old = Inr old"
| "decodeString _ old = Inl DecodeError"

fun decodeBool :: "json \<Rightarrow> bool \<Rightarrow> render_error + bool" where
  "decodeBool (JBool b) old = Inr b"
| "decodeBool JNull old = Inr old"
| "decodeBool _ old = Inl DecodeError"

fun decodeInt :: "json \<Rightarrow> int \<Rightarrow> render_error + int" where
  "decodeInt (JInt i) old = (case toInt (JInt i) of Some j \<Rightarrow> Inr j | None \<Rightarrow> Inl DecodeError)"
| "decodeInt JNull old = Inr old"
| "decodeInt _ old = Inl DecodeError"

text \<open>A pointer becomes nil on null and otherwise points to the decoded value.\<close>

definition decodePtr ::
  "(json \<Rightarrow> 'a \<Rightarrow> render_error + 'a) \<Rightarrow> 'a \<Rightarrow> json \<Rightarrow> 'a option \<Rightarrow> render_error + 'a option" where
  "decodePtr dec zero v old =
     (if v = JNull then Inr None
      else bindE (dec v (case old of Some x \<Rightarrow> x | None \<Rightarrow> zero)) (\<lambda>x. Inr (Some x)))"

fun decodeMembers ::
  "(string \<Rightarrow> json \<Rightarrow> 'a \<Rightarrow> render_error + 'a) \<Rightarrow> object \<Rightarrow> 'a \<Rightarrow> render_error + 'a" where
  "decodeMembers dec [] st = Inr st"
| "decodeMembers dec ((k, v) # ms) st = bindE (dec k v st) (\<lambda>st'. decodeMembers dec ms st')"

fun decodeStruct ::
  "(string \<Rightarrow> json \<Rightarrow> 'a \<Rightarrow> render_error + 'a) \<Rightarrow> json \<Rightarrow> 'a \<Rightarrow> render_error + 'a" where
  "decodeStruct dec (JObj m) st = decodeMembers dec (sort_key fst m) st"
| "decodeStruct dec JNull st = Inr st"
| "decodeStruct dec _ st = Inl DecodeError"

fun decodeSlice :: "(json \<Rightarrow> render_error + 'a) \<Rightarrow> json \<Rightarrow> render_error + 'a list" where
  "decodeSlice dec (JArr xs) = mapE dec xs"
| "decodeSlice dec JNull = Inr []"
| "decodeSlice dec _ = Inl DecodeError"

definition originMember :: "string \<Rightarrow> json \<Rightarrow> proxyOrigin \<Rightarrow> render_error + proxyOrigin" where
  "originMember k v o' =
     (if keyIs ''ip'' k then bindE (decodeString v (orIP o')) (\<lambda>x. Inr (o'\<lparr>orIP := x\<rparr>))
      else if keyIs ''port'' k then bindE (decodeInt v (orPort o')) (\<lambda>x. Inr (o'\<lparr>orPort := x\<rparr>))
      else if keyIs ''protocol'' k then bindE (decodeString v (orProtocol o')) (\<lambda>x. Inr (o'\<lparr>orProtocol := x\<rparr>))
      else Inr o')"

definition timeoutMember :: "string \<Rightarrow> json \<Rightarrow> proxyTimeouts \<Rightarrow> render_error + proxyTimeouts" where
  "timeoutMember k v t =
     (if keyIs ''connectSeconds'' k then bindE (decodePtr decodeInt 0 v (toConnect t)) (\<lambda>x. Inr (t\<lparr>toConnect := x\<rparr>))
      else if keyIs ''sendReadSeconds'' k then bindE (decodePtr decodeInt 0 v (toSendRead t)) (\<lambda>x. Inr (t\<lparr>toSendRead := x\<rparr>))
      else if keyIs ''clientHeaderSeconds'' k then
        bindE (decodePtr decodeInt 0 v (toClientHeader t)) (\<lambda>x. Inr (t\<lparr>toClientHeader := x\<rparr>))
      else if keyIs ''bodyLimitMb'' k then bindE (decodePtr decodeInt 0 v (toBodyLimit t)) (\<lambda>x. Inr (t\<lparr>toBodyLimit := x\<rparr>))
      else Inr t)"

definition cacheMember :: "string \<Rightarrow> json \<Rightarrow> bool \<Rightarrow> render_error + bool" where
  "cacheMember k v c = (if keyIs ''enabled'' k then decodeBool v c else Inr c)"

definition basicAuthMember :: "string \<Rightarrow> json \<Rightarrow> basicAuthSettings \<Rightarrow> render_error + basicAuthSettings" where
  "basicAuthMember k v b =
     (if keyIs ''username'' k then bindE (decodeString v (baUsername b)) (\<lambda>x. Inr (b\<lparr>baUsername := x\<rparr>))
      else if keyIs ''passwordSecretId'' k then
        bindE (decodeString v (baPasswordSecretID b)) (\<lambda>x. Inr (b\<lparr>baPasswordSecretID := x\<rparr>))
      else Inr b)"

definition headerMember :: "string \<Rightarrow> json \<Rightarrow> headerRule \<Rightarrow> render_error + headerRule" where
  "headerMember k v h =
     (if keyIs ''name'' k then bindE (decodeString v (hrName h)) (\<lambda>x. Inr (h\<lparr>hrName := x\<rparr>))
      else if keyIs ''value'' k then bindE (decodeString v (hrValue h)) (\<lambda>x. Inr (h\<lparr>hrValue := x\<rparr>))
      else Inr h)"

definition actionMember :: "string \<Rightarrow> json \<Rightarrow> pathAction \<Rightarrow> render_error + pathAction" where
  "actionMember k v a =
     (if keyIs ''type'' k then bindE (decodeString v (paType a)) (\<lambda>x. Inr (a\<lparr>paType := x\<rparr>))
      else if keyIs ''status'' k then bindE (decodeInt v (paStatus a)) (\<lambda>x. Inr (a\<lparr>paStatus := x\<rparr>))
      else if keyIs ''location'' k then bindE (decodePtr decodeString [] v (paLocation a)) (\<lambda>x. Inr (a\<lparr>paLocation := x\<rparr>))
      else if keyIs ''rewrite'' k then bindE (decodeString v (paRewrite a)) (\<lambda>x. Inr (a\<lparr>paRewrite := x\<rparr>))
      else Inr a)"

definition ruleMember :: "string \<Rightarrow> json \<Rightarrow> pathRule \<Rightarrow> render_error + pathRule" where
  "ruleMember k v r =
     (if keyIs ''kind'' k then bindE (decodeString v (prKind r)) (\<lambda>x. Inr (r\<lparr>prKind := x\<rparr>))
      else if keyIs ''pattern'' k then bindE (decodeString v (prPattern r)) (\<lambda>x. Inr (r\<lparr>prPattern := x\<rparr>))
      else if keyIs ''action'' k then bindE (decodeStruct actionMember v (prAction r)) (\<lambda>x. Inr (r\<lparr>prAction := x\<rparr>))
      else Inr r)"

definition zeroAction :: pathAction where
  "zeroAction = \<lparr>paType = [], paStatus = 0, paLocation = None, paRewrite = []\<rparr>"

definition settingsMember :: "string \<Rightarrow> json \<Rightarrow> proxySettings \<Rightarrow> render_error + proxySettings" where
  "settingsMember k v s =
     (if keyIs ''origin'' k then bindE (decodeStruct originMember v (psOrigin s)) (\<lambda>x. Inr (s\<lparr>psOrigin := x\<rparr>))
      else if keyIs ''tlsEnabled'' k then bindE (decodeBool v (psTLSEnabled s)) (\<lambda>x. Inr (s\<lparr>psTLSEnabled := x\<rparr>))
      else if keyIs ''certificateId'' k then bindE (decodeString v (psCertificateID s)) (\<lambda>x. Inr (s\<lparr>psCertificateID := x\<rparr>))
      else if keyIs ''http2'' k then bindE (decodePtr decodeBool False v (psHTTP2 s)) (\<lambda>x. Inr (s\<lparr>psHTTP2 := x\<rparr>))
      else if keyIs ''http3'' k then bindE (decodeBool v (psHTTP3 s)) (\<lambda>x. Inr (s\<lparr>psHTTP3 := x\<rparr>))
      else if keyIs ''redirectHttpToHttps'' k then
        bindE (decodePtr decodeBool False v (psRedirect s)) (\<lambda>x. Inr (s\<lparr>psRedirect := x\<rparr>))
      else if keyIs ''backendTlsVerify'' k then
        bindE (decodeBool v (psBackendTLSVerify s)) (\<lambda>x. Inr (s\<lparr>psBackendTLSVerify := x\<rparr>))
      else if keyIs ''websocket'' k then bindE (decodeBool v (psWebsocket s)) (\<lambda>x. Inr (s\<lparr>psWebsocket := x\<rparr>))
      else if keyIs ''cache'' k then
        bindE (decodePtr (decodeStruct cacheMember) False v (psCache s)) (\<lambda>x. Inr (s\<lparr>psCache := x\<rparr>))
      else if keyIs ''basicAuth'' k then
        bindE (decodePtr (decodeStruct basicAuthMember) \<lparr>baUsername = [], baPasswordSecretID = []\<rparr> v (psBasicAuth s))
          (\<lambda>x. Inr (s\<lparr>psBasicAuth := x\<rparr>))
      else if keyIs ''timeouts'' k then bindE (decodeStruct timeoutMember v (psTimeouts s)) (\<lambda>x. Inr (s\<lparr>psTimeouts := x\<rparr>))
      else if keyIs ''headers'' k then
        bindE (decodeSlice (\<lambda>e. decodeStruct headerMember e \<lparr>hrName = [], hrValue = []\<rparr>) v) (\<lambda>x. Inr (s\<lparr>psHeaders := x\<rparr>))
      else if keyIs ''pathRules'' k then
        bindE (decodeSlice (\<lambda>e. decodeStruct ruleMember e \<lparr>prKind = [], prPattern = [], prAction = zeroAction\<rparr>) v)
          (\<lambda>x. Inr (s\<lparr>psPathRules := x\<rparr>))
      else if keyIs ''nginxDirectives'' k then
        bindE (decodeString v (psNginxDirectives s)) (\<lambda>x. Inr (s\<lparr>psNginxDirectives := x\<rparr>))
      else Inr s)"

section \<open>Normalization\<close>

text \<open>The replacement of \<open>lineBreakPattern\<close>, \<open>\r\n?\<close>, by a newline.\<close>

fun replaceBreaks :: "string \<Rightarrow> string" where
  "replaceBreaks [] = []"
| "replaceBreaks (c # s) =
     (if c = CHR 0x0D then CHR 0x0A # replaceBreaks (if s \<noteq> [] \<and> hd s = CHR 0x0A then tl s else s)
      else c # replaceBreaks s)"

definition normalizeDirectives :: "string \<Rightarrow> string" where
  "normalizeDirectives directives = TrimSpace (replaceBreaks directives)"

definition normalizePath :: "string \<Rightarrow> string" where
  "normalizePath path =
     (let normalized = TrimSpace path in
      if length normalized > 1 then TrimRight normalized ''/'' else normalized)"

definition normalizeProxySettings :: "object \<Rightarrow> Http3Capabilities \<Rightarrow> render_error + proxySettings" where
  "normalizeProxySettings proxy capabilities =
     (let forDomain = filter (\<lambda>(k, v). k \<noteq> ''http3'') proxy;
          http3 = proxyBool proxy ''http3'';
          tlsEnabled = proxyBool proxy ''tlsEnabled'' in
      case validateProxySettings forDomain None of
        Inl e \<Rightarrow> Inl (DomainError e)
      | Inr _ \<Rightarrow>
          if http3 \<and> \<not> (capHttp3Module capabilities \<and> capTCP443Published capabilities \<and> capUDP443Published capabilities)
          then Inl (DomainError (ValidationError ''HTTP/3 requires binary support and published TCP/UDP 443'' ''HTTP3_UNAVAILABLE''))
          else if http3 \<and> \<not> tlsEnabled
          then Inl (DomainError (ValidationError ''HTTP/3 requires client TLS'' ''HTTP3_TLS''))
          else
            bindE (decodeStruct settingsMember (JObj proxy) zeroSettings) (\<lambda>settings.
            Inr (settings\<lparr>psNginxDirectives := normalizeDirectives (psNginxDirectives settings),
                  psHeaders := map (hrName_update ToLower) (psHeaders settings),
                  psPathRules := map (prPattern_update normalizePath) (psPathRules settings)\<rparr>)))"

section \<open>Values and paths\<close>

record NginxRenderInput =
  ninRecords :: "DNSRecord list"
  ninStreams :: "StreamRoute list"
  ninCapabilities :: Http3Capabilities
  ninCandidatePath :: string
  ninACMEUpstream :: string
  ninExtraFiles :: files

record NginxCandidate =
  ngxConfig :: string
  ngxChecksum :: string
  ngxFiles :: files

definition plainValuePattern :: "string \<Rightarrow> bool" where
  "plainValuePattern s \<longleftrightarrow> s \<noteq> [] \<and> list_all (\<lambda>c. isAlnum c \<or> c \<in> set ''_./:$-'') s"

definition nginxValue :: "string \<Rightarrow> string" where
  "nginxValue value =
     (if plainValuePattern value then value
      else DQ @ ReplaceAll (ReplaceAll value BS (BS @ BS)) DQ (BS @ DQ) @ DQ)"

definition formatHost :: "string \<Rightarrow> string" where
  "formatHost host = (if Contains host '':'' then ''['' @ host @ '']'' else host)"

definition certificateFilePath :: "string \<Rightarrow> string \<Rightarrow> string \<Rightarrow> string" where
  "certificateFilePath certificateID candidatePath extension =
     (if candidatePath = [] then ''/etc/nginx/certs/'' @ certificateID @ ''.'' @ extension
      else candidatePath @ ''/certs/'' @ certificateID @ ''.'' @ extension)"

definition basicAuthFilePath :: "string \<Rightarrow> string \<Rightarrow> string" where
  "basicAuthFilePath secretID candidatePath =
     (if candidatePath = [] then ''/run/proxycore/basic-auth/'' @ secretID
      else candidatePath @ ''/basic-auth/'' @ secretID)"

text \<open>\<open>acmeUpstreamPattern\<close>: the scheme in any case (under case folding the s also matches the long s), then
  at least one byte and neither a slash nor white space.\<close>

definition acmeRest :: "string \<Rightarrow> bool" where
  "acmeRest s \<longleftrightarrow> HasPrefix s ''://'' \<and> drop 3 s \<noteq> [] \<and>
     list_all (\<lambda>c. c \<noteq> CHR ''/'' \<and> \<not> reSpace c) (drop 3 s)"

definition acmeUpstreamPattern :: "string \<Rightarrow> bool" where
  "acmeUpstreamPattern s \<longleftrightarrow>
     (case matchFold ''http'' s False of
        None \<Rightarrow> False
      | Some (rest, _) \<Rightarrow>
          acmeRest rest \<or> (case matchFold ''s'' rest False of None \<Rightarrow> False | Some (r, _) \<Rightarrow> acmeRest r))"

definition normalizeACMEUpstream :: "string \<Rightarrow> render_error + string" where
  "normalizeACMEUpstream value =
     (let value = (if value = [] then ''http://127.0.0.1:3000'' else value);
          upstream = TrimRight (TrimSpace value) ''/'' in
      if acmeUpstreamPattern upstream then Inr upstream
      else Inl (RenderError (''Invalid NGINX ACME upstream: '' @ value)))"

section \<open>Server blocks\<close>

definition renderACMEChallengeLocation :: "string \<Rightarrow> string list" where
  "renderACMEChallengeLocation acmeUpstream =
     [''    location ^~ /.well-known/acme-challenge/ {'',
      ''        proxy_pass '' @ acmeUpstream @ ''/api/acme-challenge/;'',
      ''        proxy_set_header Host $host;'',
      ''        proxy_set_header X-Forwarded-Proto $scheme;'',
      ''        proxy_set_header X-Real-IP $remote_addr;'',
      ''    }'']"

definition renderACMEDefaultServer :: "string \<Rightarrow> string" where
  "renderACMEDefaultServer acmeUpstream =
     Join ([''server {'',
            ''    listen 80 default_server;'',
            ''    listen [::]:80 default_server;'',
            ''    server_name _;''] @
           renderACMEChallengeLocation acmeUpstream @
           [''    location ^~ / {'', ''        return 404;'', ''    }'', ''}'']) NL"

text \<open>The name matched by \<open>directiveNamePattern\<close> at the front of a line: the longest run of name characters,
  cut back over trailing hyphens to the last word boundary.\<close>

definition directiveName :: "string \<Rightarrow> string option" where
  "directiveName s =
     (if s \<noteq> [] \<and> (isLower (hd s) \<or> isUpper (hd s) \<or> hd s = CHR ''_'')
      then Some (TrimRight (takeWhile (\<lambda>c. wordChar c \<or> c = CHR ''-'') s) ''-'')
      else None)"

definition nginxDirectiveNames :: "string \<Rightarrow> string list" where
  "nginxDirectiveNames directives =
     List.map_filter (\<lambda>line. directiveName (TrimSpace (takeWhile (\<lambda>c. c \<noteq> CHR ''#'') line)))
       (Split (CHR 0x0A) directives)"

definition renderNginxDirectives :: "string \<Rightarrow> string list" where
  "renderNginxDirectives directives =
     map (\<lambda>line. ''    '' @ TrimSpace line) (filter (\<lambda>line. TrimSpace line \<noteq> []) (Split (CHR 0x0A) directives))"

definition addDefault :: "string list \<Rightarrow> string \<Rightarrow> string \<Rightarrow> string list" where
  "addDefault custom name line = (if name \<in> set custom then [] else [line])"

definition renderCommonProxyDirectives :: "proxySettings \<Rightarrow> string list" where
  "renderCommonProxyDirectives settings =
     (let custom = nginxDirectiveNames (psNginxDirectives settings);
          t = psTimeouts settings; add = addDefault custom in
      add ''proxy_set_header'' ''    proxy_set_header Host $host;'' @
      add ''proxy_set_header'' ''    proxy_set_header X-Real-IP $remote_addr;'' @
      add ''proxy_set_header'' ''    proxy_set_header X-Forwarded-For $proxy_add_x_forwarded_for;'' @
      add ''proxy_set_header'' ''    proxy_set_header X-Forwarded-Proto $scheme;'' @
      add ''proxy_http_version'' ''    proxy_http_version 1.1;'' @
      add ''proxy_connect_timeout'' (''    proxy_connect_timeout '' @ Itoa (intOr (toConnect t) 5) @ ''s;'') @
      add ''proxy_send_timeout'' (''    proxy_send_timeout '' @ Itoa (intOr (toSendRead t) 60) @ ''s;'') @
      add ''proxy_read_timeout'' (''    proxy_read_timeout '' @ Itoa (intOr (toSendRead t) 60) @ ''s;'') @
      add ''client_header_timeout'' (''    client_header_timeout '' @ Itoa (intOr (toClientHeader t) 15) @ ''s;'') @
      add ''client_max_body_size'' (''    client_max_body_size '' @ Itoa (intOr (toBodyLimit t) 10) @ ''m;'') @
      (if orProtocol (psOrigin settings) = ''https'' then
         add ''proxy_ssl_verify''
           (''    proxy_ssl_verify '' @ (if psBackendTLSVerify settings then ''on'' else ''off'') @ '';'')
       else []) @
      (if psWebsocket settings then
         add ''proxy_set_header'' ''    proxy_set_header Upgrade $http_upgrade;'' @
         add ''proxy_set_header'' ''    proxy_set_header Connection $connection_upgrade;'' @
         add ''proxy_buffering'' ''    proxy_buffering off;''
       else []) @
      (if cacheEnabled settings then add ''proxy_cache'' ''    proxy_cache proxycore_cache;'' else []) @
      (if ''proxy_set_header'' \<in> set custom then []
       else map (\<lambda>h. ''    proxy_set_header '' @ hrName h @ '' '' @ nginxValue (hrValue h) @ '';'') (psHeaders settings)) @
      renderNginxDirectives (psNginxDirectives settings))"

definition locationLess :: "pathRule \<Rightarrow> pathRule \<Rightarrow> bool" where
  "locationLess left right =
     (if prKind left \<noteq> prKind right then prKind left = ''exact''
      else length (prPattern left) > length (prPattern right))"

definition rootRule :: pathRule where
  "rootRule = \<lparr>prKind = ''prefix'', prPattern = ''/'', prAction = zeroAction\<lparr>paType := ''proxy''\<rparr>\<rparr>"

definition pathLocations :: "pathRule list \<Rightarrow> pathRule list" where
  "pathLocations rules =
     (let locations = stableSort locationLess rules in
      if list_ex (\<lambda>r. prKind r = ''prefix'' \<and> prPattern r = ''/'') locations then locations
      else locations @ [rootRule])"

definition renderLocation :: "string \<Rightarrow> bool \<Rightarrow> pathRule \<Rightarrow> string" where
  "renderLocation origin websocket rule =
     (let action = prAction rule;
          location = (if prKind rule = ''exact'' then ''    location = '' else ''    location '') @ prPattern rule @ '' {'' in
      if paType action = ''redirect'' then
        let target = (case paLocation action of Some l \<Rightarrow> l | None \<Rightarrow> ''/'') in
        Join [location,
              ''        return '' @ Itoa (paStatus action) @ '' '' @ nginxValue target @ '';'',
              ''    }''] NL
      else
        let passTarget = (if paRewrite action \<noteq> [] then origin @ paRewrite action else origin) in
        Join ([location, ''        proxy_pass '' @ passTarget @ '';''] @
              (if websocket then [''        proxy_buffering off;''] else []) @ [''    }'']) NL)"

definition renderPathLocations :: "pathRule list \<Rightarrow> string \<Rightarrow> proxySettings \<Rightarrow> string list" where
  "renderPathLocations rules origin settings =
     map (renderLocation origin (psWebsocket settings)) (pathLocations rules)"

definition renderServer ::
  "DNSRecord \<Rightarrow> Http3Capabilities \<Rightarrow> string \<Rightarrow> string \<Rightarrow> render_error + string" where
  "renderServer record capabilities candidatePath acmeUpstream =
     (case recProxy record of
        None \<Rightarrow> Inl (RenderError (''Proxied record '' @ recName record @ '' has no proxy settings''))
      | Some proxy \<Rightarrow>
          bindE (normalizeProxySettings proxy capabilities) (\<lambda>settings.
          if psTLSEnabled settings \<and> psCertificateID settings = [] then
            Inl (RenderError (''TLS proxied record '' @ recName record @ '' requires a certificate''))
          else
            let origin = orProtocol (psOrigin settings) @ ''://'' @ formatHost (orIP (psOrigin settings)) @ '':'' @
                  Itoa (orPort (psOrigin settings));
                h2 = (if http2 settings then '' http2'' else []);
                lines =
                  [''server {''] @
                  (if psTLSEnabled settings then
                     [''    listen 443 ssl'' @ h2 @ '';'', ''    listen [::]:443 ssl'' @ h2 @ '';'']
                   else [''    listen 80;'', ''    listen [::]:80;'']) @
                  (if psHTTP3 settings then
                     [''    listen 443 quic reuseport;'', ''    listen [::]:443 quic reuseport;'',
                      ''    add_header Alt-Svc '' @ [CHR 0x27] @ ''h3='' @ DQ @ '':443'' @ DQ @ ''; ma=86400'' @ [CHR 0x27] @ '' always;'']
                   else []) @
                  [''    server_name '' @ recName record @ '';''] @
                  renderACMEChallengeLocation acmeUpstream @
                  (if psTLSEnabled settings then
                     [''    ssl_certificate '' @ certificateFilePath (psCertificateID settings) candidatePath ''crt'' @ '';'',
                      ''    ssl_certificate_key '' @ certificateFilePath (psCertificateID settings) candidatePath ''key'' @ '';'',
                      ''    ssl_protocols TLSv1.2 TLSv1.3;'']
                   else []) @
                  (case psBasicAuth settings of
                     None \<Rightarrow> []
                   | Some auth \<Rightarrow>
                       [''    auth_basic '' @ DQ @ ''ProxyCore'' @ DQ @ '';'',
                        ''    auth_basic_user_file '' @ basicAuthFilePath (baPasswordSecretID auth) candidatePath @ '';'']) @
                  renderCommonProxyDirectives settings @
                  renderPathLocations (psPathRules settings) origin settings @
                  [''}''];
                server = Join lines NL in
            if psTLSEnabled settings \<and> redirectHTTPToHTTPS settings then
              Inr (Join ([''server {'', ''    listen 80;'', ''    listen [::]:80;'', ''    server_name '' @ recName record @ '';''] @
                         renderACMEChallengeLocation acmeUpstream @
                         [''    return 308 https://$host$request_uri;'', ''}'', []]) NL @ NL @ server)
            else Inr server))"

section \<open>Streams and the configuration\<close>

definition renderStream :: "StreamRoute \<Rightarrow> string" where
  "renderStream stream =
     (let udp = (strProtocol stream = ''udp''); suffix = (if udp then '' udp'' else []) in
      Join ([''    server {'',
             ''        listen '' @ formatHost (strListenAddress stream) @ '':'' @ Itoa (strListenPort stream) @ suffix @ '';'',
             ''        proxy_pass '' @ formatHost (upIP (strUpstream stream)) @ '':'' @ Itoa (upPort (strUpstream stream)) @ '';''] @
            (if udp then [''        proxy_timeout 60s;''] else []) @ [''    }'']) NL)"

definition renderStreams :: "StreamRoute list \<Rightarrow> string" where
  "renderStreams streams =
     ''stream {'' @ NL @ Join (map renderStream (filter strEnabled streams)) (NL @ NL) @ NL @ ''}''"

definition TrimRightSpace :: "string \<Rightarrow> string" where
  "TrimRightSpace s = rev (stripSpaces (map rev wideSpaces) (rev s))"

definition nginxConfig :: "string list \<Rightarrow> StreamRoute list \<Rightarrow> string" where
  "nginxConfig serverBlocks streams =
     (let servers = Join serverBlocks (NL @ NL);
          indented = map (\<lambda>line. if line \<noteq> [] then ''    '' @ line else line) (Split (CHR 0x0A) servers);
          sections =
            [''events {}'', [], ''http {'', ''    include /etc/nginx/mime.types;'',
             ''    default_type application/octet-stream;'', ''    sendfile on;'',
             ''    map $http_upgrade $connection_upgrade {'', ''        default upgrade;'',
             ''        '' @ DQ @ DQ @ '' close;'', ''    }'', Join indented NL, ''}'',
             if streams \<noteq> [] then renderStreams streams else []];
          joined = ReplaceAll (Join (filter (\<lambda>x. x \<noteq> []) sections) (NL @ NL)) (NL @ NL @ NL) (NL @ NL) in
      TrimRightSpace joined @ NL)"

definition RenderNginxCandidate :: "NginxRenderInput \<Rightarrow> render_error + NginxCandidate" where
  "RenderNginxCandidate input =
     (case validateStreamRoutes (ninStreams input) of
        Inl e \<Rightarrow> Inl (DomainError e)
      | Inr streams \<Rightarrow>
          let records = stableSort (\<lambda>a b. localeCompare (recName a) (recName b) < 0)
                (filter (\<lambda>r. recEnabled r \<and> recProxied r) (ninRecords input));
              candidatePath = TrimRight (ninCandidatePath input) ''/'' in
          bindE (normalizeACMEUpstream (ninACMEUpstream input)) (\<lambda>acmeUpstream.
          bindE (mapE (\<lambda>r. renderServer r (ninCapabilities input) candidatePath acmeUpstream) records) (\<lambda>blocks.
          let config = nginxConfig (renderACMEDefaultServer acmeUpstream # blocks) streams;
              files = foldl (\<lambda>fs (path, content). setFile path content fs) [(''nginx.conf'', config)] (ninExtraFiles input) in
          Inr \<lparr>ngxConfig = config, ngxChecksum = hexEncode (sha256 (filesText files)), ngxFiles = files\<rparr>)))"

section \<open>Lemmas: directives\<close>

text \<open>The renderer's single regular expression and the validator's two replacements agree.\<close>

lemma ReplaceAll_CRLF:
  "ReplaceAll (c # s) (CR @ NL) NL =
     (if c = CHR 0x0D \<and> s \<noteq> [] \<and> hd s = CHR 0x0A then CHR 0x0A # ReplaceAll (tl s) (CR @ NL) NL
      else c # ReplaceAll s (CR @ NL) NL)"
  by (subst ReplaceAll.simps) (cases s; simp)

lemma replaceBreaks_ReplaceAll: "ReplaceAll (ReplaceAll d (CR @ NL) NL) CR NL = replaceBreaks d"
  by (induction d rule: replaceBreaks.induct) (auto simp: ReplaceAll_CRLF [simplified])

lemma normalizeDirectives_text: "normalizeDirectives d = directiveText d"
  by (simp add: normalizeDirectives_def directiveText_def replaceBreaks_ReplaceAll [simplified])

lemma normalizePath_validateDNSPath: "validateDNSPath p = Inr q \<Longrightarrow> normalizePath p = q"
  by (auto simp: validateDNSPath_def normalizePath_def Let_def split: if_splits)

section \<open>Lemmas: decoding\<close>

lemma keyIs_table:
  "list_all (\<lambda>f. \<not> keyIs f ''nginxDirectives'')
     [''origin'', ''tlsEnabled'', ''certificateId'', ''http2'', ''http3'', ''redirectHttpToHttps'', ''backendTlsVerify'',
      ''websocket'', ''cache'', ''basicAuth'', ''timeouts'', ''headers'', ''pathRules'']"
  "list_all (\<lambda>f. \<not> keyIs f ''http3'') [''origin'', ''tlsEnabled'', ''certificateId'', ''http2'']"
  "\<not> keyIs ''origin'' ''tlsEnabled''"
  by code_simp+

lemma keyIs_refl [simp]: "keyIs f f"
  by (simp add: keyIs_def)

lemma settingsMember_directives:
  "settingsMember ''nginxDirectives'' v s = Inr s' \<Longrightarrow> decodeString v (psNginxDirectives s) = Inr (psNginxDirectives s')"
  using keyIs_table(1) by (auto simp: settingsMember_def)

lemma settingsMember_http3:
  "settingsMember ''http3'' v s = Inr s' \<Longrightarrow> decodeBool v (psHTTP3 s) = Inr (psHTTP3 s')"
  using keyIs_table(2) by (auto simp: settingsMember_def)

lemma settingsMember_tls:
  "settingsMember ''tlsEnabled'' v s = Inr s' \<Longrightarrow> decodeBool v (psTLSEnabled s) = Inr (psTLSEnabled s')"
  using keyIs_table(3) by (auto simp: settingsMember_def)

lemma settingsMember_other:
  assumes "settingsMember k v s = Inr s'"
  shows "\<not> keyIs ''nginxDirectives'' k \<Longrightarrow> psNginxDirectives s' = psNginxDirectives s"
    "\<not> keyIs ''http3'' k \<Longrightarrow> psHTTP3 s' = psHTTP3 s"
    "\<not> keyIs ''tlsEnabled'' k \<Longrightarrow> psTLSEnabled s' = psTLSEnabled s"
  using assms by (auto simp: settingsMember_def split: if_splits)

text \<open>A field whose name is matched by its exact key only holds the decoding of that member.\<close>

lemma decodeMembers_field:
  assumes step: "\<And>v s s'. dec f v s = Inr s' \<Longrightarrow> fdec v (get s) = Inr (get s')"
    and other: "\<And>k v s s'. dec k v s = Inr s' \<Longrightarrow> \<not> keyIs f k \<Longrightarrow> get s' = get s"
  shows "decodeMembers dec ms s = Inr s' \<Longrightarrow> distinct (map fst ms) \<Longrightarrow>
    \<forall>k \<in> fst ` set ms. keyIs f k \<longrightarrow> k = f \<Longrightarrow>
    (case map_of ms f of None \<Rightarrow> get s' = get s | Some v \<Rightarrow> fdec v (get s) = Inr (get s'))"
proof (induction ms arbitrary: s)
  case (Cons m ms)
  obtain k v where m: "m = (k, v)" by fastforce
  obtain s1 where s1: "dec k v s = Inr s1" and rest: "decodeMembers dec ms s1 = Inr s'"
    using Cons.prems m by auto
  note IH = Cons.IH [OF rest]
  show ?case
  proof (cases "k = f")
    case True
    have "map_of ms f = None" using Cons.prems True m by (simp add: map_of_eq_None_iff)
    then show ?thesis using step [of v s s1] s1 True m IH Cons.prems by auto
  next
    case False
    then have "\<not> keyIs f k" using Cons.prems m by auto
    then have g: "get s1 = get s" by (rule other [OF s1])
    show ?thesis using IH Cons.prems(2,3) m False g by (cases "map_of ms f") simp_all
  qed
qed simp

definition exactKeys :: "object \<Rightarrow> bool" where
  "exactKeys p \<longleftrightarrow> distinct (map fst p) \<and>
     (\<forall>k \<in> fst ` set p. \<forall>f \<in> {''nginxDirectives'', ''http3'', ''tlsEnabled''}. keyIs f k \<longrightarrow> k = f)"

lemma distinct_sort_key: "distinct (map fst m) \<Longrightarrow> distinct (map fst (sort_key fst m))"
proof -
  have "mset (map fst (sort_key fst m)) = mset (map fst m)" by simp
  then show "distinct (map fst m) \<Longrightarrow> ?thesis" using mset_eq_imp_distinct_iff by blast
qed

lemma map_of_sort_key: "distinct (map fst m) \<Longrightarrow> map_of (sort_key fst m) = map_of m"
  by (simp add: map_of_inject_set distinct_sort_key)

lemma decodeSettings_field:
  assumes "decodeStruct settingsMember (JObj p) s = Inr s'" "exactKeys p"
  shows "case map_of p ''nginxDirectives'' of None \<Rightarrow> psNginxDirectives s' = psNginxDirectives s
      | Some v \<Rightarrow> decodeString v (psNginxDirectives s) = Inr (psNginxDirectives s')"
    "case map_of p ''http3'' of None \<Rightarrow> psHTTP3 s' = psHTTP3 s | Some v \<Rightarrow> decodeBool v (psHTTP3 s) = Inr (psHTTP3 s')"
    "case map_of p ''tlsEnabled'' of None \<Rightarrow> psTLSEnabled s' = psTLSEnabled s
      | Some v \<Rightarrow> decodeBool v (psTLSEnabled s) = Inr (psTLSEnabled s')"
proof -
  have d: "distinct (map fst p)" using assms(2) by (simp add: exactKeys_def)
  have k: "\<forall>k \<in> fst ` set (sort_key fst p). keyIs f k \<longrightarrow> k = f"
    if "f \<in> {''nginxDirectives'', ''http3'', ''tlsEnabled''}" for f
    using assms(2) that by (auto simp: exactKeys_def)
  have run: "decodeMembers settingsMember (sort_key fst p) s = Inr s'" using assms(1) by simp
  note dk = distinct_sort_key [OF d] and mk = map_of_sort_key [OF d]
  show "case map_of p ''nginxDirectives'' of None \<Rightarrow> psNginxDirectives s' = psNginxDirectives s
      | Some v \<Rightarrow> decodeString v (psNginxDirectives s) = Inr (psNginxDirectives s')"
    using decodeMembers_field [of settingsMember "''nginxDirectives''" decodeString psNginxDirectives,
        OF settingsMember_directives settingsMember_other(1) run dk k] by (simp add: mk)
  show "case map_of p ''http3'' of None \<Rightarrow> psHTTP3 s' = psHTTP3 s | Some v \<Rightarrow> decodeBool v (psHTTP3 s) = Inr (psHTTP3 s')"
    using decodeMembers_field [of settingsMember "''http3''" decodeBool psHTTP3,
        OF settingsMember_http3 settingsMember_other(2) run dk k] by (simp add: mk)
  show "case map_of p ''tlsEnabled'' of None \<Rightarrow> psTLSEnabled s' = psTLSEnabled s
      | Some v \<Rightarrow> decodeBool v (psTLSEnabled s) = Inr (psTLSEnabled s')"
    using decodeMembers_field [of settingsMember "''tlsEnabled''" decodeBool psTLSEnabled,
        OF settingsMember_tls settingsMember_other(3) run dk k] by (simp add: mk)
qed

lemma member_filter: "f \<noteq> ''http3'' \<Longrightarrow> member (filter (\<lambda>(k, v). k \<noteq> ''http3'') p) f = member p f"
  by (induction p) (auto simp: member_def)

section \<open>Lemmas: values and locations\<close>

text \<open>How nginx reads one parameter: a quoted string with backslash escapes, or the bytes up to a
  semicolon, white space or brace.\<close>

definition readParameter :: "string \<Rightarrow> (string \<times> string) option" where
  "readParameter s =
     (if s \<noteq> [] \<and> hd s = CHR 0x22 then readQuotedBody (tl s)
      else let t = takeWhile (\<lambda>c. c \<noteq> CHR '';'' \<and> \<not> reSpace c \<and> c \<noteq> CHR ''{'' \<and> c \<noteq> CHR ''}'') s in
           if t = [] then None else Some (t, drop (length t) s))"

lemma plain_stop: "isAlnum c \<or> c \<in> set ''_./:$-'' \<Longrightarrow>
  c \<noteq> CHR '';'' \<and> \<not> reSpace c \<and> c \<noteq> CHR ''{'' \<and> c \<noteq> CHR ''}'' \<and> c \<noteq> CHR 0x22"
  by (auto simp: isAlnum_def isDigit_def isLower_def isUpper_def reSpace_def)

lemma readParameter_nginxValue: "readParameter (nginxValue v @ CHR '';'' # r) = Some (v, CHR '';'' # r)"
proof (cases "plainValuePattern v")
  case True
  let ?P = "\<lambda>c. c \<noteq> CHR '';'' \<and> \<not> reSpace c \<and> c \<noteq> CHR ''{'' \<and> c \<noteq> CHR ''}''"
  have all: "\<forall>c \<in> set v. ?P c \<and> c \<noteq> CHR 0x22" and ne: "v \<noteq> []"
    using True plain_stop by (auto simp: plainValuePattern_def list_all_iff)
  have "takeWhile ?P (v @ CHR '';'' # r) = v"
    using all by (subst takeWhile_append2) auto
  moreover have "hd (v @ CHR '';'' # r) \<noteq> CHR 0x22" using all ne by (cases v) auto
  ultimately show ?thesis using True ne by (simp add: readParameter_def nginxValue_def)
next
  case False
  then show ?thesis
    using readQuotedBody_escaped [of v "CHR '';'' # r"] by (simp add: readParameter_def nginxValue_def)
qed

lemma pathLocations_root: "\<exists>r \<in> set (pathLocations rules). prKind r = ''prefix'' \<and> prPattern r = ''/''"
  by (auto simp: pathLocations_def Let_def list_ex_iff rootRule_def)

lemma pathLocations_rules: "set rules \<subseteq> set (pathLocations rules)"
  by (auto simp: pathLocations_def Let_def)

text \<open>For the two kinds of rules the comparison is a strict weak order, so exact rules come first and
  longer patterns before shorter ones of the same kind.\<close>

lemma exact_first:
  assumes "\<forall>r \<in> set rules. prKind r = ''exact'' \<or> prKind r = ''prefix''"
  shows "sorted_wrt (\<lambda>a b. \<not> locationLess b a) (stableSort locationLess rules)"
  by (rule sorted_stableSort_on [where S = "{r. prKind r = ''exact'' \<or> prKind r = ''prefix''}"])
     (use assms in \<open>auto simp: locationLess_def split: if_splits\<close>)

section \<open>Properties\<close>


text \<open>
  The renderer works on what the validator checked: if no key of the settings is a case variant of
  a checked key, the decoded raw directives are the validated text (so they hold no brace outside
  quotation marks and open no block context), HTTP/3 is only rendered with the module and both ports
  published and with TLS, and the TLS flag is the validated one.
\<close>
theorem normalizeProxySettings_sound:
  assumes "normalizeProxySettings proxy caps = Inr s" "exactKeys proxy"
  shows "psNginxDirectives s = directiveText (proxyString proxy ''nginxDirectives'') \<and>
    \<not> containsUnquotedBrace (psNginxDirectives s) \<and> \<not> nginxBlockContextPattern (psNginxDirectives s) \<and>
    (psHTTP3 s \<longrightarrow> capHttp3Module caps \<and> capTCP443Published caps \<and> capUDP443Published caps \<and> psTLSEnabled s) \<and>
    psTLSEnabled s = proxyBool proxy ''tlsEnabled''"
proof -
  obtain t where t: "decodeStruct settingsMember (JObj proxy) zeroSettings = Inr t"
    and s: "psNginxDirectives s = directiveText (psNginxDirectives t)" "psHTTP3 s = psHTTP3 t"
      "psTLSEnabled s = psTLSEnabled t"
    and v: "\<exists>q. validateProxySettings (filter (\<lambda>(k, v). k \<noteq> ''http3'') proxy) None = Inr q"
    and h: "proxyBool proxy ''http3'' \<longrightarrow> capHttp3Module caps \<and> capTCP443Published caps \<and>
      capUDP443Published caps \<and> proxyBool proxy ''tlsEnabled''"
    using assms(1)
    by (auto simp: normalizeProxySettings_def Let_def normalizeDirectives_text simp del: decodeStruct.simps
             split: sum.splits if_splits)
  note field = decodeSettings_field [OF t assms(2)]
  have d: "validateNginxDirectives (member proxy ''nginxDirectives'') = Inr ()"
    and tls: "asBool (member proxy ''tlsEnabled'') \<noteq> None"
    using v by (auto simp: validateProxySettings_Inr member_filter)
  have "psTLSEnabled t = proxyBool proxy ''tlsEnabled''"
    using field(3) tls by (auto simp: member_def proxyBool_def zeroSettings_def split: option.splits)
  moreover have "psHTTP3 t = proxyBool proxy ''http3''"
    using field(2) by (cases "map_of proxy ''http3''")
      (auto simp: member_def proxyBool_def zeroSettings_def elim: decodeBool.elims)
  moreover have nd: "psNginxDirectives t = proxyString proxy ''nginxDirectives''"
    using field(1) by (cases "map_of proxy ''nginxDirectives''")
      (auto simp: member_def proxyString_def zeroSettings_def elim: decodeString.elims)
  have "\<not> containsUnquotedBrace (psNginxDirectives s) \<and> \<not> nginxBlockContextPattern (psNginxDirectives s)"
  proof (cases "psNginxDirectives s = []")
    case True
    then show ?thesis by (simp add: containsUnquotedBrace_def nginxBlockContextPattern_def)
  next
    case False
    have "directiveText [] = []" by code_simp
    then obtain x where "member proxy ''nginxDirectives'' = JStr x"
      using False s(1) nd by (auto simp: proxyString_def split: option.splits)
    then show ?thesis
      using d False s(1) nd unfolding directiveText_def
      by (auto simp: validateNginxDirectives_def proxyString_def Let_def)
  qed
  ultimately show ?thesis using s h nd by auto
qed

definition sampleSettings :: object where
  "sampleSettings = (''nginxDirectives'', JStr ''proxy_buffering off;'') # (''http3'', JBool True) # sampleProxy"

definition allCaps :: Http3Capabilities where
  "allCaps = \<lparr>capHttp3Module = True, capTCP443Published = True, capUDP443Published = True\<rparr>"

lemma sampleSettings_normal: "\<exists>s. normalizeProxySettings sampleSettings allCaps = Inr s \<and> psHTTP3 s"
proof -
  have "case normalizeProxySettings sampleSettings allCaps of Inl _ \<Rightarrow> False | Inr s \<Rightarrow> psHTTP3 s"
    by code_simp
  then show ?thesis by (auto split: sum.splits)
qed

theorem normalizeProxySettings_sound_witness:
  "\<exists>s. normalizeProxySettings sampleSettings allCaps = Inr s \<and> psHTTP3 s \<and> psTLSEnabled s \<and>
     psNginxDirectives s = directiveText (proxyString sampleSettings ''nginxDirectives'')"
proof -
  obtain s where s: "normalizeProxySettings sampleSettings allCaps = Inr s" "psHTTP3 s"
    using sampleSettings_normal by blast
  have "exactKeys sampleSettings" by code_simp
  from normalizeProxySettings_sound [OF s(1) this] s show ?thesis by blast
qed

text \<open>
  Every server block routes the whole path space: the locations contain each path rule and a
  prefix location for the root, exact rules stand before prefix rules and longer patterns before
  shorter ones of the same kind, for rules of the two kinds of the API.
\<close>
theorem pathLocations_complete:
  assumes "\<forall>r \<in> set rules. prKind r = ''exact'' \<or> prKind r = ''prefix''"
  shows "set rules \<subseteq> set (pathLocations rules) \<and>
    (\<exists>r \<in> set (pathLocations rules). prKind r = ''prefix'' \<and> prPattern r = ''/'') \<and>
    sorted_wrt (\<lambda>a b. (prKind b = ''exact'' \<longrightarrow> prKind a = ''exact'') \<and>
      (prKind a = prKind b \<longrightarrow> length (prPattern b) \<le> length (prPattern a) \<or> b = rootRule)) (pathLocations rules)"
proof -
  let ?R = "\<lambda>a b. (prKind b = ''exact'' \<longrightarrow> prKind a = ''exact'') \<and>
      (prKind a = prKind b \<longrightarrow> length (prPattern b) \<le> length (prPattern a) \<or> b = rootRule)"
  have "sorted_wrt ?R (stableSort locationLess rules)"
    using exact_first [OF assms]
    by (rule sorted_wrt_mono_rel [rotated]) (auto simp: locationLess_def split: if_splits)
  then have "sorted_wrt ?R (pathLocations rules)"
    by (auto simp: pathLocations_def Let_def sorted_wrt_append rootRule_def)
  then show ?thesis using pathLocations_root pathLocations_rules by blast
qed

theorem pathLocations_complete_witness:
  "\<exists>r \<in> set (pathLocations [\<lparr>prKind = ''exact'', prPattern = ''/a'', prAction = zeroAction\<rparr>]).
     prKind r = ''prefix'' \<and> prPattern r = ''/''"
  using pathLocations_complete [of "[\<lparr>prKind = ''exact'', prPattern = ''/a'', prAction = zeroAction\<rparr>]"] by simp

text \<open>
  Disabled and unproxied records have no influence: the candidate (configuration,
  files and checksum, or the error) depends only on the enabled, proxied records.
\<close>
theorem RenderNginxCandidate_enabled_only:
  "RenderNginxCandidate (input\<lparr>ninRecords := filter (\<lambda>r. recEnabled r \<and> recProxied r) (ninRecords input)\<rparr>) =
     RenderNginxCandidate input"
  by (simp add: RenderNginxCandidate_def Let_def cong: sum.case_cong)

section \<open>Observation\<close>

text \<open>The validator looks keys up exactly, the decoder ignores their case: directives under the key
  \<open>nginxdirectives\<close> are not validated but are rendered.\<close>

definition smuggledSettings :: object where
  "smuggledSettings = (''nginxdirectives'', JStr ''} server { listen 8443;'') # sampleProxy"

lemma smuggled_directives:
  "(case normalizeProxySettings smuggledSettings allCaps of
      Inl _ \<Rightarrow> False
    | Inr s \<Rightarrow> psNginxDirectives s = ''} server { listen 8443;'' \<and>
        containsUnquotedBrace (psNginxDirectives s) \<and>
        ''    } server { listen 8443;'' \<in> set (renderCommonProxyDirectives s))"
  by code_simp

end
