(* ===== verification/ApplyModel.thy ===== *)
theory ApplyModel
  imports Revisions Redact Candidates RenderNginx
begin

text \<open>
  The apply orchestrator of the worker (\<open>worker/apply/apply.go\<close>, \<open>desired.go\<close>) and the request and response of
  the control socket (\<open>worker/control/control.go\<close>).  The stores, the control client, the file system, the
  clock and the log are interfaces in the code; here they are the fields of the record \<open>Orchestrator\<close>,
  functions on the state of the world.  \<open>uuid.NewString\<close> and \<open>json.Unmarshal\<close> of a whole text are two more
  fields.  A run keeps the fields of \<open>applyRun\<close> next to the world.
\<close>

section \<open>The control protocol\<close>

definition OperationStage :: string where "OperationStage = ''stage''"
definition OperationValidate :: string where "OperationValidate = ''validate''"
definition OperationPromote :: string where "OperationPromote = ''promote''"
definition OperationReload :: string where "OperationReload = ''reload''"
definition OperationHealth :: string where "OperationHealth = ''health''"
definition OperationRollback :: string where "OperationRollback = ''rollback''"

definition Operations :: "string list" where
  "Operations = [OperationStage, OperationValidate, OperationPromote, OperationReload, OperationHealth, OperationRollback]"

definition ServiceCoreDNS :: string where "ServiceCoreDNS = ''coredns''"
definition ServiceNginx :: string where "ServiceNginx = ''nginx''"

record Request =
  rqRequestID :: string
  rqOperation :: string
  rqService :: string
  rqRevisionID :: string
  rqChecksum :: string
  rqCandidatePath :: string

record Response =
  rsRequestID :: string
  rsOK :: bool
  rsOperation :: string
  rsOutput :: "json option"
  rsError :: string

section \<open>The desired snapshot\<close>

definition putMember :: "string \<Rightarrow> json \<Rightarrow> object \<Rightarrow> object" where
  "putMember key v m =
     (if key \<in> fst ` set m then map (\<lambda>(k, x). (k, if k = key then v else x)) m else m @ [(key, v)])"

text \<open>\<open>decodeObject\<close> of a member that may be absent.\<close>

definition memberObject :: "object \<Rightarrow> string \<Rightarrow> object option" where
  "memberObject m key = (case map_of m key of None \<Rightarrow> None | Some v \<Rightarrow> asObject v)"

definition nonEmptyString :: "json option \<Rightarrow> string" where
  "nonEmptyString raw = (case raw of Some (JStr s) \<Rightarrow> s | _ \<Rightarrow> [])"

definition nodeIngress :: "object \<Rightarrow> string \<times> string" where
  "nodeIngress envelope =
     (case memberObject envelope ''nodeLocal'' of
        None \<Rightarrow> ([], [])
      | Some nodeLocal \<Rightarrow>
          (case memberObject nodeLocal ''ingress'' of
             None \<Rightarrow> ([], [])
           | Some ingress \<Rightarrow> (nonEmptyString (map_of ingress ''ipv4''), nonEmptyString (map_of ingress ''ipv6''))))"

definition ingressObject :: "string \<Rightarrow> string \<Rightarrow> object" where
  "ingressObject ipv4 ipv6 =
     (if ipv4 \<noteq> [] then [(''ipv4'', JStr ipv4)] else []) @ (if ipv6 \<noteq> [] then [(''ipv6'', JStr ipv6)] else [])"

definition desiredConfiguration :: "object \<Rightarrow> object \<Rightarrow> object" where
  "desiredConfiguration envelope desired =
     (case memberObject desired ''settings'' of
        None \<Rightarrow> desired
      | Some settings \<Rightarrow>
          let (ipv4, ipv6) = nodeIngress envelope in
          if ipv4 = [] \<and> ipv6 = [] then desired
          else putMember ''settings'' (JObj (putMember ''ingress'' (JObj (ingressObject ipv4 ipv6)) settings)) desired)"

definition DesiredSnapshot :: "rawdoc \<Rightarrow> rawdoc" where
  "DesiredSnapshot snapshot =
     (case snapshot of
        NotJSON \<Rightarrow> snapshot
      | Doc doc \<Rightarrow>
          (case asObject doc of
             None \<Rightarrow> snapshot
           | Some envelope \<Rightarrow>
               (case memberObject envelope ''replicated'' of
                  None \<Rightarrow> snapshot
                | Some replicated \<Rightarrow>
                    (case memberObject replicated ''configuration'' of
                       None \<Rightarrow> snapshot
                     | Some desired \<Rightarrow> Doc (JObj (desiredConfiguration envelope desired))))))"

section \<open>Interfaces and state\<close>

text \<open>\<open>Update\<close> returns a job together with its error, as in Go: a caller that ignores the error sees that job.\<close>

record 'w Orchestrator =
  Get :: "string \<Rightarrow> ('w, Job option) io"
  Update :: "string \<Rightarrow> JobPatch \<Rightarrow> 'w \<Rightarrow> (Job \<times> goerror option) \<times> 'w"
  EnqueueOnce :: "EnqueueInput \<Rightarrow> ('w, Job option) io"
  Mark :: "string \<Rightarrow> gotime \<Rightarrow> ('w, Revision) io"
  Execute :: "Request \<Rightarrow> ('w, Response) io"
  CandidateRoot :: string
  FileSystem :: "'w FS"
  Now :: "'w \<Rightarrow> gotime \<times> 'w"
  Log :: "string \<Rightarrow> 'w \<Rightarrow> 'w"
  NewString :: "'w \<Rightarrow> string \<times> 'w"
  Unmarshal :: "string \<Rightarrow> json option"

type_synonym 'w Renderer = "rawdoc \<Rightarrow> Job \<Rightarrow> ('w, Candidate list) io"

record applyRun =
  rnJob :: Job
  rnPromoted :: "Candidate list"
  rnStep :: string
  rnService :: string

definition zeroJob :: Job where
  "zeroJob = \<lparr>jobID = [], jobRevisionID = [], jobActorUserID = None, jobTarget = [], jobStatus = [], jobSource = [],
     jobSourcePrimaryID = None, jobSourceNodeID = None, jobSourceRevisionID = None, jobSnapshotContentHash = None,
     jobSnapshotVersion = None, jobReplicationVersion = None, jobLeadershipGeneration = None, jobCorrelationID = [],
     jobCreatedAt = zeroTime, jobClaimedAt = None, jobStartedAt = None, jobFinishedAt = None,
     jobValidationOutput = None, jobApplyOutput = None, jobHealthOutput = None, jobErrorMessage = None\<rparr>"

text \<open>Lifting into a run: a call of the world, and access to the fields.\<close>

definition inWorld :: "('w, 'a) io \<Rightarrow> (applyRun \<times> 'w, 'a) io" where
  "inWorld m s = (case m (snd s) of (r, w') \<Rightarrow> (r, (fst s, w')))"

definition total :: "('w \<Rightarrow> 'a \<times> 'w) \<Rightarrow> ('w, 'a) io" where
  "total m w = (case m w of (x, w') \<Rightarrow> (Inr x, w'))"

definition withRun :: "(applyRun \<Rightarrow> (applyRun \<times> 'w, 'a) io) \<Rightarrow> (applyRun \<times> 'w, 'a) io" where
  "withRun f s = f (fst s) s"

definition changeRun :: "(applyRun \<Rightarrow> applyRun) \<Rightarrow> (applyRun \<times> 'w, unit) io" where
  "changeRun f s = (Inr (), (f (fst s), snd s))"

section \<open>Helpers\<close>

definition orDefault :: "string \<Rightarrow> string \<Rightarrow> string" where
  "orDefault val fallback = (if val = [] then fallback else val)"

definition errorMessage :: "goerror \<Rightarrow> string" where
  "errorMessage err = orDefault err ''Apply failed''"

definition safeLogIDPattern :: "string \<Rightarrow> bool" where
  "safeLogIDPattern s \<longleftrightarrow>
     1 \<le> length s \<and> length s \<le> 80 \<and> list_all (\<lambda>c. isAlnum c \<or> c = CHR ''_'' \<or> c = CHR ''-'') s"

definition safeLogID :: "string \<Rightarrow> string" where
  "safeLogID s = (if safeLogIDPattern s then s else ''[redacted]'')"

text \<open>An output map of services; a marshalled map is an object.\<close>

definition setOutput :: "object \<Rightarrow> string \<Rightarrow> json option \<Rightarrow> object" where
  "setOutput outputs service output = (case output of None \<Rightarrow> outputs | Some j \<Rightarrow> putMember service j outputs)"

text \<open>\<open>hasNginxDrift\<close>: the decoder takes the last member whose key folds to \<open>status\<close>.\<close>

definition hasNginxDrift :: "Response \<Rightarrow> bool" where
  "hasNginxDrift response =
     (case rsOutput response of
        Some (JObj m) \<Rightarrow>
          (case filter (\<lambda>(k, v). keyIs ''status'' k) m of
             [] \<Rightarrow> False
           | ms \<Rightarrow> snd (last ms) = JStr ''drift'')
      | _ \<Rightarrow> False)"

definition logf :: "'w Orchestrator \<Rightarrow> string \<Rightarrow> ('w, unit) io" where
  "logf orc message w = (Inr (), Log orc message w)"

definition jobIDs :: "Job \<Rightarrow> string" where
  "jobIDs job = ''job='' @ safeLogID (jobID job) @ '' revision='' @ safeLogID (jobRevisionID job) @
     '' correlation='' @ safeLogID (jobCorrelationID job)"

definition logFailure :: "'w Orchestrator \<Rightarrow> string \<Rightarrow> (applyRun \<times> 'w, unit) io" where
  "logFailure orc outcome =
     withRun (\<lambda>r. inWorld (logf orc (''worker apply '' @ outcome @ '' '' @ jobIDs (rnJob r) @
       '' step='' @ rnStep r @ '' service='' @ rnService r)))"

section \<open>Status changes\<close>

definition setStatus :: "'w Orchestrator \<Rightarrow> Job \<Rightarrow> Status \<Rightarrow> JobPatch \<Rightarrow> 'w \<Rightarrow> (Job \<times> goerror option) \<times> 'w" where
  "setStatus orc job status patch w =
     (case Transition (jobStatus job) status of
        Inl err \<Rightarrow> ((zeroJob, Some (Message err)), w)
      | Inr next \<Rightarrow> Update orc (jobID job) (patch\<lparr>patStatus := Some next\<rparr>) w)"

text \<open>A returned pair as a result: a caller that returns on error.\<close>

definition orError :: "('w \<Rightarrow> (Job \<times> goerror option) \<times> 'w) \<Rightarrow> ('w, Job) io" where
  "orError m w =
     (case m w of ((job, None), w') \<Rightarrow> (Inr job, w') | ((job, Some err), w') \<Rightarrow> (Inl err, w'))"

definition failJob :: "'w Orchestrator \<Rightarrow> Job \<Rightarrow> string \<Rightarrow> JobPatch \<Rightarrow> ('w, Job) io" where
  "failJob orc job message patch =
     bindIO (total (Now orc)) (\<lambda>now.
     orError (setStatus orc job Failed
       (patch\<lparr>patErrorMessage := SetTo (scrubMessage (Unmarshal orc) message), patFinishedAt := SetTo now\<rparr>)))"

definition request :: "'w Orchestrator \<Rightarrow> Candidate \<Rightarrow> Job \<Rightarrow> string \<Rightarrow> ('w, Response) io" where
  "request orc candidate job operation =
     bindIO (total (NewString orc)) (\<lambda>rid.
     Execute orc \<lparr>rqRequestID = rid, rqOperation = operation, rqService = cdService candidate,
       rqRevisionID = jobRevisionID job, rqChecksum = cdChecksum candidate,
       rqCandidatePath = cdCandidatePath candidate\<rparr>)"

text \<open>The loop of \<open>rollback\<close> over the reversed candidates; an error of one request does not stop it.\<close>

fun rollbackLoop :: "'w Orchestrator \<Rightarrow> Job \<Rightarrow> Candidate list \<Rightarrow> bool \<Rightarrow> ('w, bool) io" where
  "rollbackLoop orc job [] succeeded = returnIO succeeded"
| "rollbackLoop orc job (candidate # rest) succeeded = (\<lambda>w.
     case request orc candidate job OperationRollback w of
       (Inr response, w') \<Rightarrow>
         if rsOK response then rollbackLoop orc job rest succeeded w'
         else bindIO (logf orc (''worker rollback failed '' @ jobIDs job @ '' service='' @ cdService candidate))
                (\<lambda>_. rollbackLoop orc job rest False) w'
     | (Inl err, w') \<Rightarrow>
         bindIO (logf orc (''worker rollback failed '' @ jobIDs job @ '' service='' @ cdService candidate))
           (\<lambda>_. rollbackLoop orc job rest False) w')"

definition rollback :: "'w Orchestrator \<Rightarrow> Candidate list \<Rightarrow> Job \<Rightarrow> ('w, bool) io" where
  "rollback orc candidates job = rollbackLoop orc job (rev candidates) True"

section \<open>One run\<close>

definition setStep :: "string \<Rightarrow> (applyRun \<times> 'w, unit) io" where
  "setStep step = changeRun (rnStep_update (\<lambda>_. step))"

definition setService :: "string \<Rightarrow> (applyRun \<times> 'w, unit) io" where
  "setService service = changeRun (rnService_update (\<lambda>_. service))"

definition runRequest :: "'w Orchestrator \<Rightarrow> Candidate \<Rightarrow> string \<Rightarrow> (applyRun \<times> 'w, Response) io" where
  "runRequest orc candidate operation = withRun (\<lambda>r. inWorld (request orc candidate (rnJob r) operation))"

definition runFail :: "'w Orchestrator \<Rightarrow> string \<Rightarrow> JobPatch \<Rightarrow> (applyRun \<times> 'w, Job) io" where
  "runFail orc message patch = withRun (\<lambda>r. inWorld (failJob orc (rnJob r) message patch))"

definition stagingOutput :: "Candidate \<Rightarrow> Response \<Rightarrow> rawdoc" where
  "stagingOutput candidate staged =
     Doc (JObj ([(''service'', JStr (cdService candidate))] @
       (case rsOutput staged of None \<Rightarrow> [] | Some j \<Rightarrow> [(''output'', j)])))"

text \<open>The loop that writes, stages and validates: \<open>Inl\<close> is the early return of a failed job.\<close>

fun stageLoop :: "'w Orchestrator \<Rightarrow> Candidate list \<Rightarrow> object \<Rightarrow> (applyRun \<times> 'w, Job + object) io" where
  "stageLoop orc [] validationOutput = returnIO (Inr validationOutput)"
| "stageLoop orc (candidate # rest) validationOutput =
     bindIO (setService (cdService candidate)) (\<lambda>_.
     bindIO (setStep ''write_candidate'') (\<lambda>_.
     bindIO (inWorld (writeCandidate (FileSystem orc) candidate (orDefault (CandidateRoot orc) DefaultCandidateRoot))) (\<lambda>_.
     bindIO (setStep ''stage'') (\<lambda>_.
     bindIO (runRequest orc candidate OperationStage) (\<lambda>staged.
     if \<not> rsOK staged then
       bindIO (logFailure orc ''failed'') (\<lambda>_.
       bindIO (runFail orc (orDefault (rsError staged) ''Candidate staging failed'')
                 (emptyPatch\<lparr>patValidationOutput := SetTo (stagingOutput candidate staged)\<rparr>)) (\<lambda>job.
       returnIO (Inl job)))
     else
       bindIO (setStep ''validate'') (\<lambda>_.
       bindIO (runRequest orc candidate OperationValidate) (\<lambda>validation.
       let outputs = setOutput validationOutput (cdService candidate) (rsOutput validation) in
       if \<not> rsOK validation then
         bindIO (logFailure orc ''failed'') (\<lambda>_.
         bindIO (runFail orc (orDefault (rsError validation) ''Candidate validation failed'')
                   (emptyPatch\<lparr>patValidationOutput := SetTo (Doc (JObj outputs))\<rparr>)) (\<lambda>job.
         returnIO (Inl job)))
       else stageLoop orc rest outputs)))))))"

fun promoteLoop :: "'w Orchestrator \<Rightarrow> Candidate list \<Rightarrow> object \<Rightarrow> (applyRun \<times> 'w, object) io" where
  "promoteLoop orc [] applyOutput = returnIO applyOutput"
| "promoteLoop orc (candidate # rest) applyOutput =
     bindIO (setService (cdService candidate)) (\<lambda>_.
     bindIO (setStep ''promote'') (\<lambda>_.
     bindIO (runRequest orc candidate OperationPromote) (\<lambda>promoted.
     if \<not> rsOK promoted then throwIO (orDefault (rsError promoted) ''Candidate promotion failed'')
     else
       bindIO (changeRun (rnPromoted_update (\<lambda>ps. ps @ [candidate]))) (\<lambda>_.
       promoteLoop orc rest (setOutput applyOutput (cdService candidate) (rsOutput promoted))))))"

text \<open>\<open>unhealthy\<close> is the branch of a failed health check: roll back, then record the outcome.\<close>

definition unhealthy :: "'w Orchestrator \<Rightarrow> Response \<Rightarrow> object \<Rightarrow> (applyRun \<times> 'w, Job) io" where
  "unhealthy orc health healthOutput =
     bindIO (logFailure orc ''failed'') (\<lambda>_.
     bindIO (withRun (\<lambda>r. inWorld (rollback orc (rnPromoted r) (rnJob r)))) (\<lambda>rolledBack.
     if rolledBack then
       bindIO (inWorld (total (Now orc))) (\<lambda>now.
       withRun (\<lambda>r. inWorld (orError (setStatus orc (rnJob r) RolledBack
         (emptyPatch\<lparr>patHealthOutput := SetTo (Doc (JObj healthOutput)),
           patErrorMessage := SetTo (scrubMessage (Unmarshal orc)
             (orDefault (rsError health) ''Post-reload health failed; rolled back'')),
           patFinishedAt := SetTo now\<rparr>)))))
     else
       runFail orc (orDefault (rsError health) ''Post-reload health failed'' @ ''; rollback failed'')
         (emptyPatch\<lparr>patHealthOutput := SetTo (Doc (JObj healthOutput))\<rparr>)))"

fun healthLoop :: "'w Orchestrator \<Rightarrow> Candidate list \<Rightarrow> object \<Rightarrow> (applyRun \<times> 'w, Job + object) io" where
  "healthLoop orc [] healthOutput = returnIO (Inr healthOutput)"
| "healthLoop orc (candidate # rest) healthOutput =
     bindIO (setService (cdService candidate)) (\<lambda>_.
     bindIO (setStep ''reload'') (\<lambda>_.
     bindIO (runRequest orc candidate OperationReload) (\<lambda>reload.
     if \<not> rsOK reload then throwIO (orDefault (rsError reload) ''Service reload failed'')
     else
       bindIO (setStep ''health'') (\<lambda>_.
       bindIO (runRequest orc candidate OperationHealth) (\<lambda>health.
       let outputs = setOutput healthOutput (cdService candidate) (rsOutput health) in
       if \<not> rsOK health \<or> hasNginxDrift health then
         bindIO (unhealthy orc health outputs) (\<lambda>job. returnIO (Inl job))
       else healthLoop orc rest outputs)))))"

text \<open>\<open>if r.job, err = o.setStatus(...); err != nil\<close>: the job is overwritten before the error is looked at.\<close>

definition setApplying :: "'w Orchestrator \<Rightarrow> object \<Rightarrow> (applyRun \<times> 'w, unit) io" where
  "setApplying orc validationOutput s =
     (case setStatus orc (rnJob (fst s)) Applying
             (emptyPatch\<lparr>patValidationOutput := SetTo (Doc (JObj validationOutput))\<rparr>) (snd s) of
        ((job, err), w') \<Rightarrow>
          ((case err of None \<Rightarrow> Inr () | Some e \<Rightarrow> Inl e), ((fst s)\<lparr>rnJob := job\<rparr>, w')))"

definition finishApplied :: "'w Orchestrator \<Rightarrow> object \<Rightarrow> object \<Rightarrow> (applyRun \<times> 'w, Job) io" where
  "finishApplied orc applyOutput healthOutput =
     bindIO (setStep ''mark_applied'') (\<lambda>_.
     bindIO (inWorld (total (Now orc))) (\<lambda>markedAt.
     bindIO (withRun (\<lambda>r. inWorld (Mark orc (jobRevisionID (rnJob r)) markedAt))) (\<lambda>_.
     bindIO (inWorld (total (Now orc))) (\<lambda>now.
     withRun (\<lambda>r. inWorld (orError (setStatus orc (rnJob r) Applied
       (emptyPatch\<lparr>patApplyOutput := SetTo (Doc (JObj applyOutput)),
         patHealthOutput := SetTo (Doc (JObj healthOutput)), patFinishedAt := SetTo now\<rparr>))))))))"

definition execute :: "'w Orchestrator \<Rightarrow> rawdoc \<Rightarrow> 'w Renderer \<Rightarrow> (applyRun \<times> 'w, Job) io" where
  "execute orc snapshot render =
     bindIO (withRun (\<lambda>r. inWorld (render (DesiredSnapshot snapshot) (rnJob r)))) (\<lambda>candidates.
     if candidates = [] then throwIO ''No candidates were rendered''
     else
       bindIO (stageLoop orc candidates []) (\<lambda>staged.
       case staged of
         Inl job \<Rightarrow> returnIO job
       | Inr validationOutput \<Rightarrow>
           bindIO (setStep ''set_applying'') (\<lambda>_.
           bindIO (setApplying orc validationOutput) (\<lambda>_.
           bindIO (promoteLoop orc candidates []) (\<lambda>applyOutput.
           bindIO (healthLoop orc candidates []) (\<lambda>health.
           case health of
             Inl job \<Rightarrow> returnIO job
           | Inr healthOutput \<Rightarrow> finishApplied orc applyOutput healthOutput))))))"

section \<open>Apply and reconcile\<close>

text \<open>What \<open>Apply\<close> does after \<open>execute\<close> returned an error.\<close>

definition recover :: "'w Orchestrator \<Rightarrow> goerror \<Rightarrow> (applyRun \<times> 'w, Job) io" where
  "recover orc err =
     bindIO (logFailure orc ''failed'') (\<lambda>_.
     bindIO (withRun (\<lambda>r. if rnPromoted r = [] then returnIO False
                          else inWorld (rollback orc (rnPromoted r) (rnJob r)))) (\<lambda>rolledBack.
     if rolledBack then
       bindIO (inWorld (total (Now orc))) (\<lambda>now.
       withRun (\<lambda>r. inWorld (orError (setStatus orc (rnJob r) RolledBack
         (emptyPatch\<lparr>patErrorMessage := SetTo (scrubMessage (Unmarshal orc) (errorMessage err)),
           patFinishedAt := SetTo now\<rparr>)))))
     else runFail orc (errorMessage err) emptyPatch))"

definition applyRunFrom :: "'w Orchestrator \<Rightarrow> Job \<Rightarrow> rawdoc \<Rightarrow> 'w Renderer \<Rightarrow> ('w, Job) io" where
  "applyRunFrom orc job snapshot render w =
     (case execute orc snapshot render (\<lparr>rnJob = job, rnPromoted = [], rnStep = ''render'', rnService = ''none''\<rparr>, w) of
        (Inr result, (r, w')) \<Rightarrow> (Inr result, w')
      | (Inl err, s) \<Rightarrow> (case recover orc err s of (res, (r, w')) \<Rightarrow> (res, w')))"

text \<open>The claim: a queued job moves to validating, a validating one goes on, any other is refused.  The
  second component is the variable \<open>job\<close> when the error is reported.\<close>

definition claimJob :: "'w Orchestrator \<Rightarrow> string \<Rightarrow> Job \<Rightarrow> 'w \<Rightarrow> (Job \<times> goerror option) \<times> 'w" where
  "claimJob orc jid job w =
     (if jobStatus job = Queued then setStatus orc job Validating emptyPatch w
      else if jobStatus job = Validating then ((job, None), w)
      else ((job, Some (''Job '' @ jid @ '' is not queued'')), w))"

definition Apply :: "'w Orchestrator \<Rightarrow> string \<Rightarrow> rawdoc \<Rightarrow> 'w Renderer \<Rightarrow> ('w, Job) io" where
  "Apply orc jid snapshot render w =
     (case Get orc jid w of
        (Inl err, w1) \<Rightarrow>
          bindIO (logf orc (''worker apply failed job='' @ safeLogID jid @ '' revision=unavailable step=lookup service=none''))
            (\<lambda>_. throwIO err) w1
      | (Inr None, w1) \<Rightarrow>
          bindIO (logf orc (''worker apply failed job='' @ safeLogID jid @ '' revision=unavailable step=lookup service=none''))
            (\<lambda>_. throwIO (''Job not found: '' @ jid)) w1
      | (Inr (Some found), w1) \<Rightarrow>
          (case claimJob orc jid found w1 of
             ((job, Some err), w2) \<Rightarrow>
               bindIO (logf orc (''worker apply failed '' @ jobIDs job @ '' step=claim service=none'')) (\<lambda>_. throwIO err) w2
           | ((job, None), w2) \<Rightarrow> applyRunFrom orc job snapshot render w2))"

definition repairInput :: "Revision \<Rightarrow> gotime \<Rightarrow> EnqueueInput" where
  "repairInput revision claimedAt =
     \<lparr>inRevisionID = rvID revision, inActorUserID = None, inTarget = TargetNginx, inStatus = Validating, inSource = [],
      inSourcePrimaryID = None, inSourceNodeID = None, inSourceRevisionID = None, inSnapshotContentHash = None,
      inSnapshotVersion = None, inReplicationVersion = None, inLeadershipGeneration = None,
      inCorrelationID = ''reconcile-nginx:'' @ rvID revision, inValidationOutput = None, inApplyOutput = None,
      inHealthOutput = None, inErrorMessage = None, inClaimedAt = Some claimedAt, inStartedAt = Some claimedAt,
      inFinishedAt = None\<rparr>"

definition ReconcileApplied :: "'w Orchestrator \<Rightarrow> Revision \<Rightarrow> 'w Renderer \<Rightarrow> ('w, Job option) io" where
  "ReconcileApplied orc revision render =
     (if rvAppliedAt revision = None then returnIO None
      else
        bindIO (total (NewString orc)) (\<lambda>rid.
        bindIO (Execute orc \<lparr>rqRequestID = rid, rqOperation = OperationHealth, rqService = ServiceNginx,
            rqRevisionID = rvID revision, rqChecksum = rvChecksum revision,
            rqCandidatePath = PathJoin [orDefault (CandidateRoot orc) DefaultCandidateRoot, rvID revision, ''nginx'']\<rparr>) (\<lambda>probe.
        if \<not> rsOK probe \<or> \<not> hasNginxDrift probe then returnIO None
        else
          bindIO (total (Now orc)) (\<lambda>claimedAt.
          bindIO (EnqueueOnce orc (repairInput revision claimedAt)) (\<lambda>repair.
          case repair of
            None \<Rightarrow> returnIO None
          | Some job \<Rightarrow>
              bindIO (Apply orc (jobID job) (Doc (rvSnapshot revision)) render) (\<lambda>result. returnIO (Some result)))))))"

end
