(* ===== verification/RenderJob.thy ===== *)
theory RenderJob
  imports ApplyModel
begin

text \<open>
  From a job and its desired snapshot to the candidates (\<open>worker/render/render.go\<close>), with the secret-bearing
  files of \<open>worker/materialize/materialize.go\<close>.  The typed decoding of a whole snapshot by \<open>encoding/json\<close>
  and the text of its errors are fields of the options; the secret store is the interface
  \<open>SecretReader\<close>.  Texts are valid UTF-8, as every text out of a JSON decoder is.
\<close>

section \<open>Secret files\<close>

type_synonym 'w SecretReader = "string \<Rightarrow> ('w, string) io"

definition basicAuthUsername :: "string \<Rightarrow> bool" where
  "basicAuthUsername s \<longleftrightarrow>
     1 \<le> length s \<and> length s \<le> 64 \<and> list_all (\<lambda>c. isAlnum c \<or> c \<in> set ''._@+=-'') s"

text \<open>The number of UTF-16 code units of a UTF-8 text: two for a character of four bytes, one for any other.\<close>

definition utf16Units :: "string \<Rightarrow> nat" where
  "utf16Units s =
     sum_list (map (\<lambda>c. if c < CHR 0x80 then 1 else if c < CHR 0xC0 then 0 else if c < CHR 0xF0 then 1 else 2) s)"

definition FormatBasicAuthFileLine :: "string \<Rightarrow> string \<Rightarrow> goerror + string" where
  "FormatBasicAuthFileLine username passwordHash =
     (if \<not> basicAuthUsername username then Inl ''Basic Auth username is invalid''
      else if \<not> HasPrefix passwordHash ''{SHA}'' \<or> utf16Units passwordHash \<le> 6
        then Inl ''Basic Auth password hash is invalid''
      else Inr (username @ '':'' @ passwordHash @ NL))"

definition liftE :: "goerror + 'a \<Rightarrow> ('w, 'a) io" where
  "liftE r w = (r, w)"

fun basicAuthLoop :: "'w SecretReader \<Rightarrow> DNSRecord list \<Rightarrow> files \<Rightarrow> ('w, files) io" where
  "basicAuthLoop secrets [] files = returnIO files"
| "basicAuthLoop secrets (r # rs) files =
     (case asObject (objectGet (recProxy r) ''basicAuth'') of
        None \<Rightarrow> basicAuthLoop secrets rs files
      | Some basicAuth \<Rightarrow>
          let username = proxyString basicAuth ''username''; secretID = proxyString basicAuth ''passwordSecretId'' in
          bindIO (secrets secretID) (\<lambda>hash.
          if hash = [] then throwIO (''Basic Auth secret not found: '' @ secretID)
          else bindIO (liftE (FormatBasicAuthFileLine username hash)) (\<lambda>line.
            basicAuthLoop secrets rs (setFile (''basic-auth/'' @ secretID) line files))))"

definition BasicAuthFiles :: "DNSRecord list \<Rightarrow> 'w SecretReader \<Rightarrow> ('w, files) io" where
  "BasicAuthFiles records secrets = basicAuthLoop secrets records []"

text \<open>The certificates in use, each once, in the order of their first use.\<close>

definition tlsRecord :: "DNSRecord \<Rightarrow> bool" where
  "tlsRecord r \<longleftrightarrow> recEnabled r \<and> recProxied r \<and> asBool (objectGet (recProxy r) ''tlsEnabled'') = Some True"

definition certificateOf :: "DNSRecord \<Rightarrow> string" where
  "certificateOf r = (case asString (objectGet (recProxy r) ''certificateId'') of Some s \<Rightarrow> s | None \<Rightarrow> [])"

fun neededCertificates :: "DNSRecord list \<Rightarrow> string list \<Rightarrow> string list" where
  "neededCertificates [] needed = needed"
| "neededCertificates (r # rs) needed =
     (if \<not> tlsRecord r \<or> certificateOf r = [] \<or> certificateOf r \<in> set needed then neededCertificates rs needed
      else neededCertificates rs (needed @ [certificateOf r]))"

definition ensureTrailingNewline :: "string \<Rightarrow> string" where
  "ensureTrailingNewline s = (if HasSuffix s NL then s else s @ NL)"

fun certificateLoop ::
  "'w SecretReader \<Rightarrow> CertificateStatus list \<Rightarrow> string list \<Rightarrow> files \<Rightarrow> ('w, files) io" where
  "certificateLoop secrets certs [] files = returnIO files"
| "certificateLoop secrets certs (cid # needed) files =
     (case find (\<lambda>c. certID c = cid) certs of
        None \<Rightarrow> throwIO (''Certificate not found: '' @ cid)
      | Some cert \<Rightarrow>
          if certPEM cert = [] then throwIO (''Certificate PEM is missing: '' @ cid)
          else if certSecretID cert = [] then throwIO (''Certificate private key is missing: '' @ cid)
          else bindIO (secrets (certSecretID cert)) (\<lambda>key.
            if key = [] then throwIO (''Certificate key secret not found: '' @ certSecretID cert)
            else certificateLoop secrets certs needed
              (setFile (''certs/'' @ cid @ ''.key'') (ensureTrailingNewline key)
                (setFile (''certs/'' @ cid @ ''.crt'') (ensureTrailingNewline (certPEM cert)) files))))"

definition CertificateFiles :: "DNSRecord list \<Rightarrow> CertificateStatus list \<Rightarrow> 'w SecretReader \<Rightarrow> ('w, files) io" where
  "CertificateFiles records certs secrets = certificateLoop secrets certs (neededCertificates records []) []"

section \<open>Candidates\<close>

record 'w RenderOptions =
  roCandidateRoot :: string
  roCapabilities :: Http3Capabilities
  roSecrets :: "'w SecretReader option"
  roACMEUpstream :: string
  roUnmarshal :: "rawdoc \<Rightarrow> goerror + ConfigurationSnapshot"
  roDecodeError :: goerror

fun truthy :: "json \<Rightarrow> bool" where
  "truthy JNull = False"
| "truthy (JBool b) = b"
| "truthy (JStr s) = (s \<noteq> [])"
| "truthy (JInt i) = (i \<noteq> 0)"
| "truthy (JFrac t) = True"
| "truthy (JArr xs) = True"
| "truthy (JObj m) = True"

definition revisionIDPattern :: "string \<Rightarrow> bool" where
  "revisionIDPattern s \<longleftrightarrow> s \<noteq> [] \<and> list_all (\<lambda>c. isAlnum c \<or> c = CHR ''_'' \<or> c = CHR ''-'') s"

text \<open>\<open>maps.Copy\<close>.\<close>

definition copyFiles :: "files \<Rightarrow> files \<Rightarrow> files" where
  "copyFiles dst src = foldl (\<lambda>fs (path, content). setFile path content fs) dst src"

record rendererState =
  rrDesired :: ConfigurationSnapshot
  rrZones :: "ZoneState list"
  rrRecords :: "DNSRecord list"
  rrRoot :: string
  rrJob :: Job

definition candidatePath :: "rendererState \<Rightarrow> string \<Rightarrow> goerror + string" where
  "candidatePath r service =
     (if revisionIDPattern (jobRevisionID (rrJob r))
      then Inr (TrimRight (rrRoot r) ''/'' @ ''/'' @ jobRevisionID (rrJob r) @ ''/'' @ service)
      else Inl ''Revision ID is invalid for a candidate path'')"

definition secretFiles :: "'w RenderOptions \<Rightarrow> rendererState \<Rightarrow> ('w, files) io" where
  "secretFiles options r =
     (case roSecrets options of
        None \<Rightarrow>
          if list_ex (\<lambda>rec. truthy (objectGet (recProxy rec) ''basicAuth'')) (rrRecords r)
          then throwIO ''Basic Auth secrets require a configured secret store''
          else if list_ex (\<lambda>rec. recProxied rec \<and> truthy (objectGet (recProxy rec) ''tlsEnabled'')) (rrRecords r)
          then throwIO ''TLS certificates require a configured secret store''
          else returnIO []
      | Some secrets \<Rightarrow>
          bindIO (BasicAuthFiles (rrRecords r) secrets) (\<lambda>files.
          bindIO (CertificateFiles (rrRecords r) (snapCertificates (rrDesired r)) secrets) (\<lambda>certificates.
          returnIO (copyFiles files certificates))))"

definition corednsCandidate :: "rendererState \<Rightarrow> goerror + Candidate" where
  "corednsCandidate r =
     (case RenderCoreDNSCandidate
             \<lparr>rinZones = map (\<lambda>z. \<lparr>zinName = zsName z, zinRecords = zsRecords z\<rparr>) (rrZones r),
              rinIngress = setIngress (snapSettings (rrDesired r)),
              rinDefaultPool = the (setDefaultPool (snapSettings (rrDesired r))),
              rinForwardingRules = setForwardingRules (snapSettings (rrDesired r))\<rparr> of
        Inl e \<Rightarrow> Inl (Message e)
      | Inr rendered \<Rightarrow>
          bindE (candidatePath r ''coredns'') (\<lambda>path.
          Inr \<lparr>cdService = ServiceCoreDNS, cdCandidatePath = path, cdChecksum = cdnChecksum rendered,
               cdFiles = Some (copyFiles [(''Corefile'', cdnCorefile rendered)] (cdnFiles rendered))\<rparr>))"

definition renderErrorText :: "goerror \<Rightarrow> render_error \<Rightarrow> goerror" where
  "renderErrorText decodeError e =
     (case e of DomainError d \<Rightarrow> Message d | RenderError m \<Rightarrow> m | DecodeError \<Rightarrow> decodeError)"

definition nginxCandidate :: "'w RenderOptions \<Rightarrow> rendererState \<Rightarrow> ('w, Candidate) io" where
  "nginxCandidate options r =
     bindIO (liftE (candidatePath r ''nginx'')) (\<lambda>path.
     bindIO (secretFiles options r) (\<lambda>extra.
     case RenderNginxCandidate
            \<lparr>ninRecords = rrRecords r, ninStreams = snapStreams (rrDesired r), ninCapabilities = roCapabilities options,
             ninCandidatePath = path, ninACMEUpstream = roACMEUpstream options, ninExtraFiles = extra\<rparr> of
       Inl e \<Rightarrow> throwIO (renderErrorText (roDecodeError options) e)
     | Inr rendered \<Rightarrow>
         returnIO \<lparr>cdService = ServiceNginx, cdCandidatePath = path, cdChecksum = ngxChecksum rendered,
                   cdFiles = Some (ngxFiles rendered)\<rparr>))"

definition rendererFor :: "'w RenderOptions \<Rightarrow> ConfigurationSnapshot \<Rightarrow> Job \<Rightarrow> rendererState" where
  "rendererFor options desired job =
     (let zones = filter zsEnabled (snapZones desired) in
      \<lparr>rrDesired = desired, rrZones = zones, rrRecords = concat (map zsRecords zones),
       rrRoot = orDefault (roCandidateRoot options) DefaultCandidateRoot, rrJob = job\<rparr>)"

definition Candidates :: "'w RenderOptions \<Rightarrow> 'w Renderer" where
  "Candidates options snapshot job =
     (case roUnmarshal options snapshot of
        Inl e \<Rightarrow> throwIO (''Configuration snapshot is invalid: '' @ e)
      | Inr desired \<Rightarrow>
          if setDefaultPool (snapSettings desired) = None
          then throwIO ''Configuration snapshot has no default resolver pool''
          else let r = rendererFor options desired job in
            if jobTarget job = TargetCoreDNS then
              bindIO (liftE (corednsCandidate r)) (\<lambda>c. returnIO [c])
            else if jobTarget job = TargetNginx then
              bindIO (nginxCandidate options r) (\<lambda>c. returnIO [c])
            else if jobTarget job = TargetCombined then
              bindIO (liftE (corednsCandidate r)) (\<lambda>c1.
              bindIO (nginxCandidate options r) (\<lambda>c2. returnIO [c1, c2]))
            else throwIO (''Unsupported apply target: '' @ jobTarget job))"

section \<open>Lemmas\<close>

lemma liftE_simp [simp]: "liftE r w = (r, w)"
  by (simp add: liftE_def)

lemma ensureTrailingNewline_ends [simp]: "HasSuffix (ensureTrailingNewline s) NL"
  by (simp add: ensureTrailingNewline_def)

lemma map_of_copyFiles:
  "distinct (map fst src) \<Longrightarrow> map_of (copyFiles dst src) p = (case map_of src p of Some b \<Rightarrow> Some b | None \<Rightarrow> map_of dst p)"
proof (cases "map_of src p")
  case None
  then have "p \<notin> fst ` set src" by (simp only: map_of_eq_None_iff not_False_eq_True)
  note other = foldl_setFile_other [OF this, of dst]
  show ?thesis unfolding copyFiles_def None option.case by (rule other)
next
  case (Some b)
  assume "distinct (map fst src)"
  then show ?thesis
    unfolding copyFiles_def Some using foldl_setFile_map_of [OF _ map_of_SomeD [OF Some]] by (simp only: option.case)
qed

lemma map_of_copyFiles_src: "distinct (map fst src) \<Longrightarrow> map_of src p = Some b \<Longrightarrow> map_of (copyFiles dst src) p = Some b"
  using map_of_copyFiles [of src dst p] by (simp only: option.case)

lemma map_of_copyFiles_dst: "distinct (map fst src) \<Longrightarrow> map_of src p = None \<Longrightarrow> map_of (copyFiles dst src) p = map_of dst p"
  using map_of_copyFiles [of src dst p] by (simp only: option.case)

lemma neededCertificates_distinct: "distinct needed \<Longrightarrow> distinct (neededCertificates rs needed)"
  by (induction rs needed rule: neededCertificates.induct) auto

lemma neededCertificates_set:
  "set (neededCertificates rs needed) =
     set needed \<union> certificateOf ` set (filter (\<lambda>r. tlsRecord r \<and> certificateOf r \<noteq> []) rs)"
proof (induction rs needed rule: neededCertificates.induct)
  case (2 r rs needed)
  then show ?case by (cases "\<not> tlsRecord r \<or> certificateOf r = [] \<or> certificateOf r \<in> set needed") auto
qed simp

definition certPath :: "string \<Rightarrow> string \<Rightarrow> string" where
  "certPath cid extension = ''certs/'' @ cid @ ''.'' @ extension"

lemma certPath_unfold: "certPath cid ''crt'' = ''certs/'' @ cid @ ''.crt''" "certPath cid ''key'' = ''certs/'' @ cid @ ''.key''"
  by (simp_all add: certPath_def)

lemma certPath_inject [simp]:
  "certPath a ''crt'' = certPath b ''crt'' \<longleftrightarrow> a = b" "certPath a ''key'' = certPath b ''key'' \<longleftrightarrow> a = b"
  "certPath a ''crt'' \<noteq> certPath b ''key''" "certPath a ''key'' \<noteq> certPath b ''crt''"
proof -
  show "certPath a ''crt'' \<noteq> certPath b ''key''" "certPath a ''key'' \<noteq> certPath b ''crt''"
    using arg_cong [of _ _ last, of "certPath a ''crt''" "certPath b ''key''"]
      arg_cong [of _ _ last, of "certPath a ''key''" "certPath b ''crt''"]
    by (auto simp: certPath_def)
qed (simp_all add: certPath_def)

text \<open>The files of one certificate, and the secret store's answer they hold.\<close>

definition certificateWritten ::
  "'w SecretReader \<Rightarrow> CertificateStatus list \<Rightarrow> files \<Rightarrow> string \<Rightarrow> bool" where
  "certificateWritten secrets certs files cid \<longleftrightarrow>
     (\<exists>cert key w w'. find (\<lambda>c. certID c = cid) certs = Some cert \<and> certPEM cert \<noteq> [] \<and> key \<noteq> [] \<and>
        secrets (certSecretID cert) w = (Inr key, w') \<and>
        map_of files (certPath cid ''crt'') = Some (ensureTrailingNewline (certPEM cert)) \<and>
        map_of files (certPath cid ''key'') = Some (ensureTrailingNewline key))"

lemma certificateWritten_copy:
  "certificateWritten secrets certs files cid \<Longrightarrow> distinct (map fst files) \<Longrightarrow>
   certificateWritten secrets certs (copyFiles dst files) cid"
  unfolding certificateWritten_def
  by (elim exE conjE, rule exI, rule exI, rule exI, rule exI, intro conjI; (assumption | rule map_of_copyFiles_src))

lemma certificateLoop_Inr:
  assumes "certificateLoop secrets certs needed files w = (Inr fs, w')" "distinct needed" "distinct (map fst files)"
  shows "distinct (map fst fs) \<and> (\<forall>cid \<in> set needed. certificateWritten secrets certs fs cid) \<and>
    (\<forall>p. (\<forall>cid \<in> set needed. p \<noteq> certPath cid ''crt'' \<and> p \<noteq> certPath cid ''key'') \<longrightarrow> map_of fs p = map_of files p)"
  using assms
proof (induction secrets certs needed files arbitrary: w rule: certificateLoop.induct)
  case (1 secrets certs files)
  then show ?case by simp
next
  case (2 secrets certs cid needed files)
  obtain cert where cert: "find (\<lambda>c. certID c = cid) certs = Some cert"
    using "2.prems"(1) by (cases "find (\<lambda>c. certID c = cid) certs") auto
  have pem: "certPEM cert \<noteq> []" "certSecretID cert \<noteq> []"
    using "2.prems"(1) cert by (auto split: if_splits)
  obtain key w1 where key: "secrets (certSecretID cert) w = (Inr key, w1)" "key \<noteq> []"
    using "2.prems"(1) cert pem by (auto simp: bindIO_def split: prod.splits sum.splits if_splits)
  let ?files = "setFile (certPath cid ''key'') (ensureTrailingNewline key)
                (setFile (certPath cid ''crt'') (ensureTrailingNewline (certPEM cert)) files)"
  have rest: "certificateLoop secrets certs needed ?files w1 = (Inr fs, w')"
    using "2.prems"(1) cert pem key by (simp add: bindIO_def certPath_unfold)
  have IH: "distinct (map fst fs)" "\<forall>cid \<in> set needed. certificateWritten secrets certs fs cid"
    "\<forall>p. (\<forall>cid \<in> set needed. p \<noteq> certPath cid ''crt'' \<and> p \<noteq> certPath cid ''key'') \<longrightarrow> map_of fs p = map_of ?files p"
    using "2.IH" [OF cert pem key(2), of w1] rest "2.prems" by (auto simp: certPath_unfold setFile_distinct)
  have "map_of fs (certPath cid ''crt'') = map_of ?files (certPath cid ''crt'')"
       "map_of fs (certPath cid ''key'') = map_of ?files (certPath cid ''key'')"
    by (rule IH(3) [rule_format]; use "2.prems"(2) in force)+
  then have "certificateWritten secrets certs fs cid"
    unfolding certificateWritten_def using cert pem key by auto
  then show ?case using IH by auto
qed

lemma CertificateFiles_Inr:
  assumes "CertificateFiles records certs secrets w = (Inr fs, w')"
  shows "distinct (map fst fs)"
    and "r \<in> set records \<Longrightarrow> tlsRecord r \<Longrightarrow> certificateOf r \<noteq> [] \<Longrightarrow> certificateWritten secrets certs fs (certificateOf r)"
    and "HasPrefix p ''basic-auth/'' \<Longrightarrow> map_of fs p = None"
proof -
  note loop = certificateLoop_Inr [OF assms [unfolded CertificateFiles_def]]
  then show "distinct (map fst fs)" by (simp add: neededCertificates_distinct)
  show "certificateWritten secrets certs fs (certificateOf r)"
    if "r \<in> set records" "tlsRecord r" "certificateOf r \<noteq> []"
    using loop that by (fastforce simp: neededCertificates_distinct neededCertificates_set)
  show "map_of fs p = None" if "HasPrefix p ''basic-auth/''"
  proof -
    have "p \<noteq> certPath cid ''crt'' \<and> p \<noteq> certPath cid ''key''" for cid
      using that by (auto simp: HasPrefix_iff certPath_def)
    then show ?thesis using loop by (simp add: neededCertificates_distinct)
  qed
qed

text \<open>The password file of one secret: the line of a record that uses it, with the hash the secret store gave.\<close>

definition passwordPath :: "string \<Rightarrow> string" where
  "passwordPath secretID = ''basic-auth/'' @ secretID"

definition usesPassword :: "DNSRecord \<Rightarrow> string \<Rightarrow> string \<Rightarrow> bool" where
  "usesPassword r username secretID \<longleftrightarrow>
     (\<exists>auth. asObject (objectGet (recProxy r) ''basicAuth'') = Some auth \<and>
        proxyString auth ''username'' = username \<and> proxyString auth ''passwordSecretId'' = secretID)"

definition passwordWritten :: "'w SecretReader \<Rightarrow> DNSRecord list \<Rightarrow> files \<Rightarrow> string \<Rightarrow> bool" where
  "passwordWritten secrets records files secretID \<longleftrightarrow>
     (\<exists>r username hash line w w'. r \<in> set records \<and> usesPassword r username secretID \<and>
        secrets secretID w = (Inr hash, w') \<and> FormatBasicAuthFileLine username hash = Inr line \<and>
        map_of files (passwordPath secretID) = Some line)"

lemma passwordPath_inject [simp]: "passwordPath a = passwordPath b \<longleftrightarrow> a = b"
  by (simp add: passwordPath_def)

lemma basicAuthLoop_Cons:
  assumes "basicAuthLoop secrets (r # rs) files w = (Inr fs, w')"
  obtains "\<And>u sid. \<not> usesPassword r u sid" "basicAuthLoop secrets rs files w = (Inr fs, w')"
  | username sid hash line w1 where "\<And>u s. usesPassword r u s \<longleftrightarrow> u = username \<and> s = sid"
      "secrets sid w = (Inr hash, w1)" "FormatBasicAuthFileLine username hash = Inr line"
      "basicAuthLoop secrets rs (setFile (passwordPath sid) line files) w1 = (Inr fs, w')"
proof (cases "asObject (objectGet (recProxy r) ''basicAuth'')")
  case None
  then show ?thesis using assms that(1) by (simp add: usesPassword_def)
next
  case (Some auth)
  have uses: "usesPassword r u s \<longleftrightarrow> u = proxyString auth ''username'' \<and> s = proxyString auth ''passwordSecretId''" for u s
    unfolding usesPassword_def Some by blast
  obtain hash w1 where "secrets (proxyString auth ''passwordSecretId'') w = (Inr hash, w1)" "hash \<noteq> []"
    using assms Some by (auto simp: bindIO_def Let_def split: prod.splits sum.splits if_splits)
  then show ?thesis
    using assms Some that(2) [OF uses] by (auto simp: bindIO_def Let_def passwordPath_def split: sum.splits)
qed

lemma basicAuthLoop_Inr:
  assumes "basicAuthLoop secrets rs files w = (Inr fs, w')" and "set rs \<subseteq> set records"
    and "\<forall>p \<in> fst ` set files. \<exists>sid. p = passwordPath sid \<and> passwordWritten secrets records files sid"
  shows "(\<forall>p \<in> fst ` set fs. \<exists>sid. p = passwordPath sid \<and> passwordWritten secrets records fs sid) \<and>
    fst ` set files \<subseteq> fst ` set fs \<and>
    (\<forall>r \<in> set rs. \<forall>u sid. usesPassword r u sid \<longrightarrow> passwordPath sid \<in> fst ` set fs)"
  using assms
proof (induction rs arbitrary: files w)
  case Nil
  then show ?case by simp
next
  case (Cons r rs)
  from Cons.prems(1) show ?case
  proof (cases rule: basicAuthLoop_Cons)
    case 1
    then show ?thesis using Cons.IH [OF 1(2) _ Cons.prems(3)] Cons.prems(2) by simp
  next
    case (2 username sid hash line w1)
    let ?files = "setFile (passwordPath sid) line files"
    have here: "passwordWritten secrets records ?files sid"
      unfolding passwordWritten_def using 2 Cons.prems(2)
      by (intro exI [of _ r] exI [of _ username] exI [of _ hash] exI [of _ line] exI [of _ w] exI [of _ w1]) simp
    have kept: "passwordWritten secrets records ?files s" if "passwordWritten secrets records files s" for s
      using that here by (cases "s = sid") (simp_all add: passwordWritten_def)
    have inv: "\<forall>p \<in> fst ` set ?files. \<exists>sid. p = passwordPath sid \<and> passwordWritten secrets records ?files sid"
      using here kept Cons.prems(3) unfolding setFile_keys by blast
    show ?thesis using Cons.IH [OF 2(4) _ inv] Cons.prems(2) 2(1) by (auto simp: setFile_keys)
  qed
qed

lemma BasicAuthFiles_Inr:
  assumes "BasicAuthFiles records secrets w = (Inr fs, w')" "r \<in> set records" "usesPassword r username sid"
  shows "passwordWritten secrets records fs sid"
proof -
  from basicAuthLoop_Inr [OF assms(1) [unfolded BasicAuthFiles_def], of records]
  have "\<forall>p \<in> fst ` set fs. \<exists>sid. p = passwordPath sid \<and> passwordWritten secrets records fs sid"
    and "passwordPath sid \<in> fst ` set fs"
    using assms(2,3) by auto
  then show ?thesis by auto
qed

lemma copyFiles_distinct: "distinct (map fst dst) \<Longrightarrow> distinct (map fst (copyFiles dst src))"
  unfolding copyFiles_def by (induction src arbitrary: dst) (auto simp: setFile_distinct)

lemma basicAuthLoop_distinct:
  "basicAuthLoop secrets rs files w = (Inr fs, w') \<Longrightarrow> distinct (map fst files) \<Longrightarrow> distinct (map fst fs)"
proof (induction rs arbitrary: files w)
  case (Cons r rs)
  from Cons.prems(1) show ?case
  proof (cases rule: basicAuthLoop_Cons)
    case 1
    show ?thesis by (rule Cons.IH [OF 1(2) Cons.prems(2)])
  next
    case (2 username sid hash line w1)
    show ?thesis by (rule Cons.IH [OF 2(4) setFile_distinct [OF Cons.prems(2)]])
  qed
qed simp

lemma passwordWritten_copy:
  "passwordWritten secrets records files sid \<Longrightarrow> distinct (map fst files) \<Longrightarrow>
   passwordWritten secrets records (copyFiles dst files) sid"
  unfolding passwordWritten_def
  by (elim exE conjE, rule exI, rule exI, rule exI, rule exI, rule exI, rule exI, intro conjI;
      (assumption | rule map_of_copyFiles_src))

lemma passwordPath_cert [simp]: "passwordPath sid \<noteq> certPath cid extension"
  by (simp add: passwordPath_def certPath_def)

lemma secretFiles_Inr:
  assumes files: "secretFiles options r w = (Inr fs, w')" and some: "roSecrets options = Some secrets"
  shows "distinct (map fst fs)"
    and "rec \<in> set (rrRecords r) \<Longrightarrow> tlsRecord rec \<Longrightarrow> certificateOf rec \<noteq> [] \<Longrightarrow>
      certificateWritten secrets (snapCertificates (rrDesired r)) fs (certificateOf rec)"
    and "rec \<in> set (rrRecords r) \<Longrightarrow> usesPassword rec username sid \<Longrightarrow> passwordWritten secrets (rrRecords r) fs sid"
proof -
  obtain ps w1 cs where ps: "BasicAuthFiles (rrRecords r) secrets w = (Inr ps, w1)"
    and cs: "CertificateFiles (rrRecords r) (snapCertificates (rrDesired r)) secrets w1 = (Inr cs, w')"
    and fs: "fs = copyFiles ps cs"
    using files by (auto simp: secretFiles_def some bindIO_Inr)
  note cert = CertificateFiles_Inr [OF cs]
  show "distinct (map fst fs)"
    unfolding fs by (rule copyFiles_distinct, rule basicAuthLoop_distinct [OF ps [unfolded BasicAuthFiles_def]]) simp
  show "certificateWritten secrets (snapCertificates (rrDesired r)) fs (certificateOf rec)"
    if "rec \<in> set (rrRecords r)" "tlsRecord rec" "certificateOf rec \<noteq> []"
    unfolding fs by (rule certificateWritten_copy [OF cert(2) [OF that] cert(1)])
  show "passwordWritten secrets (rrRecords r) fs sid"
    if "rec \<in> set (rrRecords r)" "usesPassword rec username sid"
  proof -
    have none: "map_of cs (passwordPath sid) = None"
      by (rule cert(3)) (simp add: passwordPath_def)
    show ?thesis
      using BasicAuthFiles_Inr [OF ps that]
      unfolding passwordWritten_def fs map_of_copyFiles_dst [OF cert(1) none] .
  qed
qed

text \<open>The files of the nginx candidate are the configuration and, over it, the extra files.\<close>

lemma RenderNginxCandidate_extra:
  assumes "RenderNginxCandidate input = Inr c"
  shows "ngxFiles c = copyFiles [(''nginx.conf'', ngxConfig c)] (ninExtraFiles input)"
  using assms unfolding RenderNginxCandidate_def copyFiles_def Let_def
  by (auto split: sum.splits)

definition candidateAt :: "'w RenderOptions \<Rightarrow> Job \<Rightarrow> string \<Rightarrow> string" where
  "candidateAt options job service =
     TrimRight (orDefault (roCandidateRoot options) DefaultCandidateRoot) ''/'' @ ''/'' @ jobRevisionID job @ ''/'' @ service"

lemma candidatePath_Inr:
  "candidatePath (rendererFor options desired job) service = Inr path \<longleftrightarrow>
     revisionIDPattern (jobRevisionID job) \<and> path = candidateAt options job service"
  unfolding candidatePath_def rendererFor_def candidateAt_def Let_def by auto

lemma corednsCandidate_Inr:
  assumes "corednsCandidate (rendererFor options desired job) = Inr c"
  shows "cdService c = ServiceCoreDNS \<and> cdCandidatePath c = candidateAt options job ServiceCoreDNS \<and>
    revisionIDPattern (jobRevisionID job)"
  using assms unfolding corednsCandidate_def
  by (auto simp: candidatePath_Inr ServiceCoreDNS_def split: sum.splits)

lemma nginxCandidate_Inr:
  assumes "nginxCandidate options (rendererFor options desired job) w = (Inr c, w')"
  obtains extra config w1 w2 where "cdService c = ServiceNginx" "cdCandidatePath c = candidateAt options job ServiceNginx"
    "revisionIDPattern (jobRevisionID job)" "secretFiles options (rendererFor options desired job) w1 = (Inr extra, w2)"
    "cdFiles c = Some (copyFiles [(''nginx.conf'', config)] extra)"
proof -
  obtain path where path: "candidatePath (rendererFor options desired job) ''nginx'' = Inr path"
    using assms unfolding nginxCandidate_def by (auto simp: bindIO_Inr)
  obtain extra w1 where extra: "secretFiles options (rendererFor options desired job) w = (Inr extra, w1)"
    using assms path unfolding nginxCandidate_def by (auto simp: bindIO_Inr)
  obtain rendered where rendered: "RenderNginxCandidate
            \<lparr>ninRecords = rrRecords (rendererFor options desired job), ninStreams = snapStreams (rrDesired (rendererFor options desired job)),
             ninCapabilities = roCapabilities options,
             ninCandidatePath = path, ninACMEUpstream = roACMEUpstream options, ninExtraFiles = extra\<rparr> = Inr rendered"
    and c: "c = \<lparr>cdService = ServiceNginx, cdCandidatePath = path, cdChecksum = ngxChecksum rendered,
                   cdFiles = Some (ngxFiles rendered)\<rparr>"
    using assms path extra unfolding nginxCandidate_def by (auto simp: bindIO_Inr split: sum.splits)
  show thesis
    by (rule that [OF _ _ _ extra])
       (use path c RenderNginxCandidate_extra [OF rendered] in \<open>simp_all add: candidatePath_Inr ServiceNginx_def\<close>)
qed

text \<open>The services of a target, in the order they are rendered and applied.\<close>

definition targetServices :: "string \<Rightarrow> string list" where
  "targetServices target =
     (if target = TargetCoreDNS then [ServiceCoreDNS]
      else if target = TargetNginx then [ServiceNginx]
      else if target = TargetCombined then [ServiceCoreDNS, ServiceNginx] else [])"

lemma Candidates_run:
  "Candidates options snapshot job w = (Inr cs, w') \<longleftrightarrow>
     (\<exists>desired. roUnmarshal options snapshot = Inr desired \<and> setDefaultPool (snapSettings desired) \<noteq> None \<and>
        (let r = rendererFor options desired job in
         if jobTarget job = TargetCoreDNS then \<exists>c. corednsCandidate r = Inr c \<and> cs = [c] \<and> w' = w
         else if jobTarget job = TargetNginx then \<exists>c. nginxCandidate options r w = (Inr c, w') \<and> cs = [c]
         else jobTarget job = TargetCombined \<and>
           (\<exists>c1 c2. corednsCandidate r = Inr c1 \<and> nginxCandidate options r w = (Inr c2, w') \<and> cs = [c1, c2])))"
proof (cases "roUnmarshal options snapshot")
  case (Inl e)
  then show ?thesis by (simp add: Candidates_def)
next
  case (Inr desired)
  then show ?thesis
    by (cases "setDefaultPool (snapSettings desired)") (auto simp: Candidates_def Let_def bindIO_Inr)
qed

text \<open>Every rendered candidate comes from one of the two renderers.\<close>

lemma Candidates_each:
  assumes run: "Candidates options snapshot job w = (Inr cs, w')" and desired: "roUnmarshal options snapshot = Inr desired"
    and c: "c \<in> set cs"
  shows "corednsCandidate (rendererFor options desired job) = Inr c \<or>
    (\<exists>w1 w2. nginxCandidate options (rendererFor options desired job) w1 = (Inr c, w2))"
  using run [unfolded Candidates_run desired] c by (auto simp: Let_def split: if_splits)

lemma Candidates_services:
  assumes run: "Candidates options snapshot job w = (Inr cs, w')" and desired: "roUnmarshal options snapshot = Inr desired"
  shows "map cdService cs = targetServices (jobTarget job)" "cs \<noteq> []"
proof -
  have nginx: "cdService c = ServiceNginx"
    if "nginxCandidate options (rendererFor options desired job) w1 = (Inr c, w2)" for c w1 w2
    using that by (rule nginxCandidate_Inr)
  show "map cdService cs = targetServices (jobTarget job)"
    using run [unfolded Candidates_run desired] corednsCandidate_Inr [of options desired job] nginx
    by (auto simp: Let_def targetServices_def split: if_splits)
  show "cs \<noteq> []"
    using run [unfolded Candidates_run desired] by (auto simp: Let_def split: if_splits)
qed

text \<open>Without a secret store, records that need one are refused.\<close>

lemma secretFiles_closed:
  assumes files: "secretFiles options r w = (Inr fs, w')" and rec: "rec \<in> set (rrRecords r)"
    and needs: "tlsRecord rec \<or> usesPassword rec username sid"
  shows "\<exists>secrets. roSecrets options = Some secrets"
proof (cases "roSecrets options")
  case None
  have "recProxied rec \<and> truthy (objectGet (recProxy rec) ''tlsEnabled'')" if "tlsRecord rec"
    using that unfolding tlsRecord_def by (cases "objectGet (recProxy rec) ''tlsEnabled''") auto
  moreover have "truthy (objectGet (recProxy rec) ''basicAuth'')" if "usesPassword rec username sid"
    using that unfolding usesPassword_def by (cases "objectGet (recProxy rec) ''basicAuth''") auto
  ultimately have "fst (secretFiles options r w) \<noteq> Inr fs"
    using rec needs unfolding secretFiles_def None by (auto simp: list_ex_iff)
  then show ?thesis using files by simp
qed simp

text \<open>The nginx configuration names these files by their path under the candidate directory.\<close>

lemma TrimRight_candidateAt: "TrimRight (candidateAt options job ServiceNginx) ''/'' = candidateAt options job ServiceNginx"
  by (rule TrimRight_id) (simp add: candidateAt_def ServiceNginx_def)

lemma secret_paths:
  "certificateFilePath cid (TrimRight (candidateAt options job ServiceNginx) ''/'') extension =
     candidateAt options job ServiceNginx @ ''/'' @ certPath cid extension"
  "basicAuthFilePath sid (TrimRight (candidateAt options job ServiceNginx) ''/'') =
     candidateAt options job ServiceNginx @ ''/'' @ passwordPath sid"
  unfolding TrimRight_candidateAt certificateFilePath_def basicAuthFilePath_def certPath_def passwordPath_def
  by (simp_all add: candidateAt_def)

section \<open>Properties\<close>

text \<open>A combined job with one zone, whose only host is proxied under TLS with Basic Auth.\<close>

definition hostRecord :: DNSRecord where
  "hostRecord = \<lparr>recID = ''r1'', recName = ''www.example.com'', recType = ''A'', recValue = JStr ''192.0.2.1'', recTTL = 300,
     recEnabled = True, recComment = None, recProxied = True, recProxy = Some sampleProxy\<rparr>"

definition hostSnapshot :: ConfigurationSnapshot where
  "hostSnapshot =
     \<lparr>snapSettings = \<lparr>setIngress = \<lparr>IPv4 = ''192.0.2.1'', IPv6 = []\<rparr>,
        setDefaultPool = Some \<lparr>poolID = ''default'', poolEndpoints = [\<lparr>epHost = ''9.9.9.9'', epPort = 53\<rparr>]\<rparr>,
        setForwardingRules = [], setRetentionMaxAgeDays = 0, setRetentionMaxSizeMb = 0\<rparr>,
      snapZones = [\<lparr>zsID = ''z1'', zsName = ''example.com'', zsEnabled = True, zsRecords = [hostRecord]\<rparr>],
      snapStreams = [],
      snapCertificates = [\<lparr>certID = ''c1'', certHostnames = [''www.example.com''], certIssuer = [], certChallenge = [],
        certEnvironment = [], certStatus = ''active'', certExpiresAt = None, certRenewAfter = None,
        certSecretID = ''key-c1'', certPEM = ''PEM'', certFailureReason = []\<rparr>]\<rparr>"

definition hostOptions :: "unit RenderOptions" where
  "hostOptions =
     \<lparr>roCandidateRoot = [], roCapabilities = \<lparr>capHttp3Module = False, capTCP443Published = True, capUDP443Published = False\<rparr>,
      roSecrets = Some (\<lambda>sid. returnIO (if sid = ''key-c1'' then ''KEY'' else ''{SHA}0123'')), roACMEUpstream = [],
      roUnmarshal = \<lambda>_. Inr hostSnapshot, roDecodeError = []\<rparr>"

definition hostJob :: Job where
  "hostJob = zeroJob\<lparr>jobID := ''j'', jobRevisionID := ''rev-1'', jobTarget := ''nginx'', jobStatus := Validating\<rparr>"

lemma renderServer_ok:
  assumes "recProxy r = Some proxy" "normalizeProxySettings proxy capabilities = Inr settings" "psCertificateID settings \<noteq> []"
  shows "\<exists>block. renderServer r capabilities path upstream = Inr block"
  unfolding renderServer_def assms(1,2) option.case bindE_Inr Let_def
  by (cases "psTLSEnabled settings \<and> redirectHTTPToHTTPS settings") (simp_all only: assms(3) simp_thms if_True if_False, blast+)

lemma RenderNginxCandidate_ok:
  assumes "validateStreamRoutes (ninStreams input) = Inr streams" "normalizeACMEUpstream (ninACMEUpstream input) = Inr upstream"
    "\<exists>blocks. mapE (\<lambda>r. renderServer r (ninCapabilities input) (TrimRight (ninCandidatePath input) ''/'') upstream)
       (stableSort (\<lambda>a b. localeCompare (recName a) (recName b) < 0)
         (filter (\<lambda>r. recEnabled r \<and> recProxied r) (ninRecords input))) = Inr blocks"
  shows "\<exists>rendered. RenderNginxCandidate input = Inr rendered"
proof -
  from assms(3) obtain blocks where blocks: "mapE (\<lambda>r. renderServer r (ninCapabilities input) (TrimRight (ninCandidatePath input) ''/'') upstream)
       (stableSort (\<lambda>a b. localeCompare (recName a) (recName b) < 0)
         (filter (\<lambda>r. recEnabled r \<and> recProxied r) (ninRecords input))) = Inr blocks" ..
  show ?thesis unfolding RenderNginxCandidate_def Let_def assms(1,2) blocks sum.case bindE_Inr by blast
qed

lemma host_renders: "\<exists>c. Candidates hostOptions (Doc JNull) hostJob () = (Inr [c], ()) \<and> cdService c = ServiceNginx"
proof -
  let ?r = "rendererFor hostOptions hostSnapshot hostJob"
  have target: "roUnmarshal hostOptions (Doc JNull) = Inr hostSnapshot" "setDefaultPool (snapSettings hostSnapshot) \<noteq> None"
    "jobTarget hostJob \<noteq> TargetCoreDNS" "jobTarget hostJob = TargetNginx"
    by (simp_all add: hostOptions_def hostSnapshot_def hostJob_def)
  have path: "candidatePath ?r ''nginx'' = Inr ''/var/lib/proxycore/candidates/rev-1/nginx''"
    by code_simp
  have "case secretFiles hostOptions ?r () of (Inl e, _) \<Rightarrow> False | (Inr fs, _) \<Rightarrow> True"
    by code_simp
  then obtain extra where extra: "secretFiles hostOptions ?r () = (Inr extra, ())"
    by (auto split: prod.splits sum.splits)
  have "case normalizeProxySettings sampleProxy (roCapabilities hostOptions) of Inl e \<Rightarrow> False | Inr s \<Rightarrow> psCertificateID s \<noteq> []"
    by code_simp
  then obtain settings where "normalizeProxySettings sampleProxy (roCapabilities hostOptions) = Inr settings"
    "psCertificateID settings \<noteq> []" by (auto split: sum.splits)
  then have "\<exists>block. renderServer hostRecord (roCapabilities hostOptions) path upstream = Inr block" for path upstream
    by (rule renderServer_ok [rotated]) (simp add: hostRecord_def)
  then have blocks: "\<exists>blocks. mapE (\<lambda>r. renderServer r (roCapabilities hostOptions) path upstream) [hostRecord] = Inr blocks"
    for path upstream
    unfolding mapE.simps by (metis bindE_Inr)
  have "recEnabled hostRecord \<and> recProxied hostRecord" "rrRecords ?r = [hostRecord]"
    by (simp_all add: rendererFor_def hostSnapshot_def hostRecord_def Let_def)
  then have "stableSort (\<lambda>a b. localeCompare (recName a) (recName b) < 0)
      (filter (\<lambda>r. recEnabled r \<and> recProxied r) (rrRecords ?r)) = [hostRecord]"
    by (simp add: stableSort_def)
  note sorted = this
  have streams: "validateStreamRoutes (snapStreams (rrDesired ?r)) = Inr []"
    and acme: "normalizeACMEUpstream (roACMEUpstream hostOptions) = Inr ''http://127.0.0.1:3000''"
    by code_simp+
  have "\<exists>rendered. RenderNginxCandidate
      \<lparr>ninRecords = rrRecords ?r, ninStreams = snapStreams (rrDesired ?r), ninCapabilities = roCapabilities hostOptions,
       ninCandidatePath = ''/var/lib/proxycore/candidates/rev-1/nginx'', ninACMEUpstream = roACMEUpstream hostOptions,
       ninExtraFiles = extra\<rparr> = Inr rendered" (is "\<exists>rendered. RenderNginxCandidate ?input = Inr rendered")
    by (rule RenderNginxCandidate_ok [of ?input])
       (simp_all only: NginxRenderInput.simps streams acme sorted blocks)
  then obtain rendered where "RenderNginxCandidate ?input = Inr rendered" by blast
  then show ?thesis
    unfolding Candidates_run using target path extra
    by (auto simp: Let_def nginxCandidate_def bindIO_Inr)
qed

text \<open>
  A job renders exactly the candidates of its target, CoreDNS before nginx, each in the directory of
  its service under the revision of the job, whose identifier has only letters, digits, underscores and
  dashes; any other target, a snapshot that does not decode and one without a default resolver pool give an
  error.
\<close>
theorem Candidates_layout:
  assumes "Candidates options snapshot job w = (Inr cs, w')"
  shows "map cdService cs = targetServices (jobTarget job) \<and> cs \<noteq> [] \<and>
    (\<forall>c \<in> set cs. cdCandidatePath c = candidateAt options job (cdService c)) \<and>
    revisionIDPattern (jobRevisionID job) \<and>
    (\<exists>desired. roUnmarshal options snapshot = Inr desired \<and> setDefaultPool (snapSettings desired) \<noteq> None)"
proof -
  obtain desired where desired: "roUnmarshal options snapshot = Inr desired" "setDefaultPool (snapSettings desired) \<noteq> None"
    using assms [unfolded Candidates_run] by blast
  have each: "cdCandidatePath c = candidateAt options job (cdService c) \<and> revisionIDPattern (jobRevisionID job)"
    if "c \<in> set cs" for c
    using Candidates_each [OF assms desired(1) that]
  proof (elim disjE exE)
    fix w1 w2 assume "nginxCandidate options (rendererFor options desired job) w1 = (Inr c, w2)"
    then show ?thesis by (rule nginxCandidate_Inr) simp
  qed (use corednsCandidate_Inr [of options desired job c] in simp)
  note services = Candidates_services [OF assms desired(1)]
  then have "revisionIDPattern (jobRevisionID job)" using each [of "hd cs"] by simp
  then show ?thesis using desired each services by blast
qed

theorem Candidates_layout_witness:
  "\<exists>c. Candidates hostOptions (Doc JNull) hostJob () = (Inr [c], ()) \<and> cdCandidatePath c = candidateAt hostOptions hostJob ''nginx''"
proof -
  obtain c where c: "Candidates hostOptions (Doc JNull) hostJob () = (Inr [c], ())" using host_renders by blast
  from Candidates_layout [OF this] have "cdService c = ''nginx''" "cdCandidatePath c = candidateAt hostOptions hostJob (cdService c)"
    by (simp_all add: targetServices_def hostJob_def ServiceNginx_def)
  with c show ?thesis by auto
qed



end

