(* ===== verification/ApplyTrace.thy ===== *)
theory ApplyTrace
  imports ApplyModel
begin

text \<open>
  What the orchestrator asks of its environment, and in which order.  \<open>traced\<close> wraps any orchestrator so that
  every control request, job update, revision mark and rendering is recorded with its answer; \<open>safe\<close> says
  that every recorded call was made in a situation that allows it.  The proofs use Hoare triples over the
  job, the promoted candidates and the trace of a run.
\<close>

section \<open>Traces\<close>

datatype event =
    Rendered "goerror + Candidate list"
  | Executed Request "goerror + Response"
  | Updated string JobPatch "goerror option" Job
  | Marked string "goerror + Revision"

definition quiet :: "('w \<Rightarrow> 'r \<times> 'w) \<Rightarrow> 'w \<times> event list \<Rightarrow> 'r \<times> ('w \<times> event list)" where
  "quiet m s = (case m (fst s) of (r, w') \<Rightarrow> (r, (w', snd s)))"

definition witnessed :: "('w \<Rightarrow> 'r \<times> 'w) \<Rightarrow> ('r \<Rightarrow> event) \<Rightarrow> 'w \<times> event list \<Rightarrow> 'r \<times> ('w \<times> event list)" where
  "witnessed m ev s = (case m (fst s) of (r, w') \<Rightarrow> (r, (w', snd s @ [ev r])))"

definition traced :: "'w Orchestrator \<Rightarrow> ('w \<times> event list) Orchestrator" where
  "traced orc =
     \<lparr>Get = \<lambda>jid. quiet (Get orc jid),
      Update = \<lambda>jid patch. witnessed (Update orc jid patch) (\<lambda>r. Updated jid patch (snd r) (fst r)),
      EnqueueOnce = \<lambda>input. quiet (EnqueueOnce orc input),
      Mark = \<lambda>rid at. witnessed (Mark orc rid at) (Marked rid),
      Execute = \<lambda>req. witnessed (Execute orc req) (Executed req),
      CandidateRoot = CandidateRoot orc,
      FileSystem = \<lparr>MkdirAll = \<lambda>p m. quiet (MkdirAll (FileSystem orc) p m),
                    WriteFile = \<lambda>p b m. quiet (WriteFile (FileSystem orc) p b m)\<rparr>,
      Now = quiet (Now orc),
      Log = \<lambda>message s. (Log orc message (fst s), snd s),
      NewString = quiet (NewString orc),
      Unmarshal = Unmarshal orc\<rparr>"

definition tracedRender :: "'w Renderer \<Rightarrow> ('w \<times> event list) Renderer" where
  "tracedRender render snapshot job = witnessed (render snapshot job) Rendered"

section \<open>What a call requires\<close>

definition targets :: "Candidate \<Rightarrow> string \<Rightarrow> Request \<Rightarrow> bool" where
  "targets c operation req \<longleftrightarrow>
     rqOperation req = operation \<and> rqService req = cdService c \<and> rqChecksum req = cdChecksum c \<and>
     rqCandidatePath req = cdCandidatePath c"

text \<open>An accepted request for a candidate; a health check that reports drift is not accepted.\<close>

definition did :: "string \<Rightarrow> Candidate \<Rightarrow> event list \<Rightarrow> bool" where
  "did operation c tr \<longleftrightarrow>
     (\<exists>req resp. Executed req (Inr resp) \<in> set tr \<and> targets c operation req \<and> rsOK resp \<and>
       (operation = OperationHealth \<longrightarrow> \<not> hasNginxDrift resp))"

definition attempted :: "string \<Rightarrow> Candidate \<Rightarrow> event list \<Rightarrow> bool" where
  "attempted operation c tr \<longleftrightarrow> (\<exists>req res. Executed req res \<in> set tr \<and> targets c operation req)"

definition allDone :: "string set \<Rightarrow> event list \<Rightarrow> bool" where
  "allDone ops tr \<longleftrightarrow>
     (\<exists>cands. Rendered (Inr cands) \<in> set tr \<and> cands \<noteq> [] \<and> (\<forall>c \<in> set cands. \<forall>operation \<in> ops. did operation c tr))"

definition storedApplying :: "event list \<Rightarrow> bool" where
  "storedApplying tr \<longleftrightarrow> (\<exists>jid p j. Updated jid p None j \<in> set tr \<and> patStatus p = Some Applying)"

definition markedApplied :: "event list \<Rightarrow> bool" where
  "markedApplied tr \<longleftrightarrow> (\<exists>rid rv. Marked rid (Inr rv) \<in> set tr)"

definition requestAllowed :: "event list \<Rightarrow> Request \<Rightarrow> bool" where
  "requestAllowed pre req \<longleftrightarrow>
     (rqOperation req = OperationPromote \<longrightarrow> allDone {OperationStage, OperationValidate} pre \<and> storedApplying pre) \<and>
     (rqOperation req = OperationReload \<or> rqOperation req = OperationHealth \<longrightarrow> allDone {OperationPromote} pre) \<and>
     (rqOperation req = OperationRollback \<longrightarrow> (\<exists>c. targets c OperationRollback req \<and> did OperationPromote c pre))"

definition statusAllowed :: "event list \<Rightarrow> Status option \<Rightarrow> bool" where
  "statusAllowed pre status \<longleftrightarrow>
     (status = Some Applied \<longrightarrow> allDone {OperationPromote, OperationReload, OperationHealth} pre \<and> markedApplied pre) \<and>
     (status = Some RolledBack \<longrightarrow> (\<forall>c. did OperationPromote c pre \<longrightarrow> did OperationRollback c pre)) \<and>
     (status = Some Failed \<longrightarrow> (\<forall>c. did OperationPromote c pre \<longrightarrow> attempted OperationRollback c pre))"

fun allowed :: "event list \<Rightarrow> event \<Rightarrow> bool" where
  "allowed pre (Rendered r) \<longleftrightarrow> True"
| "allowed pre (Executed req res) \<longleftrightarrow> requestAllowed pre req"
| "allowed pre (Updated jid p e j) \<longleftrightarrow> statusAllowed pre (patStatus p)"
| "allowed pre (Marked rid r) \<longleftrightarrow> allDone {OperationPromote, OperationReload, OperationHealth} pre"

definition safe :: "event list \<Rightarrow> bool" where
  "safe tr \<longleftrightarrow> (\<forall>pre e post. tr = pre @ e # post \<longrightarrow> allowed pre e)"

text \<open>The trace ends with the update that stored the returned job in a terminal status.\<close>

definition endsWith :: "Job \<Rightarrow> event list \<Rightarrow> bool" where
  "endsWith job tr \<longleftrightarrow>
     (\<exists>pre jid p s. tr = pre @ [Updated jid p None job] \<and> patStatus p = Some s \<and> IsTerminal s)"

section \<open>Lemmas: traces\<close>

lemma operations_distinct [simp]:
  "OperationStage \<noteq> OperationValidate" "OperationStage \<noteq> OperationPromote" "OperationStage \<noteq> OperationReload"
  "OperationStage \<noteq> OperationHealth" "OperationStage \<noteq> OperationRollback" "OperationValidate \<noteq> OperationPromote"
  "OperationValidate \<noteq> OperationReload" "OperationValidate \<noteq> OperationHealth" "OperationValidate \<noteq> OperationRollback"
  "OperationPromote \<noteq> OperationReload" "OperationPromote \<noteq> OperationHealth" "OperationPromote \<noteq> OperationRollback"
  "OperationReload \<noteq> OperationHealth" "OperationReload \<noteq> OperationRollback" "OperationHealth \<noteq> OperationRollback"
  by (simp_all add: OperationStage_def OperationValidate_def OperationPromote_def OperationReload_def
      OperationHealth_def OperationRollback_def)

lemmas operations_distinct' [simp] = operations_distinct [symmetric]

lemma safe_Nil [simp]: "safe []"
  by (simp add: safe_def)

lemma safe_snoc: "safe (tr @ [e]) \<longleftrightarrow> safe tr \<and> allowed tr e"
proof
  assume s: "safe (tr @ [e])"
  have "allowed pre x" if "tr = pre @ x # post" for pre x post
    using s that unfolding safe_def by (metis append_Cons append_assoc)
  moreover have "allowed tr e" using s unfolding safe_def by blast
  ultimately show "safe tr \<and> allowed tr e" unfolding safe_def by blast
next
  assume s: "safe tr \<and> allowed tr e"
  have "allowed pre x" if "tr @ [e] = pre @ x # post" for pre x post
  proof (cases post rule: rev_cases)
    case Nil
    then show ?thesis using that s by simp
  next
    case (snoc ys y)
    then have "tr = pre @ x # ys" using that by (metis append_Cons append_assoc butlast_snoc)
    then show ?thesis using s unfolding safe_def by blast
  qed
  then show "safe (tr @ [e])" unfolding safe_def by blast
qed

lemma did_mono: "did op c tr \<Longrightarrow> did op c (tr @ evs)"
  by (auto simp: did_def)

lemma attempted_mono: "attempted op c tr \<Longrightarrow> attempted op c (tr @ evs)"
  by (auto simp: attempted_def)

lemma allDone_mono: "allDone ops tr \<Longrightarrow> allDone ops (tr @ evs)"
  unfolding allDone_def using did_mono by fastforce

lemma storedApplying_mono: "storedApplying tr \<Longrightarrow> storedApplying (tr @ evs)"
  by (auto simp: storedApplying_def)

lemma did_attempted: "did op c tr \<Longrightarrow> attempted op c tr"
  by (auto simp: did_def attempted_def)

lemma targets_same:
  "targets c op req \<Longrightarrow> targets c' op req \<Longrightarrow> targets c op' req' \<longleftrightarrow> targets c' op' req'"
  by (auto simp: targets_def)

text \<open>The promoted candidates of a run are exactly the accepted promotions of its trace.\<close>

definition promotedBy :: "Candidate list \<Rightarrow> event list \<Rightarrow> bool" where
  "promotedBy ps tr \<longleftrightarrow>
     (\<forall>c \<in> set ps. did OperationPromote c tr) \<and>
     (\<forall>c. did OperationPromote c tr \<longrightarrow> (\<exists>c' \<in> set ps. \<forall>op req. targets c op req = targets c' op req))"

lemma did_snoc_other:
  assumes "\<And>req resp. e = Executed req (Inr resp) \<Longrightarrow> \<not> (targets c op req \<and> rsOK resp)"
  shows "did op c (tr @ [e]) \<longleftrightarrow> did op c tr"
  using assms unfolding did_def by auto

lemma promotedBy_snoc:
  assumes "promotedBy ps tr" "\<And>req resp. e = Executed req (Inr resp) \<Longrightarrow> rqOperation req \<noteq> OperationPromote \<or> \<not> rsOK resp"
  shows "promotedBy ps (tr @ [e])"
proof -
  have "did OperationPromote c (tr @ [e]) \<longleftrightarrow> did OperationPromote c tr" for c
    using assms(2) by (intro did_snoc_other) (auto simp: targets_def)
  then show ?thesis using assms(1) by (simp add: promotedBy_def)
qed

lemma promotedBy_promote:
  assumes "promotedBy ps tr" "targets c OperationPromote req" "rsOK resp"
  shows "promotedBy (ps @ [c]) (tr @ [Executed req (Inr resp)])"
  unfolding promotedBy_def
proof (intro conjI ballI allI impI)
  fix x assume "x \<in> set (ps @ [c])"
  then consider "did OperationPromote x tr" | "x = c" using assms(1) unfolding promotedBy_def by auto
  then show "did OperationPromote x (tr @ [Executed req (Inr resp)])"
    by cases (rule did_mono, assumption, use assms(2,3) in \<open>auto simp: did_def\<close>)
next
  fix x assume d: "did OperationPromote x (tr @ [Executed req (Inr resp)])"
  show "\<exists>c' \<in> set (ps @ [c]). \<forall>op req. targets x op req = targets c' op req"
  proof (cases "did OperationPromote x tr")
    case True
    then show ?thesis using assms(1) unfolding promotedBy_def by auto
  next
    case False
    then have "targets x OperationPromote req" using d unfolding did_def by auto
    then have "\<forall>op req. targets x op req = targets c op req" using targets_same [OF _ assms(2)] by blast
    then show ?thesis by auto
  qed
qed

lemma did_same: "\<forall>op req. targets c op req = targets c' op req \<Longrightarrow> did op c tr = did op c' tr"
  by (simp add: did_def)

lemma attempted_same: "\<forall>op req. targets c op req = targets c' op req \<Longrightarrow> attempted op c tr = attempted op c' tr"
  by (simp add: attempted_def)

lemma promotedBy_rolledBack:
  assumes "promotedBy ps tr" "\<forall>c \<in> set ps. did OperationRollback c tr" "did OperationPromote c tr"
  shows "did OperationRollback c tr"
  using assms did_same unfolding promotedBy_def by metis

lemma promotedBy_attempted:
  assumes "promotedBy ps tr" "\<forall>c \<in> set ps. attempted OperationRollback c tr" "did OperationPromote c tr"
  shows "attempted OperationRollback c tr"
  using assms attempted_same unfolding promotedBy_def by metis

definition runInv :: "Candidate list \<Rightarrow> event list \<Rightarrow> bool" where
  "runInv ps tr \<longleftrightarrow> safe tr \<and> promotedBy ps tr"

lemma runInv_start [simp]: "runInv [] []"
  by (simp add: runInv_def promotedBy_def did_def)

lemma runInv_snoc:
  assumes "runInv ps tr" "allowed tr e" "\<And>req resp. e = Executed req (Inr resp) \<Longrightarrow> rqOperation req \<noteq> OperationPromote \<or> \<not> rsOK resp"
  shows "runInv ps (tr @ [e])"
  using assms by (simp add: runInv_def safe_snoc promotedBy_snoc)

section \<open>Triples\<close>

text \<open>A triple speaks about the job, the promoted candidates and the trace; \<open>E\<close> holds when an error is returned.\<close>

type_synonym assertion = "Candidate list \<Rightarrow> event list \<Rightarrow> bool"

definition triple ::
  "assertion \<Rightarrow> (applyRun \<times> ('w \<times> event list), 'a) io \<Rightarrow> ('a \<Rightarrow> assertion) \<Rightarrow> assertion \<Rightarrow> bool" where
  "triple P m Q E \<longleftrightarrow>
     (\<forall>s res s'. P (rnPromoted (fst s)) (snd (snd s)) \<and> m s = (res, s') \<longrightarrow>
       (case res of
          Inr x \<Rightarrow> Q x (rnPromoted (fst s')) (snd (snd s'))
        | Inl e \<Rightarrow> E (rnPromoted (fst s')) (snd (snd s'))))"

lemma triple_apply:
  assumes "triple P m Q E" "P (rnPromoted (fst s)) (snd (snd s))" "m s = (res, s')"
  shows "case res of Inr x \<Rightarrow> Q x (rnPromoted (fst s')) (snd (snd s')) | Inl e \<Rightarrow> E (rnPromoted (fst s')) (snd (snd s'))"
  using assms unfolding triple_def by blast

lemma triple_bind:
  assumes "triple P m R E" "\<And>x. triple (R x) (f x) Q E"
  shows "triple P (bindIO m f) Q E"
  unfolding triple_def
proof (intro allI impI, elim conjE)
  fix s res s'
  assume p: "P (rnPromoted (fst s)) (snd (snd s))" and b: "bindIO m f s = (res, s')"
  from b show "case res of Inr x \<Rightarrow> Q x (rnPromoted (fst s')) (snd (snd s')) | Inl e \<Rightarrow> E (rnPromoted (fst s')) (snd (snd s'))"
  proof (cases rule: bindIO_cases)
    case (fails e)
    then show ?thesis using triple_apply [OF assms(1) p fails(1)] by simp
  next
    case (works x s1)
    then have "R x (rnPromoted (fst s1)) (snd (snd s1))" using triple_apply [OF assms(1) p works(1)] by simp
    then show ?thesis by (rule triple_apply [OF assms(2) _ works(2)])
  qed
qed

lemma triple_return: "(\<And>ps tr. P ps tr \<Longrightarrow> Q x ps tr) \<Longrightarrow> triple P (returnIO x) Q E"
  by (simp add: triple_def)

lemma triple_throw: "(\<And>ps tr. P ps tr \<Longrightarrow> E ps tr) \<Longrightarrow> triple P (throwIO e) Q E"
  by (simp add: triple_def)

lemma triple_pre: "triple P m Q E \<Longrightarrow> (\<And>ps tr. P' ps tr \<Longrightarrow> P ps tr) \<Longrightarrow> triple P' m Q E"
  unfolding triple_def by blast

lemma triple_post:
  assumes "triple P m Q E" "\<And>x ps tr. Q x ps tr \<Longrightarrow> Q' x ps tr" "\<And>ps tr. E ps tr \<Longrightarrow> E' ps tr"
  shows "triple P m Q' E'"
  unfolding triple_def
proof (intro allI impI)
  fix s res s' assume "P (rnPromoted (fst s)) (snd (snd s)) \<and> m s = (res, s')"
  then have "case res of Inr x \<Rightarrow> Q x (rnPromoted (fst s')) (snd (snd s')) | Inl e \<Rightarrow> E (rnPromoted (fst s')) (snd (snd s'))"
    using assms(1) unfolding triple_def by blast
  then show "case res of Inr x \<Rightarrow> Q' x (rnPromoted (fst s')) (snd (snd s')) | Inl e \<Rightarrow> E' (rnPromoted (fst s')) (snd (snd s'))"
    using assms(2,3) by (cases res) simp_all
qed

lemma triple_inWorld:
  assumes "\<And>ps w tr res w' tr'. P ps tr \<Longrightarrow> m (w, tr) = (res, (w', tr')) \<Longrightarrow>
    (case res of Inr x \<Rightarrow> Q x ps tr' | Inl e \<Rightarrow> E ps tr')"
  shows "triple P (inWorld m) Q E"
  unfolding triple_def
proof (intro allI impI, elim conjE)
  fix s res s' assume p: "P (rnPromoted (fst s)) (snd (snd s))" and m: "inWorld m s = (res, s')"
  obtain w' tr' where w: "m (snd s) = (res, (w', tr'))" "s' = (fst s, (w', tr'))"
    using m by (cases "m (snd s)") (auto simp: inWorld_def)
  then show "case res of Inr x \<Rightarrow> Q x (rnPromoted (fst s')) (snd (snd s')) | Inl e \<Rightarrow> E (rnPromoted (fst s')) (snd (snd s'))"
    using assms [OF p, of "fst (snd s)" res w' tr'] by (cases res) simp_all
qed

lemma triple_withRun: "(\<And>r. triple (\<lambda>ps tr. P ps tr \<and> ps = rnPromoted r) (f r) Q E) \<Longrightarrow> triple P (withRun f) Q E"
  unfolding triple_def withRun_def by blast

lemma triple_withRun_any: "(\<And>r. triple P (f r) Q E) \<Longrightarrow> triple P (withRun f) Q E"
  unfolding triple_def withRun_def by blast

lemma triple_step: "triple P (setStep x) (\<lambda>_. P) E" "triple P (setService x) (\<lambda>_. P) E"
  by (simp_all add: triple_def setStep_def setService_def changeRun_def)

lemma triple_log: "triple P (logFailure (traced orc) x) (\<lambda>_. P) E"
  by (simp add: triple_def logFailure_def withRun_def inWorld_def logf_def traced_def)

lemma quiet_trace: "quiet m (w, tr) = (r, (w', tr')) \<Longrightarrow> tr' = tr"
  by (auto simp: quiet_def split: prod.splits)

lemma total_quiet: "total (quiet m) (w, tr) = (res, (w', tr')) \<Longrightarrow> tr' = tr \<and> (\<exists>x. res = Inr x)"
  by (auto simp: total_def quiet_def split: prod.splits)

lemma triple_now: "triple P (inWorld (total (Now (traced orc)))) (\<lambda>_. P) E"
  by (rule triple_inWorld) (auto simp: traced_def dest!: total_quiet)

lemma FileSystem_traced:
  "MkdirAll (FileSystem (traced orc)) p m = quiet (MkdirAll (FileSystem orc) p m)"
  "WriteFile (FileSystem (traced orc)) p b m = quiet (WriteFile (FileSystem orc) p b m)"
  by (simp_all add: traced_def)

lemma bindIO_quiet:
  assumes "bindIO (quiet m) f (w, tr) = (res, (w', tr'))"
    "\<And>x w1 tr1. f x (w1, tr) = (res, (w', tr')) \<Longrightarrow> tr' = tr"
  shows "tr' = tr"
  using assms(1)
proof (cases rule: bindIO_cases)
  case (fails e)
  then show ?thesis by (auto dest: quiet_trace)
next
  case (works x s1)
  then show ?thesis using assms(2) by (cases s1) (auto dest: quiet_trace)
qed

lemma writeFiles_quiet:
  "writeFiles (FileSystem (traced orc)) path files (w, tr) = (res, (w', tr')) \<Longrightarrow> tr' = tr"
proof (induction files arbitrary: w)
  case (Cons f files)
  obtain name body where f: "f = (name, body)" by (cases f)
  from Cons.prems show ?case
    unfolding f writeFiles.simps FileSystem_traced
    by (rule bindIO_quiet) (rule bindIO_quiet, assumption, rule Cons.IH)
qed simp

lemma writeCandidate_quiet:
  "writeCandidate (FileSystem (traced orc)) c root (w, tr) = (res, (w', tr')) \<Longrightarrow> tr' = tr"
  unfolding writeCandidate_def Let_def FileSystem_traced
  by (auto split: option.splits if_splits elim!: bindIO_quiet dest: writeFiles_quiet)

lemma triple_write:
  "(\<And>ps tr. P ps tr \<Longrightarrow> E ps tr) \<Longrightarrow>
   triple P (inWorld (writeCandidate (FileSystem (traced orc)) c root)) (\<lambda>_. P) E"
  by (rule triple_inWorld) (auto dest!: writeCandidate_quiet split: sum.splits)

lemma triple_if:
  "(b \<Longrightarrow> triple P m Q E) \<Longrightarrow> (\<not> b \<Longrightarrow> triple P n Q E) \<Longrightarrow> triple P (if b then m else n) Q E"
  by simp

section \<open>Triples of the calls\<close>

definition stays :: "assertion \<Rightarrow> bool" where
  "stays F \<longleftrightarrow> (\<forall>ps tr e. F ps tr \<longrightarrow> F ps (tr @ [e]))"

lemma request_trace:
  assumes "request (traced orc) c job operation (w, tr) = (res, (w', tr'))"
  shows "\<exists>req. targets c operation req \<and> tr' = tr @ [Executed req res]"
proof -
  obtain rid w1 where n: "total (NewString (traced orc)) (w, tr) = (Inr rid, (w1, tr))"
    by (cases "NewString orc w") (simp add: traced_def total_def quiet_def)
  define req where "req = \<lparr>rqRequestID = rid, rqOperation = operation, rqService = cdService c,
       rqRevisionID = jobRevisionID job, rqChecksum = cdChecksum c, rqCandidatePath = cdCandidatePath c\<rparr>"
  have "Execute (traced orc) req (w1, tr) = (res, (w', tr'))"
    using assms n by (simp add: request_def bindIO_def req_def)
  then have "tr' = tr @ [Executed req res]" by (auto simp: traced_def witnessed_def split: prod.splits)
  then show ?thesis by (intro exI [of _ req]) (simp add: targets_def req_def)
qed

lemma triple_request:
  assumes "operation \<noteq> OperationPromote" "stays F"
    "\<And>ps tr req. runInv ps tr \<Longrightarrow> F ps tr \<Longrightarrow> targets c operation req \<Longrightarrow> requestAllowed tr req"
  shows "triple (\<lambda>ps tr. runInv ps tr \<and> F ps tr) (runRequest (traced orc) c operation)
    (\<lambda>resp ps tr. runInv ps tr \<and> F ps tr \<and>
      (rsOK resp \<and> (operation = OperationHealth \<longrightarrow> \<not> hasNginxDrift resp) \<longrightarrow> did operation c tr)) runInv"
  unfolding runRequest_def
proof (intro triple_withRun_any triple_inWorld)
  fix r ps w tr res w' tr'
  assume p: "runInv ps tr \<and> F ps tr" and m: "request (traced orc) c (rnJob r) operation (w, tr) = (res, (w', tr'))"
  obtain req where req: "targets c operation req" "tr' = tr @ [Executed req res]" using request_trace [OF m] by blast
  have i: "runInv ps tr'" unfolding req(2)
    using p assms(1,3) req(1) by (intro runInv_snoc) (auto simp: targets_def)
  have f: "F ps tr'" using p assms(2) by (simp add: stays_def req(2))
  show "case res of Inr x \<Rightarrow> runInv ps tr' \<and> F ps tr' \<and>
      (rsOK x \<and> (operation = OperationHealth \<longrightarrow> \<not> hasNginxDrift x) \<longrightarrow> did operation c tr') | Inl e \<Rightarrow> runInv ps tr'"
    using i f req by (auto simp: did_def split: sum.split)
qed

lemma setStatus_trace:
  assumes "orError (setStatus (traced orc) job status patch) (w, tr) = (res, (w', tr'))"
  shows "(tr' = tr \<and> isl res) \<or>
    (\<exists>p e j. patStatus p = Some status \<and> tr' = tr @ [Updated (jobID job) p e j] \<and>
      (\<forall>x. res = Inr x \<longrightarrow> x = j \<and> e = None))"
proof (cases "Transition (jobStatus job) status")
  case (Inl err)
  then show ?thesis using assms by (auto simp: orError_def setStatus_def)
next
  case (Inr nxt)
  then have n: "nxt = status" by simp
  obtain j e w1 where u: "Update orc (jobID job) (patch\<lparr>patStatus := Some status\<rparr>) w = ((j, e), w1)"
    by (metis prod.collapse)
  have "setStatus (traced orc) job status patch (w, tr) =
      ((j, e), (w1, tr @ [Updated (jobID job) (patch\<lparr>patStatus := Some status\<rparr>) e j]))"
    using Inr n u by (simp add: setStatus_def Transition_def traced_def witnessed_def)
  then show ?thesis using assms by (cases e) (auto simp: orError_def)
qed

lemma triple_setStatus:
  assumes "\<And>ps tr. P ps tr \<Longrightarrow> runInv ps tr \<and> statusAllowed tr (Some status)" "IsTerminal status"
  shows "triple P (inWorld (orError (setStatus (traced orc) job status patch))) (\<lambda>x ps tr. runInv ps tr \<and> endsWith x tr) runInv"
proof (rule triple_inWorld)
  fix ps w tr res w' tr'
  assume p: "P ps tr" and m: "orError (setStatus (traced orc) job status patch) (w, tr) = (res, (w', tr'))"
  note pre = assms(1) [OF p]
  from setStatus_trace [OF m]
  show "case res of Inr x \<Rightarrow> runInv ps tr' \<and> endsWith x tr' | Inl e \<Rightarrow> runInv ps tr'"
  proof (elim disjE exE conjE)
    assume "tr' = tr" "isl res"
    then show ?thesis using pre by (cases res) simp_all
  next
    fix q e j assume q: "patStatus q = Some status" "tr' = tr @ [Updated (jobID job) q e j]" "\<forall>x. res = Inr x \<longrightarrow> x = j \<and> e = None"
    have "runInv ps tr'" unfolding q(2) using pre q(1) by (intro runInv_snoc) simp_all
    moreover have "endsWith x tr'" if "res = Inr x" for x
      using q that assms(2) unfolding endsWith_def by blast
    ultimately show ?thesis by (cases res) simp_all
  qed
qed

lemma inWorld_bind: "inWorld (bindIO m f) = bindIO (inWorld m) (\<lambda>x. inWorld (f x))"
  by (rule ext) (auto simp: inWorld_def bindIO_def split: prod.splits sum.splits)

lemma IsTerminal_simps [simp]: "IsTerminal Applied" "IsTerminal Failed" "IsTerminal RolledBack"
  by (simp_all add: IsTerminal_def)

lemma triple_fail:
  assumes "\<And>ps tr. P ps tr \<Longrightarrow> runInv ps tr \<and> (\<forall>c. did OperationPromote c tr \<longrightarrow> attempted OperationRollback c tr)"
  shows "triple P (runFail (traced orc) message patch) (\<lambda>x ps tr. runInv ps tr \<and> endsWith x tr) runInv"
  unfolding runFail_def failJob_def inWorld_bind
  by (intro triple_withRun_any triple_bind [OF triple_now] triple_setStatus)
     (use assms in \<open>auto simp: statusAllowed_def\<close>)

lemma triple_rolledBack:
  assumes "\<And>ps tr. P ps tr \<Longrightarrow> runInv ps tr \<and> (\<forall>c. did OperationPromote c tr \<longrightarrow> did OperationRollback c tr)"
  shows "triple P (bindIO (inWorld (total (Now (traced orc)))) (\<lambda>now.
      withRun (\<lambda>r. inWorld (orError (setStatus (traced orc) (rnJob r) RolledBack (patch now))))))
    (\<lambda>x ps tr. runInv ps tr \<and> endsWith x tr) runInv"
  by (intro triple_bind [OF triple_now] triple_withRun_any triple_setStatus)
     (use assms in \<open>auto simp: statusAllowed_def\<close>)

lemma rollbackLoop_trace:
  assumes "rollbackLoop (traced orc) job cs b (w, tr) = (res, (w', tr'))" "runInv ps tr"
    "\<forall>c \<in> set cs. did OperationPromote c tr"
  shows "runInv ps tr' \<and> (\<exists>evs. tr' = tr @ evs) \<and> (\<forall>c \<in> set cs. attempted OperationRollback c tr') \<and>
    (\<exists>b'. res = Inr b' \<and> (b' \<longrightarrow> b \<and> (\<forall>c \<in> set cs. did OperationRollback c tr')))"
  using assms
proof (induction cs arbitrary: b w tr)
  case (Cons c cs)
  obtain res1 w1 tr1 where r: "request (traced orc) c job OperationRollback (w, tr) = (res1, (w1, tr1))"
    by (metis prod.collapse)
  obtain req where req: "targets c OperationRollback req" "tr1 = tr @ [Executed req res1]" using request_trace [OF r] by blast
  have i1: "runInv ps tr1" unfolding req(2)
    using Cons.prems(2,3) req(1) by (intro runInv_snoc) (auto simp: requestAllowed_def targets_def)
  have prom: "\<forall>c \<in> set cs. did OperationPromote c tr1" using Cons.prems(3) did_mono req(2) by simp
  have att: "attempted OperationRollback c tr1" using req by (auto simp: attempted_def)
  define b1 where "b1 = (b \<and> (\<exists>resp. res1 = Inr resp \<and> rsOK resp))"
  obtain w2 where rest: "rollbackLoop (traced orc) job cs b1 (w2, tr1) = (res, (w', tr'))"
    using Cons.prems(1) r by (cases res1) (auto simp: b1_def bindIO_def logf_def traced_def split: if_splits)
  have ok1: "did OperationRollback c tr1" if b1
    using that req by (auto simp: b1_def did_def)
  from Cons.IH [OF rest i1 prom] obtain evs where
    ih: "runInv ps tr'" "tr' = tr1 @ evs" "\<forall>c \<in> set cs. attempted OperationRollback c tr'"
    "\<exists>b'. res = Inr b' \<and> (b' \<longrightarrow> b1 \<and> (\<forall>c \<in> set cs. did OperationRollback c tr'))" by blast
  have "attempted OperationRollback c tr'" using att attempted_mono ih(2) by simp
  moreover have "did OperationRollback c tr'" if b1 using ok1 [OF that] did_mono ih(2) by simp
  ultimately show ?case using ih req(2) b1_def by auto
qed auto

lemma triple_rollback:
  "triple (\<lambda>ps tr. runInv ps tr \<and> ps = qs) (inWorld (rollback (traced orc) qs job))
    (\<lambda>b ps tr. runInv ps tr \<and> (\<forall>c. did OperationPromote c tr \<longrightarrow> attempted OperationRollback c tr) \<and>
      (b \<longrightarrow> (\<forall>c. did OperationPromote c tr \<longrightarrow> did OperationRollback c tr))) runInv"
proof (rule triple_inWorld)
  fix ps w tr res w' tr'
  assume p: "runInv ps tr \<and> ps = qs" and m: "rollback (traced orc) qs job (w, tr) = (res, (w', tr'))"
  then have "\<forall>c \<in> set (rev qs). did OperationPromote c tr" by (auto simp: runInv_def promotedBy_def)
  from rollbackLoop_trace [OF m [unfolded rollback_def] _ this, of ps] p
  have r: "runInv ps tr'" "\<forall>c \<in> set ps. attempted OperationRollback c tr'"
    "\<exists>b. res = Inr b \<and> (b \<longrightarrow> (\<forall>c \<in> set ps. did OperationRollback c tr'))" by auto
  then have pb: "promotedBy ps tr'" by (simp add: runInv_def)
  from r show "case res of Inr b \<Rightarrow> runInv ps tr' \<and> (\<forall>c. did OperationPromote c tr' \<longrightarrow> attempted OperationRollback c tr') \<and>
      (b \<longrightarrow> (\<forall>c. did OperationPromote c tr' \<longrightarrow> did OperationRollback c tr')) | Inl e \<Rightarrow> runInv ps tr'"
    using promotedBy_attempted [OF pb] promotedBy_rolledBack [OF pb] by auto
qed

section \<open>Triples of the loops\<close>

text \<open>The facts a loop keeps: the rendered candidates are known, and some operations are done for a part of them.\<close>

definition knows :: "Candidate list \<Rightarrow> string set \<Rightarrow> Candidate list \<Rightarrow> event list \<Rightarrow> bool" where
  "knows cands ops cs tr \<longleftrightarrow>
     Rendered (Inr cands) \<in> set tr \<and> cands \<noteq> [] \<and> (\<forall>c \<in> set cs. \<forall>operation \<in> ops. did operation c tr)"

lemma knows_snoc: "knows cands ops cs tr \<Longrightarrow> knows cands ops cs (tr @ [e])"
  using did_mono by (auto simp: knows_def)

lemma knows_all: "knows cands ops cands tr \<Longrightarrow> allDone ops tr"
  by (auto simp: knows_def allDone_def)

lemma knows_Nil: "knows cands ops cs tr \<Longrightarrow> knows cands ops' [] tr"
  by (simp add: knows_def)

lemma knows_add:
  "knows cands ops cs tr \<Longrightarrow> \<forall>operation \<in> ops. did operation c tr \<Longrightarrow> knows cands ops (cs @ [c]) tr"
  by (auto simp: knows_def)

abbreviation finished :: "Job \<Rightarrow> assertion" where
  "finished x ps tr \<equiv> runInv ps tr \<and> endsWith x tr"

lemma triple_early:
  "triple P m (\<lambda>x. finished x) runInv \<Longrightarrow>
   triple P (bindIO m (\<lambda>job. returnIO (Inl job))) (\<lambda>r. case r of Inl job \<Rightarrow> finished job | Inr y \<Rightarrow> Q y) runInv"
  by (erule triple_bind) (rule triple_return, simp)

lemma no_promotion: "runInv [] tr \<Longrightarrow> \<not> did OperationPromote c tr"
  by (auto simp: runInv_def promotedBy_def)

lemma triple_fail_unpromoted:
  assumes "\<And>ps tr. P ps tr \<Longrightarrow> runInv ps tr \<and> ps = []"
  shows "triple P (bindIO (logFailure (traced orc) x) (\<lambda>_. bindIO (runFail (traced orc) message patch) (\<lambda>job. returnIO (Inl job))))
    (\<lambda>r. case r of Inl job \<Rightarrow> finished job | Inr y \<Rightarrow> Q y) runInv"
  by (intro triple_bind [OF triple_log] triple_early triple_fail) (use assms no_promotion in blast)

lemma triple_stageLoop:
  "triple (\<lambda>ps tr. runInv ps tr \<and> ps = [] \<and> knows cands {OperationStage, OperationValidate} ds tr)
     (stageLoop (traced orc) cs out)
     (\<lambda>r. case r of Inl job \<Rightarrow> finished job
       | Inr y \<Rightarrow> (\<lambda>ps tr. runInv ps tr \<and> ps = [] \<and> knows cands {OperationStage, OperationValidate} (ds @ cs) tr)) runInv"
proof (induction cs arbitrary: ds out)
  case Nil
  show ?case unfolding stageLoop.simps by (rule triple_return) simp
next
  case (Cons c cs)
  let ?F = "\<lambda>ps tr. ps = [] \<and> knows cands {OperationStage, OperationValidate} ds tr"
  have F: "stays ?F" by (simp add: stays_def knows_snoc)
  have G: "stays (\<lambda>ps tr. ?F ps tr \<and> did OperationStage c tr)" using F did_mono by (simp add: stays_def)
  have stage: "triple (\<lambda>ps tr. runInv ps tr \<and> ?F ps tr) (runRequest (traced orc) c OperationStage)
      (\<lambda>resp ps tr. runInv ps tr \<and> ?F ps tr \<and> (rsOK resp \<longrightarrow> did OperationStage c tr)) runInv"
    by (rule triple_post [OF triple_request [OF _ F]]) (auto simp: requestAllowed_def targets_def)
  have val: "triple (\<lambda>ps tr. runInv ps tr \<and> ?F ps tr \<and> did OperationStage c tr) (runRequest (traced orc) c OperationValidate)
      (\<lambda>resp ps tr. runInv ps tr \<and> (?F ps tr \<and> did OperationStage c tr) \<and> (rsOK resp \<longrightarrow> did OperationValidate c tr)) runInv"
    by (rule triple_post [OF triple_request [OF _ G]]) (auto simp: requestAllowed_def targets_def)
  have rest: "triple (\<lambda>ps tr. runInv ps tr \<and> (?F ps tr \<and> did OperationStage c tr) \<and> did OperationValidate c tr)
      (stageLoop (traced orc) cs out')
      (\<lambda>r. case r of Inl job \<Rightarrow> finished job
       | Inr y \<Rightarrow> (\<lambda>ps tr. runInv ps tr \<and> ps = [] \<and> knows cands {OperationStage, OperationValidate} (ds @ c # cs) tr)) runInv" for out'
    by (rule triple_pre [OF triple_post [OF Cons.IH [of "ds @ [c]"]]]) (auto simp: knows_add split: sum.splits)
  show ?case
    unfolding stageLoop.simps Let_def
    by (rule triple_bind [OF triple_step(2)], rule triple_bind [OF triple_step(1)], rule triple_bind, rule triple_write, simp,
        rule triple_bind [OF triple_step(1)], rule triple_bind [OF stage], rule triple_if, rule triple_fail_unpromoted, simp,
        rule triple_bind [OF triple_step(1)], rule triple_bind, rule triple_pre [OF val], simp, rule triple_if,
        rule triple_fail_unpromoted, simp, rule triple_pre [OF rest], simp)
qed

lemma triple_setApplying:
  "triple (\<lambda>ps tr. runInv ps tr \<and> ps = [] \<and> knows cands {OperationStage, OperationValidate} cands tr)
     (setApplying (traced orc) out)
     (\<lambda>_ ps tr. runInv ps tr \<and> ps = [] \<and> knows cands {OperationStage, OperationValidate} cands tr \<and> storedApplying tr) runInv"
  unfolding triple_def
proof (intro allI impI, elim conjE)
  fix s res s'
  assume p: "runInv (rnPromoted (fst s)) (snd (snd s))" "rnPromoted (fst s) = []"
    "knows cands {OperationStage, OperationValidate} cands (snd (snd s))" and m: "setApplying (traced orc) out s = (res, s')"
  obtain r w tr where s: "s = (r, (w, tr))" by (metis prod.collapse)
  let ?patch = "emptyPatch\<lparr>patValidationOutput := SetTo (Doc (JObj out))\<rparr>"
  obtain job err w' tr' where u: "setStatus (traced orc) (rnJob r) Applying ?patch (w, tr) = ((job, err), (w', tr'))"
    by (metis prod.collapse)
  have s': "s' = (r\<lparr>rnJob := job\<rparr>, (w', tr'))" "res = (case err of None \<Rightarrow> Inr () | Some e \<Rightarrow> Inl e)"
    using m u by (simp_all add: setApplying_def s)
  define res2 where "res2 = (case err of None \<Rightarrow> Inr job | Some e \<Rightarrow> Inl e)"
  have "orError (setStatus (traced orc) (rnJob r) Applying ?patch) (w, tr) = (res2, (w', tr'))"
    using u by (cases err) (simp_all add: orError_def res2_def)
  from setStatus_trace [OF this]
  show "case res of Inr x \<Rightarrow> runInv (rnPromoted (fst s')) (snd (snd s')) \<and> rnPromoted (fst s') = [] \<and>
      knows cands {OperationStage, OperationValidate} cands (snd (snd s')) \<and> storedApplying (snd (snd s'))
    | Inl e \<Rightarrow> runInv (rnPromoted (fst s')) (snd (snd s'))"
  proof (elim disjE exE conjE)
    assume "tr' = tr" "isl res2"
    then show ?thesis using p s s' by (cases err) (simp_all add: res2_def)
  next
    fix q e j assume q: "patStatus q = Some Applying" "tr' = tr @ [Updated (jobID (rnJob r)) q e j]"
      "\<forall>x. res2 = Inr x \<longrightarrow> x = j \<and> e = None"
    have "runInv [] tr'" unfolding q(2) using p s q(1) by (intro runInv_snoc) (simp_all add: statusAllowed_def)
    moreover have "knows cands {OperationStage, OperationValidate} cands tr'" using p(3) s q(2) knows_snoc by simp
    moreover have "storedApplying tr'" if "err = None" using q that unfolding storedApplying_def res2_def by auto
    ultimately show ?thesis using p s s' by (cases err) simp_all
  qed
qed

lemma triple_promote:
  assumes "stays F" "\<And>ps tr. F ps tr \<Longrightarrow> allDone {OperationStage, OperationValidate} tr \<and> storedApplying tr"
  shows "triple (\<lambda>ps tr. runInv ps tr \<and> F ps tr) (runRequest (traced orc) c OperationPromote)
    (\<lambda>resp ps tr. (if rsOK resp then runInv (ps @ [c]) tr else runInv ps tr) \<and> F ps tr) runInv"
  unfolding runRequest_def
proof (intro triple_withRun_any triple_inWorld)
  fix r ps w tr res w' tr'
  assume p: "runInv ps tr \<and> F ps tr" and m: "request (traced orc) c (rnJob r) OperationPromote (w, tr) = (res, (w', tr'))"
  obtain req where req: "targets c OperationPromote req" "tr' = tr @ [Executed req res]" using request_trace [OF m] by blast
  have al: "allowed tr (Executed req res)" using assms(2) p req(1) by (auto simp: requestAllowed_def targets_def)
  have f: "F ps tr'" using p assms(1) by (simp add: stays_def req(2))
  show "case res of Inr x \<Rightarrow> (if rsOK x then runInv (ps @ [c]) tr' else runInv ps tr') \<and> F ps tr' | Inl e \<Rightarrow> runInv ps tr'"
  proof (cases res)
    case (Inl e)
    then show ?thesis using p al req(2) by (auto intro!: runInv_snoc)
  next
    case (Inr resp)
    have "runInv (ps @ [c]) tr'" if "rsOK resp"
      using p al promotedBy_promote [OF _ req(1) that] Inr req(2) by (simp add: runInv_def safe_snoc)
    moreover have "runInv ps tr'" if "\<not> rsOK resp"
      using p al that Inr req(2) by (auto intro: runInv_snoc)
    ultimately show ?thesis using f Inr by simp
  qed
qed

lemma triple_promoteLoop:
  "triple (\<lambda>ps tr. runInv ps tr \<and> ps = ds \<and> knows cands {OperationStage, OperationValidate} cands tr \<and> storedApplying tr)
     (promoteLoop (traced orc) cs out)
     (\<lambda>_ ps tr. runInv ps tr \<and> ps = ds @ cs \<and> knows cands {OperationStage, OperationValidate} cands tr) runInv"
proof (induction cs arbitrary: ds out)
  case Nil
  show ?case unfolding promoteLoop.simps by (rule triple_return) simp
next
  case (Cons c cs)
  let ?F = "\<lambda>ps tr. ps = ds \<and> knows cands {OperationStage, OperationValidate} cands tr \<and> storedApplying tr"
  have F: "stays ?F" by (simp add: stays_def knows_snoc storedApplying_mono)
  have prom: "triple (\<lambda>ps tr. runInv ps tr \<and> ?F ps tr) (runRequest (traced orc) c OperationPromote)
    (\<lambda>resp ps tr. (if rsOK resp then runInv (ps @ [c]) tr else runInv ps tr) \<and> ?F ps tr) runInv"
    by (rule triple_promote [OF F]) (use knows_all in blast)
  have app: "triple (\<lambda>ps tr. runInv (ps @ [c]) tr \<and> ?F ps tr) (changeRun (rnPromoted_update (\<lambda>ps. ps @ [c])))
    (\<lambda>_ ps tr. runInv ps tr \<and> ps = ds @ [c] \<and> knows cands {OperationStage, OperationValidate} cands tr \<and> storedApplying tr) runInv"
    by (auto simp: triple_def changeRun_def)
  show ?case
    unfolding promoteLoop.simps
    by (rule triple_bind [OF triple_step(2)], rule triple_bind [OF triple_step(1)], rule triple_bind [OF prom],
        rule triple_if, rule triple_throw, simp, rule triple_bind, rule triple_pre [OF app], simp,
        rule triple_post [OF Cons.IH [of "ds @ [c]"]], simp_all)
qed

lemma triple_unhealthy:
  assumes "\<And>ps tr. P ps tr \<Longrightarrow> runInv ps tr"
  shows "triple P (unhealthy (traced orc) health out) (\<lambda>x. finished x) runInv"
  unfolding unhealthy_def
proof (rule triple_bind [OF triple_log], rule triple_bind)
  show "triple P (withRun (\<lambda>r. inWorld (rollback (traced orc) (rnPromoted r) (rnJob r))))
    (\<lambda>b ps tr. runInv ps tr \<and> (\<forall>c. did OperationPromote c tr \<longrightarrow> attempted OperationRollback c tr) \<and>
      (b \<longrightarrow> (\<forall>c. did OperationPromote c tr \<longrightarrow> did OperationRollback c tr))) runInv"
    by (rule triple_withRun, rule triple_pre [OF triple_rollback]) (simp add: assms)
qed (rule triple_if, rule triple_rolledBack, simp, rule triple_fail, simp)

lemma triple_healthLoop:
  "triple (\<lambda>ps tr. runInv ps tr \<and> knows cands {OperationPromote} cands tr \<and> knows cands {OperationReload, OperationHealth} ds tr)
     (healthLoop (traced orc) cs out)
     (\<lambda>r. case r of Inl job \<Rightarrow> finished job
       | Inr y \<Rightarrow> (\<lambda>ps tr. runInv ps tr \<and> knows cands {OperationPromote} cands tr \<and>
           knows cands {OperationReload, OperationHealth} (ds @ cs) tr)) runInv"
proof (induction cs arbitrary: ds out)
  case Nil
  show ?case unfolding healthLoop.simps by (rule triple_return) simp
next
  case (Cons c cs)
  let ?F = "\<lambda>(ps :: Candidate list) tr. knows cands {OperationPromote} cands tr \<and> knows cands {OperationReload, OperationHealth} ds tr"
  let ?G = "\<lambda>ps tr. ?F ps tr \<and> did OperationReload c tr"
  have F: "stays ?F" and G: "stays ?G" using did_mono by (simp_all add: stays_def knows_snoc)
  have reload: "triple (\<lambda>ps tr. runInv ps tr \<and> ?F ps tr) (runRequest (traced orc) c OperationReload)
      (\<lambda>resp ps tr. runInv ps tr \<and> ?F ps tr \<and> (rsOK resp \<longrightarrow> did OperationReload c tr)) runInv"
    by (rule triple_post [OF triple_request [OF _ F]]) (auto simp: requestAllowed_def targets_def knows_all)
  have health: "triple (\<lambda>ps tr. runInv ps tr \<and> ?G ps tr) (runRequest (traced orc) c OperationHealth)
      (\<lambda>resp ps tr. runInv ps tr \<and> ?G ps tr \<and> (rsOK resp \<and> \<not> hasNginxDrift resp \<longrightarrow> did OperationHealth c tr)) runInv"
    by (rule triple_post [OF triple_request [OF _ G]]) (auto simp: requestAllowed_def targets_def knows_all)
  have rest: "triple (\<lambda>ps tr. runInv ps tr \<and> ?G ps tr \<and> did OperationHealth c tr)
      (healthLoop (traced orc) cs out')
      (\<lambda>r. case r of Inl job \<Rightarrow> finished job
       | Inr y \<Rightarrow> (\<lambda>ps tr. runInv ps tr \<and> knows cands {OperationPromote} cands tr \<and>
           knows cands {OperationReload, OperationHealth} (ds @ c # cs) tr)) runInv" for out'
    by (rule triple_pre [OF triple_post [OF Cons.IH [of "ds @ [c]"]]]) (auto simp: knows_add split: sum.splits)
  show ?case
    unfolding healthLoop.simps Let_def
    by (rule triple_bind [OF triple_step(2)], rule triple_bind [OF triple_step(1)], rule triple_bind [OF reload],
        rule triple_if, rule triple_throw, simp, rule triple_bind [OF triple_step(1)], rule triple_bind,
        rule triple_pre [OF health], simp, rule triple_if, rule triple_early, rule triple_unhealthy, simp,
        rule triple_pre [OF rest], simp)
qed

lemma knows_union: "knows cands A cs tr \<Longrightarrow> knows cands B cs tr \<Longrightarrow> knows cands (A \<union> B) cs tr"
  by (auto simp: knows_def)

lemma triple_mark:
  assumes "\<And>ps tr. P ps tr \<Longrightarrow> runInv ps tr \<and> allDone {OperationPromote, OperationReload, OperationHealth} tr"
  shows "triple P (withRun (\<lambda>r. inWorld (Mark (traced orc) (jobRevisionID (rnJob r)) at)))
    (\<lambda>_ ps tr. runInv ps tr \<and> allDone {OperationPromote, OperationReload, OperationHealth} tr \<and> markedApplied tr) runInv"
proof (rule triple_withRun_any, rule triple_inWorld)
  fix r ps w tr res w' tr'
  assume p: "P ps tr" and m: "Mark (traced orc) (jobRevisionID (rnJob r)) at (w, tr) = (res, (w', tr'))"
  have tr': "tr' = tr @ [Marked (jobRevisionID (rnJob r)) res]"
    using m by (auto simp: traced_def witnessed_def split: prod.splits)
  have "runInv ps tr'" unfolding tr' using assms [OF p] by (intro runInv_snoc) simp_all
  moreover have "allDone {OperationPromote, OperationReload, OperationHealth} tr'" using assms [OF p] allDone_mono tr' by blast
  ultimately show "case res of Inr x \<Rightarrow> runInv ps tr' \<and> allDone {OperationPromote, OperationReload, OperationHealth} tr' \<and>
      markedApplied tr' | Inl e \<Rightarrow> runInv ps tr'"
    by (auto simp: markedApplied_def tr' split: sum.split)
qed

lemma triple_finish:
  assumes "\<And>ps tr. P ps tr \<Longrightarrow> runInv ps tr \<and> allDone {OperationPromote, OperationReload, OperationHealth} tr"
  shows "triple P (finishApplied (traced orc) out1 out2) (\<lambda>x. finished x) runInv"
  unfolding finishApplied_def
  by (rule triple_bind [OF triple_step(1)], rule triple_bind [OF triple_now], rule triple_bind, rule triple_mark,
      rule assms, assumption, rule triple_bind [OF triple_now], rule triple_withRun_any, rule triple_setStatus)
     (simp_all add: statusAllowed_def)

lemma triple_render:
  "triple (\<lambda>ps tr. runInv ps tr \<and> ps = []) (withRun (\<lambda>r. inWorld (tracedRender render snapshot (rnJob r))))
    (\<lambda>cands ps tr. runInv ps tr \<and> ps = [] \<and> Rendered (Inr cands) \<in> set tr) runInv"
proof (rule triple_withRun_any, rule triple_inWorld)
  fix r ps w tr res w' tr'
  assume p: "runInv ps tr \<and> ps = []" and m: "tracedRender render snapshot (rnJob r) (w, tr) = (res, (w', tr'))"
  have tr': "tr' = tr @ [Rendered res]" using m by (auto simp: tracedRender_def witnessed_def split: prod.splits)
  have "runInv ps tr'" unfolding tr' using p by (intro runInv_snoc) auto
  then show "case res of Inr x \<Rightarrow> runInv ps tr' \<and> ps = [] \<and> Rendered (Inr x) \<in> set tr' | Inl e \<Rightarrow> runInv ps tr'"
    using p by (auto simp: tr' split: sum.split)
qed

lemma promoted_knows:
  "runInv cands tr \<Longrightarrow> knows cands ops cands tr \<Longrightarrow> knows cands {OperationPromote} cands tr"
  by (auto simp: knows_def runInv_def promotedBy_def)

lemma triple_case_sum:
  "(\<And>a. x = Inl a \<Longrightarrow> triple P (f a) Q E) \<Longrightarrow> (\<And>b. x = Inr b \<Longrightarrow> triple P (g b) Q E) \<Longrightarrow>
   triple P (case x of Inl a \<Rightarrow> f a | Inr b \<Rightarrow> g b) Q E"
  by (cases x) simp_all

lemma triple_execute:
  "triple (\<lambda>ps tr. runInv ps tr \<and> ps = []) (execute (traced orc) snapshot (tracedRender render)) (\<lambda>x. finished x) runInv"
  unfolding execute_def
proof (rule triple_bind [OF triple_render], rule triple_if)
  fix cands :: "Candidate list"
  show "triple (\<lambda>ps tr. runInv ps tr \<and> ps = [] \<and> Rendered (Inr cands) \<in> set tr)
      (throwIO ''No candidates were rendered'') (\<lambda>x. finished x) runInv"
    by (rule triple_throw) simp
  assume ne: "cands \<noteq> []"
  have stage: "triple (\<lambda>ps tr. runInv ps tr \<and> ps = [] \<and> Rendered (Inr cands) \<in> set tr) (stageLoop (traced orc) cands [])
      (\<lambda>r. case r of Inl job \<Rightarrow> finished job
       | Inr y \<Rightarrow> (\<lambda>ps tr. runInv ps tr \<and> ps = [] \<and> knows cands {OperationStage, OperationValidate} cands tr)) runInv"
    by (rule triple_pre [OF triple_post [OF triple_stageLoop [where ds = "[]" and cands = cands]]])
       (use ne in \<open>auto simp: knows_def split: sum.splits\<close>)
  have promote: "triple (\<lambda>ps tr. runInv ps tr \<and> ps = [] \<and> knows cands {OperationStage, OperationValidate} cands tr \<and> storedApplying tr)
      (promoteLoop (traced orc) cands [])
      (\<lambda>_ ps tr. runInv ps tr \<and> knows cands {OperationPromote} cands tr \<and> knows cands {OperationReload, OperationHealth} [] tr) runInv"
    by (rule triple_post [OF triple_promoteLoop [where ds = "[]"]])
       (use promoted_knows knows_Nil in auto)
  have health: "triple (\<lambda>ps tr. runInv ps tr \<and> knows cands {OperationPromote} cands tr \<and> knows cands {OperationReload, OperationHealth} [] tr)
      (healthLoop (traced orc) cands [])
      (\<lambda>r. case r of Inl job \<Rightarrow> finished job
       | Inr y \<Rightarrow> (\<lambda>ps tr. runInv ps tr \<and> allDone {OperationPromote, OperationReload, OperationHealth} tr)) runInv"
    by (rule triple_post [OF triple_healthLoop [where ds = "[]" and cands = cands]])
       (auto simp: knows_def allDone_def split: sum.splits)
  show "triple (\<lambda>ps tr. runInv ps tr \<and> ps = [] \<and> Rendered (Inr cands) \<in> set tr)
      (bindIO (stageLoop (traced orc) cands []) (\<lambda>staged. case staged of Inl job \<Rightarrow> returnIO job
        | Inr validationOutput \<Rightarrow> bindIO (setStep ''set_applying'') (\<lambda>_. bindIO (setApplying (traced orc) validationOutput) (\<lambda>_.
            bindIO (promoteLoop (traced orc) cands []) (\<lambda>applyOutput. bindIO (healthLoop (traced orc) cands []) (\<lambda>health.
              case health of Inl job \<Rightarrow> returnIO job
              | Inr healthOutput \<Rightarrow> finishApplied (traced orc) applyOutput healthOutput)))))) (\<lambda>x. finished x) runInv"
    by (rule triple_bind [OF stage], rule triple_case_sum, rule triple_return, simp, rule triple_bind [OF triple_step(1)],
        rule triple_bind, rule triple_pre [OF triple_setApplying [where cands = cands]], simp, rule triple_bind [OF promote],
        rule triple_bind [OF health], rule triple_case_sum, rule triple_return, simp, rule triple_finish, simp)
qed

lemma triple_recover: "triple runInv (recover (traced orc) err) (\<lambda>x. finished x) runInv"
  unfolding recover_def
proof (rule triple_bind [OF triple_log], rule triple_bind)
  show "triple runInv (withRun (\<lambda>r. if rnPromoted r = [] then returnIO False
        else inWorld (rollback (traced orc) (rnPromoted r) (rnJob r))))
    (\<lambda>b ps tr. runInv ps tr \<and> (\<forall>c. did OperationPromote c tr \<longrightarrow> attempted OperationRollback c tr) \<and>
      (b \<longrightarrow> (\<forall>c. did OperationPromote c tr \<longrightarrow> did OperationRollback c tr))) runInv"
    by (rule triple_withRun, rule triple_if, rule triple_return, use no_promotion in auto)
       (rule triple_pre [OF triple_rollback], simp)
qed (rule triple_if, rule triple_rolledBack, simp, rule triple_fail, simp)

lemma applyRunFrom_trace:
  assumes "applyRunFrom (traced orc) job snapshot (tracedRender render) (w, tr) = (res, (w', tr'))" "runInv [] tr"
  shows "safe tr' \<and> (\<forall>x. res = Inr x \<longrightarrow> endsWith x tr')"
proof -
  let ?s = "(\<lparr>rnJob = job, rnPromoted = [], rnStep = ''render'', rnService = ''none''\<rparr>, (w, tr))"
  obtain res1 s1 where e: "execute (traced orc) snapshot (tracedRender render) ?s = (res1, s1)"
    by (metis prod.collapse)
  note x = triple_apply [OF triple_execute _ e]
  show ?thesis
  proof (cases res1)
    case (Inr job')
    then have "finished job' (rnPromoted (fst s1)) (snd (snd s1))" using x assms(2) by simp
    then show ?thesis using assms(1) e Inr by (cases s1) (auto simp: applyRunFrom_def runInv_def)
  next
    case (Inl err)
    obtain res2 s2 where r: "recover (traced orc) err s1 = (res2, s2)" by (metis prod.collapse)
    have "runInv (rnPromoted (fst s1)) (snd (snd s1))" using x assms(2) Inl by simp
    from triple_apply [OF triple_recover this r]
    have "runInv (rnPromoted (fst s2)) (snd (snd s2)) \<and> (\<forall>x. res2 = Inr x \<longrightarrow> endsWith x (snd (snd s2)))"
      by (cases res2) simp_all
    then show ?thesis using assms(1) e Inl r by (cases s2) (auto simp: applyRunFrom_def runInv_def)
  qed
qed

lemma claimJob_trace:
  assumes "claimJob (traced orc) jid job (w, tr) = (r, (w', tr'))" "runInv [] tr"
  shows "runInv [] tr'"
proof -
  consider "tr' = tr" | "setStatus (traced orc) job Validating emptyPatch (w, tr) = (r, (w', tr'))"
    using assms(1) by (auto simp: claimJob_def split: if_splits)
  then show ?thesis
  proof cases
    case 2
    obtain j e where r: "r = (j, e)" by (cases r)
    have "orError (setStatus (traced orc) job Validating emptyPatch) (w, tr) =
        ((case e of None \<Rightarrow> Inr j | Some x \<Rightarrow> Inl x), (w', tr'))"
      using 2 r by (cases e) (simp_all add: orError_def)
    from setStatus_trace [OF this] show ?thesis
      using assms(2) by (auto intro!: runInv_snoc simp: statusAllowed_def)
  qed (use assms(2) in simp)
qed

section \<open>Properties\<close>

text \<open>
  C1: Whatever the stores, the control socket, the file system, the renderer and the clock answer, a run of
  \<open>Apply\<close> asks for things in a safe order.  Nothing is promoted before every rendered candidate was staged
  and validated with success and the status applying was stored; nothing is reloaded or probed before
  every candidate was promoted; a revision is marked applied, and a job stored as applied, only after every
  candidate was promoted, reloaded and found healthy without drift, and the job only after the mark;
  only promoted candidates are rolled back; a job is stored as rolled back only when every promoted
  candidate was rolled back with success, and as failed only when a rollback of every promoted candidate
  was at least attempted.  A returned job is the record of the last update, in a terminal status.
\<close>
theorem Apply_safe:
  assumes "Apply (traced orc) jid snapshot (tracedRender render) (w, []) = (res, (w', tr))"
  shows "safe tr \<and> (\<forall>job. res = Inr job \<longrightarrow> endsWith job tr)"
proof -
  obtain r1 w1 where g: "Get (traced orc) jid (w, []) = (r1, (w1, []))"
    by (cases "Get orc jid w") (simp add: traced_def quiet_def)
  have logged: "bindIO (logf (traced orc) m) (\<lambda>_. throwIO e) (v, t) = (res, (w', tr)) \<Longrightarrow> tr = t \<and> isl res" for m e v t
    by (auto simp: bindIO_def logf_def traced_def)
  consider e where "r1 = Inl e" | "r1 = Inr None" | found where "r1 = Inr (Some found)"
    by (metis option.exhaust sum.exhaust)
  then show ?thesis
  proof cases
    case 1
    from logged [OF assms [unfolded Apply_def g 1 prod.case sum.case]] show ?thesis by auto
  next
    case 2
    from logged [OF assms [unfolded Apply_def g 2 prod.case sum.case option.case]] show ?thesis by auto
  next
    case 3
    obtain j e w2 tr2 where c: "claimJob (traced orc) jid found (w1, []) = ((j, e), (w2, tr2))" by (metis prod.collapse)
    have i: "runInv [] tr2" by (rule claimJob_trace [OF c]) simp
    show ?thesis
    proof (cases e)
      case None
      from applyRunFrom_trace [OF assms [unfolded Apply_def g 3 c None prod.case sum.case option.case] i] show ?thesis .
    next
      case (Some err)
      from logged [OF assms [unfolded Apply_def g 3 c Some prod.case sum.case option.case]] i
      show ?thesis by (auto simp: runInv_def)
    qed
  qed
qed

text \<open>
  An orchestrator in memory, for evaluation: the world is the stored job, control accepts the operations
  that satisfy \<open>accepts\<close>, and an update to a status in \<open>broken\<close> fails without changing the store.
\<close>

definition memoryUpdate :: "Status list \<Rightarrow> string \<Rightarrow> JobPatch \<Rightarrow> Job \<Rightarrow> (Job \<times> goerror option) \<times> Job" where
  "memoryUpdate broken jid p job =
     (case patStatus p of
        None \<Rightarrow> ((job, None), job)
      | Some s \<Rightarrow>
          if s \<in> set broken then ((zeroJob, Some ''database is locked''), job)
          else (case Transition (jobStatus job) s of
                  Inl e \<Rightarrow> ((zeroJob, Some (Message e)), job)
                | Inr t \<Rightarrow> ((job\<lparr>jobStatus := t\<rparr>, None), job\<lparr>jobStatus := t\<rparr>)))"

definition memoryOrchestrator :: "(string \<Rightarrow> bool) \<Rightarrow> Status list \<Rightarrow> Job Orchestrator" where
  "memoryOrchestrator accepts broken =
     \<lparr>Get = \<lambda>jid w. (Inr (Some w), w), Update = memoryUpdate broken, EnqueueOnce = \<lambda>input. returnIO None,
      Mark = \<lambda>rid at w. (Inr \<lparr>rvID = rid, rvRevisionNumber = 1, rvChecksum = [], rvSnapshot = JNull, rvActorUserID = None,
        rvSource = SourceOrdinary, rvSourcePrimaryID = None, rvSourceNodeID = None, rvSourceRevisionID = None,
        rvSnapshotContentHash = None, rvSnapshotVersion = None, rvReplicationVersion = None,
        rvLeadershipGeneration = None, rvCreatedAt = at, rvAppliedAt = Some at\<rparr>, w),
      Execute = \<lambda>req w. (Inr \<lparr>rsRequestID = rqRequestID req, rsOK = accepts (rqOperation req),
        rsOperation = rqOperation req, rsOutput = None, rsError = []\<rparr>, w),
      CandidateRoot = ''/c'', FileSystem = \<lparr>MkdirAll = \<lambda>p m. returnIO (), WriteFile = \<lambda>p b m. returnIO ()\<rparr>,
      Now = \<lambda>w. ((0, 0), w), Log = \<lambda>m w. w, NewString = \<lambda>w. (''u'', w), Unmarshal = \<lambda>s. None\<rparr>"

definition memoryRender :: "Job Renderer" where
  "memoryRender snapshot job w =
     (Inr [\<lparr>cdService = ServiceNginx, cdCandidatePath = ''/c/r/nginx'', cdChecksum = ''x'', cdFiles = Some [(''nginx.conf'', ''y'')]\<rparr>], w)"

definition queuedJob :: Job where
  "queuedJob = zeroJob\<lparr>jobID := ''j'', jobRevisionID := ''r'', jobStatus := Queued\<rparr>"

definition summary :: "(goerror + Job) \<times> Job \<times> event list \<Rightarrow> (goerror + Status) \<times> Status \<times> string list" where
  "summary r =
     ((case fst r of Inl e \<Rightarrow> Inl e | Inr j \<Rightarrow> Inr (jobStatus j)), jobStatus (fst (snd r)),
      map (\<lambda>e. case e of Executed req _ \<Rightarrow> rqOperation req | Updated _ p _ _ \<Rightarrow> the (patStatus p)
        | Marked _ _ \<Rightarrow> ''mark'' | Rendered _ \<Rightarrow> ''render'') (snd (snd r)))"

lemma memory_run:
  "summary (Apply (traced (memoryOrchestrator (\<lambda>_. True) [])) ''j'' (Doc JNull) (tracedRender memoryRender) (queuedJob, [])) =
   (Inr Applied, Applied, [Validating, ''render'', ''stage'', ''validate'', Applying, ''promote'', ''reload'', ''health'', ''mark'', Applied])"
  by code_simp

theorem Apply_safe_witness:
  "\<exists>job w tr. Apply (traced (memoryOrchestrator (\<lambda>_. True) [])) ''j'' (Doc JNull) (tracedRender memoryRender) (queuedJob, []) =
     (Inr job, (w, tr)) \<and> jobStatus job = Applied \<and> safe tr \<and> endsWith job tr"
proof -
  obtain res w tr where a: "Apply (traced (memoryOrchestrator (\<lambda>_. True) [])) ''j'' (Doc JNull) (tracedRender memoryRender) (queuedJob, []) = (res, (w, tr))"
    by (metis prod.collapse)
  obtain job where r: "res = Inr job" "jobStatus job = Applied"
    using memory_run unfolding a by (cases res) (simp_all add: summary_def)
  then show ?thesis using Apply_safe [OF a] a by auto
qed

section \<open>Error paths of the code\<close>

text \<open>A store error while the status applying is written leaves the run with the zero job: the failure can
  not be recorded any more, although the store would accept it, and the job stays in validating.\<close>

lemma set_applying_error_lost:
  "summary (Apply (traced (memoryOrchestrator (\<lambda>_. True) [Applying])) ''j'' (Doc JNull) (tracedRender memoryRender) (queuedJob, [])) =
   (Inl ''Invalid job transition:  -> failed'', Validating, [Validating, ''render'', ''stage'', ''validate'', Applying])"
  by code_simp

text \<open>A store error while the status applied is written rolls the services back, and the revision stays
  marked as applied.\<close>

lemma marked_then_rolled_back:
  "summary (Apply (traced (memoryOrchestrator (\<lambda>_. True) [Applied])) ''j'' (Doc JNull) (tracedRender memoryRender) (queuedJob, [])) =
   (Inr RolledBack, RolledBack,
    [Validating, ''render'', ''stage'', ''validate'', Applying, ''promote'', ''reload'', ''health'', ''mark'', Applied, ''rollback'', RolledBack])"
  by code_simp

text \<open>A failed health check whose rollback can not be recorded rolls the services back twice.\<close>

lemma rolled_back_twice:
  "summary (Apply (traced (memoryOrchestrator (\<lambda>op. op \<noteq> OperationHealth) [RolledBack])) ''j'' (Doc JNull) (tracedRender memoryRender) (queuedJob, [])) =
   (Inl ''database is locked'', Applying,
    [Validating, ''render'', ''stage'', ''validate'', Applying, ''promote'', ''reload'', ''health'', ''rollback'', RolledBack, ''rollback'', RolledBack])"
  by code_simp

end
