(* ===== verification/ApplyLive.thy ===== *)
theory ApplyLive
  imports ApplyTrace
begin

text \<open>
  Progress of the orchestrator: when the control socket accepts every request and the store and the file
  system do their work, a queued job ends applied and is stored so.  \<open>lands\<close> is the total reading of a
  triple: the computation returns a value, not an error.  What the environment must promise for this is
  the locale \<open>accepting\<close>; the theory \<open>WorkerSystem\<close> interprets it on the SQLite stores.
\<close>

section \<open>Total triples\<close>

type_synonym 'w situation = "applyRun \<Rightarrow> 'w \<Rightarrow> bool"

definition lands :: "'w situation \<Rightarrow> (applyRun \<times> 'w, 'a) io \<Rightarrow> ('a \<Rightarrow> 'w situation) \<Rightarrow> bool" where
  "lands P m Q \<longleftrightarrow> (\<forall>s. P (fst s) (snd s) \<longrightarrow> (\<exists>x s'. m s = (Inr x, s') \<and> Q x (fst s') (snd s')))"

lemma lands_bind:
  assumes "lands P m R" "\<And>x. lands (R x) (f x) Q"
  shows "lands P (bindIO m f) Q"
  unfolding lands_def
proof (intro allI impI)
  fix s :: "applyRun \<times> 'a" assume "P (fst s) (snd s)"
  then obtain x s1 where 1: "m s = (Inr x, s1)" "R x (fst s1) (snd s1)" using assms(1) unfolding lands_def by blast
  then obtain y s2 where "f x s1 = (Inr y, s2)" "Q y (fst s2) (snd s2)" using assms(2) unfolding lands_def by blast
  then show "\<exists>x s'. bindIO m f s = (Inr x, s') \<and> Q x (fst s') (snd s')" using 1 by (simp add: bindIO_def)
qed

lemma lands_return: "(\<And>r w. P r w \<Longrightarrow> Q x r w) \<Longrightarrow> lands P (returnIO x) Q"
  by (simp add: lands_def)

lemma lands_post: "lands P m Q \<Longrightarrow> (\<And>x r w. Q x r w \<Longrightarrow> Q' x r w) \<Longrightarrow> lands P m Q'"
  unfolding lands_def by blast

text \<open>A pure fact carried by the precondition.\<close>

lemma lands_fact: "(F \<Longrightarrow> lands P m Q) \<Longrightarrow> lands (\<lambda>r w. P r w \<and> F) m Q"
  unfolding lands_def by blast

lemma lands_call:
  assumes "\<And>r w. P r w \<Longrightarrow> \<exists>x w'. m r w = (Inr x, w') \<and> Q x r w'"
  shows "lands P (withRun (\<lambda>r. inWorld (m r))) Q"
  unfolding lands_def withRun_def
proof (intro allI impI)
  fix s :: "applyRun \<times> 'a" assume p: "P (fst s) (snd s)"
  from assms [OF p] obtain x w' where "m (fst s) (snd s) = (Inr x, w')" "Q x (fst s) w'" by blast
  then show "\<exists>x s'. inWorld (m (fst s)) s = (Inr x, s') \<and> Q x (fst s') (snd s')" by (simp add: inWorld_def)
qed

lemma lands_inWorld:
  assumes "\<And>r w. P r w \<Longrightarrow> \<exists>x w'. m w = (Inr x, w') \<and> Q x r w'"
  shows "lands P (inWorld m) Q"
  using lands_call [of P "\<lambda>_. m" Q] assms by (simp add: withRun_def [abs_def])

lemma lands_step:
  "(\<And>r w. P r w \<Longrightarrow> P (r\<lparr>rnStep := x\<rparr>) w) \<Longrightarrow> lands P (setStep x) (\<lambda>_. P)"
  "(\<And>r w. P r w \<Longrightarrow> P (r\<lparr>rnService := x\<rparr>) w) \<Longrightarrow> lands P (setService x) (\<lambda>_. P)"
  by (simp_all add: lands_def setStep_def setService_def changeRun_def)

section \<open>Favourable answers\<close>

text \<open>The patches of a successful run: outputs that are documents and a finish time, no message.\<close>

fun outputPatch :: "rawdoc Nullable \<Rightarrow> bool" where
  "outputPatch Keep = True"
| "outputPatch Clear = True"
| "outputPatch (SetTo (Doc j)) = True"
| "outputPatch (SetTo NotJSON) = False"

fun timePatch :: "gotime Nullable \<Rightarrow> bool" where
  "timePatch (SetTo t) = finiteRange (fst t) (snd t)"
| "timePatch p = True"

definition plainPatch :: "JobPatch \<Rightarrow> bool" where
  "plainPatch p \<longleftrightarrow>
     outputPatch (patValidationOutput p) \<and> outputPatch (patApplyOutput p) \<and> outputPatch (patHealthOutput p) \<and>
     patErrorMessage p = Keep \<and> patClaimedAt p = Keep \<and> patStartedAt p = Keep \<and> timePatch (patFinishedAt p)"

text \<open>A candidate the writer accepts.\<close>

definition writable :: "string \<Rightarrow> Candidate \<Rightarrow> bool" where
  "writable root c \<longleftrightarrow>
     (case cdFiles c of None \<Rightarrow> True
      | Some files \<Rightarrow> HasPrefix (cdCandidatePath c) (TrimRight root ''/'' @ ''/'') \<and>
          \<not> Contains (cdCandidatePath c) ''..'' \<and> \<not> list_ex badFileName (map fst files))"

text \<open>A candidate of a revision that control accepts requests about, and that can be written.\<close>

definition applicableTo :: "string \<Rightarrow> (string \<Rightarrow> bool) \<Rightarrow> (Request \<Rightarrow> bool) \<Rightarrow> string \<Rightarrow> Candidate \<Rightarrow> bool" where
  "applicableTo root fresh acceptable revision c \<longleftrightarrow>
     writable root c \<and>
     (\<forall>rid operation. fresh rid \<longrightarrow> operation \<in> set Operations \<longrightarrow>
        acceptable \<lparr>rqRequestID = rid, rqOperation = operation, rqService = cdService c, rqRevisionID = revision,
          rqChecksum = cdChecksum c, rqCandidatePath = cdCandidatePath c\<rparr>)"

text \<open>The columns of a job that no patch changes.\<close>

definition sameJob :: "Job \<Rightarrow> Job \<Rightarrow> bool" where
  "sameJob a b \<longleftrightarrow> jobID b = jobID a \<and> jobRevisionID b = jobRevisionID a \<and> jobTarget b = jobTarget a"

text \<open>
  An environment in which a run succeeds, over a world with stored jobs and marked revisions: legal patches
  are stored, revisions of stored jobs can be marked, control accepts, files can be written and the clock is
  in range.
\<close>

locale accepting =
  fixes orc :: "'w Orchestrator"
    and legal :: "'w \<Rightarrow> bool"
    and stored :: "'w \<Rightarrow> string \<Rightarrow> Job option"
    and marked :: "'w \<Rightarrow> string \<Rightarrow> bool"
    and fresh :: "string \<Rightarrow> bool"
    and acceptable :: "Request \<Rightarrow> bool"
  assumes update_ok: "legal w \<Longrightarrow> stored w jid = Some j0 \<Longrightarrow> patStatus p = Some s \<Longrightarrow> moves (jobStatus j0) s \<Longrightarrow> plainPatch p \<Longrightarrow>
      \<exists>j w'. Update orc jid p w = ((j, None), w') \<and> jobStatus j = s \<and> sameJob j0 j \<and> legal w' \<and>
        stored w' jid = Some j \<and> marked w' = marked w"
    and mark_ok: "legal w \<Longrightarrow> stored w jid = Some j \<Longrightarrow> finiteRange (fst t) (snd t) \<Longrightarrow>
      \<exists>rv w'. Mark orc (jobRevisionID j) t w = (Inr rv, w') \<and> legal w' \<and> stored w' = stored w \<and> marked w' (jobRevisionID j)"
    and execute_ok: "legal w \<Longrightarrow> acceptable req \<Longrightarrow> \<exists>resp w'. Execute orc req w = (Inr resp, w') \<and> rsOK resp \<and> \<not> hasNginxDrift resp \<and>
      legal w' \<and> stored w' = stored w"
    and mkdir_ok: "legal w \<Longrightarrow> \<exists>w'. MkdirAll (FileSystem orc) path m w = (Inr (), w') \<and> legal w' \<and> stored w' = stored w"
    and write_ok: "legal w \<Longrightarrow> \<exists>w'. WriteFile (FileSystem orc) path b m w = (Inr (), w') \<and> legal w' \<and> stored w' = stored w"
    and now_ok: "legal w \<Longrightarrow> \<exists>t w'. Now orc w = (t, w') \<and> finiteRange (fst t) (snd t) \<and> legal w' \<and>
      stored w' = stored w \<and> marked w' = marked w"
    and newString_ok: "legal w \<Longrightarrow> \<exists>u w'. NewString orc w = (u, w') \<and> fresh u \<and> legal w' \<and> stored w' = stored w"
begin

abbreviation applicable :: "string \<Rightarrow> Candidate \<Rightarrow> bool" where
  "applicable \<equiv> applicableTo (orDefault (CandidateRoot orc) DefaultCandidateRoot) fresh acceptable"

text \<open>The run's job is the stored record of the job \<open>j\<close> and has the status \<open>s\<close>.\<close>

definition at :: "Job \<Rightarrow> Status \<Rightarrow> 'w situation" where
  "at j s r w \<longleftrightarrow> legal w \<and> stored w (jobID j) = Some (rnJob r) \<and> sameJob j (rnJob r) \<and> jobStatus (rnJob r) = s"

definition applied :: "Job \<Rightarrow> Job \<Rightarrow> 'w situation" where
  "applied j job r w \<longleftrightarrow> legal w \<and> stored w (jobID j) = Some job \<and> sameJob j job \<and> jobStatus job = Applied \<and>
     marked w (jobRevisionID j)"

lemma at_step [simp]: "at j s (r\<lparr>rnStep := x\<rparr>) w = at j s r w" "at j s (r\<lparr>rnService := y\<rparr>) w = at j s r w"
  "at j s (rnPromoted_update f r) w = at j s r w"
  by (simp_all add: at_def)

lemma request_ok:
  assumes "legal w" "applicable (jobRevisionID job) c" "operation \<in> set Operations"
  shows "\<exists>resp w'. request orc c job operation w = (Inr resp, w') \<and> rsOK resp \<and> \<not> hasNginxDrift resp \<and>
    legal w' \<and> stored w' = stored w"
proof -
  obtain rid w1 where n: "NewString orc w = (rid, w1)" "fresh rid" "legal w1" "stored w1 = stored w"
    using newString_ok [OF assms(1)] by blast
  have "acceptable \<lparr>rqRequestID = rid, rqOperation = operation, rqService = cdService c, rqRevisionID = jobRevisionID job,
      rqChecksum = cdChecksum c, rqCandidatePath = cdCandidatePath c\<rparr>"
    using assms(2,3) n(2) unfolding applicableTo_def by blast
  from execute_ok [OF n(3) this] show ?thesis by (simp add: request_def bindIO_def total_def n)
qed

lemma lands_request:
  assumes "applicable (jobRevisionID j) c" "operation \<in> set Operations"
  shows "lands (at j s) (runRequest orc c operation) (\<lambda>resp r w. at j s r w \<and> rsOK resp \<and> \<not> hasNginxDrift resp)"
  unfolding runRequest_def
proof (rule lands_call)
  fix r w assume a: "at j s r w"
  then have "applicable (jobRevisionID (rnJob r)) c" using assms(1) by (simp add: at_def sameJob_def)
  with a show "\<exists>x w'. request orc c (rnJob r) operation w = (Inr x, w') \<and> at j s r w' \<and> rsOK x \<and> \<not> hasNginxDrift x"
    using request_ok [of w "rnJob r" c operation] assms(2) unfolding at_def by metis
qed

lemma operations [simp]:
  "OperationStage \<in> set Operations" "OperationValidate \<in> set Operations" "OperationPromote \<in> set Operations"
  "OperationReload \<in> set Operations" "OperationHealth \<in> set Operations"
  by (simp_all add: Operations_def)

lemma setStatus_ok:
  assumes "legal w" "stored w (jobID job) = Some job" "moves (jobStatus job) s" "plainPatch patch"
  shows "\<exists>j w'. setStatus orc job s patch w = ((j, None), w') \<and> jobStatus j = s \<and> sameJob job j \<and>
    legal w' \<and> stored w' (jobID job) = Some j \<and> marked w' = marked w"
proof -
  have t: "s \<in> set (transitions (jobStatus job))" using assms(3) by (simp add: transitions_moves)
  have "plainPatch (patch\<lparr>patStatus := Some s\<rparr>)" using assms(4) by (simp add: plainPatch_def)
  from update_ok [OF assms(1,2) _ assms(3) this] show ?thesis by (simp add: setStatus_def Transition_def t)
qed

lemma writeFiles_ok:
  "legal w \<Longrightarrow> \<exists>w'. writeFiles (FileSystem orc) path files w = (Inr (), w') \<and> legal w' \<and> stored w' = stored w"
proof (induction files arbitrary: w)
  case (Cons f files)
  obtain name body where f: "f = (name, body)" by (cases f)
  obtain w1 where w1: "MkdirAll (FileSystem orc) (Dir (PathJoin [path, name])) dirMode w = (Inr (), w1)" "legal w1" "stored w1 = stored w"
    using mkdir_ok [OF Cons.prems] by blast
  obtain w2 where w2: "WriteFile (FileSystem orc) (PathJoin [path, name]) body fileMode w1 = (Inr (), w2)" "legal w2" "stored w2 = stored w1"
    using write_ok [OF w1(2)] by blast
  show ?case using Cons.IH [OF w2(2)] w1 w2 by (simp add: f bindIO_def)
qed simp

lemma writeCandidate_ok:
  assumes "writable root c" "legal w"
  shows "\<exists>w'. writeCandidate (FileSystem orc) c root w = (Inr (), w') \<and> legal w' \<and> stored w' = stored w"
proof (cases "cdFiles c")
  case None
  then show ?thesis using assms by (simp add: writeCandidate_def)
next
  case (Some files)
  obtain w1 where "MkdirAll (FileSystem orc) (cdCandidatePath c) dirMode w = (Inr (), w1)" "legal w1" "stored w1 = stored w"
    using mkdir_ok [OF assms(2)] by blast
  then show ?thesis
    using Some assms writeFiles_ok [of w1 "cdCandidatePath c" "sort_key fst files"]
    by (simp add: writeCandidate_def writable_def Let_def bindIO_def)
qed

lemma lands_write: "writable root c \<Longrightarrow> lands (at j s) (inWorld (writeCandidate (FileSystem orc) c root)) (\<lambda>_. at j s)"
proof (rule lands_inWorld)
  fix r w assume c: "writable root c" and a: "at j s r w"
  then show "\<exists>x w'. writeCandidate (FileSystem orc) c root w = (Inr x, w') \<and> at j s r w'"
    using writeCandidate_ok [OF c, of w] unfolding at_def by metis
qed

lemma lands_stageLoop:
  "\<forall>c \<in> set cs. applicable (jobRevisionID j) c \<Longrightarrow>
   lands (at j s) (stageLoop orc cs out) (\<lambda>x r w. at j s r w \<and> \<not> isl x)"
proof (induction cs arbitrary: out)
  case Nil
  show ?case unfolding stageLoop.simps by (rule lands_return) simp
next
  case (Cons c cs)
  then have w: "writable (orDefault (CandidateRoot orc) DefaultCandidateRoot) c" and c: "applicable (jobRevisionID j) c"
    by (simp_all add: applicableTo_def)
  have rest: "lands (at j s) (stageLoop orc cs out') (\<lambda>x r w. at j s r w \<and> \<not> isl x)" for out' using Cons by simp
  show ?case
    unfolding stageLoop.simps Let_def
    by (rule lands_bind [OF lands_step(2)], simp, rule lands_bind [OF lands_step(1)], simp, rule lands_bind [OF lands_write [OF w]],
        rule lands_bind [OF lands_step(1)], simp, rule lands_bind [OF lands_request [OF c operations(1)]], rule lands_fact,
        simp, rule lands_bind [OF lands_step(1)], simp, rule lands_bind [OF lands_request [OF c operations(2)]], rule lands_fact,
        simp add: rest)
qed

lemma lands_promoteLoop:
  "\<forall>c \<in> set cs. applicable (jobRevisionID j) c \<Longrightarrow> lands (at j s) (promoteLoop orc cs out) (\<lambda>_. at j s)"
proof (induction cs arbitrary: out)
  case Nil
  show ?case unfolding promoteLoop.simps by (rule lands_return) simp
next
  case (Cons c cs)
  then have c: "applicable (jobRevisionID j) c"
    and rest: "lands (at j s) (promoteLoop orc cs out') (\<lambda>_. at j s)" for out' by simp_all
  have push: "lands (at j s) (changeRun (rnPromoted_update (\<lambda>ps. ps @ [c]))) (\<lambda>_. at j s)"
    by (simp add: lands_def changeRun_def)
  show ?case
    unfolding promoteLoop.simps
    by (rule lands_bind [OF lands_step(2)], simp, rule lands_bind [OF lands_step(1)], simp,
        rule lands_bind [OF lands_request [OF c operations(3)]], rule lands_fact, simp, rule lands_bind [OF push], rule rest)
qed

lemma lands_healthLoop:
  "\<forall>c \<in> set cs. applicable (jobRevisionID j) c \<Longrightarrow> lands (at j s) (healthLoop orc cs out) (\<lambda>x r w. at j s r w \<and> \<not> isl x)"
proof (induction cs arbitrary: out)
  case Nil
  show ?case unfolding healthLoop.simps by (rule lands_return) simp
next
  case (Cons c cs)
  then have c: "applicable (jobRevisionID j) c"
    and rest: "lands (at j s) (healthLoop orc cs out') (\<lambda>x r w. at j s r w \<and> \<not> isl x)" for out' by simp_all
  show ?case
    unfolding healthLoop.simps Let_def
    by (rule lands_bind [OF lands_step(2)], simp, rule lands_bind [OF lands_step(1)], simp,
        rule lands_bind [OF lands_request [OF c operations(4)]], rule lands_fact, simp, rule lands_bind [OF lands_step(1)], simp,
        rule lands_bind [OF lands_request [OF c operations(5)]], rule lands_fact, simp add: rest)
qed

lemma lands_setApplying: "lands (at j Validating) (setApplying orc out) (\<lambda>_. at j Applying)"
  unfolding lands_def
proof (intro allI impI)
  fix s :: "applyRun \<times> 'w" assume a: "at j Validating (fst s) (snd s)"
  let ?patch = "emptyPatch\<lparr>patValidationOutput := SetTo (Doc (JObj out))\<rparr>"
  have "moves (jobStatus (rnJob (fst s))) Applying" using a by (simp add: at_def moves.start)
  from setStatus_ok [OF _ _ this, of "snd s" ?patch] a
  show "\<exists>x s'. setApplying orc out s = (Inr x, s') \<and> at j Applying (fst s') (snd s')"
    by (auto simp: setApplying_def at_def sameJob_def plainPatch_def emptyPatch_def)
qed

lemma lands_now:
  assumes "\<And>w w'. marked w' = marked w \<Longrightarrow> M w \<Longrightarrow> M w'"
  shows "lands (\<lambda>r w. at j s r w \<and> M w) (inWorld (total (Now orc)))
    (\<lambda>t r w. (at j s r w \<and> M w) \<and> finiteRange (fst t) (snd t))"
proof (rule lands_inWorld)
  fix r w assume a: "at j s r w \<and> M w"
  then obtain t w' where "Now orc w = (t, w')" "finiteRange (fst t) (snd t)" "legal w'" "stored w' = stored w" "marked w' = marked w"
    using now_ok [of w] unfolding at_def by blast
  then show "\<exists>x w'. total (Now orc) w = (Inr x, w') \<and> (at j s r w' \<and> M w') \<and> finiteRange (fst x) (snd x)"
    using a assms unfolding at_def total_def by auto
qed

lemma lands_finish: "lands (at j Applying) (finishApplied orc out1 out2) (\<lambda>job. applied j job)"
proof -
  have mark: "lands (\<lambda>r w. at j Applying r w \<and> True) (withRun (\<lambda>r. inWorld (Mark orc (jobRevisionID (rnJob r)) t)))
      (\<lambda>_ r w. at j Applying r w \<and> marked w (jobRevisionID j))"
    if "finiteRange (fst t) (snd t)" for t
  proof (rule lands_call)
    fix r w assume a: "at j Applying r w \<and> True"
    then have "jobRevisionID (rnJob r) = jobRevisionID j" by (simp add: at_def sameJob_def)
    with a show "\<exists>x w'. Mark orc (jobRevisionID (rnJob r)) t w = (Inr x, w') \<and> at j Applying r w' \<and> marked w' (jobRevisionID j)"
      using mark_ok [of w _ "rnJob r", OF _ _ that] unfolding at_def by metis
  qed
  have fin: "lands (\<lambda>r w. at j Applying r w \<and> marked w (jobRevisionID j))
      (withRun (\<lambda>r. inWorld (orError (setStatus orc (rnJob r) Applied patch)))) (\<lambda>job. applied j job)"
    if "plainPatch patch" for patch
  proof (rule lands_call)
    fix r w assume a: "at j Applying r w \<and> marked w (jobRevisionID j)"
    then have m: "moves (jobStatus (rnJob r)) Applied" and "jobID (rnJob r) = jobID j"
      by (simp_all add: at_def sameJob_def moves.finish)
    with setStatus_ok [OF _ _ m that, of w] a
    show "\<exists>x w'. orError (setStatus orc (rnJob r) Applied patch) w = (Inr x, w') \<and> applied j x r w'"
      by (auto simp: orError_def at_def applied_def sameJob_def)
  qed
  have step: "lands (at j Applying) (setStep x) (\<lambda>_ r w. at j Applying r w \<and> True)" for x
    by (rule lands_post [OF lands_step(1)]) simp_all
  show ?thesis
    unfolding finishApplied_def
    by (rule lands_bind [OF step], rule lands_bind [OF lands_now], assumption, rule lands_fact, rule lands_bind [OF mark], assumption,
        rule lands_bind [OF lands_now], simp, rule lands_fact, rule fin) (simp add: plainPatch_def emptyPatch_def)
qed

lemma lands_execute:
  assumes "\<And>job w. legal w \<Longrightarrow> sameJob j job \<Longrightarrow>
    \<exists>cands w'. render (DesiredSnapshot snapshot) job w = (Inr cands, w') \<and> legal w' \<and> stored w' = stored w \<and>
    cands \<noteq> [] \<and> (\<forall>c \<in> set cands. applicable (jobRevisionID j) c)"
  shows "lands (at j Validating) (execute orc snapshot render) (\<lambda>job. applied j job)"
proof -
  have ren: "lands (at j Validating) (withRun (\<lambda>r. inWorld (render (DesiredSnapshot snapshot) (rnJob r))))
    (\<lambda>cands r w. at j Validating r w \<and> cands \<noteq> [] \<and> (\<forall>c \<in> set cands. applicable (jobRevisionID j) c))"
  proof (rule lands_call)
    fix r w assume a: "at j Validating r w"
    then show "\<exists>x w'. render (DesiredSnapshot snapshot) (rnJob r) w = (Inr x, w') \<and> at j Validating r w' \<and> x \<noteq> [] \<and>
        (\<forall>c \<in> set x. applicable (jobRevisionID j) c)"
      using assms [of w "rnJob r"] unfolding at_def by metis
  qed
  have health: "lands (\<lambda>r w. at j Applying r w \<and> \<not> isl x) (case x of Inl job \<Rightarrow> returnIO job | Inr h \<Rightarrow> finishApplied orc a h)
      (\<lambda>job. applied j job)" for x a
    by (rule lands_fact) (cases x, simp_all add: lands_finish)
  have stage: "lands (\<lambda>r w. at j Validating r w \<and> \<not> isl x)
      (case x of Inl job \<Rightarrow> returnIO job
       | Inr v \<Rightarrow> bindIO (setStep ''set_applying'') (\<lambda>_. bindIO (setApplying orc v) (\<lambda>_. bindIO (promoteLoop orc cands []) (\<lambda>a.
           bindIO (healthLoop orc cands []) (\<lambda>h. case h of Inl job \<Rightarrow> returnIO job | Inr out \<Rightarrow> finishApplied orc a out)))))
      (\<lambda>job. applied j job)" if c: "\<forall>c \<in> set cands. applicable (jobRevisionID j) c" for x cands
  proof (cases x)
    case (Inl j)
    then show ?thesis by (simp add: lands_def)
  next
    case (Inr v)
    show ?thesis
      unfolding Inr sum.case
      by (rule lands_fact, rule lands_bind [OF lands_step(1)], simp, rule lands_bind [OF lands_setApplying],
          rule lands_bind [OF lands_promoteLoop [OF c]], rule lands_bind [OF lands_healthLoop [OF c]], rule health)
  qed
  have go: "lands (at j Validating)
      (if cands = [] then throwIO ''No candidates were rendered''
       else bindIO (stageLoop orc cands []) (\<lambda>x. case x of Inl job \<Rightarrow> returnIO job
       | Inr v \<Rightarrow> bindIO (setStep ''set_applying'') (\<lambda>_. bindIO (setApplying orc v) (\<lambda>_. bindIO (promoteLoop orc cands []) (\<lambda>a.
           bindIO (healthLoop orc cands []) (\<lambda>h. case h of Inl job \<Rightarrow> returnIO job | Inr out \<Rightarrow> finishApplied orc a out))))))
      (\<lambda>job. applied j job)" if "cands \<noteq> [] \<and> (\<forall>c \<in> set cands. applicable (jobRevisionID j) c)" for cands
  proof -
    have c: "\<forall>c \<in> set cands. applicable (jobRevisionID j) c" and "cands \<noteq> []" using that by simp_all
    then show ?thesis by (simp only: if_False) (rule lands_bind [OF lands_stageLoop [OF c]], rule stage [OF c])
  qed
  show ?thesis
    unfolding execute_def by (rule lands_bind [OF ren], rule lands_fact, rule go)
qed

lemma Apply_lands:
  assumes "\<And>job w. legal w \<Longrightarrow> sameJob found job \<Longrightarrow>
      \<exists>cands w'. render (DesiredSnapshot snapshot) job w = (Inr cands, w') \<and> legal w' \<and> stored w' = stored w \<and>
      cands \<noteq> [] \<and> (\<forall>c \<in> set cands. applicable (jobRevisionID found) c)"
    and get: "Get orc jid w = (Inr (Some found), w1)" "legal w1" "stored w1 (jobID found) = Some found"
    and st: "jobStatus found = Queued \<or> jobStatus found = Validating"
  shows "\<exists>job w'. Apply orc jid snapshot render w = (Inr job, w') \<and> legal w' \<and> stored w' (jobID found) = Some job \<and>
    sameJob found job \<and> jobStatus job = Applied \<and> marked w' (jobRevisionID found)"
proof -
  obtain j w2 where c: "claimJob orc jid found w1 = ((j, None), w2)" "jobStatus j = Validating" "legal w2"
    "stored w2 (jobID found) = Some j" "sameJob found j"
  proof (cases "jobStatus found = Queued")
    case True
    then have "moves (jobStatus found) Validating" by (simp add: moves.claim)
    from setStatus_ok [OF get(2,3) this, of emptyPatch] show ?thesis
      using that True by (auto simp: claimJob_def plainPatch_def emptyPatch_def)
  next
    case False
    then have v: "jobStatus found = Validating" using st by simp
    then have "claimJob orc jid found w1 = ((found, None), w1)" by (simp add: claimJob_def)
    then show ?thesis by (rule that [OF _ v get(2,3)]) (simp add: sameJob_def)
  qed
  let ?s = "(\<lparr>rnJob = j, rnPromoted = [], rnStep = ''render'', rnService = ''none''\<rparr>, w2)"
  have "at found Validating (fst ?s) (snd ?s)" using c by (simp add: at_def)
  then obtain job s' where e: "execute orc snapshot render ?s = (Inr job, s')" "applied found job (fst s') (snd s')"
    using lands_execute [of found render snapshot, OF assms(1)] unfolding lands_def by blast
  show ?thesis
    unfolding Apply_def get(1) c(1) prod.case sum.case option.case applyRunFrom_def e(1)
    using e(2) by (cases s') (simp add: applied_def)
qed

end

end
