(* ===== verification/Poller.thy ===== *)
theory Poller
  imports ApplyTrace
begin

text \<open>
  The worker loop (\<open>worker/poller/poller.go\<close>): one poll, and the loop of polls and waits.  The stores, the
  applier, the clock, the wakeup, the heartbeat and the cancellation of the context are interfaces over the
  world, as in the code; an absent heartbeat or error callback is one that does nothing, an absent wakeup
  a wait that sleeps.  Reading the context is a call, because another goroutine may cancel it at any time.
  The loop runs until it is cancelled, so it is a partial function: \<open>None\<close> stands for a run that never
  returns.
\<close>

section \<open>One poll\<close>

record 'w PollOptions =
  poRecoverStale :: "int \<Rightarrow> ('w, nat) io"
  poClaimNext :: "string \<Rightarrow> ('w, Job option) io"
  poList :: "('w, Job list) io"
  poUpdate :: "string \<Rightarrow> JobPatch \<Rightarrow> ('w, Job) io"
  poGetRevision :: "string \<Rightarrow> ('w, Revision option) io"
  poLatestApplied :: "('w, Revision option) io"
  poApply :: "string \<Rightarrow> rawdoc \<Rightarrow> 'w Renderer \<Rightarrow> ('w, Job) io"
  poReconcileApplied :: "Revision \<Rightarrow> 'w Renderer \<Rightarrow> ('w, Job option) io"
  poRender :: "'w Renderer"
  poLeaseMs :: int
  poNow :: "'w \<Rightarrow> gotime \<times> 'w"
  poInterval :: int
  poWait :: "int \<Rightarrow> 'w \<Rightarrow> 'w"
  poHeartbeat :: "'w \<Rightarrow> 'w"
  poOnError :: "goerror \<Rightarrow> 'w \<Rightarrow> 'w"
  poCancelled :: "'w \<Rightarrow> bool \<times> 'w"

definition DefaultLeaseMs :: int where "DefaultLeaseMs = 120000"

definition isActive :: "Job \<Rightarrow> bool" where
  "isActive job \<longleftrightarrow> jobStatus job = Queued \<or> jobStatus job = Validating \<or> jobStatus job = Applying"

definition leaseOf :: "'w PollOptions \<Rightarrow> int" where
  "leaseOf opts = (if poLeaseMs opts \<le> 0 then DefaultLeaseMs else poLeaseMs opts)"

text \<open>The branch without a claimed job, and the branch with one.\<close>

definition pollIdle :: "'w PollOptions \<Rightarrow> ('w, Job option) io" where
  "pollIdle opts =
     bindIO (poList opts) (\<lambda>jobs.
     if list_ex isActive jobs then returnIO None
     else bindIO (poLatestApplied opts) (\<lambda>revision.
       case revision of
         None \<Rightarrow> returnIO None
       | Some r \<Rightarrow> poReconcileApplied opts r (poRender opts)))"

definition missingRevision :: "Job \<Rightarrow> gotime \<Rightarrow> JobPatch" where
  "missingRevision job now =
     emptyPatch\<lparr>patStatus := Some Failed, patErrorMessage := SetTo (''Revision not found: '' @ jobRevisionID job),
       patFinishedAt := SetTo now\<rparr>"

definition pollClaimed :: "'w PollOptions \<Rightarrow> Job \<Rightarrow> ('w, Job option) io" where
  "pollClaimed opts job =
     bindIO (poGetRevision opts (jobRevisionID job)) (\<lambda>revision.
     case revision of
       None \<Rightarrow>
         bindIO (total (poNow opts)) (\<lambda>now.
         bindIO (poUpdate opts (jobID job) (missingRevision job now)) (\<lambda>failed. returnIO (Some failed)))
     | Some r \<Rightarrow>
         bindIO (poApply opts (jobID job) (Doc (rvSnapshot r)) (poRender opts)) (\<lambda>applied. returnIO (Some applied)))"

definition PollOnce :: "'w PollOptions \<Rightarrow> ('w, Job option) io" where
  "PollOnce opts =
     bindIO (poRecoverStale opts (leaseOf opts)) (\<lambda>_.
     bindIO (poClaimNext opts []) (\<lambda>claimed.
     case claimed of None \<Rightarrow> pollIdle opts | Some job \<Rightarrow> pollClaimed opts job))"

section \<open>The loop\<close>

text \<open>The inner loop: polls until one returns nothing or an error.\<close>

partial_function (option) drain :: "'w PollOptions \<Rightarrow> 'w \<Rightarrow> 'w option" where
  "drain opts w =
     (case poCancelled opts w of
        (c, w1) \<Rightarrow>
          if c then Some w1
          else (case PollOnce opts w1 of
                  (res, w2) \<Rightarrow>
                    (case res of
                       Inl e \<Rightarrow> Some (poOnError opts e w2)
                     | Inr job \<Rightarrow> if job = None then Some w2 else drain opts w2)))"

partial_function (option) runLoop :: "'w PollOptions \<Rightarrow> 'w \<Rightarrow> 'w option" where
  "runLoop opts w =
     (case poCancelled opts w of
        (c, w1) \<Rightarrow>
          if c then Some w1
          else Option.bind (drain opts (poHeartbeat opts w1)) (\<lambda>w2.
            case poCancelled opts w2 of
              (c2, w3) \<Rightarrow> if c2 then Some w3 else runLoop opts (poWait opts (poInterval opts) w3)))"

definition Run :: "'w PollOptions \<Rightarrow> 'w \<Rightarrow> ((goerror + unit) \<times> 'w) option" where
  "Run opts w =
     (if poInterval opts \<le> 0 then Some (Inl ''poller: Interval must be positive'', w)
      else map_option (\<lambda>w'. (Inr (), w')) (runLoop opts w))"

declare drain.simps [code] runLoop.simps [code]

section \<open>Lemmas\<close>

text \<open>
  The loop returns when the queue drains and the shutdown comes: \<open>backlog\<close> bounds the polls that find work,
  \<open>remaining\<close> the waits until the context is cancelled.
\<close>

definition draining :: "'w PollOptions \<Rightarrow> ('w \<Rightarrow> nat) \<Rightarrow> bool" where
  "draining opts backlog \<longleftrightarrow>
     (\<forall>w w1 j w2. poCancelled opts w = (False, w1) \<and> PollOnce opts w1 = (Inr (Some j), w2) \<longrightarrow> backlog w2 < backlog w)"

definition shuttingDown :: "'w PollOptions \<Rightarrow> ('w \<Rightarrow> nat) \<Rightarrow> bool" where
  "shuttingDown opts remaining \<longleftrightarrow>
     (\<forall>w. remaining (snd (poCancelled opts w)) \<le> remaining w) \<and>
     (\<forall>w. remaining (poHeartbeat opts w) \<le> remaining w) \<and>
     (\<forall>w. remaining (snd (PollOnce opts w)) \<le> remaining w) \<and>
     (\<forall>e w. remaining (poOnError opts e w) \<le> remaining w) \<and>
     (\<forall>w w1. poCancelled opts w = (False, w1) \<longrightarrow> remaining (poWait opts (poInterval opts) w1) < remaining w)"

lemma drain_returns:
  assumes "draining opts backlog" "shuttingDown opts remaining"
  shows "\<exists>w'. drain opts w = Some w' \<and> remaining w' \<le> remaining w"
proof (induction w rule: measure_induct_rule [of backlog])
  case (less w)
  obtain c w1 where c: "poCancelled opts w = (c, w1)" by (cases "poCancelled opts w")
  obtain res w2 where p: "PollOnce opts w1 = (res, w2)" by (cases "PollOnce opts w1")
  have r1: "remaining w1 \<le> remaining w" using assms(2) c unfolding shuttingDown_def by (metis snd_conv)
  have r2: "remaining w2 \<le> remaining w"
    using assms(2) p r1 unfolding shuttingDown_def by (metis snd_conv le_trans)
  show ?case
  proof (cases res)
    case (Inl e)
    have "remaining (poOnError opts e w2) \<le> remaining w"
      using assms(2) r2 unfolding shuttingDown_def by (metis le_trans)
    then show ?thesis using r1 by (subst drain.simps) (simp add: c p Inl)
  next
    case (Inr job)
    show ?thesis
    proof (cases "\<not> c \<and> job \<noteq> None")
      case True
      then obtain j where j: "job = Some j" "\<not> c" by auto
      then have "backlog w2 < backlog w" using assms(1) c p unfolding draining_def Inr by simp
      then obtain w' where "drain opts w2 = Some w'" "remaining w' \<le> remaining w2" using less.IH by blast
      then show ?thesis using r2 by (subst drain.simps) (simp add: c p Inr j)
    next
      case False
      then show ?thesis using r1 r2 by (subst drain.simps) (auto simp: c p Inr)
    qed
  qed
qed

lemma runLoop_returns:
  assumes "draining opts backlog" "shuttingDown opts remaining"
  shows "\<exists>w'. runLoop opts w = Some w'"
proof (induction w rule: measure_induct_rule [of remaining])
  case (less w)
  obtain c w1 where c: "poCancelled opts w = (c, w1)" by (cases "poCancelled opts w")
  obtain w2 where d: "drain opts (poHeartbeat opts w1) = Some w2" "remaining w2 \<le> remaining (poHeartbeat opts w1)"
    using drain_returns [OF assms] by blast
  obtain c2 w3 where c2: "poCancelled opts w2 = (c2, w3)" by (cases "poCancelled opts w2")
  have "remaining w2 \<le> remaining w"
    using assms(2) c d(2) unfolding shuttingDown_def by (metis snd_conv le_trans)
  then have "\<not> c2 \<Longrightarrow> remaining (poWait opts (poInterval opts) w3) < remaining w"
    using assms(2) c2 unfolding shuttingDown_def by (metis (full_types) less_le_trans)
  then have "\<not> c2 \<Longrightarrow> \<exists>w'. runLoop opts (poWait opts (poInterval opts) w3) = Some w'" using less.IH by blast
  then show ?case by (subst runLoop.simps) (auto simp: c c2 d(1))
qed

text \<open>It returns for no other reason than the cancelled context.\<close>

lemma runLoop_cancelled: "runLoop opts w = Some w' \<Longrightarrow> \<exists>w0. poCancelled opts w0 = (True, w')"
proof (induction rule: runLoop.raw_induct [rotated 1, consumes 1])
  case (1 loop opts w w')
  obtain c w1 where c: "poCancelled opts w = (c, w1)" by (cases "poCancelled opts w")
  show ?case
  proof (cases c)
    case True
    then show ?thesis using 1(2) c by auto
  next
    case False
    then obtain w2 where d: "drain opts (poHeartbeat opts w1) = Some w2"
      using 1(2) c by (auto simp: Option.bind_eq_Some_conv)
    obtain c2 w3 where c2: "poCancelled opts w2 = (c2, w3)" by (cases "poCancelled opts w2")
    show ?thesis
      using 1 False c c2 d by (cases c2) auto
  qed
qed

text \<open>A set of worlds that every poll stays in while it reports work is never left.\<close>

lemma drain_spins:
  assumes "\<And>w. w \<in> S \<Longrightarrow> \<exists>w1 j w2. poCancelled opts w = (False, w1) \<and> PollOnce opts w1 = (Inr (Some j), w2) \<and> w2 \<in> S"
    and "w \<in> S"
  shows "drain opts w = None"
proof -
  have "drain o' w = Some w' \<Longrightarrow> o' = opts \<Longrightarrow> w \<notin> S" for o' w w'
  proof (induction rule: drain.raw_induct [rotated 1, consumes 1])
    case (1 loop o' w w')
    show ?case
    proof
      assume "w \<in> S"
      then obtain w1 j w2 where "poCancelled opts w = (False, w1)" "PollOnce opts w1 = (Inr (Some j), w2)" "w2 \<in> S"
        using assms(1) by blast
      then show False using 1 by auto
    qed
  qed
  then show ?thesis using assms(2) by (cases "drain opts w") auto
qed

section \<open>Properties\<close>

text \<open>
  C31: The worker loop refuses an interval that is not positive and otherwise returns without an error, for
  no other reason than a cancelled context; and it does return when every poll that finds work shrinks a
  backlog and every wait brings the shutdown nearer, whatever errors the polls report meanwhile.
\<close>
theorem Run_returns:
  "(poInterval opts \<le> 0 \<longrightarrow> Run opts w = Some (Inl ''poller: Interval must be positive'', w)) \<and>
   (0 < poInterval opts \<longrightarrow>
      (\<forall>r w'. Run opts w = Some (r, w') \<longrightarrow> r = Inr () \<and> (\<exists>w0. poCancelled opts w0 = (True, w'))) \<and>
      (\<forall>backlog remaining. draining opts backlog \<and> shuttingDown opts remaining \<longrightarrow> (\<exists>w'. Run opts w = Some (Inr (), w'))))"
  using runLoop_cancelled [of opts w] runLoop_returns [of opts _ _ w] by (fastforce simp: Run_def)

text \<open>An idle installation that is shut down after some waits.\<close>

definition idleOptions :: "nat PollOptions" where
  "idleOptions =
     \<lparr>poRecoverStale = \<lambda>lease. returnIO 0, poClaimNext = \<lambda>target. returnIO None, poList = returnIO [],
      poUpdate = \<lambda>jid p. throwIO ''unused'', poGetRevision = \<lambda>rid. returnIO None, poLatestApplied = returnIO None,
      poApply = \<lambda>jid s r. throwIO ''unused'', poReconcileApplied = \<lambda>rv r. returnIO None,
      poRender = \<lambda>s j. returnIO [], poLeaseMs = 0, poNow = \<lambda>w. ((0, 0), w), poInterval = 5000,
      poWait = \<lambda>i w. w - 1, poHeartbeat = \<lambda>w. w, poOnError = \<lambda>e w. w, poCancelled = \<lambda>w. (w = 0, w)\<rparr>"

theorem Run_returns_witness: "\<exists>w'. Run idleOptions 3 = Some (Inr (), w') \<and> w' = 0"
proof -
  have idle: "PollOnce idleOptions w = (Inr None, w)" for w
    by (simp add: PollOnce_def pollIdle_def idleOptions_def bindIO_def)
  have positive: "0 < poInterval idleOptions" by (simp add: idleOptions_def)
  have "draining idleOptions (\<lambda>_. 0)" by (simp add: draining_def idle)
  moreover have "shuttingDown idleOptions id" unfolding shuttingDown_def idle by (simp add: idleOptions_def)
  ultimately obtain w' where r: "Run idleOptions 3 = Some (Inr (), w')" using Run_returns [of idleOptions 3] positive by blast
  then obtain w0 where "poCancelled idleOptions w0 = (True, w')" using Run_returns [of idleOptions 3] positive by blast
  then have "w' = 0" by (simp add: idleOptions_def)
  with r show ?thesis by blast
qed

section \<open>Observation\<close>

text \<open>
  When nginx goes on reporting drift, the repair job of \<open>ReconcileApplied\<close> is rolled back and returned as
  work done, so the inner loop polls again at once and never reaches the wait: each turn enqueues and
  applies another repair job.  Here the stored job is the whole world, health reports drift, and the worker
  polls forever although no call fails.
\<close>

definition driftControl :: "Request \<Rightarrow> (Job, Response) io" where
  "driftControl req w =
     (Inr \<lparr>rsRequestID = rqRequestID req, rsOK = True, rsOperation = rqOperation req,
       rsOutput = (if rqOperation req = OperationHealth then Some (JObj [(''status'', JStr ''drift'')]) else None), rsError = []\<rparr>, w)"

definition driftOrchestrator :: "Job Orchestrator" where
  "driftOrchestrator = (memoryOrchestrator (\<lambda>_. True) [])
     \<lparr>Execute := driftControl,
      EnqueueOnce := \<lambda>input w. let job = queuedJob\<lparr>jobRevisionID := inRevisionID input, jobStatus := inStatus input\<rparr> in (Inr (Some job), job)\<rparr>"

definition driftRevision :: Revision where
  "driftRevision = \<lparr>rvID = ''r'', rvRevisionNumber = 1, rvChecksum = [], rvSnapshot = JNull, rvActorUserID = None,
     rvSource = SourceOrdinary, rvSourcePrimaryID = None, rvSourceNodeID = None, rvSourceRevisionID = None,
     rvSnapshotContentHash = None, rvSnapshotVersion = None, rvReplicationVersion = None, rvLeadershipGeneration = None,
     rvCreatedAt = (0, 0), rvAppliedAt = Some (0, 0)\<rparr>"

definition driftOptions :: "Job PollOptions" where
  "driftOptions =
     \<lparr>poRecoverStale = \<lambda>lease. returnIO 0, poClaimNext = \<lambda>target. returnIO None, poList = \<lambda>w. (Inr [w], w),
      poUpdate = \<lambda>jid p. orError (Update driftOrchestrator jid p), poGetRevision = \<lambda>rid. returnIO (Some driftRevision),
      poLatestApplied = returnIO (Some driftRevision), poApply = Apply driftOrchestrator,
      poReconcileApplied = ReconcileApplied driftOrchestrator, poRender = memoryRender, poLeaseMs = 0,
      poNow = \<lambda>w. ((0, 0), w), poInterval = 5000, poWait = \<lambda>i w. w, poHeartbeat = \<lambda>w. w, poOnError = \<lambda>e w. w,
      poCancelled = \<lambda>w. (False, w)\<rparr>"

lemma drift_poll:
  "PollOnce driftOptions (queuedJob\<lparr>jobStatus := RolledBack\<rparr>) =
   (Inr (Some (queuedJob\<lparr>jobStatus := RolledBack\<rparr>)), queuedJob\<lparr>jobStatus := RolledBack\<rparr>)"
  by code_simp

lemma drift_running: "poCancelled driftOptions w = (False, w)"
  by (simp add: driftOptions_def)

lemma drift_polls_forever: "drain driftOptions (queuedJob\<lparr>jobStatus := RolledBack\<rparr>) = None"
  by (rule drain_spins [of "{queuedJob\<lparr>jobStatus := RolledBack\<rparr>}"])
     (use drift_poll in \<open>simp_all add: drift_running\<close>)

end
