(* ===== verification/JsonParse.thy ===== *)
theory JsonParse
  imports GoJson
begin

text \<open>
  Reading JSON text, the part of \<open>encoding/json\<close> that the wire protocol of the control socket relies on
  (\<open>json.Valid\<close>, \<open>json.Unmarshal\<close> of an object and of a string) and \<open>unicode/utf8\<close>.  A number that is not an
  integer literal keeps its literal.  An object keeps all its members in the order of the text; a reader that
  decodes into a map takes the last of a name.  Nesting
  deeper than 10000 is refused, as in the scanner of the library.  The parser counts down from twice the
  length of the text; \<open>parseValue_enough\<close> shows that this is never the reason to stop.
\<close>

section \<open>UTF-8\<close>

definition RuneError :: nat where "RuneError = 65533"

definition byteIn :: "nat \<Rightarrow> nat \<Rightarrow> char \<Rightarrow> bool" where
  "byteIn lo hi c \<longleftrightarrow> lo \<le> of_char c \<and> of_char c \<le> hi"

text \<open>The range of the second byte, by the first.\<close>

definition secondOK :: "char \<Rightarrow> char \<Rightarrow> bool" where
  "secondOK c0 c1 =
     (if c0 = CHR 0xE0 then byteIn 160 191 c1
      else if c0 = CHR 0xED then byteIn 128 159 c1
      else if c0 = CHR 0xF0 then byteIn 144 191 c1
      else if c0 = CHR 0xF4 then byteIn 128 143 c1
      else byteIn 128 191 c1)"

text \<open>\<open>utf8.DecodeRune\<close>: the code point and its width; an ill-formed sequence is the error rune of width 1.\<close>

fun DecodeRune :: "string \<Rightarrow> nat \<times> nat" where
  "DecodeRune [] = (RuneError, 0)"
| "DecodeRune (c0 # s) =
     (let b0 = of_char c0 :: nat in
      if b0 < 128 then (b0, 1)
      else if 194 \<le> b0 \<and> b0 \<le> 223 then
        (case s of c1 # _ \<Rightarrow>
           if byteIn 128 191 c1 then ((b0 - 192) * 64 + (of_char c1 - 128), 2) else (RuneError, 1)
         | [] \<Rightarrow> (RuneError, 1))
      else if 224 \<le> b0 \<and> b0 \<le> 239 then
        (case s of c1 # c2 # _ \<Rightarrow>
           if secondOK c0 c1 \<and> byteIn 128 191 c2
           then ((b0 - 224) * 4096 + (of_char c1 - 128) * 64 + (of_char c2 - 128), 3) else (RuneError, 1)
         | _ \<Rightarrow> (RuneError, 1))
      else if 240 \<le> b0 \<and> b0 \<le> 244 then
        (case s of c1 # c2 # c3 # _ \<Rightarrow>
           if secondOK c0 c1 \<and> byteIn 128 191 c2 \<and> byteIn 128 191 c3
           then ((b0 - 240) * 262144 + (of_char c1 - 128) * 4096 + (of_char c2 - 128) * 64 + (of_char c3 - 128), 4)
           else (RuneError, 1)
         | _ \<Rightarrow> (RuneError, 1))
      else (RuneError, 1))"

lemma DecodeRune_width: "s \<noteq> [] \<Longrightarrow> 1 \<le> snd (DecodeRune s) \<and> snd (DecodeRune s) \<le> length s"
  by (cases s) (auto simp: Let_def split: list.split)

lemma DecodeRune_drop: "length (drop (snd (DecodeRune (c # s))) (c # s)) < length (c # s)"
proof -
  have "1 \<le> snd (DecodeRune (c # s))" using DecodeRune_width [of "c # s"] by blast
  then show ?thesis by (simp only: length_drop) (simp del: DecodeRune.simps)
qed

text \<open>\<open>utf8.AppendRune\<close> of a code point outside the surrogates.\<close>

definition EncodeRune :: "nat \<Rightarrow> string" where
  "EncodeRune r =
     (if r < 128 then [char_of r]
      else if r < 2048 then [char_of (192 + r div 64), char_of (128 + r mod 64)]
      else if r < 65536 then [char_of (224 + r div 4096), char_of (128 + r div 64 mod 64), char_of (128 + r mod 64)]
      else [char_of (240 + r div 262144), char_of (128 + r div 4096 mod 64), char_of (128 + r div 64 mod 64),
            char_of (128 + r mod 64)])"

text \<open>The text as \<open>range\<close> sees it: every ill-formed byte becomes the replacement character.\<close>

function toValidUTF8 :: "string \<Rightarrow> string" where
  "toValidUTF8 [] = []"
| "toValidUTF8 (c # s) =
     (if DecodeRune (c # s) = (RuneError, 1) then [CHR 0xEF, CHR 0xBF, CHR 0xBD]
      else take (snd (DecodeRune (c # s))) (c # s)) @ toValidUTF8 (drop (snd (DecodeRune (c # s))) (c # s))"
  by pat_completeness auto
termination
  by (relation "measure length") (simp_all only: wf_measure in_measure DecodeRune_drop)

declare toValidUTF8.simps(2) [simp del]

definition validUTF8 :: "string \<Rightarrow> bool" where
  "validUTF8 s \<longleftrightarrow> toValidUTF8 s = s"

lemma toValidUTF8_ascii: "list_all (\<lambda>c. c < CHR 0x80) s \<Longrightarrow> toValidUTF8 s = s"
proof (induction s)
  case (Cons c s)
  then have "DecodeRune (c # s) = (of_char c, 1)" "of_char c < (128 :: nat)" by (simp_all add: less_char_def)
  then show ?case using Cons by (subst toValidUTF8.simps) (simp add: RuneError_def del: DecodeRune.simps)
qed simp

lemma validUTF8_ascii: "list_all (\<lambda>c. c < CHR 0x80) s \<Longrightarrow> validUTF8 s"
  by (simp add: validUTF8_def toValidUTF8_ascii)

section \<open>Tokens\<close>

definition isSpace :: "char \<Rightarrow> bool" where
  "isSpace c \<longleftrightarrow> c = CHR 0x20 \<or> c = CHR 0x09 \<or> c = CHR 0x0D \<or> c = CHR 0x0A"

definition skipSpace :: "string \<Rightarrow> string" where
  "skipSpace = dropWhile isSpace"

definition simpleEscape :: "char \<Rightarrow> char option" where
  "simpleEscape e =
     (if e = CHR 0x22 \<or> e = CHR 0x5C \<or> e = CHR ''/'' then Some e
      else if e = CHR ''b'' then Some (CHR 0x08)
      else if e = CHR ''f'' then Some (CHR 0x0C)
      else if e = CHR ''n'' then Some (CHR 0x0A)
      else if e = CHR ''r'' then Some (CHR 0x0D)
      else if e = CHR ''t'' then Some (CHR 0x09)
      else None)"

definition hexValue :: "char \<Rightarrow> nat" where
  "hexValue c = (if isDigit c then of_char c - 48 else if CHR ''a'' \<le> c then of_char c - 87 else of_char c - 55)"

text \<open>Four hexadecimal digits at the front.\<close>

definition getu4 :: "string \<Rightarrow> nat option" where
  "getu4 s =
     (if 4 \<le> length s \<and> list_all isHex (take 4 s)
      then Some (foldl (\<lambda>a c. a * 16 + hexValue c) 0 (take 4 s)) else None)"

text \<open>A \<open>\\u\<close> escape: its code point and how many more characters belong to it.  A surrogate pair is one
  code point, a surrogate on its own the replacement character.\<close>

definition unicodeEscape :: "string \<Rightarrow> (nat \<times> nat) option" where
  "unicodeEscape s =
     (case getu4 s of
        None \<Rightarrow> None
      | Some r \<Rightarrow>
          if 55296 \<le> r \<and> r < 57344 then
            (case (if take 2 (drop 4 s) = BS @ ''u'' then getu4 (drop 6 s) else None) of
               Some r2 \<Rightarrow>
                 if r < 56320 \<and> 56320 \<le> r2 \<and> r2 < 57344
                 then Some ((r - 55296) * 1024 + (r2 - 56320) + 65536, 10) else Some (RuneError, 4)
             | None \<Rightarrow> Some (RuneError, 4))
          else Some (r, 4))"

text \<open>The rest of a string literal after its opening quote: its bytes and what follows the closing quote.\<close>

function unescape :: "string \<Rightarrow> (string \<times> string) option" where
  "unescape [] = None"
| "unescape (c # s) =
     (if c = CHR 0x22 then Some ([], s)
      else if c = CHR 0x5C then
        (case s of
           [] \<Rightarrow> None
         | e # s' \<Rightarrow>
             if e = CHR ''u'' then
               (case unicodeEscape s' of
                  None \<Rightarrow> None
                | Some (r, n) \<Rightarrow> map_option (apfst (\<lambda>t. EncodeRune r @ t)) (unescape (drop n s')))
             else
               (case simpleEscape e of
                  None \<Rightarrow> None
                | Some b \<Rightarrow> map_option (apfst (Cons b)) (unescape s')))
      else if c < CHR '' '' then None
      else map_option (apfst (Cons c)) (unescape s))"
  by pat_completeness auto
termination
  by (relation "measure length") auto

text \<open>A string literal without its opening quote; the decoder replaces ill-formed bytes.\<close>

definition parseString :: "string \<Rightarrow> (string \<times> string) option" where
  "parseString s = map_option (apfst toValidUTF8) (unescape s)"

text \<open>The grammar of numbers, part by part: each returns what follows.\<close>

definition skipDigits :: "string \<Rightarrow> string option" where
  "skipDigits s = (if s \<noteq> [] \<and> isDigit (hd s) then Some (dropWhile isDigit s) else None)"

definition skipInteger :: "string \<Rightarrow> string option" where
  "skipInteger s =
     (let s1 = (if HasPrefix s ''-'' then tl s else s) in
      if HasPrefix s1 ''0'' then Some (tl s1) else skipDigits s1)"

definition skipFraction :: "string \<Rightarrow> string option" where
  "skipFraction s = (if HasPrefix s ''.'' then skipDigits (tl s) else Some s)"

definition skipExponent :: "string \<Rightarrow> string option" where
  "skipExponent s =
     (if HasPrefix s ''e'' \<or> HasPrefix s ''E''
      then skipDigits (if HasPrefix (tl s) ''+'' \<or> HasPrefix (tl s) ''-'' then tl (tl s) else tl s)
      else Some s)"

definition parseNumber :: "string \<Rightarrow> (json \<times> string) option" where
  "parseNumber s =
     (case skipInteger s of
        None \<Rightarrow> None
      | Some s1 \<Rightarrow>
          (case Option.bind (skipFraction s1) skipExponent of
             None \<Rightarrow> None
           | Some rest \<Rightarrow>
               let literal = take (length s - length rest) s in
               Some (if rest \<noteq> s1 then JFrac literal
                     else if HasPrefix s ''-'' then JInt (- int (natOfDigits (tl literal)))
                     else JInt (int (natOfDigits literal)), rest)))"

section \<open>Values\<close>

definition maxNestingDepth :: nat where "maxNestingDepth = 10000"

fun parseValue :: "nat \<Rightarrow> nat \<Rightarrow> string \<Rightarrow> (json \<times> string) option"
and parseMembers :: "nat \<Rightarrow> nat \<Rightarrow> object \<Rightarrow> string \<Rightarrow> (json \<times> string) option"
and parseElements :: "nat \<Rightarrow> nat \<Rightarrow> json list \<Rightarrow> string \<Rightarrow> (json \<times> string) option" where
  "parseValue 0 depth s = None"
| "parseValue (Suc n) depth s =
     (case skipSpace s of
        [] \<Rightarrow> None
      | c # s1 \<Rightarrow>
          if c = CHR 0x22 then map_option (apfst JStr) (parseString s1)
          else if c = CHR ''{'' then
            if depth = 0 then None
            else if HasPrefix (skipSpace s1) ''}'' then Some (JObj [], tl (skipSpace s1))
            else parseMembers n (depth - 1) [] s1
          else if c = CHR ''['' then
            if depth = 0 then None
            else if HasPrefix (skipSpace s1) '']'' then Some (JArr [], tl (skipSpace s1))
            else parseElements n (depth - 1) [] s1
          else if HasPrefix (c # s1) ''true'' then Some (JBool True, drop 3 s1)
          else if HasPrefix (c # s1) ''false'' then Some (JBool False, drop 4 s1)
          else if HasPrefix (c # s1) ''null'' then Some (JNull, drop 3 s1)
          else parseNumber (c # s1))"
| "parseMembers 0 depth m s = None"
| "parseMembers (Suc n) depth m s =
     (if \<not> HasPrefix (skipSpace s) DQ then None
      else case parseString (tl (skipSpace s)) of
        None \<Rightarrow> None
      | Some (key, s1) \<Rightarrow>
          if \<not> HasPrefix (skipSpace s1) '':'' then None
          else case parseValue n depth (tl (skipSpace s1)) of
            None \<Rightarrow> None
          | Some (v, s2) \<Rightarrow>
              if HasPrefix (skipSpace s2) '','' then parseMembers n depth (m @ [(key, v)]) (tl (skipSpace s2))
              else if HasPrefix (skipSpace s2) ''}'' then Some (JObj (m @ [(key, v)]), tl (skipSpace s2))
              else None)"
| "parseElements 0 depth xs s = None"
| "parseElements (Suc n) depth xs s =
     (case parseValue n depth s of
        None \<Rightarrow> None
      | Some (v, s1) \<Rightarrow>
          if HasPrefix (skipSpace s1) '','' then parseElements n depth (xs @ [v]) (tl (skipSpace s1))
          else if HasPrefix (skipSpace s1) '']'' then Some (JArr (xs @ [v]), tl (skipSpace s1))
          else None)"

text \<open>\<open>json.Unmarshal\<close> of a whole text into an untyped value; \<open>json.Valid\<close> is that it succeeds.\<close>

definition parseJson :: "string \<Rightarrow> json option" where
  "parseJson s =
     (case parseValue (2 * length s + 1) maxNestingDepth s of
        Some (v, rest) \<Rightarrow> if skipSpace rest = [] then Some v else None
      | None \<Rightarrow> None)"

definition jsonValid :: "string \<Rightarrow> bool" where
  "jsonValid s \<longleftrightarrow> parseJson s \<noteq> None"

section \<open>Lemmas: lengths\<close>

lemma length_skipSpace: "length (skipSpace s) \<le> length s"
  unfolding skipSpace_def by (rule length_dropWhile_le)

lemma unescape_shorter: "unescape s = Some (t, r) \<Longrightarrow> length r < length s"
proof (induction s arbitrary: t rule: unescape.induct)
  case (2 c s)
  show ?case
  proof (cases "c = CHR 0x22 \<or> c \<noteq> CHR 0x5C")
    case True
    then show ?thesis using "2.prems" "2.IH"(3) by (fastforce split: if_splits)
  next
    case False
    then obtain e s' where s: "s = e # s'" using "2.prems" by (cases s) auto
    show ?thesis
    proof (cases "e = CHR ''u''")
      case True
      then obtain u n where u: "unicodeEscape s' = Some (u, n)" using "2.prems" False s by (auto split: option.splits)
      then obtain t' where "unescape (drop n s') = Some (t', r)" using "2.prems" False s True by auto
      then show ?thesis using "2.IH"(1) [OF _ _ s True u refl, of t'] False s by simp
    next
      case e: False
      then obtain b where b: "simpleEscape e = Some b" using "2.prems" False s by (auto split: option.splits)
      then obtain t' where "unescape s' = Some (t', r)" using "2.prems" False s e by auto
      then show ?thesis using "2.IH"(2) [OF _ _ s e b, of t'] False s by simp
    qed
  qed
qed simp

lemma parseString_shorter: "parseString s = Some (t, r) \<Longrightarrow> length r < length s"
  unfolding parseString_def using unescape_shorter by fastforce

lemma skipDigits_shorter: "skipDigits s = Some r \<Longrightarrow> length r < length s"
  unfolding skipDigits_def by (cases s) (auto split: if_splits intro: le_imp_less_Suc length_dropWhile_le)

lemma skipInteger_shorter: "skipInteger s = Some r \<Longrightarrow> length r < length s"
  unfolding skipInteger_def Let_def
  by (cases s) (auto split: if_splits dest: skipDigits_shorter simp: HasPrefix_iff)

lemma skipFraction_le: "skipFraction s = Some r \<Longrightarrow> length r \<le> length s"
  unfolding skipFraction_def by (cases s) (auto split: if_splits dest!: skipDigits_shorter)

lemma skipExponent_le: "skipExponent s = Some r \<Longrightarrow> length r \<le> length s"
  unfolding skipExponent_def
  by (cases s; cases "tl s") (auto split: if_splits dest!: skipDigits_shorter)

lemma parseNumber_shorter: "parseNumber s = Some (v, r) \<Longrightarrow> length r < length s"
  unfolding parseNumber_def Let_def
  by (fastforce split: option.splits simp: Option.bind_eq_Some_conv dest: skipInteger_shorter skipFraction_le skipExponent_le)

lemma tl_skipSpace_shorter: "HasPrefix (skipSpace s) [c] \<Longrightarrow> length (tl (skipSpace s)) < length s"
  using length_skipSpace [of s] by (cases "skipSpace s") auto

lemma skipSpace_Cons_shorter: "skipSpace s = c # t \<Longrightarrow> length t < length s"
  using length_skipSpace [of s] by simp

lemma parse_shorter:
  "parseValue n d s = Some (v, r) \<Longrightarrow> length r < length s"
  "parseMembers n d m s = Some (v, r) \<Longrightarrow> length r < length s"
  "parseElements n d xs s = Some (v, r) \<Longrightarrow> length r < length s"
proof (induction n d s and n d m s and n d xs s arbitrary: v r and v r and v r
    rule: parseValue_parseMembers_parseElements.induct)
  case (2 n d s)
  then obtain c s1 where s1: "skipSpace s = c # s1" by (cases "skipSpace s") auto
  note s1' = skipSpace_Cons_shorter [OF s1]
  consider "c = CHR 0x22" | "c = CHR ''{''" | "c = CHR ''[''" | "c \<noteq> CHR 0x22" "c \<noteq> CHR ''{''" "c \<noteq> CHR ''[''" by blast
  then show ?case
  proof cases
    case 1
    then obtain t where "parseString s1 = Some (t, r)" using "2.prems" s1 by auto
    then show ?thesis using parseString_shorter s1' by fastforce
  next
    case 2
    show ?thesis
    proof (cases "HasPrefix (skipSpace s1) ''}''")
      case True
      then show ?thesis using "2.prems" s1 s1' 2 tl_skipSpace_shorter [OF True] by (auto split: if_splits)
    next
      case False
      then have "parseMembers n (d - 1) [] s1 = Some (v, r)" "d \<noteq> 0" using "2.prems" s1 2 by (auto split: if_splits)
      then show ?thesis using "2.IH"(1) [OF s1 _ 2] False s1' 2 by fastforce
    qed
  next
    case 3
    show ?thesis
    proof (cases "HasPrefix (skipSpace s1) '']''")
      case True
      then show ?thesis using "2.prems" s1 s1' 3 tl_skipSpace_shorter [OF True] by (auto split: if_splits)
    next
      case False
      then have "parseElements n (d - 1) [] s1 = Some (v, r)" "d \<noteq> 0" using "2.prems" s1 3 by (auto split: if_splits)
      then show ?thesis using "2.IH"(2) [OF s1 _ _ 3] False s1' 3 by fastforce
    qed
  next
    case 4
    have "length (drop k s1) < length s" for k using s1' by simp
    moreover have "parseNumber (c # s1) = Some (v, r) \<Longrightarrow> length r < length s"
      using parseNumber_shorter [of "c # s1" v r] length_skipSpace [of s] s1 by simp
    ultimately show ?thesis using "2.prems" s1 4 by (auto split: if_splits)
  qed
next
  case (4 n d m s)
  let ?s = "tl (skipSpace s)"
  have q: "HasPrefix (skipSpace s) [CHR 0x22]" using "4.prems" by (auto split: if_splits)
  obtain key s1 where key: "parseString ?s = Some (key, s1)" using "4.prems" q by (auto split: option.splits)
  have colon: "HasPrefix (skipSpace s1) '':''" using "4.prems" q key by (auto split: if_splits)
  obtain x s2 where x: "parseValue n d (tl (skipSpace s1)) = Some (x, s2)" using "4.prems" q key colon by (auto split: option.splits)
  have "length s2 < length s"
    using tl_skipSpace_shorter [OF q] parseString_shorter [OF key] tl_skipSpace_shorter [OF colon]
      "4.IH"(1) [OF _ key refl _ x] q colon by simp
  then show ?case
    using "4.prems" q key colon x "4.IH"(2) [OF _ key refl _ x refl] tl_skipSpace_shorter [of s2]
    by (fastforce split: if_splits)
next
  case (6 n d xs s)
  obtain x s1 where x: "parseValue n d s = Some (x, s1)" using "6.prems" by (auto split: option.splits)
  then show ?case
    using "6.prems" "6.IH"(1) [OF x] "6.IH"(2) [OF x refl] tl_skipSpace_shorter [of s1]
    by (fastforce split: if_splits)
qed simp_all

declare parseValue.simps [simp del] parseMembers.simps [simp del] parseElements.simps [simp del]

text \<open>The countdown from twice the length is enough: more steps change nothing.\<close>

lemma parse_step:
  "(\<forall>d s. 2 * length s + 1 \<le> n \<longrightarrow> parseValue (Suc n) d s = parseValue n d s) \<and>
   (\<forall>d m s. 2 * length s + 2 \<le> n \<longrightarrow> parseMembers (Suc n) d m s = parseMembers n d m s) \<and>
   (\<forall>d xs s. 2 * length s + 2 \<le> n \<longrightarrow> parseElements (Suc n) d xs s = parseElements n d xs s)"
proof (induction n)
  case (Suc n)
  have V: "parseValue (Suc n) d s = parseValue n d s" if "2 * length s + 1 \<le> n" for d s using Suc that by blast
  have M: "parseMembers (Suc n) d m s = parseMembers n d m s" if "2 * length s + 2 \<le> n" for d m s using Suc that by blast
  have E: "parseElements (Suc n) d xs s = parseElements n d xs s" if "2 * length s + 2 \<le> n" for d xs s using Suc that by blast
  have "parseValue (Suc (Suc n)) d s = parseValue (Suc n) d s" if n: "2 * length s + 1 \<le> Suc n" for d s
  proof (cases "skipSpace s")
    case (Cons c s1)
    then have "2 * length s1 + 2 \<le> n" using skipSpace_Cons_shorter [OF Cons] n by simp
    note me = M [OF this] E [OF this]
    show ?thesis
      unfolding parseValue.simps(2) [of "Suc n"] parseValue.simps(2) [of n] Cons list.case me ..
  qed (simp add: parseValue.simps)
  moreover have "parseMembers (Suc (Suc n)) d m s = parseMembers (Suc n) d m s" if n: "2 * length s + 2 \<le> Suc n" for d m s
  proof (cases "HasPrefix (skipSpace s) DQ")
    case q: True
    show ?thesis
    proof (cases "parseString (tl (skipSpace s))")
      case (Some p)
      then obtain key s1 where key: "parseString (tl (skipSpace s)) = Some (key, s1)" by (cases p) simp
      have l1: "length s1 < length s" using tl_skipSpace_shorter [OF q] parseString_shorter [OF key] by simp
      show ?thesis
      proof (cases "HasPrefix (skipSpace s1) '':''")
        case colon: True
        let ?t = "tl (skipSpace s1)"
        have v: "parseValue (Suc n) d ?t = parseValue n d ?t"
          using tl_skipSpace_shorter [OF colon] l1 n by (intro V) simp
        show ?thesis
        proof (cases "parseValue n d ?t")
          case (Some p2)
          then obtain x s2 where x: "parseValue n d ?t = Some (x, s2)" by (cases p2) simp
          have "length s2 < length s" using parse_shorter(1) [OF x] tl_skipSpace_shorter [OF colon] l1 by simp
          then have "parseMembers (Suc n) d m' (tl (skipSpace s2)) = parseMembers n d m' (tl (skipSpace s2))"
            if "HasPrefix (skipSpace s2) '',''" for m'
            using tl_skipSpace_shorter [OF that] n by (intro M) simp
          then show ?thesis
            unfolding parseMembers.simps(2) [of "Suc n"] parseMembers.simps(2) [of n] key v x option.case prod.case
            by (simp cong: if_cong)
        next
          case None
          then show ?thesis
            by (simp add: parseMembers.simps(2) [of "Suc n"] parseMembers.simps(2) [of n] key v)
        qed
      next
        case False
        then show ?thesis unfolding parseMembers.simps(2) [of "Suc n"] parseMembers.simps(2) [of n] key by simp
      qed
    next
      case None
      then show ?thesis unfolding parseMembers.simps(2) [of "Suc n"] parseMembers.simps(2) [of n] by simp
    qed
  qed (simp add: parseMembers.simps)
  moreover have "parseElements (Suc (Suc n)) d xs s = parseElements (Suc n) d xs s" if n: "2 * length s + 2 \<le> Suc n" for d xs s
  proof -
    have v: "parseValue (Suc n) d s = parseValue n d s" using n by (intro V) simp
    show ?thesis
    proof (cases "parseValue n d s")
      case (Some p)
      then obtain x s1 where x: "parseValue n d s = Some (x, s1)" by (cases p) simp
      have "parseElements (Suc n) d xs' (tl (skipSpace s1)) = parseElements n d xs' (tl (skipSpace s1))"
        if "HasPrefix (skipSpace s1) '',''" for xs'
        using tl_skipSpace_shorter [OF that] parse_shorter(1) [OF x] n by (intro E) simp
      then show ?thesis
        unfolding parseElements.simps(2) [of "Suc n"] parseElements.simps(2) [of n] v x option.case prod.case
        by (simp cong: if_cong)
    next
      case None
      then show ?thesis unfolding parseElements.simps(2) [of "Suc n"] parseElements.simps(2) [of n] v by simp
    qed
  qed
  ultimately show ?case by blast
qed simp

lemma parseValue_enough: "2 * length s + 1 \<le> n \<Longrightarrow> parseValue n d s = parseValue (2 * length s + 1) d s"
proof (induction n)
  case (Suc n)
  show ?case
  proof (cases "2 * length s + 1 \<le> n")
    case True
    then show ?thesis using Suc.IH parse_step [of n] by simp
  next
    case False
    then have "Suc n = 2 * length s + 1" using Suc.prems by simp
    then show ?thesis by simp
  qed
qed simp

section \<open>Lemmas: strings\<close>

lemma hexDigit_ok:
  assumes "d < 16"
  shows "isHex (hexDigit d)" "hexValue (hexDigit d) = d"
proof -
  have "list_all (\<lambda>d. isHex (hexDigit d) \<and> hexValue (hexDigit d) = d) [0..<16]" by code_simp
  then have "isHex (hexDigit d) \<and> hexValue (hexDigit d) = d" using assms by (simp add: list_all_iff)
  then show "isHex (hexDigit d)" "hexValue (hexDigit d) = d" by auto
qed

lemma EncodeRune_byte: "c < CHR 0x80 \<Longrightarrow> EncodeRune (of_char c) = [c]"
  by (simp add: EncodeRune_def less_char_def)

lemma unicodeEscape_u00:
  assumes "c < CHR '' ''"
  shows "unicodeEscape (''00'' @ hexDigit (of_char c div 16) # hexDigit (of_char c mod 16) # t) = Some (of_char c, 4)"
proof -
  have c: "of_char c < (32 :: nat)" using assms by (simp add: less_char_def)
  have d: "of_char c div 16 < (16 :: nat)" "of_char c mod 16 < (16 :: nat)" using c by simp_all
  have z: "isHex (CHR ''0'')" "hexValue (CHR ''0'') = 0" by code_simp+
  have "getu4 (''00'' @ hexDigit (of_char c div 16) # hexDigit (of_char c mod 16) # t) = Some (of_char c)"
    unfolding getu4_def using hexDigit_ok [OF d(1)] hexDigit_ok [OF d(2)] z by simp
  then show ?thesis using c unfolding unicodeEscape_def by simp
qed

text \<open>Escaping a byte and reading it back.\<close>

lemma unescape_escapeByte:
  "unescape (escapeByte False c @ t) = map_option (apfst (Cons c)) (unescape t)"
proof -
  consider "c \<in> {CHR 0x22, CHR 0x5C, CHR 0x08, CHR 0x0C, CHR 0x0A, CHR 0x0D, CHR 0x09}"
    | "c \<notin> {CHR 0x22, CHR 0x5C, CHR 0x08, CHR 0x0C, CHR 0x0A, CHR 0x0D, CHR 0x09}" "c < CHR '' ''"
    | "c \<notin> {CHR 0x22, CHR 0x5C, CHR 0x08, CHR 0x0C, CHR 0x0A, CHR 0x0D, CHR 0x09}" "\<not> c < CHR '' ''" by blast
  then show ?thesis
  proof cases
    case 1
    then show ?thesis by (elim insertE emptyE) (simp_all add: escapeByte_def simpleEscape_def)
  next
    case 2
    then have "escapeByte False c @ t = CHR 0x5C # CHR ''u'' # ''00'' @ hexDigit (of_char c div 16) # hexDigit (of_char c mod 16) # t"
      by (simp add: escapeByte_def u00_def)
    moreover have "EncodeRune (of_char c) = [c]"
      using 2(2) by (intro EncodeRune_byte) (simp add: less_char_def)
    moreover have "(@) [c] = (#) c" by (simp add: fun_eq_iff)
    ultimately show ?thesis using unicodeEscape_u00 [OF 2(2), of t] by simp
  next
    case 3
    then show ?thesis by (simp add: escapeByte_def)
  qed
qed

lemma unescape_escapeBytes: "unescape (concat (map (escapeByte False) s) @ DQ @ rest) = Some (s, rest)"
  by (induction s) (simp_all add: unescape_escapeByte)

lemma unescape_escapeString: "unescape (escapeString False s @ DQ @ rest) = Some (s, rest)"
proof (induction "False" s rule: escapeString.induct)
  case (2 c s)
  have sep: "unicodeEscape (''2028'' @ t) = Some (8232, 4)" "unicodeEscape (''2029'' @ t) = Some (8233, 4)" for t
    by (simp_all add: unicodeEscape_def getu4_def isHex_def isDigit_def hexValue_def)
  have enc: "EncodeRune 8232 = [CHR 0xE2, CHR 0x80, CHR 0xA8]" "EncodeRune 8233 = [CHR 0xE2, CHR 0x80, CHR 0xA9]"
    by (simp_all add: EncodeRune_def char_of_def drop_bit_nat_def bit_iff_odd)
  consider (a) "HasPrefix (c # s) [CHR 0xE2, CHR 0x80, CHR 0xA8]"
    | (b) "\<not> HasPrefix (c # s) [CHR 0xE2, CHR 0x80, CHR 0xA8]" "HasPrefix (c # s) [CHR 0xE2, CHR 0x80, CHR 0xA9]"
    | (c) "\<not> HasPrefix (c # s) [CHR 0xE2, CHR 0x80, CHR 0xA8]" "\<not> HasPrefix (c # s) [CHR 0xE2, CHR 0x80, CHR 0xA9]"
    by blast
  then show ?case
  proof cases
    case a
    then obtain t where t: "c # s = [CHR 0xE2, CHR 0x80, CHR 0xA8] @ t" unfolding HasPrefix_iff by blast
    have "unescape (escapeString False (drop 2 s) @ DQ @ rest) = Some (t, rest)" using 2(1) [OF a] t by simp
    then show ?thesis using a sep(1) enc(1) t by simp
  next
    case b
    then obtain t where t: "c # s = [CHR 0xE2, CHR 0x80, CHR 0xA9] @ t" unfolding HasPrefix_iff by blast
    have "unescape (escapeString False (drop 2 s) @ DQ @ rest) = Some (t, rest)" using 2(2) [OF b] t by simp
    then show ?thesis using b sep(2) enc(2) t by simp
  next
    case c
    then have "escapeString False (c # s) = escapeByte False c @ escapeString False s" by (simp only: escapeString.simps if_False)
    then show ?thesis using 2(3) [OF c] by (simp only: append_assoc unescape_escapeByte) simp
  qed
qed simp

lemma parseString_escapeString: "validUTF8 s \<Longrightarrow> parseString (escapeString False s @ DQ @ rest) = Some (s, rest)"
  unfolding parseString_def unescape_escapeString validUTF8_def by simp

lemma parseString_escapeBytes: "parseString (concat (map (escapeByte False) s) @ DQ @ rest) = Some (toValidUTF8 s, rest)"
  unfolding parseString_def unescape_escapeBytes by simp

end
