(* ===== verification/ControlServer.thy ===== *)
theory ControlServer
  imports JsonParse ApplyModel
begin

text \<open>
  The control socket (\<open>worker/control/control.go\<close>, \<open>worker/controlserver/protocol.go\<close>, \<open>service.go\<close>): the
  request and response lines as the client and the server write and read them, and the dispatcher that runs
  the handler of a service and an operation.  A line is its bytes.  Whether a JSON syntax error lies at the
  very end of a line, which only chooses between two error texts, is the parameter \<open>atEnd\<close>; so is the text
  of a decoding error of the client.
\<close>

section \<open>Requests\<close>

text \<open>\<open>MarshalRequest\<close>: the members in the order of the fields, without HTML escaping, and a newline.\<close>

definition memberText :: "string \<Rightarrow> string \<Rightarrow> string" where
  "memberText key body = jsonString False key @ '':'' @ body"

definition MarshalRequest :: "Request \<Rightarrow> string" where
  "MarshalRequest r =
     ''{'' @ Join [memberText ''requestId'' (jsonString False (rqRequestID r)),
                 memberText ''operation'' (jsonString False (rqOperation r)),
                 memberText ''service'' (jsonString False (rqService r)),
                 memberText ''revisionId'' (jsonString False (rqRevisionID r)),
                 memberText ''checksum'' (jsonString False (rqChecksum r)),
                 memberText ''candidatePath'' (jsonString False (rqCandidatePath r))] '','' @ ''}'' @ NL"

definition maxRequestUnits :: nat where "maxRequestUnits = 65536"

definition maxRequestBytes :: nat where "maxRequestBytes = maxRequestUnits * 3"

function utf16Len :: "string \<Rightarrow> nat" where
  "utf16Len [] = 0"
| "utf16Len (c # b) =
     (if 65536 \<le> fst (DecodeRune (c # b)) then 2 else 1) + utf16Len (drop (snd (DecodeRune (c # b))) (c # b))"
  by pat_completeness auto
termination
  by (relation "measure length") (simp_all only: wf_measure in_measure DecodeRune_drop)

declare utf16Len.simps(2) [simp del]

datatype parse_error = ParseError (errorText: string) (InvalidJSON: bool)

definition rejected :: "string \<Rightarrow> parse_error" where
  "rejected msg = ParseError msg False"

definition identStart :: "char \<Rightarrow> bool" where
  "identStart c \<longleftrightarrow> (isAlnum c \<and> \<not> isDigit c) \<or> c = CHR ''_'' \<or> c = CHR ''$''"

definition jsonSyntaxMessage :: "(string \<Rightarrow> bool) \<Rightarrow> string \<Rightarrow> string" where
  "jsonSyntaxMessage atEnd line =
     ''JSON Parse error: '' @
     (let trimmed = TrimSpace line in
      if trimmed = [] then ''Unexpected EOF''
      else if identStart (hd trimmed) then
        ''Unexpected identifier '' @ DQ @ takeWhile (\<lambda>c. identStart c \<or> isDigit c) trimmed @ DQ
      else if atEnd line then (if hd trimmed = CHR ''{'' then ''Expected '' @ [CHR 0x27] @ ''}'' @ [CHR 0x27] else ''Unexpected EOF'')
      else ''Unable to parse JSON string'')"

text \<open>The value a map decoded from the object holds: the last member of the name.\<close>

definition lastMember :: "object \<Rightarrow> string \<Rightarrow> json option" where
  "lastMember m key = map_of (rev m) key"

fun requestFields :: "object \<Rightarrow> string list \<Rightarrow> parse_error + string list" where
  "requestFields m [] = Inr []"
| "requestFields m (key # keys) =
     (case lastMember m key of
        Some (JStr s) \<Rightarrow> bindE (requestFields m keys) (\<lambda>rest. Inr (s # rest))
      | _ \<Rightarrow> Inl (rejected ''Control request fields are invalid''))"

definition requestKeys :: "string list" where
  "requestKeys = [''requestId'', ''operation'', ''service'', ''revisionId'', ''checksum'', ''candidatePath'']"

definition commandKeys :: "string list" where
  "commandKeys = [''command'', ''shell'', ''args'']"

definition checkRequest :: "Request \<Rightarrow> parse_error + Request" where
  "checkRequest req =
     (if rqOperation req \<notin> set Operations then
        Inl (rejected (''Unknown control operation: '' @ rqOperation req))
      else if rqService req \<noteq> ServiceCoreDNS \<and> rqService req \<noteq> ServiceNginx then
        Inl (rejected (''Unknown control service: '' @ rqService req))
      else if \<not> HasPrefix (rqCandidatePath req) ''/'' \<or> Contains (rqCandidatePath req) ''..'' \<or>
          Contains (rqCandidatePath req) [NUL] then
        Inl (rejected ''Candidate path is invalid'')
      else Inr req)"

definition ParseRequest :: "(string \<Rightarrow> bool) \<Rightarrow> string \<Rightarrow> parse_error + Request" where
  "ParseRequest atEnd line =
     (if length line > maxRequestBytes \<or> utf16Len line > maxRequestUnits then
        Inl (rejected ''Control request is too large'')
      else case parseJson line of
        None \<Rightarrow> Inl (ParseError (jsonSyntaxMessage atEnd line) True)
      | Some (JArr _) \<Rightarrow> Inl (rejected ''Control request fields are invalid'')
      | Some (JObj m) \<Rightarrow>
          if list_ex (\<lambda>key. lastMember m key \<noteq> None) commandKeys then
            Inl (rejected ''Arbitrary command fields are not allowed'')
          else bindE (requestFields m requestKeys) (\<lambda>values.
            checkRequest
              \<lparr>rqRequestID = values ! 0, rqOperation = values ! 1, rqService = values ! 2, rqRevisionID = values ! 3,
               rqChecksum = values ! 4, rqCandidatePath = values ! 5\<rparr>)
      | Some _ \<Rightarrow> Inl (rejected (''parsed is not an Object. (evaluating '' @ [CHR 0x27] @ DQ @ ''command'' @ DQ @ '' in parsed'' @ [CHR 0x27] @ '')'')))"

section \<open>Responses\<close>

definition quoteJS :: "string \<Rightarrow> string" where
  "quoteJS s = DQ @ concat (map (escapeByte False) (toValidUTF8 s)) @ DQ"

text \<open>The server's response; the output is the handler's text.\<close>

record ServerResponse =
  svRequestID :: string
  svOperation :: string
  svOK :: bool
  svOutput :: "string option"
  svError :: string

definition MarshalResponse :: "ServerResponse \<Rightarrow> string" where
  "MarshalResponse r =
     ''{'' @ DQ @ ''requestId'' @ DQ @ '':'' @ quoteJS (svRequestID r) @
     '','' @ DQ @ ''operation'' @ DQ @ '':'' @ quoteJS (svOperation r) @
     (if svOK r then
        '','' @ DQ @ ''ok'' @ DQ @ '':true'' @
        (case svOutput r of None \<Rightarrow> [] | Some output \<Rightarrow> '','' @ DQ @ ''output'' @ DQ @ '':'' @ output)
      else '','' @ DQ @ ''ok'' @ DQ @ '':false,'' @ DQ @ ''error'' @ DQ @ '':'' @ quoteJS (svError r)) @
     ''}'' @ NL"

text \<open>The client decodes the line into its struct: keys in any case, a null leaves a field as it was.\<close>

definition responseMember :: "string \<Rightarrow> json \<Rightarrow> Response \<Rightarrow> render_error + Response" where
  "responseMember k v r =
     (if keyIs ''requestId'' k then bindE (decodeString v (rsRequestID r)) (\<lambda>x. Inr (r\<lparr>rsRequestID := x\<rparr>))
      else if keyIs ''ok'' k then bindE (decodeBool v (rsOK r)) (\<lambda>x. Inr (r\<lparr>rsOK := x\<rparr>))
      else if keyIs ''operation'' k then bindE (decodeString v (rsOperation r)) (\<lambda>x. Inr (r\<lparr>rsOperation := x\<rparr>))
      else if keyIs ''output'' k then Inr (r\<lparr>rsOutput := Some v\<rparr>)
      else if keyIs ''error'' k then bindE (decodeString v (rsError r)) (\<lambda>x. Inr (r\<lparr>rsError := x\<rparr>))
      else Inr r)"

definition zeroResponse :: Response where
  "zeroResponse = \<lparr>rsRequestID = [], rsOK = False, rsOperation = [], rsOutput = None, rsError = []\<rparr>"

definition decodeResponse :: "goerror \<Rightarrow> string \<Rightarrow> goerror + Response" where
  "decodeResponse decodeError text =
     (case parseJson text of
        None \<Rightarrow> Inl decodeError
      | Some JNull \<Rightarrow> Inr zeroResponse
      | Some (JObj m) \<Rightarrow>
          (case decodeMembers responseMember m zeroResponse of Inl _ \<Rightarrow> Inl decodeError | Inr r \<Rightarrow> Inr r)
      | Some _ \<Rightarrow> Inl decodeError)"

text \<open>The end of \<open>Client.Execute\<close>: the answer must be to this request.\<close>

definition matchResponse :: "Request \<Rightarrow> Response \<Rightarrow> goerror + Response" where
  "matchResponse req response =
     (if rsRequestID response \<noteq> rqRequestID req then Inl ''Control response request ID does not match''
      else if rsOperation response \<noteq> rqOperation req then Inl ''Control response operation does not match''
      else Inr response)"

text \<open>The line that \<open>exchange\<close> reads off the connection, at most 8 MiB of it.\<close>

definition maxResponseBytes :: nat where "maxResponseBytes = 8 * 1024 * 1024"

definition responseLine :: "string \<Rightarrow> goerror + string" where
  "responseLine sent =
     (let got = take maxResponseBytes sent in
      if CHR 0x0A \<in> set got then Inr (takeWhile (\<lambda>c. c \<noteq> CHR 0x0A) got @ NL)
      else Inl ''Control connection closed before a response line'')"

section \<open>The dispatcher\<close>

text \<open>A handler returns the text of its output or none, or an error, or panics.\<close>

datatype outcome = Returned "string option" | Failure goerror | Panicked

type_synonym 'w Handler = "Request \<Rightarrow> 'w \<Rightarrow> outcome \<times> 'w"

type_synonym 'w Handlers = "string \<Rightarrow> string \<Rightarrow> 'w Handler option"

definition operationFailed :: string where "operationFailed = ''Control operation failed''"

definition runHandler :: "'w Handler \<Rightarrow> Request \<Rightarrow> ('w, string option) io" where
  "runHandler handler req w =
     (case handler req w of
        (Returned output, w') \<Rightarrow> (Inr output, w')
      | (Failure e, w') \<Rightarrow> (Inl e, w')
      | (Panicked, w') \<Rightarrow> (Inl operationFailed, w'))"

text \<open>\<open>json.Compact\<close>: the white space outside of strings goes.\<close>

fun compactText :: "bool \<Rightarrow> string \<Rightarrow> string" where
  "compactText quoted [] = []"
| "compactText quoted (c # s) =
     (if quoted then
        if c = CHR 0x5C \<and> s \<noteq> [] then c # hd s # compactText True (tl s)
        else c # compactText (c \<noteq> CHR 0x22) s
      else if isSpace c then compactText False s
      else c # compactText (c = CHR 0x22) s)"

definition Compact :: "string \<Rightarrow> string option" where
  "Compact output = (if jsonValid output then Some (compactText False output) else None)"

definition DispatcherExecute :: "'w Handlers \<Rightarrow> Request \<Rightarrow> 'w \<Rightarrow> ServerResponse \<times> 'w" where
  "DispatcherExecute handlers req w =
     (let response = \<lparr>svRequestID = rqRequestID req, svOperation = rqOperation req, svOK = False,
                      svOutput = None, svError = []\<rparr> in
      case handlers (rqService req) (rqOperation req) of
        None \<Rightarrow>
          (response\<lparr>svError := ''Operation '' @ rqOperation req @ '' is unavailable for '' @ rqService req\<rparr>, w)
      | Some handler \<Rightarrow>
          (case runHandler handler req w of
             (Inl e, w') \<Rightarrow> (response\<lparr>svError := e\<rparr>, w')
           | (Inr None, w') \<Rightarrow> (response\<lparr>svOK := True\<rparr>, w')
           | (Inr (Some output), w') \<Rightarrow>
               (case Compact output of
                  None \<Rightarrow> (response\<lparr>svError := operationFailed\<rparr>, w')
                | Some compact \<Rightarrow> (response\<lparr>svOK := True, svOutput := Some compact\<rparr>, w'))))"

definition fixedHandler :: "'w Handler" where
  "fixedHandler req w =
     (Returned (Some (''{'' @ DQ @ ''service'' @ DQ @ '':'' @ quoteJS (rqService req) @
        '','' @ DQ @ ''operation'' @ DQ @ '':'' @ quoteJS (rqOperation req) @
        '','' @ DQ @ ''candidatePath'' @ DQ @ '':'' @ quoteJS (rqCandidatePath req) @
        '','' @ DQ @ ''status'' @ DQ @ '':'' @ DQ @ ''accepted-by-fixed-boundary'' @ DQ @ ''}'')), w)"

definition FixedBoundaryHandlers :: "'w Handlers" where
  "FixedBoundaryHandlers service operation =
     (if service \<in> {ServiceCoreDNS, ServiceNginx} \<and> operation \<in> set Operations then Some fixedHandler else None)"

section \<open>The connection\<close>

text \<open>
  One connection (\<open>controlserver/transport.go\<close>): every complete line is answered in order, a trailing partial
  line is dropped, a failed write ends the connection.  The bytes a client sends are a text; reading errors
  are the end of that text.
\<close>

record 'w Server =
  svHandlers :: "'w Handlers"
  svLog :: "string \<Rightarrow> 'w \<Rightarrow> 'w"
  svWrite :: "string \<Rightarrow> 'w \<Rightarrow> bool \<times> 'w"

definition invalidResponse :: "'w Server \<Rightarrow> parse_error \<Rightarrow> 'w \<Rightarrow> ServerResponse \<times> 'w" where
  "invalidResponse server err w =
     (\<lparr>svRequestID = ''invalid'', svOperation = OperationHealth, svOK = False, svOutput = None, svError = errorText err\<rparr>,
      svLog server (''control request failed reason='' @ (if InvalidJSON err then ''invalid_json'' else ''invalid_request'')) w)"

definition handleLine :: "(string \<Rightarrow> bool) \<Rightarrow> 'w Server \<Rightarrow> string \<Rightarrow> 'w \<Rightarrow> ServerResponse \<times> 'w" where
  "handleLine atEnd server line w =
     (case ParseRequest atEnd line of
        Inl err \<Rightarrow> invalidResponse server err w
      | Inr req \<Rightarrow>
          (case DispatcherExecute (svHandlers server) req w of
             (response, w') \<Rightarrow>
               (response,
                if svOK response then w'
                else svLog server (''control request failed request='' @ safeLogID (rqRequestID req) @
                  '' operation='' @ rqOperation req @ '' service='' @ rqService req @ '' reason=operation_failed'') w')))"

definition answerLine :: "(string \<Rightarrow> bool) \<Rightarrow> 'w Server \<Rightarrow> string \<Rightarrow> 'w \<Rightarrow> ServerResponse \<times> 'w" where
  "answerLine atEnd server line w =
     (if length line > maxRequestBytes then invalidResponse server (rejected ''Control request is too large'') w
      else handleLine atEnd server line w)"

fun serveLines :: "(string \<Rightarrow> bool) \<Rightarrow> 'w Server \<Rightarrow> string list \<Rightarrow> 'w \<Rightarrow> 'w" where
  "serveLines atEnd server [] w = w"
| "serveLines atEnd server (line # lines) w =
     (case answerLine atEnd server line w of
        (response, w1) \<Rightarrow>
          (case svWrite server (MarshalResponse response) w1 of
             (failed, w2) \<Rightarrow>
               if failed then svLog server ''control socket failed reason=socket_error'' w2
               else serveLines atEnd server lines w2))"

text \<open>The lines that \<open>readLine\<close> returns for the bytes of a connection.\<close>

definition completeLines :: "string \<Rightarrow> string list" where
  "completeLines received = butlast (Split (CHR 0x0A) received)"

definition serveConn :: "(string \<Rightarrow> bool) \<Rightarrow> 'w Server \<Rightarrow> string \<Rightarrow> 'w \<Rightarrow> 'w" where
  "serveConn atEnd server received = serveLines atEnd server (completeLines received)"

section \<open>Lemmas: reading what was written\<close>

text \<open>A text is read as a value when it stands before a comma or a brace, inside an object, with at least \<open>k\<close>
  levels of nesting left.\<close>

definition readsAs :: "nat \<Rightarrow> string \<Rightarrow> json \<Rightarrow> bool" where
  "readsAs k text v \<longleftrightarrow>
     (\<forall>n d c rest. 2 * length text + 2 \<le> n \<and> k \<le> d \<and> c \<in> {CHR '','', CHR ''}''} \<longrightarrow>
        parseValue n d (text @ c # rest) = Some (v, c # rest))"

lemma skipSpace_Cons [simp]: "\<not> isSpace c \<Longrightarrow> skipSpace (c # s) = c # s"
  by (simp add: skipSpace_def)

lemma isSpace_simps [simp]:
  "\<not> isSpace (CHR 0x22)" "\<not> isSpace (CHR ''{'')" "\<not> isSpace (CHR ''}'')" "\<not> isSpace (CHR '','')" "\<not> isSpace (CHR '':'')"
  "\<not> isSpace (CHR ''t'')" "\<not> isSpace (CHR ''f'')"
  by (simp_all add: isSpace_def)

lemma parseValue_quoted: "parseString (body @ DQ @ rest) = Some (v, rest) \<Longrightarrow> parseValue (Suc n) d (DQ @ body @ DQ @ rest) = Some (JStr v, rest)"
  by (simp add: parseValue.simps)

lemma readsAs_string:
  assumes "\<And>rest. parseString (body @ DQ @ rest) = Some (v, rest)"
  shows "readsAs k (DQ @ body @ DQ) (JStr v)"
  unfolding readsAs_def
proof (intro allI impI)
  fix n d :: nat and c rest assume "2 * length (DQ @ body @ DQ) + 2 \<le> n \<and> k \<le> d \<and> c \<in> {CHR '','', CHR ''}''}"
  then obtain j where "n = Suc j" by (cases n) auto
  then show "parseValue n d ((DQ @ body @ DQ) @ c # rest) = Some (JStr v, c # rest)"
    using parseValue_quoted [OF assms, of j d "c # rest"] by simp
qed

lemma readsAs_jsonString: "validUTF8 v \<Longrightarrow> readsAs k (jsonString False v) (JStr v)"
  unfolding jsonString_def by (rule readsAs_string) (rule parseString_escapeString)

lemma readsAs_quoteJS: "validUTF8 v \<Longrightarrow> readsAs k (quoteJS v) (JStr v)"
  unfolding quoteJS_def by (rule readsAs_string) (simp only: validUTF8_def parseString_escapeBytes)

lemma readsAs_bool: "readsAs k ''true'' (JBool True)" "readsAs k ''false'' (JBool False)"
proof -
  have "parseValue (Suc n) d (''true'' @ rest) = Some (JBool True, rest)"
    "parseValue (Suc n) d (''false'' @ rest) = Some (JBool False, rest)" for n d rest
    by (simp_all add: parseValue.simps)
  then show "readsAs k ''true'' (JBool True)" "readsAs k ''false'' (JBool False)"
    unfolding readsAs_def by (metis Suc_le_D add_2_eq_Suc')+
qed

text \<open>Objects, member by member.\<close>

definition membersText :: "(string \<times> string) list \<Rightarrow> string" where
  "membersText ms = Join (map (\<lambda>(k, t). memberText k t) ms) '',''"

lemma membersText_Cons: "ms \<noteq> [] \<Longrightarrow> membersText ((k, t) # ms) = memberText k t @ '','' @ membersText ms"
  by (simp add: membersText_def Join_Cons)

lemma membersText_single: "membersText [(k, t)] = memberText k t"
  by (simp add: membersText_def)

lemma parseMembers_one:
  assumes k: "validUTF8 k" and t: "readsAs l t v" and n: "2 * length t + 2 \<le> n" and d: "l \<le> d"
  shows "parseMembers (Suc n) d m (memberText k t @ '','' @ rest) = parseMembers n d (m @ [(k, v)]) rest"
    and "parseMembers (Suc n) d m (memberText k t @ ''}'' @ rest) = Some (JObj (m @ [(k, v)]), rest)"
proof -
  have key: "parseString (escapeString False k @ DQ @ r) = Some (k, r)" for r using parseString_escapeString [OF k] .
  have "parseValue n d (t @ c # r) = Some (v, c # r)" if "c \<in> {CHR '','', CHR ''}''}" for c r
    using t n d that unfolding readsAs_def by blast
  note parsed = this [of "CHR '',''", simplified] this [of "CHR ''}''", simplified]
  show "parseMembers (Suc n) d m (memberText k t @ '','' @ rest) = parseMembers n d (m @ [(k, v)]) rest"
    "parseMembers (Suc n) d m (memberText k t @ ''}'' @ rest) = Some (JObj (m @ [(k, v)]), rest)"
    using key [of "'':'' @ t @ '','' @ rest"] key [of "'':'' @ t @ ''}'' @ rest"]
    by (simp_all add: parseMembers.simps memberText_def jsonString_def parsed)
qed

lemma parseMembers_all:
  assumes "ms \<noteq> []" "\<forall>(k, t, v) \<in> set ms. validUTF8 k \<and> readsAs l t v" "l \<le> d"
    "2 * length (membersText (map (\<lambda>(k, t, v). (k, t)) ms)) + 2 \<le> n"
  shows "parseMembers n d m (membersText (map (\<lambda>(k, t, v). (k, t)) ms) @ ''}'' @ rest) =
    Some (JObj (m @ map (\<lambda>(k, t, v). (k, v)) ms), rest)"
  using assms(1,2,4)
proof (induction ms arbitrary: n m)
  case (Cons x ms)
  obtain k t v where x: "x = (k, t, v)" by (cases x)
  have kt: "validUTF8 k" "readsAs l t v" using Cons.prems(2) x by auto
  obtain j where j: "n = Suc j" using Cons.prems(3) by (cases n) auto
  show ?case
  proof (cases "ms = []")
    case True
    then have "2 * length t + 2 \<le> j" using Cons.prems(3) j x by (simp add: membersText_single memberText_def jsonString_def)
    from parseMembers_one(2) [OF kt this assms(3)] show ?thesis by (simp add: True x j membersText_single)
  next
    case False
    let ?rest = "membersText (map (\<lambda>(k, t, v). (k, t)) ms)"
    have ml: "membersText (map (\<lambda>(k, t, v). (k, t)) (x # ms)) = memberText k t @ '','' @ ?rest"
      using False by (simp add: x membersText_Cons)
    have b: "2 * length t + 2 \<le> j" "2 * length ?rest + 2 \<le> j"
      using Cons.prems(3) j unfolding ml by (simp_all add: memberText_def jsonString_def)
    have "parseMembers n d m (membersText (map (\<lambda>(k, t, v). (k, t)) (x # ms)) @ ''}'' @ rest) =
        parseMembers j d (m @ [(k, v)]) (?rest @ ''}'' @ rest)"
      using parseMembers_one(1) [OF kt b(1) assms(3), of m "?rest @ ''}'' @ rest"] unfolding ml j by simp
    also have "\<dots> = Some (JObj ((m @ [(k, v)]) @ map (\<lambda>(k, t, v). (k, v)) ms), rest)"
      using Cons.prems(2) b(2) by (intro Cons.IH [OF False]) simp_all
    finally show ?thesis by (simp add: x)
  qed
qed simp

definition objectText :: "(string \<times> string \<times> json) list \<Rightarrow> string" where
  "objectText ms = ''{'' @ membersText (map (\<lambda>(k, t, v). (k, t)) ms) @ ''}''"

lemma parseValue_object:
  assumes "ms \<noteq> []" "\<forall>(k, t, v) \<in> set ms. validUTF8 k \<and> readsAs l t v" "Suc l \<le> d" "2 * length (objectText ms) + 1 \<le> n"
  shows "parseValue n d (objectText ms @ rest) = Some (JObj (map (\<lambda>(k, t, v). (k, v)) ms), rest)"
proof -
  obtain j where j: "n = Suc j" using assms(4) by (cases n) auto
  let ?body = "membersText (map (\<lambda>(k, t, v). (k, t)) ms)"
  obtain b where b: "?body = CHR 0x22 # b"
    using assms(1) by (cases ms; cases "tl ms") (auto simp: membersText_def memberText_def jsonString_def Join_Cons split: prod.splits)
  have "parseMembers j (d - 1) [] (?body @ ''}'' @ rest) = Some (JObj ([] @ map (\<lambda>(k, t, v). (k, v)) ms), rest)"
    using assms j by (intro parseMembers_all [where l = l]) (simp_all add: objectText_def)
  then show ?thesis using assms(3) by (simp add: j objectText_def parseValue.simps b)
qed

lemma parseJson_object:
  assumes "ms \<noteq> []" "\<forall>(k, t, v) \<in> set ms. validUTF8 k \<and> readsAs 9999 t v" "skipSpace rest = []"
  shows "parseJson (objectText ms @ rest) = Some (JObj (map (\<lambda>(k, t, v). (k, v)) ms))"
proof -
  have "parseValue (2 * length (objectText ms @ rest) + 1) maxNestingDepth (objectText ms @ rest) =
      Some (JObj (map (\<lambda>(k, t, v). (k, v)) ms), rest)"
    by (rule parseValue_object [OF assms(1,2)]) (simp_all add: maxNestingDepth_def)
  then show ?thesis using assms(3) by (simp add: parseJson_def)
qed

text \<open>No line break inside a line.\<close>

lemma escapeByte_line: "CHR 0x0A \<notin> set (escapeByte html c)"
proof -
  have "of_char c < (256 :: nat)" by simp
  then have "of_char c div 16 < (16 :: nat)" "of_char c mod 16 < (16 :: nat)" by (simp_all add: less_mult_imp_div_less)
  moreover have "\<not> isHex (CHR 0x0A)" by code_simp
  ultimately have "hexDigit (of_char c div 16) \<noteq> CHR 0x0A \<and> hexDigit (of_char c mod 16) \<noteq> CHR 0x0A"
    using hexDigit_ok(1) by metis
  then have "CHR 0x0A \<notin> set (u00 c)" by (simp add: u00_def eq_commute [of "CHR 0x0A"])
  then show ?thesis by (simp add: escapeByte_def)
qed

lemma escapeString_line: "CHR 0x0A \<notin> set (escapeString html s)"
  by (induction html s rule: escapeString.induct) (auto simp: escapeByte_line)

lemma jsonString_line [simp]: "CHR 0x0A \<notin> set (jsonString html s)"
  by (simp add: jsonString_def escapeString_line)

definition requestMembers :: "Request \<Rightarrow> (string \<times> string \<times> json) list" where
  "requestMembers r =
     map (\<lambda>(k, v). (k, jsonString False v, JStr v))
       [(''requestId'', rqRequestID r), (''operation'', rqOperation r), (''service'', rqService r),
        (''revisionId'', rqRevisionID r), (''checksum'', rqChecksum r), (''candidatePath'', rqCandidatePath r)]"

lemma MarshalRequest_object: "MarshalRequest r = objectText (requestMembers r) @ NL"
  by (simp add: MarshalRequest_def objectText_def requestMembers_def membersText_def)

lemma MarshalRequest_line: "completeLines (MarshalRequest r) = [butlast (MarshalRequest r)]"
proof -
  have "CHR 0x0A \<notin> set (objectText (requestMembers r))"
    by (simp add: objectText_def requestMembers_def membersText_def memberText_def Join_Cons)
  then show ?thesis
    unfolding completeLines_def MarshalRequest_object by (simp add: Split_append Split_single)
qed

text \<open>A request that the server accepts and that fits the limits.\<close>

definition goodRequest :: "Request \<Rightarrow> bool" where
  "goodRequest r \<longleftrightarrow>
     list_all validUTF8 [rqRequestID r, rqOperation r, rqService r, rqRevisionID r, rqChecksum r, rqCandidatePath r] \<and>
     checkRequest r = Inr r \<and>
     length (butlast (MarshalRequest r)) \<le> maxRequestBytes \<and> utf16Len (butlast (MarshalRequest r)) \<le> maxRequestUnits"

lemma validUTF8_keys [simp]:
  "validUTF8 ''requestId''" "validUTF8 ''operation''" "validUTF8 ''service''" "validUTF8 ''revisionId''"
  "validUTF8 ''checksum''" "validUTF8 ''candidatePath''" "validUTF8 ''ok''" "validUTF8 ''output''" "validUTF8 ''error''"
  "validUTF8 ''status''"
  by (rule validUTF8_ascii, code_simp)+

lemma requestMembers_read:
  assumes "goodRequest r"
  shows "requestMembers r \<noteq> []" "\<forall>(k, t, v) \<in> set (requestMembers r). validUTF8 k \<and> readsAs 9999 t v"
  using assms by (simp_all add: requestMembers_def goodRequest_def readsAs_jsonString)

lemma ParseRequest_MarshalRequest:
  assumes good: "goodRequest r"
  shows "ParseRequest atEnd (butlast (MarshalRequest r)) = Inr r"
proof -
  have line: "butlast (MarshalRequest r) = objectText (requestMembers r)" by (simp add: MarshalRequest_object)
  have "parseJson (objectText (requestMembers r) @ []) = Some (JObj (map (\<lambda>(k, t, v). (k, v)) (requestMembers r)))"
    by (rule parseJson_object [OF requestMembers_read [OF good]]) (simp add: skipSpace_def)
  then have json: "parseJson (butlast (MarshalRequest r)) =
      Some (JObj [(''requestId'', JStr (rqRequestID r)), (''operation'', JStr (rqOperation r)), (''service'', JStr (rqService r)),
        (''revisionId'', JStr (rqRevisionID r)), (''checksum'', JStr (rqChecksum r)), (''candidatePath'', JStr (rqCandidatePath r))])"
    unfolding line by (simp add: requestMembers_def)
  have small: "\<not> (length (butlast (MarshalRequest r)) > maxRequestBytes \<or> utf16Len (butlast (MarshalRequest r)) > maxRequestUnits)"
    and check: "checkRequest r = Inr r"
    using good by (simp_all add: goodRequest_def)
  show ?thesis
    unfolding ParseRequest_def json option.case json.case if_not_P [OF small]
    using check by (cases r) (simp add: commandKeys_def requestKeys_def lastMember_def)
qed

text \<open>The response line, as an object text, and what the client makes of it.\<close>

definition responseMembers :: "ServerResponse \<Rightarrow> json \<Rightarrow> (string \<times> string \<times> json) list" where
  "responseMembers r v =
     [(''requestId'', quoteJS (svRequestID r), JStr (svRequestID r)),
      (''operation'', quoteJS (svOperation r), JStr (svOperation r))] @
     (if svOK r then
        (''ok'', ''true'', JBool True) #
        (case svOutput r of None \<Rightarrow> [] | Some output \<Rightarrow> [(''output'', output, v)])
      else [(''ok'', ''false'', JBool False), (''error'', quoteJS (svError r), JStr (svError r))])"

lemma jsonString_keys:
  "jsonString False ''requestId'' = DQ @ ''requestId'' @ DQ" "jsonString False ''operation'' = DQ @ ''operation'' @ DQ"
  "jsonString False ''ok'' = DQ @ ''ok'' @ DQ" "jsonString False ''output'' = DQ @ ''output'' @ DQ"
  "jsonString False ''error'' = DQ @ ''error'' @ DQ"
  by code_simp+

lemma MarshalResponse_object: "MarshalResponse r = objectText (responseMembers r v) @ NL"
  by (simp add: MarshalResponse_def objectText_def responseMembers_def membersText_def memberText_def jsonString_keys split: option.split)

lemma response_keys:
  "responseMember ''requestId'' (JStr s) r = Inr (r\<lparr>rsRequestID := s\<rparr>)"
  "responseMember ''operation'' (JStr s) r = Inr (r\<lparr>rsOperation := s\<rparr>)"
  "responseMember ''ok'' (JBool b) r = Inr (r\<lparr>rsOK := b\<rparr>)"
  "responseMember ''output'' v r = Inr (r\<lparr>rsOutput := Some v\<rparr>)"
  "responseMember ''error'' (JStr s) r = Inr (r\<lparr>rsError := s\<rparr>)"
proof -
  have "\<not> keyIs ''requestId'' ''operation''" "\<not> keyIs ''requestId'' ''ok''" "\<not> keyIs ''requestId'' ''output''"
    "\<not> keyIs ''requestId'' ''error''" "\<not> keyIs ''ok'' ''operation''" "\<not> keyIs ''ok'' ''output''" "\<not> keyIs ''ok'' ''error''"
    "\<not> keyIs ''operation'' ''output''" "\<not> keyIs ''operation'' ''error''" "\<not> keyIs ''output'' ''error''"
    by code_simp+
  then show "responseMember ''requestId'' (JStr s) r = Inr (r\<lparr>rsRequestID := s\<rparr>)"
    "responseMember ''operation'' (JStr s) r = Inr (r\<lparr>rsOperation := s\<rparr>)"
    "responseMember ''ok'' (JBool b) r = Inr (r\<lparr>rsOK := b\<rparr>)"
    "responseMember ''output'' v r = Inr (r\<lparr>rsOutput := Some v\<rparr>)"
    "responseMember ''error'' (JStr s) r = Inr (r\<lparr>rsError := s\<rparr>)"
    by (simp_all add: responseMember_def)
qed

definition clientView :: "ServerResponse \<Rightarrow> json \<Rightarrow> Response" where
  "clientView r v =
     \<lparr>rsRequestID = svRequestID r, rsOK = svOK r, rsOperation = svOperation r,
      rsOutput = (if svOK r then map_option (\<lambda>_. v) (svOutput r) else None), rsError = (if svOK r then [] else svError r)\<rparr>"

text \<open>A response whose line the client can read.\<close>

definition payload :: "ServerResponse \<Rightarrow> nat" where
  "payload r =
     (if svOK r then (case svOutput r of None \<Rightarrow> 0 | Some output \<Rightarrow> length output) else length (quoteJS (svError r)))"

definition goodResponse :: "ServerResponse \<Rightarrow> json \<Rightarrow> bool" where
  "goodResponse r v \<longleftrightarrow>
     validUTF8 (svRequestID r) \<and> validUTF8 (svOperation r) \<and> (\<not> svOK r \<longrightarrow> validUTF8 (svError r)) \<and>
     (\<forall>output. svOK r \<longrightarrow> svOutput r = Some output \<longrightarrow> readsAs 9999 output v \<and> CHR 0x0A \<notin> set output) \<and>
     payload r \<le> 7000000"

lemma quoteJS_line [simp]: "CHR 0x0A \<notin> set (quoteJS s)"
  unfolding quoteJS_def using escapeByte_line by auto

lemma MarshalResponse_line:
  assumes "goodResponse r v" "length (MarshalResponse r) \<le> maxResponseBytes"
  shows "responseLine (MarshalResponse r) = Inr (MarshalResponse r)"
proof -
  have "CHR 0x0A \<notin> set (objectText (responseMembers r v))"
    using assms(1)
    by (simp add: goodResponse_def objectText_def responseMembers_def membersText_def memberText_def Join_Cons split: option.split)
  moreover have "take maxResponseBytes (MarshalResponse r) = MarshalResponse r" using assms(2) by simp
  ultimately show ?thesis
    unfolding responseLine_def MarshalResponse_object [of r v] by (simp add: takeWhile_append takeWhile_eq_all_conv)
qed

lemma decodeResponse_MarshalResponse:
  assumes "goodResponse r v"
  shows "decodeResponse e (MarshalResponse r) = Inr (clientView r v)"
proof -
  have "\<forall>(k, t, x) \<in> set (responseMembers r v). validUTF8 k \<and> readsAs 9999 t x"
    using assms by (simp add: goodResponse_def responseMembers_def readsAs_quoteJS readsAs_bool split: option.split)
  then have "parseJson (objectText (responseMembers r v) @ NL) = Some (JObj (map (\<lambda>(k, t, x). (k, x)) (responseMembers r v)))"
    by (rule parseJson_object [rotated]) (simp_all add: responseMembers_def skipSpace_def isSpace_def)
  then have json: "parseJson (MarshalResponse r) = Some (JObj (map (\<lambda>(k, t, x). (k, x)) (responseMembers r v)))"
    unfolding MarshalResponse_object [of r v] .
  show ?thesis
    unfolding decodeResponse_def json option.case json.case
    by (cases "svOK r"; cases "svOutput r")
       (simp_all add: responseMembers_def response_keys zeroResponse_def clientView_def)
qed

text \<open>The lengths of the response: the request line bounds what it repeats of the request.\<close>

lemma escapeString_length: "length (concat (map (escapeByte False) s)) \<le> length (escapeString False s)"
proof (induction "False" s rule: escapeString.induct)
  case (2 c s)
  note ih = this
  let ?p = "[CHR 0xE2, CHR 0x80, CHR 0xA8]" and ?q = "[CHR 0xE2, CHR 0x80, CHR 0xA9]"
  have n: "length (concat (map (escapeByte False) ?p)) = 3" "length (concat (map (escapeByte False) ?q)) = 3" by code_simp+
  have split: "concat (map (escapeByte False) (c # s)) = concat (map (escapeByte False) x) @ concat (map (escapeByte False) (drop 2 s))"
    if "HasPrefix (c # s) x" "length x = 3" for x
  proof -
    have "c # s = x @ drop 2 s" using that
      by (metis HasPrefix_def append_take_drop_id drop_Suc_Cons numeral_3_eq_3 numeral_2_eq_2)
    then show ?thesis by (metis concat_append map_append)
  qed
  consider "HasPrefix (c # s) ?p" | "\<not> HasPrefix (c # s) ?p" "HasPrefix (c # s) ?q" | "\<not> HasPrefix (c # s) ?p" "\<not> HasPrefix (c # s) ?q"
    by blast
  then show ?case
  proof cases
    case 1
    then show ?thesis using ih(1) [OF 1] split [OF 1] n by (simp only: escapeString.simps if_True length_append) simp
  next
    case 2
    then show ?thesis using ih(2) split [OF 2(2)] n
      by (simp only: escapeString.simps if_True if_False length_append) simp
  next
    case 3
    then show ?thesis using ih(3) by (simp only: escapeString.simps if_False length_append) simp
  qed
qed simp
lemma quoteJS_length:
  assumes "goodRequest r" "s \<in> {rqRequestID r, rqOperation r, rqService r, rqCandidatePath r}"
  shows "length (quoteJS s) \<le> maxRequestBytes"
proof -
  have "toValidUTF8 s = s" using assms by (auto simp: goodRequest_def validUTF8_def)
  then have "length (quoteJS s) \<le> length (jsonString False s)"
    using escapeString_length [of s] by (simp add: quoteJS_def jsonString_def)
  moreover have "length (jsonString False s) \<le> length (butlast (MarshalRequest r))"
    using assms(2) by (auto simp: MarshalRequest_def Join_Cons memberText_def)
  ultimately show ?thesis using assms(1) by (simp add: goodRequest_def)
qed

lemma MarshalResponse_length:
  assumes "goodRequest req" "svRequestID r = rqRequestID req" "svOperation r = rqOperation req" "goodResponse r v"
  shows "length (MarshalResponse r) \<le> maxResponseBytes"
proof -
  have "length (MarshalResponse r) \<le> length (quoteJS (svRequestID r)) + length (quoteJS (svOperation r)) + 100 + payload r"
    by (simp add: MarshalResponse_def payload_def split: option.split)
  moreover have "payload r \<le> 7000000" using assms(4) by (simp add: goodResponse_def)
  ultimately show ?thesis
    using quoteJS_length [OF assms(1), of "rqRequestID req"] quoteJS_length [OF assms(1), of "rqOperation req"] assms(2,3)
    by (simp add: maxRequestBytes_def maxRequestUnits_def maxResponseBytes_def)
qed

text \<open>A call of the client over a connection to the server: one request line, the first line of the answer.\<close>

definition clientCall :: "(string \<Rightarrow> bool) \<Rightarrow> goerror \<Rightarrow> 'w Server \<Rightarrow> Request \<Rightarrow> ('w, Response) io" where
  "clientCall atEnd decodeError server req w =
     (case answerLine atEnd server (hd (completeLines (MarshalRequest req))) w of
        (response, w') \<Rightarrow>
          (bindE (bindE (responseLine (MarshalResponse response)) (decodeResponse decodeError)) (matchResponse req), w'))"

lemma clientCall_answer:
  assumes good: "goodRequest req"
    and r: "fst (DispatcherExecute (svHandlers server) req w) = r" "goodResponse r v"
    "svRequestID r = rqRequestID req" "svOperation r = rqOperation req"
  shows "fst (clientCall atEnd e server req w) = Inr (clientView r v)"
proof -
  obtain w1 where d: "DispatcherExecute (svHandlers server) req w = (r, w1)"
    using r(1) by (cases "DispatcherExecute (svHandlers server) req w") simp
  note fits = MarshalResponse_length [OF good r(3,4,2)]
  have "hd (completeLines (MarshalRequest req)) = butlast (MarshalRequest req)" by (simp add: MarshalRequest_line)
  moreover have "fst (answerLine atEnd server (butlast (MarshalRequest req)) w) = r"
    using good d by (simp add: answerLine_def handleLine_def ParseRequest_MarshalRequest goodRequest_def)
  ultimately show ?thesis
    unfolding clientCall_def
    by (cases "answerLine atEnd server (butlast (MarshalRequest req)) w")
       (simp add: MarshalResponse_line [OF r(2) fits] decodeResponse_MarshalResponse [OF r(2)] matchResponse_def clientView_def r)
qed

text \<open>The fixed handlers: their output is compact already, and the client reads it.\<close>

lemma compact_plain: "CHR 0x22 \<notin> set s \<Longrightarrow> CHR 0x5C \<notin> set s \<Longrightarrow> compactText True (s @ t) = s @ compactText True t"
  by (induction s) auto

lemma compact_escapeByte: "compactText True (escapeByte False c @ t) = escapeByte False c @ compactText True t"
proof -
  have "of_char c div 16 < (16 :: nat)" "of_char c mod 16 < (16 :: nat)" by (simp_all add: less_mult_imp_div_less)
  then have "isHex (hexDigit (of_char c div 16))" "isHex (hexDigit (of_char c mod 16))" using hexDigit_ok(1) by blast+
  moreover have "\<not> isHex (CHR 0x22)" "\<not> isHex (CHR 0x5C)" by code_simp+
  ultimately have "hexDigit (of_char c div 16) \<noteq> CHR 0x22" "hexDigit (of_char c div 16) \<noteq> CHR 0x5C"
    "hexDigit (of_char c mod 16) \<noteq> CHR 0x22" "hexDigit (of_char c mod 16) \<noteq> CHR 0x5C" by metis+
  then have "compactText True (u00 c @ t) = u00 c @ compactText True t" by (simp add: u00_def)
  then show ?thesis by (simp add: escapeByte_def)
qed

lemma compact_quoteJS: "compactText False (quoteJS s @ t) = quoteJS s @ compactText False t"
proof -
  have "compactText True (concat (map (escapeByte False) u) @ DQ @ t) = concat (map (escapeByte False) u) @ DQ @ compactText False t" for u
    by (induction u) (simp_all add: compact_escapeByte)
  from this [of "toValidUTF8 s"] show ?thesis by (simp add: quoteJS_def)
qed

definition fixedMembers :: "Request \<Rightarrow> (string \<times> string \<times> json) list" where
  "fixedMembers r =
     [(''service'', quoteJS (rqService r), JStr (rqService r)), (''operation'', quoteJS (rqOperation r), JStr (rqOperation r)),
      (''candidatePath'', quoteJS (rqCandidatePath r), JStr (rqCandidatePath r)),
      (''status'', DQ @ ''accepted-by-fixed-boundary'' @ DQ, JStr ''accepted-by-fixed-boundary'')]"

lemma jsonString_fixed:
  "jsonString False ''service'' = DQ @ ''service'' @ DQ" "jsonString False ''candidatePath'' = DQ @ ''candidatePath'' @ DQ"
  "jsonString False ''status'' = DQ @ ''status'' @ DQ"
  by code_simp+

lemma fixedHandler_object: "fst (fixedHandler r w) = Returned (Some (objectText (fixedMembers r)))"
  by (simp add: fixedHandler_def objectText_def fixedMembers_def membersText_def memberText_def jsonString_keys jsonString_fixed)

lemma fixed_read:
  assumes "goodRequest r"
  shows "\<forall>(k, t, v) \<in> set (fixedMembers r). validUTF8 k \<and> readsAs l t v"
proof -
  have "parseString (''accepted-by-fixed-boundary'' @ DQ @ rest) = Some (''accepted-by-fixed-boundary'', rest)" for rest
  proof -
    have "escapeString False ''accepted-by-fixed-boundary'' = ''accepted-by-fixed-boundary''" by code_simp
    moreover have "validUTF8 ''accepted-by-fixed-boundary''" by (rule validUTF8_ascii) code_simp
    ultimately show ?thesis using parseString_escapeString by metis
  qed
  then have "readsAs l (DQ @ ''accepted-by-fixed-boundary'' @ DQ) (JStr ''accepted-by-fixed-boundary'')"
    by (rule readsAs_string)
  then show ?thesis using assms by (simp add: fixedMembers_def goodRequest_def readsAs_quoteJS)
qed

lemma isSpace_word: "isAlnum c \<or> c = CHR ''-'' \<Longrightarrow> \<not> isSpace c"
  by (auto simp: isSpace_def isAlnum_def isDigit_def isLower_def isUpper_def)

lemma fixed_compact: "compactText False (objectText (fixedMembers r)) = objectText (fixedMembers r)"
proof -
  have "compactText False (''{'' @ DQ @ ''service'' @ DQ @ '':'' @ t) = ''{'' @ DQ @ ''service'' @ DQ @ '':'' @ compactText False t"
    "compactText False ('','' @ DQ @ ''operation'' @ DQ @ '':'' @ t) = '','' @ DQ @ ''operation'' @ DQ @ '':'' @ compactText False t"
    "compactText False ('','' @ DQ @ ''candidatePath'' @ DQ @ '':'' @ t) = '','' @ DQ @ ''candidatePath'' @ DQ @ '':'' @ compactText False t"
    "compactText False ('','' @ DQ @ ''status'' @ DQ @ '':'' @ t) = '','' @ DQ @ ''status'' @ DQ @ '':'' @ compactText False t"
    "compactText False (DQ @ ''accepted-by-fixed-boundary'' @ DQ @ ''}'') = DQ @ ''accepted-by-fixed-boundary'' @ DQ @ ''}''" for t
    by (simp_all add: isSpace_def)
  note steps = this
  have "objectText (fixedMembers r) = ''{'' @ DQ @ ''service'' @ DQ @ '':'' @ quoteJS (rqService r) @
      '','' @ DQ @ ''operation'' @ DQ @ '':'' @ quoteJS (rqOperation r) @
      '','' @ DQ @ ''candidatePath'' @ DQ @ '':'' @ quoteJS (rqCandidatePath r) @
      '','' @ DQ @ ''status'' @ DQ @ '':'' @ DQ @ ''accepted-by-fixed-boundary'' @ DQ @ ''}''"
    by (simp add: objectText_def fixedMembers_def membersText_def memberText_def jsonString_keys jsonString_fixed)
  then show ?thesis by (simp only: steps compact_quoteJS)
qed

lemma fixed_answer:
  fixes server :: "'w Server"
  assumes good: "goodRequest req" and server: "svHandlers server = FixedBoundaryHandlers"
  shows "\<exists>resp. fst (clientCall atEnd e server req w) = Inr resp \<and> rsOK resp \<and> \<not> hasNginxDrift resp"
proof -
  let ?text = "objectText (fixedMembers req)" and ?v = "JObj (map (\<lambda>(k, t, v). (k, v)) (fixedMembers req))"
  let ?r = "\<lparr>svRequestID = rqRequestID req, svOperation = rqOperation req, svOK = True, svOutput = Some ?text, svError = []\<rparr>"
  have ne: "fixedMembers req \<noteq> []" by (simp add: fixedMembers_def)
  have "jsonValid ?text"
    using parseJson_object [OF ne fixed_read [OF good], of "[]"] by (simp add: jsonValid_def skipSpace_def)
  then have compact: "Compact ?text = Some ?text" by (simp add: Compact_def fixed_compact)
  have "readsAs 9999 ?text ?v"
    unfolding readsAs_def using parseValue_object [OF ne fixed_read [OF good, of 9998]] by simp
  moreover have "length ?text \<le> 7000000"
    using quoteJS_length [OF good, of "rqService req"] quoteJS_length [OF good, of "rqOperation req"]
      quoteJS_length [OF good, of "rqCandidatePath req"]
    by (simp add: objectText_def fixedMembers_def membersText_def memberText_def Join_Cons jsonString_keys jsonString_fixed
        maxRequestBytes_def maxRequestUnits_def)
  moreover have "CHR 0x0A \<notin> set ?text"
    by (simp add: objectText_def fixedMembers_def membersText_def memberText_def Join_Cons)
  moreover have "checkRequest req = Inr req" "validUTF8 (rqRequestID req)" "validUTF8 (rqOperation req)"
    using good by (simp_all add: goodRequest_def)
  moreover have "(FixedBoundaryHandlers :: 'w Handlers) (rqService req) (rqOperation req) = Some fixedHandler"
    using \<open>checkRequest req = Inr req\<close> by (auto simp: FixedBoundaryHandlers_def checkRequest_def split: if_splits)
  ultimately have d: "fst (DispatcherExecute (svHandlers server) req w) = ?r" and g: "goodResponse ?r ?v"
    using fixedHandler_object [of req w] compact
    by (auto simp: DispatcherExecute_def server runHandler_def goodResponse_def payload_def Let_def split: prod.splits)
  have "\<not> keyIs ''status'' ''service''" "\<not> keyIs ''status'' ''operation''" "\<not> keyIs ''status'' ''candidatePath''" "keyIs ''status'' ''status''"
    by code_simp+
  then have "\<not> hasNginxDrift (clientView ?r ?v)" by (simp add: hasNginxDrift_def clientView_def fixedMembers_def)
  then show ?thesis using clientCall_answer [OF good d g] by (simp add: clientView_def)
qed

section \<open>Requests that pass the protocol\<close>

lemma utf16Len_ascii: "list_all (\<lambda>c. c < CHR 0x80) s \<Longrightarrow> utf16Len s = length s"
proof (induction s)
  case (Cons c s)
  then have "DecodeRune (c # s) = (of_char c, 1)" "of_char c < (128 :: nat)" by (simp_all add: less_char_def)
  then show ?case using Cons by (subst utf16Len.simps) (simp del: DecodeRune.simps)
qed simp

text \<open>A request of plain ASCII fields of moderate length passes the protocol's checks.\<close>

definition plainChar :: "char \<Rightarrow> bool" where
  "plainChar c \<longleftrightarrow> (let n = of_char c :: nat in 32 \<le> n \<and> n < 127 \<and> n \<noteq> 34 \<and> n \<noteq> 92)"

lemma escapeString_plain:
  assumes "list_all plainChar s"
  shows "escapeString False s = s"
  using assms
proof (induction s)
  case (Cons c s)
  then have c: "plainChar c" by simp
  then have "c \<noteq> CHR 0xE2" by (auto simp: plainChar_def Let_def)
  moreover have "escapeByte False c = [c]"
    using c by (auto simp: escapeByte_def plainChar_def Let_def less_char_def)
  ultimately show ?case using Cons by (simp add: HasPrefix_def)
qed simp

lemma plain_ascii: "list_all plainChar s \<Longrightarrow> list_all (\<lambda>c. c < CHR 0x80) s"
  by (induction s) (simp_all add: plainChar_def Let_def less_char_def)

definition requestStrings :: "Request \<Rightarrow> string list" where
  "requestStrings r = [rqRequestID r, rqOperation r, rqService r, rqRevisionID r, rqChecksum r, rqCandidatePath r]"

lemma plainRequest_good:
  assumes plain: "list_all (list_all plainChar) (requestStrings r)"
    and len: "length (concat (requestStrings r)) \<le> 60000"
    and check: "checkRequest r = Inr r"
  shows "goodRequest r"
proof -
  have e: "escapeString False (rqRequestID r) = rqRequestID r" "escapeString False (rqOperation r) = rqOperation r"
    "escapeString False (rqService r) = rqService r" "escapeString False (rqRevisionID r) = rqRevisionID r"
    "escapeString False (rqChecksum r) = rqChecksum r" "escapeString False (rqCandidatePath r) = rqCandidatePath r"
    using plain by (simp_all add: requestStrings_def escapeString_plain)
  have k: "escapeString False ''requestId'' = ''requestId''" "escapeString False ''operation'' = ''operation''"
    "escapeString False ''service'' = ''service''" "escapeString False ''revisionId'' = ''revisionId''"
    "escapeString False ''checksum'' = ''checksum''" "escapeString False ''candidatePath'' = ''candidatePath''"
    by code_simp+
  note m = MarshalRequest_def Join_Cons memberText_def jsonString_def e k
  have "list_all (\<lambda>c. of_char c < (128 :: nat)) s" if "s \<in> set (requestStrings r)" for s
    using plain_ascii [of s] plain that by (simp add: list_all_iff less_char_def)
  then have "list_all (\<lambda>c. c < CHR 0x80) (butlast (MarshalRequest r))"
    unfolding m by (simp add: butlast_append requestStrings_def less_char_def)
  moreover have "length (butlast (MarshalRequest r)) \<le> 61000"
    using len unfolding m by (simp add: requestStrings_def)
  moreover have "list_all validUTF8 (requestStrings r)"
    using plain by (rule list.pred_mono_strong) (simp add: plain_ascii validUTF8_ascii)
  ultimately show ?thesis
    using check by (simp add: goodRequest_def utf16Len_ascii maxRequestBytes_def maxRequestUnits_def requestStrings_def)
qed
text \<open>Identifiers of the shape of a UUID, numbered.\<close>

definition uuidOf :: "nat \<Rightarrow> string" where
  "uuidOf n = ''00000000-0000-4000-8000-'' @ map (\<lambda>i. hexDigit (n div 16 ^ i mod 16)) [11, 10, 9, 8, 7, 6, 5, 4, 3, 2, 1, 0]"

definition uuidShaped :: "string \<Rightarrow> bool" where
  "uuidShaped s \<longleftrightarrow> length s = 36 \<and> list_all plainChar s"

lemma hexDigit_plain: "d < 16 \<Longrightarrow> plainChar (hexDigit d)"
  by (auto simp: plainChar_def hexDigit_def Let_def of_char_of)

lemma uuidOf_shape: "uuidShaped (uuidOf n)"
proof -
  have "list_all plainChar ''00000000-0000-4000-8000-''" by code_simp
  then show ?thesis by (simp add: uuidShaped_def uuidOf_def hexDigit_plain)
qed

section \<open>Properties\<close>

text \<open>
  C33: A request line that the server accepts names one of the six operations and one of the two services,
  has an absolute candidate path without two dots in a row and without a NUL byte, is within the size
  limits, has no command, shell or args member, and its six fields are the last members of these names in
  the object of the line.
\<close>
theorem ParseRequest_sound:
  assumes "ParseRequest atEnd line = Inr req"
  shows "rqOperation req \<in> {''stage'', ''validate'', ''promote'', ''reload'', ''health'', ''rollback''} \<and>
    rqService req \<in> {''coredns'', ''nginx''} \<and>
    HasPrefix (rqCandidatePath req) ''/'' \<and> \<not> Contains (rqCandidatePath req) ''..'' \<and> NUL \<notin> set (rqCandidatePath req) \<and>
    length line \<le> 196608 \<and> utf16Len line \<le> 65536 \<and>
    (\<exists>m. parseJson line = Some (JObj m) \<and> (\<forall>key \<in> {''command'', ''shell'', ''args''}. lastMember m key = None) \<and>
       map (lastMember m) requestKeys =
         map (\<lambda>s. Some (JStr s)) [rqRequestID req, rqOperation req, rqService req, rqRevisionID req, rqChecksum req, rqCandidatePath req])"
proof -
  have size: "length line \<le> maxRequestBytes" "utf16Len line \<le> maxRequestUnits"
    using assms by (auto simp: ParseRequest_def split: if_splits)
  then obtain m where m: "parseJson line = Some (JObj m)"
    using assms by (auto simp: ParseRequest_def split: option.splits json.splits)
  have keys: "\<not> list_ex (\<lambda>key. lastMember m key \<noteq> None) commandKeys"
    using assms size m by (auto simp: ParseRequest_def split: if_splits)
  then obtain vals where fields: "requestFields m requestKeys = Inr vals"
    and check: "checkRequest \<lparr>rqRequestID = vals ! 0, rqOperation = vals ! 1, rqService = vals ! 2, rqRevisionID = vals ! 3,
               rqChecksum = vals ! 4, rqCandidatePath = vals ! 5\<rparr> = Inr req"
    using assms size m by (auto simp: ParseRequest_def)
  have "map (lastMember m) keys = map (\<lambda>s. Some (JStr s)) vs" if "requestFields m keys = Inr vs" for keys vs
    using that by (induction keys arbitrary: vs) (auto split: option.splits json.splits)
  note fields' = this [OF fields]
  have ok: "checkRequest req = Inr req" and req: "req = \<lparr>rqRequestID = vals ! 0, rqOperation = vals ! 1, rqService = vals ! 2,
      rqRevisionID = vals ! 3, rqChecksum = vals ! 4, rqCandidatePath = vals ! 5\<rparr>"
    using check by (auto simp: checkRequest_def split: if_splits)
  have "length vals = 6" using arg_cong [OF fields', of length] by (simp add: requestKeys_def)
  then have "vals = [rqRequestID req, rqOperation req, rqService req, rqRevisionID req, rqChecksum req, rqCandidatePath req]"
    unfolding req by (intro nth_equalityI) (auto simp: less_Suc_eq numeral_eq_Suc)
  moreover have "rqOperation req \<in> set Operations" "rqService req \<in> {ServiceCoreDNS, ServiceNginx}"
    "HasPrefix (rqCandidatePath req) ''/''" "\<not> Contains (rqCandidatePath req) ''..''" "\<not> Contains (rqCandidatePath req) [NUL]"
    using ok by (auto simp: checkRequest_def split: if_splits)
  ultimately show ?thesis
    using fields' keys m size
    by (simp add: Operations_def OperationStage_def OperationValidate_def OperationPromote_def OperationReload_def
        OperationHealth_def OperationRollback_def ServiceCoreDNS_def ServiceNginx_def commandKeys_def
        maxRequestBytes_def maxRequestUnits_def Contains_single)
qed

text \<open>A request of the worker, and a server over the fixed handlers.\<close>

definition sampleRequest :: Request where
  "sampleRequest = \<lparr>rqRequestID = ''q1'', rqOperation = ''stage'', rqService = ''nginx'', rqRevisionID = ''r1'',
     rqChecksum = ''00'', rqCandidatePath = ''/c/r1/nginx''\<rparr>"

definition fixedServer :: "unit Server" where
  "fixedServer = \<lparr>svHandlers = FixedBoundaryHandlers, svLog = \<lambda>m w. w, svWrite = \<lambda>m w. (False, w)\<rparr>"

lemma sampleRequest_good: "goodRequest sampleRequest"
proof -
  have "list_all (list_all (\<lambda>c. c < CHR 0x80)) [rqRequestID sampleRequest, rqOperation sampleRequest, rqService sampleRequest,
      rqRevisionID sampleRequest, rqChecksum sampleRequest, rqCandidatePath sampleRequest]"
    by code_simp
  then have "list_all validUTF8 [rqRequestID sampleRequest, rqOperation sampleRequest, rqService sampleRequest,
      rqRevisionID sampleRequest, rqChecksum sampleRequest, rqCandidatePath sampleRequest]"
    by (rule list.pred_mono_strong) (rule validUTF8_ascii)
  moreover have "checkRequest sampleRequest = Inr sampleRequest" by code_simp
  moreover have "list_all (\<lambda>c. c < CHR 0x80) (butlast (MarshalRequest sampleRequest))"
    "length (butlast (MarshalRequest sampleRequest)) \<le> 200" by code_simp+
  ultimately show ?thesis by (simp only: goodRequest_def utf16Len_ascii maxRequestBytes_def maxRequestUnits_def) simp
qed

theorem ParseRequest_sound_witness:
  "ParseRequest (\<lambda>_. False) (butlast (MarshalRequest sampleRequest)) = Inr sampleRequest \<and>
   utf16Len (butlast (MarshalRequest sampleRequest)) \<le> 65536"
  using ParseRequest_MarshalRequest [OF sampleRequest_good]
    ParseRequest_sound [OF ParseRequest_MarshalRequest [OF sampleRequest_good, of "\<lambda>_. False"]] by blast



end
