(* ===== verification/WorkerSystem.thy ===== *)
theory WorkerSystem
  imports ApplyLive Poller ControlServer
begin

text \<open>
  The worker put together (the wiring of \<open>cmd/worker\<close>): the orchestrator and the poller over the SQLite
  stores.  The world is the database and the rest of the machine; the platform says how the rest answers
  (control socket, file system, clock, random identifiers, failing transactions).  The locale
  \<open>platform_ok\<close> is what a sound installation promises; it gives the contract \<open>accepting\<close> of the orchestrator
  for the SQLite stores and, with the queue, that a poll applies a queued job.  It is interpreted on the
  control server with its fixed handlers, reached over the wire.
\<close>

section \<open>Patches that the store accepts\<close>

definition keepsRow :: "database \<Rightarrow> assignment list \<Rightarrow> bool" where
  "keepsRow d as \<longleftrightarrow> (\<forall>r. jobRowOK d r \<longrightarrow> jobRowOK d (applyAssignments as r))"

lemma keepsRow_append: "keepsRow d as \<Longrightarrow> keepsRow d bs \<Longrightarrow> keepsRow d (as @ bs)"
  by (simp add: keepsRow_def applyAssignments_append)

lemma keepsRow_Nil [simp]: "keepsRow d []"
  by (simp add: keepsRow_def applyAssignments_def)

lemma assign_output:
  assumes "outputPatch p" "\<And>x r. docColumn x \<Longrightarrow> jobRowOK d r \<Longrightarrow> jobRowOK d (put x r)"
  shows "\<exists>as. assignNullable column put (compactOutput name) p = Inr as \<and> keepsRow d as"
  using assms by (cases p rule: outputPatch.cases)
    (auto simp: assignNullable_def compactOutput_def keepsRow_def applyAssignments_def docColumn_def)

lemma assign_time:
  assumes "timePatch p" "\<And>x r. pred_option timestampText x \<Longrightarrow> jobRowOK d r \<Longrightarrow> jobRowOK d (put x r)"
  shows "\<exists>as. assignNullable column put encodeTime p = Inr as \<and> keepsRow d as"
  using assms by (cases p)
    (auto simp: assignNullable_def keepsRow_def applyAssignments_def encodeTime_key timestampText_key)

lemma assignments_plain:
  assumes "plainPatch p" "patStatus p = Some s" "validStatus s"
  shows "\<exists>as. assignments p = Inr as \<and> as \<noteq> [] \<and> keepsRow d as"
proof -
  have st: "keepsRow d [(''status'', jrStatus_update (\<lambda>_. s))]"
    using assms(3) by (simp add: keepsRow_def applyAssignments_def jobRowOK_def validStatus_def)
  obtain a1 where a1: "assignNullable ''validation_output'' (\<lambda>x. jrValidationOutput_update (\<lambda>_. x))
      (compactOutput ''validation_output'') (patValidationOutput p) = Inr a1" "keepsRow d a1"
    using assms(1) assign_output [of "patValidationOutput p" d "\<lambda>x. jrValidationOutput_update (\<lambda>_. x)"]
    by (force simp: plainPatch_def jobRowOK_def)
  obtain a2 where a2: "assignNullable ''apply_output'' (\<lambda>x. jrApplyOutput_update (\<lambda>_. x))
      (compactOutput ''apply_output'') (patApplyOutput p) = Inr a2" "keepsRow d a2"
    using assms(1) assign_output [of "patApplyOutput p" d "\<lambda>x. jrApplyOutput_update (\<lambda>_. x)"]
    by (force simp: plainPatch_def jobRowOK_def)
  obtain a3 where a3: "assignNullable ''health_output'' (\<lambda>x. jrHealthOutput_update (\<lambda>_. x))
      (compactOutput ''health_output'') (patHealthOutput p) = Inr a3" "keepsRow d a3"
    using assms(1) assign_output [of "patHealthOutput p" d "\<lambda>x. jrHealthOutput_update (\<lambda>_. x)"]
    by (force simp: plainPatch_def jobRowOK_def)
  obtain a7 where a7: "assignNullable ''finished_at'' (\<lambda>x. jrFinishedAt_update (\<lambda>_. x)) encodeTime (patFinishedAt p) = Inr a7"
    "keepsRow d a7"
    using assms(1) assign_time [of "patFinishedAt p" d "\<lambda>x. jrFinishedAt_update (\<lambda>_. x)"]
    by (force simp: plainPatch_def jobRowOK_def)
  have kept: "patErrorMessage p = Keep" "patClaimedAt p = Keep" "patStartedAt p = Keep"
    using assms(1) by (simp_all add: plainPatch_def)
  have "assignments p = Inr ([(''status'', jrStatus_update (\<lambda>_. s))] @ a1 @ a2 @ a3 @ a7)"
    unfolding assignments_def a1(1) a2(1) a3(1) a7(1) kept assms(2) by (simp add: assignNullable_def)
  moreover have "keepsRow d ([(''status'', jrStatus_update (\<lambda>_. s))] @ a1 @ a2 @ a3 @ a7)"
    by (intro keepsRow_append st a1(2) a2(2) a3(2) a7(2))
  ultimately show ?thesis by blast
qed

lemma UpdateJob_works:
  assumes ok: "databaseOK d" "row \<in> set (dbJobs d)" and s: "patStatus p = Some s" "moves (jrStatus row) s" and p: "plainPatch p"
    and env: "\<not> envFails env" "finiteRange (fst (envNow env)) (snd (envNow env))"
  shows "\<exists>job d'. UpdateJob (jrID row) p env d = (Inr job, d') \<and> dbRevisions d' = dbRevisions d \<and> dbSettings d' = dbSettings d"
proof -
  have "validStatus s" using moves_status [OF s(2)] by (simp add: validStatus_def)
  then obtain as where as: "assignments p = Inr as" "as \<noteq> []" "keepsRow d as"
    using assignments_plain [OF p s(1)] by blast
  let ?f = "applyAssignments as"
  have row: "jobRowOK d (?f row)" using as(3) databaseOK_job [OF ok] by (simp add: keepsRow_def)
  then obtain job where job: "scanJob (?f row) = Inr job" using scanJob_ok by blast
  have fd: "find (\<lambda>r. jrID r = jrID row) (dbJobs d) = Some row"
    using find_by_id [OF ok, of "\<lambda>_. True"] by simp
  have tr: "Transition (jrStatus row) s = Inr s" using s(2) by (simp add: transitions_moves)
  have "UpdateJob (jrID row) p env d = (Inr job, updateRow (jrID row) ?f d)"
    unfolding UpdateJob_def as(1) sum.case
    using env(1) claim_stamp [OF env(2)] fd tr row job as(2)
    by (auto simp: updateReturning_def s(1) Transition_def intro!: Write_ok)
  then show ?thesis by (simp add: updateRow_def)
qed

lemma MarkApplied_works:
  assumes ok: "databaseOK d" "row \<in> set (dbRevisions d)"
    and times: "finiteRange (fst t) (snd t)" "finiteRange (fst clock) (snd clock)"
    and env: "\<not> envFails env" "finiteRange (fst (envNow env)) (snd (envNow env))"
  shows "\<exists>rv d'. MarkApplied (rrID row) t clock env d = (Inr rv, d')"
proof -
  let ?t = "if t = zeroTime then clock else t"
  have ft: "finiteRange (fst ?t) (snd ?t)" using times by simp
  let ?row = "stampRevision (rrID row) (timeKey ?t) row"
  have rok: "revRowOK d ?row"
    using databaseOK_rev [OF ok] timestampText_key [OF ft] by (simp add: stampRevision_def revRowOK_def)
  then obtain rv where "scanRevision ?row = Inr rv" using scanRevision_ok by blast
  then show ?thesis
    unfolding MarkApplied_def encodeTime_key [OF ft] sum.case
    using claim_stamp [OF env(2)] env(1) find_revision [OF ok] rok by (auto simp: Write_def)
qed

lemma RecoverStale_works:
  assumes "\<not> envFails env" "finiteRange (fst (envNow env)) (snd (envNow env))"
    "finiteRange (fst (cutoffTime (envNow env) leaseMs)) (snd (cutoffTime (envNow env) leaseMs))"
  shows "\<exists>n d'. RecoverStale leaseMs env d = (Inr n, d')"
  unfolding RecoverStale_def recoverCutoff_time encodeTime_key [OF assms(3)] sum.case
  using claim_stamp [OF assms(2)] assms(1) by (simp add: Write_def)

text \<open>The revision of a stored job is there: the foreign key holds.\<close>

lemma job_revision:
  assumes ok: "databaseOK d" and job: "GetJob jid d = Inr (Some job)"
  shows "\<exists>row \<in> set (dbRevisions d). rrID row = jobRevisionID job"
    and "\<exists>rv. GetRevision (jobRevisionID job) d = Inr (Some rv)"
proof -
  obtain row where row: "row \<in> set (dbJobs d)" "scanJob row = Inr job"
    using job by (auto simp: GetJob_def dest!: find_some split: option.splits)
  then have "jobRevisionID job \<in> rrID ` set (dbRevisions d)"
    using databaseOK_job [OF ok row(1)] scanJob_fields(3) [OF row(2)] by (simp add: jobRowOK_def)
  then obtain r where r: "r \<in> set (dbRevisions d)" "rrID r = jobRevisionID job" by auto
  then show "\<exists>row \<in> set (dbRevisions d). rrID row = jobRevisionID job" by blast
  obtain rv where "scanRevision r = Inr rv" using scanRevision_ok databaseOK_rev [OF ok r(1)] by blast
  then show "\<exists>rv. GetRevision (jobRevisionID job) d = Inr (Some rv)"
    using find_revision [OF ok r(1)] r(2) by (simp add: GetRevision_def oneRevision_def optional_def)
qed

section \<open>The machine\<close>

text \<open>
  How the machine outside the database answers.  \<open>plFails\<close> decides whether the next database call fails; a
  write transaction also draws the identifier it may need and reads the clock.
\<close>

record 'v Platform =
  plExecute :: "Request \<Rightarrow> ('v, Response) io"
  plFileSystem :: "'v FS"
  plNow :: "'v \<Rightarrow> gotime \<times> 'v"
  plLog :: "string \<Rightarrow> 'v \<Rightarrow> 'v"
  plNewString :: "'v \<Rightarrow> string \<times> 'v"
  plFails :: "'v \<Rightarrow> bool \<times> 'v"
  plErrorText :: "store_error \<Rightarrow> goerror"
  plUnmarshal :: "string \<Rightarrow> json option"
  plCandidateRoot :: string
  plWait :: "int \<Rightarrow> 'v \<Rightarrow> 'v"
  plHeartbeat :: "'v \<Rightarrow> 'v"
  plCancelled :: "'v \<Rightarrow> bool \<times> 'v"

definition nextEnv :: "'v Platform \<Rightarrow> 'v \<Rightarrow> writeEnv \<times> 'v" where
  "nextEnv pl v =
     (case plFails pl v of (fails, v1) \<Rightarrow>
      case plNewString pl v1 of (uuid, v2) \<Rightarrow>
      case plNow pl v2 of (now, v3) \<Rightarrow> (\<lparr>envNow = now, envUUID = uuid, envFails = fails\<rparr>, v3))"

definition withText :: "'v Platform \<Rightarrow> store_error + 'a \<Rightarrow> goerror + 'a" where
  "withText pl r = (case r of Inl e \<Rightarrow> Inl (plErrorText pl e) | Inr x \<Rightarrow> Inr x)"

definition dbWrite ::
  "'v Platform \<Rightarrow> (writeEnv \<Rightarrow> database \<Rightarrow> (store_error + 'a) \<times> database) \<Rightarrow> (database \<times> 'v, 'a) io" where
  "dbWrite pl f w =
     (case nextEnv pl (snd w) of (env, v) \<Rightarrow>
      case f env (fst w) of (res, d) \<Rightarrow> (withText pl res, (d, v)))"

definition dbRead :: "'v Platform \<Rightarrow> (database \<Rightarrow> store_error + 'a) \<Rightarrow> (database \<times> 'v, 'a) io" where
  "dbRead pl f w =
     (case plFails pl (snd w) of (fails, v) \<Rightarrow>
      (withText pl (if fails then Inl IOError else f (fst w)), (fst w, v)))"

definition onMachine :: "('v \<Rightarrow> 'a \<times> 'v) \<Rightarrow> database \<times> 'v \<Rightarrow> 'a \<times> database \<times> 'v" where
  "onMachine m w = (case m (snd w) of (x, v) \<Rightarrow> (x, (fst w, v)))"

definition sqliteOrchestrator :: "'v Platform \<Rightarrow> (database \<times> 'v) Orchestrator" where
  "sqliteOrchestrator pl =
     \<lparr>Get = \<lambda>jid. dbRead pl (GetJob jid),
      Update = \<lambda>jid p w. (case dbWrite pl (UpdateJob jid p) w of
        (Inl e, w') \<Rightarrow> ((zeroJob, Some e), w') | (Inr job, w') \<Rightarrow> ((job, None), w')),
      EnqueueOnce = \<lambda>input. dbWrite pl (EnqueueIfNotActive input),
      Mark = \<lambda>rid t w. (case onMachine (plNow pl) w of (clock, w1) \<Rightarrow> dbWrite pl (MarkApplied rid t clock) w1),
      Execute = \<lambda>req. onMachine (plExecute pl req),
      CandidateRoot = plCandidateRoot pl,
      FileSystem = \<lparr>MkdirAll = \<lambda>path m. onMachine (MkdirAll (plFileSystem pl) path m),
                    WriteFile = \<lambda>path b m. onMachine (WriteFile (plFileSystem pl) path b m)\<rparr>,
      Now = onMachine (plNow pl),
      Log = \<lambda>m w. (fst w, plLog pl m (snd w)),
      NewString = onMachine (plNewString pl),
      Unmarshal = plUnmarshal pl\<rparr>"

definition sqlitePoller ::
  "'v Platform \<Rightarrow> (database \<times> 'v) Renderer \<Rightarrow> int \<Rightarrow> int \<Rightarrow> (database \<times> 'v) PollOptions" where
  "sqlitePoller pl render leaseMs interval =
     \<lparr>poRecoverStale = \<lambda>lease. dbWrite pl (RecoverStale lease),
      poClaimNext = \<lambda>target. dbWrite pl (ClaimNext target),
      poList = dbRead pl ListJobs,
      poUpdate = \<lambda>jid p. dbWrite pl (UpdateJob jid p),
      poGetRevision = \<lambda>rid. dbRead pl (GetRevision rid),
      poLatestApplied = dbRead pl LatestApplied,
      poApply = Apply (sqliteOrchestrator pl),
      poReconcileApplied = ReconcileApplied (sqliteOrchestrator pl),
      poRender = render,
      poLeaseMs = leaseMs,
      poNow = onMachine (plNow pl),
      poInterval = interval,
      poWait = \<lambda>i w. (fst w, plWait pl i (snd w)),
      poHeartbeat = \<lambda>w. (fst w, plHeartbeat pl (snd w)),
      poOnError = \<lambda>e w. (fst w, plLog pl (''worker poll error: '' @ e) (snd w)),
      poCancelled = onMachine (plCancelled pl)\<rparr>"

section \<open>A sound installation\<close>

definition legalWorld :: "('v \<Rightarrow> bool) \<Rightarrow> database \<times> 'v \<Rightarrow> bool" where
  "legalWorld good w \<longleftrightarrow> databaseOK (fst w) \<and> good (snd w)"

definition storedJob :: "database \<times> 'v \<Rightarrow> string \<Rightarrow> Job option" where
  "storedJob w jid = (case GetJob jid (fst w) of Inr j \<Rightarrow> j | Inl _ \<Rightarrow> None)"

definition currentRevision :: "database \<Rightarrow> string \<Rightarrow> bool" where
  "currentRevision d rid \<longleftrightarrow>
     map_option srCurrentAppliedRevisionID (dbSettings d) = Some (Some rid) \<and>
     (\<exists>r \<in> set (dbRevisions d). rrID r = rid \<and> rrAppliedAt r \<noteq> None)"

lemma storedJob_Some: "storedJob (d, v) jid = Some j \<longleftrightarrow> GetJob jid d = Inr (Some j)"
  by (auto simp: storedJob_def split: sum.splits)

locale platform_ok =
  fixes pl :: "'v Platform"
    and good :: "'v \<Rightarrow> bool"
    and fresh :: "string \<Rightarrow> bool"
    and acceptable :: "Request \<Rightarrow> bool"
    and leaseMs :: int
  assumes pl_execute: "good v \<Longrightarrow> acceptable req \<Longrightarrow>
      \<exists>resp v'. plExecute pl req v = (Inr resp, v') \<and> rsOK resp \<and> \<not> hasNginxDrift resp \<and> good v'"
    and pl_mkdir: "good v \<Longrightarrow> \<exists>v'. MkdirAll (plFileSystem pl) path m v = (Inr (), v') \<and> good v'"
    and pl_write: "good v \<Longrightarrow> \<exists>v'. WriteFile (plFileSystem pl) path b m v = (Inr (), v') \<and> good v'"
    and pl_now: "good v \<Longrightarrow> \<exists>t v'. plNow pl v = (t, v') \<and> finiteRange (fst t) (snd t) \<and>
      finiteRange (fst (cutoffTime t leaseMs)) (snd (cutoffTime t leaseMs)) \<and> good v'"
    and pl_newString: "good v \<Longrightarrow> \<exists>u v'. plNewString pl v = (u, v') \<and> fresh u \<and> good v'"
    and pl_fails: "good v \<Longrightarrow> \<exists>v'. plFails pl v = (False, v') \<and> good v'"
begin

lemma env_ok:
  assumes "good v"
  obtains env v' where "nextEnv pl v = (env, v')" "\<not> envFails env" "finiteRange (fst (envNow env)) (snd (envNow env))"
    "finiteRange (fst (cutoffTime (envNow env) leaseMs)) (snd (cutoffTime (envNow env) leaseMs))" "good v'"
proof -
  obtain v1 where 1: "plFails pl v = (False, v1)" "good v1" using pl_fails [OF assms] by blast
  obtain u v2 where 2: "plNewString pl v1 = (u, v2)" "good v2" using pl_newString [OF 1(2)] by blast
  obtain t v3 where "plNow pl v2 = (t, v3)" "finiteRange (fst t) (snd t)"
    "finiteRange (fst (cutoffTime t leaseMs)) (snd (cutoffTime t leaseMs))" "good v3" using pl_now [OF 2(2)] by blast
  then show thesis using 1 2 that by (simp add: nextEnv_def)
qed

lemma write_ok:
  assumes "good v" "\<And>env. \<not> envFails env \<Longrightarrow> finiteRange (fst (envNow env)) (snd (envNow env)) \<Longrightarrow>
      finiteRange (fst (cutoffTime (envNow env) leaseMs)) (snd (cutoffTime (envNow env) leaseMs)) \<Longrightarrow>
      \<exists>x d'. f env d = (Inr x, d') \<and> P x d'"
  shows "\<exists>x d' v'. dbWrite pl f (d, v) = (Inr x, (d', v')) \<and> P x d' \<and> good v'"
proof -
  obtain env v' where e: "nextEnv pl v = (env, v')" "\<not> envFails env" "finiteRange (fst (envNow env)) (snd (envNow env))"
    "finiteRange (fst (cutoffTime (envNow env) leaseMs)) (snd (cutoffTime (envNow env) leaseMs))" "good v'"
    using env_ok [OF assms(1)] .
  obtain x d' where "f env d = (Inr x, d')" "P x d'" using assms(2) [OF e(2-4)] by blast
  then show ?thesis using e(1,5) by (simp add: dbWrite_def withText_def)
qed

lemma read_ok: "good v \<Longrightarrow> f d = Inr x \<Longrightarrow> \<exists>v'. dbRead pl f (d, v) = (Inr x, (d, v')) \<and> good v'"
  using pl_fails [of v] by (auto simp: dbRead_def withText_def)

lemma update_works:
  assumes "legalWorld good (d, v)" "GetJob jid d = Inr (Some j0)" "patStatus p = Some s" "moves (jobStatus j0) s" "plainPatch p"
  shows "\<exists>j d' v'. dbWrite pl (UpdateJob jid p) (d, v) = (Inr j, (d', v')) \<and>
    (jobStatus j = s \<and> sameJob j0 j \<and> databaseOK d' \<and> GetJob jid d' = Inr (Some j) \<and> currentRevision d' = currentRevision d) \<and> good v'"
proof (rule write_ok)
  show "good v" using assms(1) by (simp add: legalWorld_def)
  have ok: "databaseOK d" using assms(1) by (simp add: legalWorld_def)
  obtain row :: jobRow where row: "row \<in> set (dbJobs d)" "jrID row = jid" "scanJob row = Inr j0"
    using assms(2) by (auto simp: GetJob_def dest!: find_some split: option.splits)
  fix env :: writeEnv assume env: "\<not> envFails env" "finiteRange (fst (envNow env)) (snd (envNow env))"
  have "moves (jrStatus row) s" using assms(4) scanJob_fields(2) [OF row(3)] by simp
  from UpdateJob_works [OF ok row(1) assms(3) this assms(5) env] row(2)
  obtain j d' where u: "UpdateJob jid p env d = (Inr j, d')" "dbRevisions d' = dbRevisions d" "dbSettings d' = dbSettings d" by blast
  have "databaseOK d'" using sqlite.update_legal [OF ok, of jid p env] u(1) by simp
  moreover have "jobStatus j = s \<and> sameJob j0 j"
    using sqlite.update_move [OF ok u(1)] assms(2,3) by (auto simp: sameJob_def)
  moreover have "currentRevision d' = currentRevision d" by (simp add: fun_eq_iff currentRevision_def u(2,3))
  ultimately show "\<exists>x d'. UpdateJob jid p env d = (Inr x, d') \<and>
      (jobStatus x = s \<and> sameJob j0 x \<and> databaseOK d' \<and> GetJob jid d' = Inr (Some x) \<and> currentRevision d' = currentRevision d)"
    using u(1) sqlite.update_read [OF ok u(1)] by blast
qed

lemma mark_works:
  assumes "legalWorld good (d, v)" "GetJob jid d = Inr (Some j)" "finiteRange (fst t) (snd t)" "finiteRange (fst clock) (snd clock)"
  shows "\<exists>rv d' v'. dbWrite pl (MarkApplied (jobRevisionID j) t clock) (d, v) = (Inr rv, (d', v')) \<and>
    (databaseOK d' \<and> dbJobs d' = dbJobs d \<and> currentRevision d' (jobRevisionID j)) \<and> good v'"
proof (rule write_ok)
  show "good v" using assms(1) by (simp add: legalWorld_def)
  have ok: "databaseOK d" using assms(1) by (simp add: legalWorld_def)
  obtain row :: revRow where row: "row \<in> set (dbRevisions d)" "rrID row = jobRevisionID j" using job_revision(1) [OF ok assms(2)] by blast
  fix env :: writeEnv assume env: "\<not> envFails env" "finiteRange (fst (envNow env)) (snd (envNow env))"
  from MarkApplied_works [OF ok row(1) assms(3,4) env] row(2)
  obtain rv d' where m: "MarkApplied (jobRevisionID j) t clock env d = (Inr rv, d')" by auto
  have f: "finiteRange (fst (if t = zeroTime then clock else t)) (snd (if t = zeroTime then clock else t))" using assms(3,4) by simp
  note eff = MarkApplied_effect [OF ok m refl f]
  obtain key stamp where "d' = d\<lparr>dbRevisions := map (stampRevision (jobRevisionID j) key) (dbRevisions d),
      dbSettings := Some (markSettings (jobRevisionID j) key stamp (dbSettings d))\<rparr>"
    by (rule MarkApplied_Inr [OF m]) blast
  then have "stampRevision (jobRevisionID j) key row \<in> set (dbRevisions d')" using row(1) by simp
  moreover have "rrID (stampRevision (jobRevisionID j) key row) = jobRevisionID j"
    "rrAppliedAt (stampRevision (jobRevisionID j) key row) \<noteq> None" using row(2) by (simp_all add: stampRevision_def)
  ultimately have "currentRevision d' (jobRevisionID j)" using eff unfolding currentRevision_def by blast
  then show "\<exists>x d'. MarkApplied (jobRevisionID j) t clock env d = (Inr x, d') \<and>
      (databaseOK d' \<and> dbJobs d' = dbJobs d \<and> currentRevision d' (jobRevisionID j))"
    using m eff by blast
qed

end

sublocale platform_ok \<subseteq> run: accepting "sqliteOrchestrator pl" "legalWorld good" storedJob
    "\<lambda>w. currentRevision (fst w)" fresh acceptable
proof (unfold_locales, goal_cases)
  case (1 w jid j0 p s)
  obtain d v where w: "w = (d, v)" by (cases w)
  then show ?case
    using update_works [of d v jid j0 p s] 1 by (auto simp: sqliteOrchestrator_def storedJob_Some legalWorld_def)
next
  case (2 w jid j t)
  obtain d v where w: "w = (d, v)" by (cases w)
  obtain clock v1 where c: "plNow pl v = (clock, v1)" "finiteRange (fst clock) (snd clock)" "good v1"
    using pl_now [of v] 2(1) w by (auto simp: legalWorld_def)
  have "legalWorld good (d, v1)" using 2(1) w c(3) by (simp add: legalWorld_def)
  then obtain rv d' v' where "dbWrite pl (MarkApplied (jobRevisionID j) t clock) (d, v1) = (Inr rv, (d', v'))"
      "databaseOK d'" "dbJobs d' = dbJobs d" "currentRevision d' (jobRevisionID j)" "good v'"
    using mark_works [of d v1 jid j t clock] 2(2,3) c(2) w by (auto simp: storedJob_Some)
  then show ?case using c(1) w
    by (auto simp: sqliteOrchestrator_def onMachine_def legalWorld_def storedJob_def fun_eq_iff GetJob_def)
next
  case (3 w req)
  then show ?case using pl_execute [of "snd w" req] by (auto simp: sqliteOrchestrator_def onMachine_def legalWorld_def storedJob_def fun_eq_iff)
next
  case (4 w path m)
  then show ?case using pl_mkdir [of "snd w" path m] by (auto simp: sqliteOrchestrator_def onMachine_def legalWorld_def storedJob_def fun_eq_iff)
next
  case (5 w path b m)
  then show ?case using pl_write [of "snd w" path b m] by (auto simp: sqliteOrchestrator_def onMachine_def legalWorld_def storedJob_def fun_eq_iff)
next
  case (6 w)
  then show ?case using pl_now [of "snd w"] by (auto simp: sqliteOrchestrator_def onMachine_def legalWorld_def storedJob_def fun_eq_iff)
next
  case (7 w)
  then show ?case using pl_newString [of "snd w"] by (auto simp: sqliteOrchestrator_def onMachine_def legalWorld_def storedJob_def fun_eq_iff)
qed

section \<open>One poll of a sound installation\<close>

text \<open>The renderer turns every stored revision into candidates that can be written and requested.\<close>

definition rendersAll ::
  "'v Platform \<Rightarrow> ('v \<Rightarrow> bool) \<Rightarrow> (string \<Rightarrow> bool) \<Rightarrow> (Request \<Rightarrow> bool) \<Rightarrow> (database \<times> 'v) Renderer \<Rightarrow> database \<Rightarrow> bool" where
  "rendersAll pl good fresh acceptable render d \<longleftrightarrow>
     (\<forall>job rv w. legalWorld good w \<longrightarrow> GetRevision (jobRevisionID job) d = Inr (Some rv) \<longrightarrow>
        (\<exists>cands w'. render (DesiredSnapshot (Doc (rvSnapshot rv))) job w = (Inr cands, w') \<and> legalWorld good w' \<and>
           storedJob w' = storedJob w \<and> cands \<noteq> [] \<and>
           (\<forall>c \<in> set cands. applicableTo (orDefault (plCandidateRoot pl) DefaultCandidateRoot) fresh acceptable (jobRevisionID job) c)))"

text \<open>The row a claimed or recovered row comes from.\<close>

definition active :: "jobRow \<Rightarrow> bool" where
  "active row \<longleftrightarrow> jrStatus row = Queued \<or> jrStatus row = Validating \<or> jrStatus row = Applying"

context platform_ok
begin

lemma recover_works:
  assumes "legalWorld good (d, v)" "r \<in> set (dbJobs d)" "jrStatus r = Queued"
  shows "\<exists>n d' v'. dbWrite pl (RecoverStale leaseMs) (d, v) = (Inr n, (d', v')) \<and>
    (databaseOK d' \<and> dbRevisions d' = dbRevisions d \<and> r \<in> set (dbJobs d') \<and>
      (\<forall>row' \<in> set (dbJobs d'). jrStatus row' = Queued \<longrightarrow>
         (\<exists>row \<in> set (dbJobs d). jrID row = jrID row' \<and> jrRevisionID row = jrRevisionID row' \<and> active row))) \<and> good v'"
proof (rule write_ok)
  show "good v" using assms(1) by (simp add: legalWorld_def)
  fix env :: writeEnv
  assume env: "\<not> envFails env" "finiteRange (fst (envNow env)) (snd (envNow env))"
    "finiteRange (fst (cutoffTime (envNow env) leaseMs)) (snd (cutoffTime (envNow env) leaseMs))"
  obtain n d' where r: "RecoverStale leaseMs env d = (Inr n, d')" using RecoverStale_works [OF env] by blast
  obtain cutoff where d': "d' = d\<lparr>dbJobs := map (\<lambda>r. if isStale cutoff r then recoverFields r else r) (dbJobs d)\<rparr>"
    by (rule RecoverStale_Inr [OF r]) blast
  have "databaseOK d'" using RecoverStale_step [of d leaseMs env] assms(1) r by (simp add: legalWorld_def)
  moreover have "\<not> isStale cutoff r" using assms(3) isStale_status [of cutoff r] by auto
  then have "r \<in> set (dbJobs d')" using assms(2) d' by force
  moreover have "\<exists>row \<in> set (dbJobs d). jrID row = jrID row' \<and> jrRevisionID row = jrRevisionID row' \<and> active row"
    if row': "row' \<in> set (dbJobs d')" "jrStatus row' = Queued" for row'
  proof -
    obtain row where row: "row \<in> set (dbJobs d)" "row' = (if isStale cutoff row then recoverFields row else row)"
      using row'(1) d' by auto
    then have "active row"
      using row'(2) isStale_status [of cutoff row] by (cases "isStale cutoff row") (auto simp: active_def)
    then show ?thesis using row by auto
  qed
  ultimately show "\<exists>x d'. RecoverStale leaseMs env d = (Inr x, d') \<and>
      (databaseOK d' \<and> dbRevisions d' = dbRevisions d \<and> r \<in> set (dbJobs d') \<and>
        (\<forall>row' \<in> set (dbJobs d'). jrStatus row' = Queued \<longrightarrow>
           (\<exists>row \<in> set (dbJobs d). jrID row = jrID row' \<and> jrRevisionID row = jrRevisionID row' \<and> active row)))"
    using r d' by auto
qed

lemma claim_works:
  assumes "legalWorld good (d, v)" "r \<in> set (dbJobs d)" "jrStatus r = Queued"
  shows "\<exists>claimed d' v'. dbWrite pl (ClaimNext []) (d, v) = (Inr claimed, (d', v')) \<and>
    (\<exists>job. claimed = Some job \<and> databaseOK d' \<and> dbRevisions d' = dbRevisions d \<and> GetJob (jobID job) d' = Inr (Some job) \<and>
      jobStatus job = Validating \<and>
      (\<exists>row \<in> set (dbJobs d). jrID row = jobID job \<and> jrRevisionID row = jobRevisionID job \<and> jrStatus row = Queued)) \<and> good v'"
proof (rule write_ok)
  show "good v" using assms(1) by (simp add: legalWorld_def)
  have ok: "databaseOK d" using assms(1) by (simp add: legalWorld_def)
  fix env :: writeEnv
  assume env: "\<not> envFails env" "finiteRange (fst (envNow env)) (snd (envNow env))"
  obtain job d' where c: "ClaimNext [] env d = (Inr (Some job), d')" "jobStatus job = Validating"
    using ClaimNext_works [OF ok env _ assms(2,3), of "[]"] by auto
  have ok': "databaseOK d'" using ClaimNext_step [OF ok, of "[]" env] c(1) by simp
  obtain stamp :: string and row :: jobRow where "\<exists>r \<in> set (dbJobs d). jrID r = jrID row \<and> jrStatus r = Queued \<and>
      jobRowOK d (claimFields stamp r) \<and> scanJob (claimFields stamp r) = Inr job"
    and d': "d' = updateRow (jrID row) (claimFields stamp) d"
    by (rule ClaimNext_Some [OF c(1)]) blast
  then obtain x where x: "x \<in> set (dbJobs d)" "jrID x = jrID row" "jrStatus x = Queued" "scanJob (claimFields stamp x) = Inr job"
    by blast
  have ids: "jobID job = jrID x" "jobRevisionID job = jrRevisionID x" using scanJob_fields(1,3) [OF x(4)] by simp_all
  have "claimFields stamp x \<in> set (dbJobs d')" using x(1,2) unfolding d' updateRow_def by force
  from GetJob_row [OF ok' this] have "GetJob (jobID job) d' = Inr (Some job)" using x(4) ids by simp
  then show "\<exists>claimed d'. ClaimNext [] env d = (Inr claimed, d') \<and>
      (\<exists>job. claimed = Some job \<and> databaseOK d' \<and> dbRevisions d' = dbRevisions d \<and> GetJob (jobID job) d' = Inr (Some job) \<and>
        jobStatus job = Validating \<and>
        (\<exists>row \<in> set (dbJobs d). jrID row = jobID job \<and> jrRevisionID row = jobRevisionID job \<and> jrStatus row = Queued))"
    using c ok' x ids by (auto simp: d' updateRow_def)
qed

lemma apply_works:
  assumes "legalWorld good (d, v)" "GetJob (jobID job) d = Inr (Some job)" "jobStatus job = Validating"
    "GetRevision (jobRevisionID job) d = Inr (Some rv)" "rendersAll pl good fresh acceptable render d"
  shows "\<exists>applied d' v'. Apply (sqliteOrchestrator pl) (jobID job) (Doc (rvSnapshot rv)) render (d, v) = (Inr applied, (d', v')) \<and>
    databaseOK d' \<and> good v' \<and> GetJob (jobID applied) d' = Inr (Some applied) \<and> sameJob job applied \<and> jobStatus applied = Applied \<and>
    currentRevision d' (jobRevisionID applied)"
proof -
  obtain v1 where get: "dbRead pl (GetJob (jobID job)) (d, v) = (Inr (Some job), (d, v1))" "good v1"
    using read_ok [of v "GetJob (jobID job)" d] assms(1,2) by (auto simp: legalWorld_def)
  have renders: "\<exists>cands w'. render (DesiredSnapshot (Doc (rvSnapshot rv))) j w = (Inr cands, w') \<and> legalWorld good w' \<and>
      storedJob w' = storedJob w \<and> cands \<noteq> [] \<and> (\<forall>c \<in> set cands. run.applicable (jobRevisionID job) c)"
    if "legalWorld good w" "sameJob job j" for j w
  proof -
    have "jobRevisionID j = jobRevisionID job" using that(2) by (simp add: sameJob_def)
    then show ?thesis
      using assms(5) [unfolded rendersAll_def, rule_format, OF that(1), of j rv] assms(4) by (simp add: sqliteOrchestrator_def)
  qed
  from run.Apply_lands [of job render "Doc (rvSnapshot rv)" "jobID job" "(d, v)" "(d, v1)"] renders get assms(1-3)
  obtain applied w' where "Apply (sqliteOrchestrator pl) (jobID job) (Doc (rvSnapshot rv)) render (d, v) = (Inr applied, w')"
    "legalWorld good w'" "storedJob w' (jobID job) = Some applied" "sameJob job applied" "jobStatus applied = Applied"
    "currentRevision (fst w') (jobRevisionID job)"
    by (auto simp: sqliteOrchestrator_def storedJob_Some legalWorld_def)
  then show ?thesis by (cases w') (auto simp: legalWorld_def storedJob_Some sameJob_def)
qed

lemma poll_applies:
  assumes ok: "legalWorld good (d, v)" and lease: "0 < leaseMs"
    and queued: "r \<in> set (dbJobs d)" "jrStatus r = Queued"
    and render: "\<And>d'. dbRevisions d' = dbRevisions d \<Longrightarrow> rendersAll pl good fresh acceptable render d'"
  shows "\<exists>job d' v'. PollOnce (sqlitePoller pl render leaseMs interval) (d, v) = (Inr (Some job), (d', v')) \<and>
    databaseOK d' \<and> good v' \<and> GetJob (jobID job) d' = Inr (Some job) \<and> jobStatus job = Applied \<and>
    currentRevision d' (jobRevisionID job) \<and>
    (\<exists>row \<in> set (dbJobs d). jrID row = jobID job \<and> jrRevisionID row = jobRevisionID job \<and> active row)"
proof -
  obtain n d1 v1 where recovered: "dbWrite pl (RecoverStale leaseMs) (d, v) = (Inr n, (d1, v1))"
    and d1: "databaseOK d1" "dbRevisions d1 = dbRevisions d" "r \<in> set (dbJobs d1)" "good v1"
      "\<forall>row' \<in> set (dbJobs d1). jrStatus row' = Queued \<longrightarrow>
         (\<exists>row \<in> set (dbJobs d). jrID row = jrID row' \<and> jrRevisionID row = jrRevisionID row' \<and> active row)"
    using recover_works [OF ok queued] by blast
  have "legalWorld good (d1, v1)" using d1 by (simp add: legalWorld_def)
  from claim_works [OF this d1(3) queued(2)] obtain job d2 v2 where
    claimed: "dbWrite pl (ClaimNext []) (d1, v1) = (Inr (Some job), (d2, v2))"
    and d2: "databaseOK d2" "dbRevisions d2 = dbRevisions d1" "GetJob (jobID job) d2 = Inr (Some job)" "jobStatus job = Validating" "good v2"
    and row: "\<exists>row \<in> set (dbJobs d1). jrID row = jobID job \<and> jrRevisionID row = jobRevisionID job \<and> jrStatus row = Queued"
    by blast
  obtain rv where rv: "GetRevision (jobRevisionID job) d2 = Inr (Some rv)" using job_revision(2) [OF d2(1,3)] by blast
  obtain v3 where read: "dbRead pl (GetRevision (jobRevisionID job)) (d2, v2) = (Inr (Some rv), (d2, v3))" "good v3"
    using read_ok [of v2 "GetRevision (jobRevisionID job)" d2] rv d2(5) by blast
  have "legalWorld good (d2, v3)" "rendersAll pl good fresh acceptable render d2"
    using d2(1,2) d1(2) read(2) render by (simp_all add: legalWorld_def)
  from apply_works [OF this(1) d2(3,4) rv this(2)] obtain applied d' v' where
    run: "Apply (sqliteOrchestrator pl) (jobID job) (Doc (rvSnapshot rv)) render (d2, v3) = (Inr applied, (d', v'))"
    and fin: "databaseOK d'" "good v'" "GetJob (jobID applied) d' = Inr (Some applied)" "sameJob job applied" "jobStatus applied = Applied"
      "currentRevision d' (jobRevisionID applied)"
    by blast
  have "PollOnce (sqlitePoller pl render leaseMs interval) (d, v) = (Inr (Some applied), (d', v'))"
    using recovered claimed read run lease
    by (simp add: PollOnce_def pollClaimed_def sqlitePoller_def leaseOf_def bindIO_def)
  moreover have "\<exists>row \<in> set (dbJobs d). jrID row = jobID applied \<and> jrRevisionID row = jobRevisionID applied \<and> active row"
    using row d1(5) fin(4) unfolding sameJob_def by metis
  ultimately show ?thesis using fin by blast
qed

end

section \<open>The fixed boundary\<close>

text \<open>
  An installation whose control server runs the fixed handlers behind the wire protocol, whose disk takes every
  write and whose clock stands still; the number of identifiers drawn so far is its state.
\<close>

definition boundaryServer :: "nat Server" where
  "boundaryServer = \<lparr>svHandlers = FixedBoundaryHandlers, svLog = \<lambda>m w. w, svWrite = \<lambda>m w. (False, w)\<rparr>"

definition boundaryPlatform :: "gotime \<Rightarrow> nat Platform" where
  "boundaryPlatform now =
     \<lparr>plExecute = clientCall (\<lambda>_. False) [] boundaryServer,
      plFileSystem = \<lparr>MkdirAll = \<lambda>path m. returnIO (), WriteFile = \<lambda>path b m. returnIO ()\<rparr>,
      plNow = \<lambda>v. (now, v),
      plLog = \<lambda>m v. v,
      plNewString = \<lambda>v. (uuidOf v, Suc v),
      plFails = \<lambda>v. (False, v),
      plErrorText = \<lambda>e. [],
      plUnmarshal = \<lambda>s. parseJson s,
      plCandidateRoot = [],
      plWait = \<lambda>i v. v,
      plHeartbeat = \<lambda>v. v,
      plCancelled = \<lambda>v. (False, v)\<rparr>"

interpretation boundary: platform_ok "boundaryPlatform (1000, 0)" "\<lambda>_. True" uuidShaped goodRequest DefaultLeaseMs
proof (unfold_locales, goal_cases)
  case (1 v req)
  then show ?case
    using fixed_answer [of req boundaryServer "\<lambda>_. False" "[]" v]
    by (cases "clientCall (\<lambda>_. False) [] boundaryServer req v") (auto simp: boundaryPlatform_def boundaryServer_def)
next
  case (4 v)
  then show ?case by (simp add: boundaryPlatform_def finiteRange_def cutoffTime_def UnixMilli_def DefaultLeaseMs_def)
qed (simp_all add: boundaryPlatform_def returnIO_def uuidOf_shape)

section \<open>Properties\<close>

lemma rendersAll_cong: "dbRevisions d' = dbRevisions d \<Longrightarrow> rendersAll pl good fresh acceptable render d' = rendersAll pl good fresh acceptable render d"
  by (simp add: rendersAll_def GetRevision_def)

text \<open>
  C30: On a sound installation a poll applies a queued job: when the database is well formed and holds a queued
  job, and the renderer turns every stored revision into candidates that control accepts, then one
  \<open>PollOnce\<close> of the worker over the SQLite stores ends with a job that is stored as applied, whose revision is
  stamped and is the current one of the installation, and that was queued or in work before.
\<close>
theorem PollOnce_applies:
  assumes "platform_ok pl good fresh acceptable leaseMs" and "0 < leaseMs"
    and "legalWorld good (d, v)" and "r \<in> set (dbJobs d)" and "jrStatus r = Queued"
    and "rendersAll pl good fresh acceptable render d"
  shows "\<exists>job d' v'. PollOnce (sqlitePoller pl render leaseMs interval) (d, v) = (Inr (Some job), (d', v')) \<and>
    databaseOK d' \<and> good v' \<and> GetJob (jobID job) d' = Inr (Some job) \<and> jobStatus job = Applied \<and>
    currentRevision d' (jobRevisionID job) \<and>
    (\<exists>row \<in> set (dbJobs d). jrID row = jobID job \<and> jrRevisionID row = jobRevisionID job \<and> active row)"
  by (rule platform_ok.poll_applies [OF assms(1) assms(3,2,4,5)]) (simp only: rendersAll_cong assms(6))

text \<open>A renderer that writes one nginx configuration, for the revision of the sample database.\<close>

definition oneFile :: Candidate where
  "oneFile = \<lparr>cdService = ServiceNginx, cdCandidatePath = DefaultCandidateRoot @ ''/a1/nginx'', cdChecksum = ''00'',
     cdFiles = Some [(''nginx.conf'', ''events {}'')]\<rparr>"

definition oneFileRender :: "(database \<times> nat) Renderer" where
  "oneFileRender snapshot job w = (Inr [oneFile], w)"

lemma oneFile_applicable: "applicableTo DefaultCandidateRoot uuidShaped goodRequest (rrID sampleRevision) oneFile"
proof -
  have "writable DefaultCandidateRoot oneFile" by code_simp
  moreover have "goodRequest \<lparr>rqRequestID = rid, rqOperation = operation, rqService = cdService oneFile, rqRevisionID = rrID sampleRevision,
      rqChecksum = cdChecksum oneFile, rqCandidatePath = cdCandidatePath oneFile\<rparr>"
    if "uuidShaped rid" "operation \<in> set Operations" for rid operation
  proof (rule plainRequest_good)
    let ?req = "\<lparr>rqRequestID = rid, rqOperation = operation, rqService = cdService oneFile, rqRevisionID = rrID sampleRevision,
      rqChecksum = cdChecksum oneFile, rqCandidatePath = cdCandidatePath oneFile\<rparr>"
    have "list_all (\<lambda>x. list_all plainChar x \<and> length x \<le> 100) Operations"
      "list_all (list_all plainChar) [cdService oneFile, rrID sampleRevision, cdChecksum oneFile, cdCandidatePath oneFile]"
      "length (concat [cdService oneFile, rrID sampleRevision, cdChecksum oneFile, cdCandidatePath oneFile]) \<le> 500" by code_simp+
    then show "list_all (list_all plainChar) (requestStrings ?req)" "length (concat (requestStrings ?req)) \<le> 60000"
      using that by (auto simp: requestStrings_def uuidShaped_def list_all_iff)
    have "cdService oneFile = ServiceNginx" "HasPrefix (cdCandidatePath oneFile) ''/''" "\<not> Contains (cdCandidatePath oneFile) ''..''"
      "\<not> Contains (cdCandidatePath oneFile) [NUL]" by code_simp+
    then show "checkRequest ?req = Inr ?req" using that(2) by (simp add: checkRequest_def)
  qed
  ultimately show ?thesis by (simp add: applicableTo_def)
qed

theorem PollOnce_applies_witness:
  "\<exists>job d' v'. PollOnce (sqlitePoller (boundaryPlatform (1000, 0)) oneFileRender DefaultLeaseMs 5000)
       (sampleDB [sampleRow job1 (timeKey (7, 0)) Queued None, sampleRow job2 (timeKey (5, 0)) Queued None], 0) =
     (Inr (Some job), (d', v')) \<and> jobStatus job = Applied \<and> currentRevision d' (rrID sampleRevision)"
proof -
  let ?d = "sampleDB [sampleRow job1 (timeKey (7, 0)) Queued None, sampleRow job2 (timeKey (5, 0)) Queued None]"
  have rows: "sampleRow job1 (timeKey (7, 0)) Queued None \<in> set (dbJobs ?d)" "jrStatus (sampleRow job1 (timeKey (7, 0)) Queued None) = Queued"
    "\<forall>row \<in> set (dbJobs ?d). jrRevisionID row = rrID sampleRevision"
    by (simp_all add: sampleDB_def sampleRow_def sampleRevision_def)
  have "applicableTo DefaultCandidateRoot uuidShaped goodRequest (jobRevisionID job) oneFile"
    if "GetRevision (jobRevisionID job) ?d = Inr (Some rv)" for job :: Job and rv
    using that oneFile_applicable by (auto simp: GetRevision_def sampleDB_def oneRevision_def optional_def split: if_splits)
  then have "rendersAll (boundaryPlatform (1000, 0)) (\<lambda>_. True) uuidShaped goodRequest oneFileRender ?d"
    by (auto simp: rendersAll_def oneFileRender_def boundaryPlatform_def orDefault_def)
  moreover have "legalWorld (\<lambda>_. True) (?d, 0 :: nat)" using sample_queue by (simp add: legalWorld_def)
  moreover have "0 < DefaultLeaseMs" by (simp add: DefaultLeaseMs_def)
  ultimately show ?thesis
    using PollOnce_applies [OF boundary.platform_ok_axioms _ _ rows(1,2), of 0 oneFileRender 5000] rows(3) by metis
qed

end
