(* ===== verification/TarArchive.thy ===== *)
theory TarArchive
  imports GoStrings
begin

text \<open>
  The tar archives that carry single files into and out of the containers (\<open>controldocker/tar.go\<close>): the ustar
  writer, byte for byte, and the reader of the first regular file.  The reader gives back what the writer was
  given, and the header carries the checksum the format asks for.
\<close>

section \<open>The writer\<close>

definition tarBlock :: nat where "tarBlock = 512"

text \<open>\<open>copy(header[from:to], text)\<close> and \<open>fmt.Sprintf("%o", n)\<close>.\<close>

definition copyInto :: "nat \<Rightarrow> nat \<Rightarrow> string \<Rightarrow> string \<Rightarrow> string" where
  "copyInto from to src dst =
     (let t = take (to - from) src in take from dst @ t @ drop (from + length t) dst)"

fun octal :: "nat \<Rightarrow> string" where
  "octal n = (if n < 8 then [digitChar n] else octal (n div 8) @ [digitChar (n mod 8)])"

declare octal.simps [simp del]

definition writeTarOctal :: "nat \<Rightarrow> nat \<Rightarrow> nat \<Rightarrow> string \<Rightarrow> string" where
  "writeTarOctal offset len v header =
     (let digits = octal v; padded = replicate (len - 1 - length digits) (CHR ''0'') @ digits
      in copyInto offset (offset + len) (padded @ [CHR 0x00]) header)"

definition byteSum :: "string \<Rightarrow> nat" where
  "byteSum s = sum_list (map of_char s)"

text \<open>The header before the checksum, whose field holds eight spaces, and the finished header.\<close>

definition bareHeader :: "string \<Rightarrow> string \<Rightarrow> string" where
  "bareHeader name contents =
     (copyInto 148 156 (replicate 8 (CHR '' '')) \<circ>
      copyInto 297 329 ''root'' \<circ>
      copyInto 265 297 ''root'' \<circ>
      copyInto 263 265 ''00'' \<circ>
      copyInto 257 263 ''ustar'' \<circ>
      copyInto 156 157 ''0'' \<circ>
      writeTarOctal 136 12 0 \<circ>
      writeTarOctal 124 12 (length contents) \<circ>
      writeTarOctal 116 8 0 \<circ>
      writeTarOctal 108 8 0 \<circ>
      writeTarOctal 100 8 420 \<circ>
      copyInto 0 100 name) (replicate tarBlock (CHR 0x00))"

definition octal6 :: "nat \<Rightarrow> string" where
  "octal6 n = (let digits = octal n in replicate (6 - length digits) (CHR ''0'') @ digits)"

definition tarHeader :: "string \<Rightarrow> string \<Rightarrow> string" where
  "tarHeader name contents =
     (let bare = bareHeader name contents
      in (copyInto 155 156 '' '' \<circ> copyInto 154 155 [CHR 0x00] \<circ> copyInto 148 154 (octal6 (byteSum bare))) bare)"

definition tarPadding :: "nat \<Rightarrow> nat" where
  "tarPadding n = (tarBlock - n mod tarBlock) mod tarBlock"

fun tarEntries :: "(string \<times> string) list \<Rightarrow> string" where
  "tarEntries [] = []"
| "tarEntries ((name, contents) # entries) =
     tarHeader name contents @ contents @ replicate (tarPadding (length contents)) (CHR 0x00) @ tarEntries entries"

definition createTar :: "(string \<times> string) list \<Rightarrow> string" where
  "createTar entries = tarEntries entries @ replicate (2 * tarBlock) (CHR 0x00)"

section \<open>The reader\<close>

fun octalPrefix :: "nat \<Rightarrow> string \<Rightarrow> nat option" where
  "octalPrefix acc [] = Some acc"
| "octalPrefix acc (c # s) =
     (if c < CHR ''0'' \<or> CHR ''7'' < c then Some acc
      else let v = acc * 8 + digitVal c in if v > 2 ^ 30 then None else octalPrefix v s)"

definition parseTarSize :: "string \<Rightarrow> nat option" where
  "parseTarSize field = octalPrefix 0 (TrimSpace (takeWhile (\<lambda>c. c \<noteq> CHR 0x00) field))"

definition allZero :: "string \<Rightarrow> bool" where
  "allZero block \<longleftrightarrow> list_all (\<lambda>c. c = CHR 0x00) block"

definition errNoTarFile :: string where
  "errNoTarFile = ''CoreDNS Corefile archive did not contain a file''"

function extractFrom :: "string \<Rightarrow> nat \<Rightarrow> string + string" where
  "extractFrom archive offset =
     (if offset + tarBlock \<le> length archive then
        let header = take tarBlock (drop offset archive); start = offset + tarBlock in
        if allZero header then Inl errNoTarFile
        else (case parseTarSize (take 12 (drop 124 header)) of
            None \<Rightarrow> Inl errNoTarFile
          | Some n \<Rightarrow>
              if header ! 156 = CHR 0x00 \<or> header ! 156 = CHR ''0''
              then Inr (take n (drop start archive))
              else extractFrom archive (start + n + tarPadding n))
      else Inl errNoTarFile)"
  by pat_completeness auto
termination by (relation "measure (\<lambda>(archive, offset). length archive - offset)") (auto simp: tarBlock_def)

declare extractFrom.simps [simp del]

definition extractFirstFile :: "string \<Rightarrow> string + string" where
  "extractFirstFile archive = extractFrom archive 0"

section \<open>The header\<close>

lemma length_copyInto [simp]: "to \<le> length dst \<Longrightarrow> from \<le> to \<Longrightarrow> length (copyInto from to src dst) = length dst"
  by (simp add: copyInto_def Let_def)

lemma nth_copyInto:
  assumes "to \<le> length dst" "from \<le> to" "i < length dst"
  shows "copyInto from to src dst ! i = (if from \<le> i \<and> i < from + min (to - from) (length src) then src ! (i - from) else dst ! i)"
  using assms by (auto simp: copyInto_def Let_def nth_append min_def)

lemma length_writeTarOctal [simp]: "offset + len \<le> length h \<Longrightarrow> length (writeTarOctal offset len v h) = length h"
  by (simp add: writeTarOctal_def Let_def)

lemma nth_writeTarOctal_other:
  "offset + len \<le> length h \<Longrightarrow> i < length h \<Longrightarrow> i < offset \<or> offset + len \<le> i \<Longrightarrow> writeTarOctal offset len v h ! i = h ! i"
  by (auto simp: writeTarOctal_def Let_def nth_copyInto)

lemma length_bareHeader [simp]: "length (bareHeader name contents) = 512"
  by (simp add: bareHeader_def tarBlock_def)

lemma length_tarHeader [simp]: "length (tarHeader name contents) = tarBlock"
  by (simp add: tarHeader_def Let_def tarBlock_def)

lemma tarHeader_type: "tarHeader name contents ! 156 = CHR ''0''"
  by (simp add: tarHeader_def Let_def nth_copyInto bareHeader_def tarBlock_def)

lemma octal_digits: "\<forall>c \<in> set (octal n). CHR ''0'' \<le> c \<and> c \<le> CHR ''7''"
proof (induction n rule: octal.induct)
  case (1 n)
  have "CHR ''0'' \<le> digitChar d \<and> digitChar d \<le> CHR ''7''" if "d < 8" for d
    using that by (simp add: digitChar_def less_eq_char_def of_char_of)
  then show ?case using 1 by (subst octal.simps) auto
qed

lemma octal_length: "n < 8 ^ Suc k \<Longrightarrow> length (octal n) \<le> Suc k"
proof (induction n arbitrary: k rule: octal.induct)
  case (1 n)
  then show ?case
    by (cases k) (subst octal.simps; auto simp: less_mult_imp_div_less mult.commute)+
qed

lemma octalPrefix_append:
  "octalPrefix acc s = Some v \<Longrightarrow> \<forall>c \<in> set s. CHR ''0'' \<le> c \<and> c \<le> CHR ''7'' \<Longrightarrow> octalPrefix acc (s @ t) = octalPrefix v t"
proof (induction acc s rule: octalPrefix.induct)
  case (2 acc c s)
  have "\<not> (c < CHR ''0'' \<or> CHR ''7'' < c)" using 2(3) by (simp add: not_less)
  then show ?case using 2 by (simp add: Let_def split: if_splits)
qed simp

lemma octalPrefix_octal: "n \<le> 2 ^ 30 \<Longrightarrow> octalPrefix 0 (octal n) = Some n"
proof (induction n rule: octal.induct)
  case (1 n)
  have digit: "digitVal (digitChar d) = d" "\<not> (digitChar d < CHR ''0'' \<or> CHR ''7'' < digitChar d)" if "d < 8" for d
    using that by (simp, simp add: digitChar_def less_char_def of_char_of)
  show ?case
  proof (cases "n < 8")
    case True
    then show ?thesis using digit [OF True] by (subst octal.simps) simp
  next
    case False
    then have ih: "octalPrefix 0 (octal (n div 8)) = Some (n div 8)" using 1 by simp
    have "octal n = octal (n div 8) @ [digitChar (n mod 8)]" using False by (subst octal.simps) simp
    then show ?thesis
      using octalPrefix_append [OF ih octal_digits, of "[digitChar (n mod 8)]"] digit [of "n mod 8"] 1(2)
      by (simp add: Let_def div_mult_mod_eq)
  qed
qed

lemma octalPrefix_zeros: "octalPrefix 0 (replicate k (CHR ''0'') @ s) = octalPrefix 0 s"
  by (induction k) (simp_all add: digitVal_def)

text \<open>A field of octal digits, and what the reader makes of it.\<close>

definition octalField :: "nat \<Rightarrow> nat \<Rightarrow> string" where
  "octalField k n = replicate (k - length (octal n)) (CHR ''0'') @ octal n"

lemma octal6_field: "octal6 n = octalField 6 n"
  by (simp add: octal6_def octalField_def Let_def)

lemma length_octalField: "n < 8 ^ Suc k \<Longrightarrow> length (octalField (Suc k) n) = Suc k"
  using octal_length [of n k] by (simp add: octalField_def)

lemma octalField_digits: "\<forall>c \<in> set (octalField k n). CHR ''0'' \<le> c \<and> c \<le> CHR ''7''"
  using octal_digits by (auto simp: octalField_def)

lemma octal_visible: "CHR ''0'' \<le> c \<and> c \<le> CHR ''7'' \<Longrightarrow> visible c \<and> c \<noteq> CHR 0x00"
  by (auto simp: visible_def isSpace_def less_char_def less_eq_char_def)

lemma parseTarSize_field:
  assumes "n \<le> 2 ^ 30"
  shows "parseTarSize (octalField k n @ [CHR 0x00]) = Some n"
proof -
  have visible: "\<forall>c \<in> set (octalField k n). visible c \<and> c \<noteq> CHR 0x00"
    using octalField_digits octal_visible by blast
  then have "takeWhile (\<lambda>c. c \<noteq> CHR 0x00) (octalField k n @ [CHR 0x00]) = octalField k n"
    by (simp add: takeWhile_append takeWhile_eq_all_conv)
  moreover have "TrimSpace (octalField k n) = octalField k n"
    using visible by (intro TrimSpace_id) (metis hd_in_set last_in_set)
  ultimately show ?thesis
    using octalPrefix_octal [OF assms] by (simp add: parseTarSize_def octalField_def octalPrefix_zeros)
qed

lemma writeTarOctal_field:
  assumes "v < 8 ^ Suc k" "offset + Suc (Suc k) \<le> length h"
  shows "writeTarOctal offset (Suc (Suc k)) v h = copyInto offset (offset + Suc (Suc k)) (octalField (Suc k) v @ [CHR 0x00]) h"
  by (simp add: writeTarOctal_def octalField_def Let_def)

lemma slice_nth:
  assumes "from + length t \<le> length h" "\<And>i. i < length t \<Longrightarrow> h ! (from + i) = t ! i"
  shows "take (length t) (drop from h) = t"
  using assms by (intro nth_equalityI) simp_all

lemma tarHeader_size:
  assumes "length contents \<le> 2 ^ 30"
  shows "take 12 (drop 124 (tarHeader name contents)) = octalField 11 (length contents) @ [CHR 0x00]"
proof -
  let ?t = "octalField 11 (length contents) @ [CHR 0x00]"
  have len: "length (octalField 11 (length contents)) = 11"
    using length_octalField [of "length contents" 10] assms by simp
  have "take (length ?t) (drop 124 (tarHeader name contents)) = ?t"
  proof (rule slice_nth)
    show "124 + length ?t \<le> length (tarHeader name contents)" by (simp add: len tarBlock_def)
    fix i assume i: "i < length ?t"
    then have i12: "i < 12" by (simp add: len)
    have field: "writeTarOctal 124 12 (length contents) h ! (124 + i) = ?t ! i" if "length h = 512" for h
      using writeTarOctal_field [of "length contents" 10 124 h] assms that i12 len by (simp add: nth_copyInto)
    show "tarHeader name contents ! (124 + i) = ?t ! i"
      using i12 unfolding tarHeader_def bareHeader_def Let_def comp_def
      by (simp add: nth_copyInto nth_writeTarOctal_other field tarBlock_def)
  qed
  then show ?thesis by (simp add: len)
qed

lemma byteSum_bound: "byteSum s \<le> 255 * length s"
proof (induction s)
  case (Cons c s)
  have "of_char c < (256 :: nat)" by simp
  then have "of_char c \<le> (255 :: nat)" by linarith
  from add_mono [OF this Cons] show ?case by (simp add: byteSum_def)
qed (simp add: byteSum_def)

lemma tarHeader_checksum:
  "octalPrefix 0 (take 6 (drop 148 (tarHeader name contents))) =
     Some (byteSum (copyInto 148 156 (replicate 8 (CHR '' '')) (tarHeader name contents)))"
proof -
  let ?bare = "bareHeader name contents" and ?h = "tarHeader name contents"
  have sum: "byteSum ?bare \<le> 130560" using byteSum_bound [of ?bare] by simp
  then have len: "length (octalField 6 (byteSum ?bare)) = 6" using length_octalField [of "byteSum ?bare" 5] by simp
  have "take (length (octalField 6 (byteSum ?bare))) (drop 148 ?h) = octalField 6 (byteSum ?bare)"
    by (rule slice_nth) (simp_all add: len tarBlock_def tarHeader_def octal6_field Let_def nth_copyInto)
  moreover have "copyInto 148 156 (replicate 8 (CHR '' '')) ?h = ?bare"
  proof (rule nth_equalityI)
    fix i assume "i < length (copyInto 148 156 (replicate 8 (CHR '' '')) ?h)"
    then have i: "i < 512" by (simp add: tarBlock_def)
    have "?bare ! i = CHR '' ''" if "148 \<le> i" "i < 156"
      using that i by (simp add: bareHeader_def tarBlock_def nth_copyInto)
    then show "copyInto 148 156 (replicate 8 (CHR '' '')) ?h ! i = ?bare ! i"
      using i by (auto simp: nth_copyInto tarHeader_def Let_def tarBlock_def)
  qed (simp add: tarBlock_def)
  ultimately show ?thesis
    using octalPrefix_octal [of "byteSum ?bare"] sum octalPrefix_zeros [of "6 - length (octal (byteSum ?bare))" "octal (byteSum ?bare)"]
    by (simp add: len octalField_def [symmetric])
qed

lemma tarPadding_block: "tarBlock dvd n + tarPadding n"
proof (cases "n mod 512 = 0")
  case True
  then show ?thesis by (simp add: tarPadding_def tarBlock_def mod_eq_0_iff_dvd)
next
  case False
  have "512 * q + r + (512 - r) = 512 * (q + 1)" if "r < 512" for q r :: nat using that by simp
  from this [of "n mod 512" "n div 512"] have "n + (512 - n mod 512) = 512 * (n div 512 + 1)" by simp
  with False show ?thesis by (simp add: tarPadding_def tarBlock_def)
qed

lemma tarEntries_blocks: "tarBlock dvd length (tarEntries entries)"
proof (induction entries rule: tarEntries.induct)
  case (2 name contents entries)
  have "length (tarEntries ((name, contents) # entries)) =
      tarBlock + (length contents + tarPadding (length contents)) + length (tarEntries entries)" by simp
  then show ?case using 2 tarPadding_block [of "length contents"] by (metis dvd_add dvd_refl)
qed simp

lemma octalPrefix_bound: "octalPrefix acc s = Some v \<Longrightarrow> acc \<le> 2 ^ 30 \<Longrightarrow> v \<le> 2 ^ 30"
  by (induction acc s rule: octalPrefix.induct) (auto simp: Let_def split: if_splits)

lemma extractFrom_bound: "extractFrom archive offset = Inr s \<Longrightarrow> length s \<le> 2 ^ 30"
proof (induction archive offset rule: extractFrom.induct)
  case (1 archive offset)
  from 1(2) obtain n where n: "parseTarSize (take 12 (drop 124 (take tarBlock (drop offset archive)))) = Some n"
    and s: "s = take n (drop (offset + tarBlock) archive) \<or> extractFrom archive (offset + tarBlock + n + tarPadding n) = Inr s"
    and ih: "offset + tarBlock \<le> length archive" "\<not> allZero (take tarBlock (drop offset archive))"
    by (subst (asm) extractFrom.simps) (auto simp: Let_def split: if_splits option.splits)
  have small: "n \<le> 2 ^ 30" using n octalPrefix_bound [of 0] by (simp add: parseTarSize_def)
  show ?case using s
  proof
    assume e: "extractFrom archive (offset + tarBlock + n + tarPadding n) = Inr s"
    show ?thesis
    proof (cases "(take tarBlock (drop offset archive)) ! 156 = CHR 0x00 \<or> (take tarBlock (drop offset archive)) ! 156 = CHR ''0''")
      case True
      then have "extractFrom archive offset = Inr (take n (drop (offset + tarBlock) archive))"
        using n ih by (subst extractFrom.simps) (simp add: Let_def)
      with 1(2) small show ?thesis by auto
    next
      case False
      then show ?thesis using 1(1) [OF ih(1) refl refl ih(2) n] e by blast
    qed
  qed (use small in simp)
qed

lemma extractFirstFile_bound: "extractFirstFile archive = Inr s \<Longrightarrow> length s \<le> 2 ^ 30"
  unfolding extractFirstFile_def by (rule extractFrom_bound)

lemma tarHeader_name:
  assumes "CHR 0x00 \<notin> set name" "length name \<le> 100"
  shows "takeWhile (\<lambda>c. c \<noteq> CHR 0x00) (take 100 (tarHeader name contents)) = name"
proof -
  have "take (length (name @ replicate (100 - length name) (CHR 0x00))) (drop 0 (tarHeader name contents)) =
      name @ replicate (100 - length name) (CHR 0x00)"
  proof (rule slice_nth)
    show "0 + length (name @ replicate (100 - length name) (CHR 0x00)) \<le> length (tarHeader name contents)"
      using assms(2) by (simp add: tarBlock_def)
    fix i assume "i < length (name @ replicate (100 - length name) (CHR 0x00))"
    then have "i < 100" using assms(2) by simp
    then show "tarHeader name contents ! (0 + i) = (name @ replicate (100 - length name) (CHR 0x00)) ! i"
      using assms(2) unfolding tarHeader_def bareHeader_def Let_def comp_def
      by (simp add: nth_copyInto nth_writeTarOctal_other tarBlock_def nth_append)
  qed
  then have "take 100 (tarHeader name contents) = name @ replicate (100 - length name) (CHR 0x00)" using assms(2) by simp
  then show ?thesis using assms(1) by (simp add: takeWhile_append)
qed

lemma extract_createTar:
  assumes "length contents \<le> 2 ^ 30"
  shows "extractFirstFile (createTar ((name, contents) # entries)) = Inr contents"
proof -
  obtain rest where a: "createTar ((name, contents) # entries) = tarHeader name contents @ contents @ rest"
    by (simp add: createTar_def)
  have header: "take tarBlock (createTar ((name, contents) # entries)) = tarHeader name contents" by (simp add: a)
  have "\<not> allZero (tarHeader name contents)"
    using tarHeader_type [of name contents] nth_mem [of 156 "tarHeader name contents"]
    by (auto simp: allZero_def list_all_iff tarBlock_def)
  then show ?thesis
    unfolding extractFirstFile_def
    by (subst extractFrom.simps) (simp add: header tarHeader_size [OF assms] parseTarSize_field [OF assms] tarHeader_type, simp add: a)
qed

section \<open>Properties\<close>

text \<open>
  Reading the first file of an archive that \<open>createTar\<close> wrote gives the first file back, whatever its name
  and whatever follows it, for contents up to 1 GiB; the archive is a whole number of blocks, and the
  header's checksum field holds the sum of its bytes with that field blanked, as the format asks.
\<close>
theorem createTar_roundtrip:
  assumes "length contents \<le> 2 ^ 30"
  shows "extractFirstFile (createTar ((name, contents) # entries)) = Inr contents \<and>
    length (createTar ((name, contents) # entries)) mod 512 = 0 \<and>
    octalPrefix 0 (take 6 (drop 148 (createTar ((name, contents) # entries)))) =
      Some (byteSum (copyInto 148 156 (replicate 8 (CHR '' '')) (take 512 (createTar ((name, contents) # entries)))))"
proof -
  obtain rest where a: "createTar ((name, contents) # entries) = tarHeader name contents @ contents @ rest"
    by (simp add: createTar_def)
  have header: "take tarBlock (createTar ((name, contents) # entries)) = tarHeader name contents" by (simp add: a)
  have "tarBlock dvd length (tarEntries ((name, contents) # entries)) + 2 * tarBlock"
    using tarEntries_blocks by (metis dvd_add dvd_triv_right)
  then have "length (createTar ((name, contents) # entries)) mod 512 = 0"
    by (simp only: createTar_def length_append length_replicate tarBlock_def dvd_eq_mod_eq_0)
  moreover have "take 6 (drop 148 (createTar ((name, contents) # entries))) = take 6 (drop 148 (tarHeader name contents))"
    by (simp add: a tarBlock_def)
  ultimately show ?thesis
    using extract_createTar [OF assms] tarHeader_checksum [of name contents] header by (simp add: tarBlock_def)
qed

theorem createTar_roundtrip_witness:
  "extractFirstFile (createTar [(''Corefile'', ''. {}''), (''x'', [])]) = Inr ''. {}''"
  using createTar_roundtrip [of "''. {}''" "''Corefile''" "[(''x'', [])]"] by simp

end
