(* ===== verification/ControlDocker.thy ===== *)
theory ControlDocker
  imports ControlServer TarArchive RenderNginx
begin

text \<open>
  The Docker backend of the control server (\<open>worker/controldocker\<close>): what stage, validate, promote, reload,
  health and rollback do to the files of the host and of the two containers.  The operating system and the
  Docker daemon are interfaces, as in the code; an operating system error says whether it is \<open>fs.ErrNotExist\<close>.
  The recursions over directories carry the depth that is left: Linux refuses a path of 4096 bytes, so a
  deeper tree is not reached.
\<close>

section \<open>The machine\<close>

datatype os_error = NotExist goerror | OtherError goerror

datatype fileKind = RegularFile | Directory | OtherKind

primrec osText :: "os_error \<Rightarrow> goerror" where
  "osText (NotExist e) = e"
| "osText (OtherError e) = e"

type_synonym ('w, 'a) os = "'w \<Rightarrow> (os_error + 'a) \<times> 'w"

record 'w Host =
  osStat :: "string \<Rightarrow> ('w, int) os"
  osReadFile :: "string \<Rightarrow> ('w, string) os"
  osWriteFile :: "string \<Rightarrow> string \<Rightarrow> nat \<Rightarrow> ('w, unit) os"
  osMkdirAll :: "string \<Rightarrow> nat \<Rightarrow> ('w, unit) os"
  osReadDir :: "string \<Rightarrow> ('w, (string \<times> fileKind) list) os"
  osRemoveAll :: "string \<Rightarrow> ('w, unit) os"
  osRemove :: "string \<Rightarrow> ('w, unit) os"
  osRename :: "string \<Rightarrow> string \<Rightarrow> ('w, unit) os"
  osChmod :: "string \<Rightarrow> nat \<Rightarrow> ('w, unit) os"
  osOpen :: "string \<Rightarrow> ('w, unit) os"
  osCreate :: "string \<Rightarrow> nat \<Rightarrow> ('w, unit) os"
  osCopy :: "string \<Rightarrow> string \<Rightarrow> ('w, unit) os"
  osClose :: "string \<Rightarrow> ('w, unit) os"
  osGetpid :: int
  uuidNewString :: "'w \<Rightarrow> string \<times> 'w"
  dkRunning :: "string \<Rightarrow> ('w, bool) io"
  dkRestart :: "string \<Rightarrow> int \<Rightarrow> ('w, unit) io"
  dkExec :: "string \<Rightarrow> string list \<Rightarrow> ('w, int) io"
  dkPutArchive :: "string \<Rightarrow> string \<Rightarrow> string \<Rightarrow> ('w, unit) io"
  dkGetArchive :: "string \<Rightarrow> string \<Rightarrow> ('w, string) io"

definition plain :: "('w, 'a) os \<Rightarrow> ('w, 'a) io" where
  "plain m w = (case m w of (Inl e, w') \<Rightarrow> (Inl (osText e), w') | (Inr x, w') \<Rightarrow> (Inr x, w'))"

text \<open>A call whose error is dropped, and one that is tried again differently.\<close>

definition ignoreIO :: "('w, 'a) io \<Rightarrow> ('w, unit) io" where
  "ignoreIO m w = (Inr (), snd (m w))"

definition orElse :: "('w, 'a) io \<Rightarrow> ('w, 'a) io \<Rightarrow> ('w, 'a) io" where
  "orElse m n w = (case m w of (Inl e, w') \<Rightarrow> n w' | (Inr x, w') \<Rightarrow> (Inr x, w'))"

definition onError :: "('w, 'a) io \<Rightarrow> ('w, unit) io \<Rightarrow> ('w, 'a) io" where
  "onError m cleanup w = (case m w of (Inl e, w') \<Rightarrow> (Inl e, snd (cleanup w')) | (Inr x, w') \<Rightarrow> (Inr x, w'))"

section \<open>Options\<close>

record Containers =
  ctCoreDNS :: string
  ctNginx :: string

record DockerOptions =
  dkCandidateRoot :: string
  dkZonesRoot :: string
  dkConfigRoot :: string
  dkContainers :: Containers

definition DefaultOptions :: DockerOptions where
  "DefaultOptions =
     \<lparr>dkCandidateRoot = ''/var/lib/proxycore/candidates'', dkZonesRoot = ''/var/lib/proxycore/coredns-zones'',
      dkConfigRoot = ''/var/lib/proxycore/coredns-config'',
      dkContainers = \<lparr>ctCoreDNS = ''proxycore-coredns'', ctNginx = ''proxycore-nginx''\<rparr>\<rparr>"

definition container :: "DockerOptions \<Rightarrow> string \<Rightarrow> string" where
  "container opts service =
     (if service = ServiceNginx then ctNginx (dkContainers opts) else ctCoreDNS (dkContainers opts))"

definition AssertCandidatePath :: "string \<Rightarrow> string \<Rightarrow> goerror + unit" where
  "AssertCandidatePath candidatePath candidateRoot =
     (if \<not> HasPrefix candidatePath (candidateRoot @ ''/'') \<or> Contains candidatePath ''..'' \<or> Contains candidatePath [NUL]
      then Inl ''Candidate path is outside the fixed worker root'' else Inr ())"

fun objPairs :: "string list \<Rightarrow> string list" where
  "objPairs (k # v # rest) = (quoteJS k @ '':'' @ quoteJS v) # objPairs rest"
| "objPairs _ = []"

definition obj :: "string list \<Rightarrow> string" where
  "obj pairs = ''{'' @ Join (objPairs pairs) '','' @ ''}''"

section \<open>Containers\<close>

definition dockerExec :: "'w Host \<Rightarrow> string \<Rightarrow> string list \<Rightarrow> ('w, unit) io" where
  "dockerExec h name cmd =
     bindIO (dkExec h name cmd) (\<lambda>code.
     if code \<noteq> 0 then throwIO (''Fixed service operation failed with exit '' @ Itoa code) else returnIO ())"

definition readArchiveFile :: "'w Host \<Rightarrow> string \<Rightarrow> string \<Rightarrow> ('w, string) io" where
  "readArchiveFile h name path = bindIO (dkGetArchive h name path) (\<lambda>archive w. (extractFirstFile archive, w))"

definition putFile :: "'w Host \<Rightarrow> string \<Rightarrow> string \<Rightarrow> string \<Rightarrow> string \<Rightarrow> ('w, unit) io" where
  "putFile h name dir file contents = dkPutArchive h name dir (createTar [(file, contents)])"

section \<open>Host files\<close>

definition readFileIfPresent :: "'w Host \<Rightarrow> string \<Rightarrow> ('w, string option) io" where
  "readFileIfPresent h path w =
     (case osReadFile h path w of
        (Inl (NotExist e), w') \<Rightarrow> (Inr None, w')
      | (Inl (OtherError e), w') \<Rightarrow> (Inl e, w')
      | (Inr contents, w') \<Rightarrow> (Inr (Some contents), w'))"

definition removeIfPresent :: "'w Host \<Rightarrow> string \<Rightarrow> ('w, unit) io" where
  "removeIfPresent h path w =
     (case osRemove h path w of
        (Inl (NotExist e), w') \<Rightarrow> (Inr (), w')
      | (Inl (OtherError e), w') \<Rightarrow> (Inl e, w')
      | (Inr x, w') \<Rightarrow> (Inr (), w'))"

definition tempPath :: "'w Host \<Rightarrow> string \<Rightarrow> string \<Rightarrow> string" where
  "tempPath h path uuid = path @ ''.tmp-'' @ Itoa (osGetpid h) @ ''-'' @ uuid"

definition writeFileAtomically :: "'w Host \<Rightarrow> string \<Rightarrow> string \<Rightarrow> ('w, unit) io" where
  "writeFileAtomically h path contents w =
     (case uuidNewString h w of (uuid, w0) \<Rightarrow>
      let tmp = tempPath h path uuid in
      case bindIO (plain (osWriteFile h tmp contents fileMode)) (\<lambda>_. plain (osRename h tmp path)) w0 of
        (result, w1) \<Rightarrow> (result, snd (osRemoveAll h tmp w1)))"

definition copyFile :: "'w Host \<Rightarrow> string \<Rightarrow> string \<Rightarrow> ('w, unit) io" where
  "copyFile h from to =
     bindIO (plain (osOpen h from)) (\<lambda>_.
     bindIO (plain (osCreate h to fileMode)) (\<lambda>_ w.
       case plain (osCopy h from to) w of (copied, w1) \<Rightarrow>
       case plain (osClose h to) w1 of (closed, w2) \<Rightarrow>
         (case copied of Inl e \<Rightarrow> (Inl e, w2) | Inr _ \<Rightarrow> (closed, w2))))"

fun copyDirectory :: "nat \<Rightarrow> 'w Host \<Rightarrow> string \<Rightarrow> string \<Rightarrow> ('w, unit) io"
  and copyEntries :: "nat \<Rightarrow> 'w Host \<Rightarrow> string \<Rightarrow> string \<Rightarrow> (string \<times> fileKind) list \<Rightarrow> ('w, unit) io" where
  "copyDirectory 0 h source target = throwIO ''file name too long''"
| "copyDirectory (Suc depth) h source target =
     bindIO (plain (osMkdirAll h source dirMode)) (\<lambda>_.
     bindIO (plain (osMkdirAll h target dirMode)) (\<lambda>_.
     bindIO (plain (osReadDir h source)) (\<lambda>entries.
     copyEntries depth h source target entries)))"
| "copyEntries depth h source target [] = returnIO ()"
| "copyEntries depth h source target ((name, kind) # entries) =
     (let from = PathJoin [source, name]; to = PathJoin [target, name] in
      if kind = Directory then
        bindIO (copyDirectory depth h from to) (\<lambda>_. copyEntries depth h source target entries)
      else if kind \<noteq> RegularFile then throwIO (''Unsupported file type in CoreDNS zone directory: '' @ name)
      else
        bindIO (copyFile h from to) (\<lambda>_.
        bindIO (plain (osChmod h to fileMode)) (\<lambda>_. copyEntries depth h source target entries)))"

fun removeEntries :: "'w Host \<Rightarrow> string \<Rightarrow> (string \<times> fileKind) list \<Rightarrow> ('w, unit) io" where
  "removeEntries h dir [] = returnIO ()"
| "removeEntries h dir ((name, kind) # entries) =
     bindIO (plain (osRemoveAll h (PathJoin [dir, name]))) (\<lambda>_. removeEntries h dir entries)"

definition clearDirectory :: "'w Host \<Rightarrow> string \<Rightarrow> ('w, unit) io" where
  "clearDirectory h dir =
     bindIO (plain (osMkdirAll h dir dirMode)) (\<lambda>_.
     bindIO (plain (osReadDir h dir)) (\<lambda>entries. removeEntries h dir entries))"

definition pathDepth :: nat where "pathDepth = 4096"

definition replaceDirectory :: "'w Host \<Rightarrow> string \<Rightarrow> string \<Rightarrow> ('w, unit) io" where
  "replaceDirectory h target source =
     bindIO (clearDirectory h target) (\<lambda>_. copyDirectory pathDepth h source target)"

text \<open>The newest file of a name below a directory; unreadable directories are skipped.\<close>

fun visit :: "nat \<Rightarrow> 'w Host \<Rightarrow> string \<Rightarrow> string \<Rightarrow> string \<Rightarrow> string \<Rightarrow> string \<times> int \<Rightarrow> ('w, string \<times> int) io"
  and visitEntries :: "nat \<Rightarrow> 'w Host \<Rightarrow> string \<Rightarrow> string \<Rightarrow> string \<Rightarrow> string \<Rightarrow> (string \<times> fileKind) list \<Rightarrow>
    string \<times> int \<Rightarrow> ('w, string \<times> int) io" where
  "visit 0 h base within ending dir best = returnIO best"
| "visit (Suc depth) h base within ending dir best =
     (\<lambda>w. case osReadDir h dir w of
        (Inl e, w') \<Rightarrow> (Inr best, w')
      | (Inr entries, w') \<Rightarrow> visitEntries depth h base within ending dir entries best w')"
| "visitEntries depth h base within ending dir [] best = returnIO best"
| "visitEntries depth h base within ending dir ((name, kind) # entries) best =
     (let p = PathJoin [dir, name] in
      if kind = Directory then
        bindIO (visit depth h base within ending p best) (\<lambda>best'. visitEntries depth h base within ending dir entries best')
      else if kind \<noteq> RegularFile \<or> name \<noteq> base \<or> \<not> Contains p within \<and> \<not> HasSuffix p ending then
        visitEntries depth h base within ending dir entries best
      else
        bindIO (plain (osStat h p)) (\<lambda>mtime.
        visitEntries depth h base within ending dir entries (if mtime \<ge> snd best then (p, mtime) else best)))"

definition findNewest :: "'w Host \<Rightarrow> string \<Rightarrow> string \<Rightarrow> string \<Rightarrow> string \<Rightarrow> ('w, string) io" where
  "findNewest h root base within ending =
     bindIO (visit pathDepth h base within ending root ([], 0)) (\<lambda>best. returnIO (fst best))"

section \<open>CoreDNS\<close>

definition CorednsLiveCorefilePath :: "string \<Rightarrow> string" where
  "CorednsLiveCorefilePath configRoot = PathJoin [configRoot, ''Corefile'']"

definition corefileLooksApplied :: "string \<Rightarrow> bool" where
  "corefileLooksApplied contents \<longleftrightarrow> Contains contents ''file /etc/coredns/zones/''"

definition SeedLiveCorefileFromCandidates :: "'w Host \<Rightarrow> string \<Rightarrow> string \<Rightarrow> ('w, string) io" where
  "SeedLiveCorefileFromCandidates h candidateRoot configRoot =
     bindIO (plain (osMkdirAll h configRoot dirMode)) (\<lambda>_ w.
     let live = CorednsLiveCorefilePath configRoot in
     case osReadFile h live w of (current, w1) \<Rightarrow>
       if (case current of Inl e \<Rightarrow> False | Inr c \<Rightarrow> corefileLooksApplied c) then (Inr [], w1)
       else bindIO (findNewest h candidateRoot ''Corefile'' ''/coredns/Corefile'' ''coredns/Corefile'') (\<lambda>latest.
            if latest = [] then returnIO []
            else bindIO (plain (osReadFile h latest)) (\<lambda>contents.
              if \<not> corefileLooksApplied contents then returnIO []
              else bindIO (plain (osWriteFile h live contents fileMode)) (\<lambda>_. returnIO latest))) w1)"

definition previousCorefilePath :: "DockerOptions \<Rightarrow> string" where
  "previousCorefilePath opts = PathJoin [dkCandidateRoot opts, ''.proxycore-previous-coredns-corefile'']"

definition previousZonesPath :: "DockerOptions \<Rightarrow> string" where
  "previousZonesPath opts = PathJoin [dkCandidateRoot opts, ''.proxycore-previous-coredns-zones'']"

definition ownerMode :: nat where "ownerMode = 6 * 64"

definition promoteCoreDNS :: "'w Host \<Rightarrow> DockerOptions \<Rightarrow> string \<Rightarrow> string \<Rightarrow> ('w, unit) io" where
  "promoteCoreDNS h opts name candidatePath =
     (let live = CorednsLiveCorefilePath (dkConfigRoot opts) in
      bindIO (plain (osMkdirAll h (dkConfigRoot opts) dirMode)) (\<lambda>_.
      bindIO (orElse (plain (osReadFile h live))
               (orElse (readArchiveFile h name ''/etc/coredns-config/Corefile'') (readArchiveFile h name ''/etc/coredns/Corefile'')))
        (\<lambda>previous.
      bindIO (plain (osWriteFile h (previousCorefilePath opts) previous ownerMode)) (\<lambda>_.
      bindIO (plain (osRemoveAll h (previousZonesPath opts))) (\<lambda>_.
      bindIO (copyDirectory pathDepth h (dkZonesRoot opts) (previousZonesPath opts)) (\<lambda>_.
      onError
        (bindIO (replaceDirectory h (dkZonesRoot opts) (PathJoin [candidatePath, ''zones''])) (\<lambda>_.
         bindIO (plain (osReadFile h (PathJoin [candidatePath, ''Corefile'']))) (\<lambda>corefile.
         bindIO (plain (osWriteFile h live corefile fileMode)) (\<lambda>_.
         putFile h name ''/etc/coredns-config'' ''Corefile'' corefile))))
        (bindIO (ignoreIO (plain (osWriteFile h live previous fileMode))) (\<lambda>_.
         ignoreIO (replaceDirectory h (dkZonesRoot opts) (previousZonesPath opts))))))))))"

definition rollbackCoreDNS :: "'w Host \<Rightarrow> DockerOptions \<Rightarrow> string \<Rightarrow> ('w, unit) io" where
  "rollbackCoreDNS h opts name =
     bindIO (plain (osReadFile h (previousCorefilePath opts))) (\<lambda>previous.
     bindIO (plain (osMkdirAll h (dkConfigRoot opts) dirMode)) (\<lambda>_.
     bindIO (plain (osWriteFile h (CorednsLiveCorefilePath (dkConfigRoot opts)) previous fileMode)) (\<lambda>_.
     bindIO (putFile h name ''/etc/coredns-config'' ''Corefile'' previous) (\<lambda>_.
     replaceDirectory h (dkZonesRoot opts) (previousZonesPath opts)))))"

section \<open>Nginx\<close>

record Observation =
  obsStatus :: string
  obsReason :: string

definition drift :: "string \<Rightarrow> Observation" where
  "drift reason = \<lparr>obsStatus = ''drift'', obsReason = reason\<rparr>"

definition nginxManagedMarker :: string where "nginxManagedMarker = ''map $http_upgrade $connection_upgrade''"

definition nginxBakedFallbackMarker :: string where "nginxBakedFallbackMarker = ''return 503;''"

definition NginxLiveConfigPath :: "string \<Rightarrow> string" where
  "NginxLiveConfigPath candidateRoot = PathJoin [candidateRoot, ''nginx-live.conf'']"

definition NginxPreviousStableConfigPath :: "string \<Rightarrow> string" where
  "NginxPreviousStableConfigPath candidateRoot = PathJoin [candidateRoot, ''nginx-previous-live.conf'']"

text \<open>The last argument is the list of optional arguments; a missing file is \<open>nil\<close>, of length 0.\<close>

definition bytesOf :: "string option \<Rightarrow> string" where
  "bytesOf b = (case b of None \<Rightarrow> [] | Some s \<Rightarrow> s)"

definition ClassifyNginxActiveConfig :: "string option \<Rightarrow> string option \<Rightarrow> string option list \<Rightarrow> Observation" where
  "ClassifyNginxActiveConfig active stableConf candidate =
     (let body = bytesOf active; expected = (case candidate of [] \<Rightarrow> stableConf | c # _ \<Rightarrow> c) in
      if body = [] then drift ''missing-active-config''
      else if Contains body nginxBakedFallbackMarker \<and> \<not> Contains body nginxManagedMarker then drift ''baked-fallback''
      else if bytesOf stableConf = [] then drift ''missing-stable-config''
      else if bytesOf expected = [] then drift ''missing-candidate-config''
      else if body \<noteq> bytesOf stableConf then drift ''mismatched-config''
      else if body \<noteq> bytesOf expected then drift ''mismatched-candidate-config''
      else if \<not> Contains body nginxManagedMarker then drift ''unmanaged-config''
      else \<lparr>obsStatus = ''healthy'', obsReason = []\<rparr>)"

definition readActive :: "'w Host \<Rightarrow> string \<Rightarrow> ('w, string option) io" where
  "readActive h name w =
     (case readArchiveFile h name ''/etc/nginx/nginx.conf'' w of
        (Inl e, w') \<Rightarrow> (Inr None, w') | (Inr contents, w') \<Rightarrow> (Inr (Some contents), w'))"

definition probeNginxActiveConfig :: "'w Host \<Rightarrow> DockerOptions \<Rightarrow> string \<Rightarrow> string \<Rightarrow> ('w, Observation) io" where
  "probeNginxActiveConfig h opts name candidatePath =
     bindIO (readActive h name) (\<lambda>active.
     bindIO (readFileIfPresent h (NginxLiveConfigPath (dkCandidateRoot opts))) (\<lambda>stableConf.
     bindIO (readFileIfPresent h (PathJoin [candidatePath, ''nginx.conf''])) (\<lambda>candidate.
     let observation = ClassifyNginxActiveConfig active stableConf [candidate] in
     if obsStatus observation \<noteq> ''healthy'' then returnIO observation
     else orElse (bindIO (dockerExec h name [''nginx'', ''-t'', ''-c'', ''/etc/nginx/nginx.conf'']) (\<lambda>_. returnIO observation))
            (returnIO (drift ''invalid-active-config'')))))"

definition FindNewestLegacyNginxCandidate :: "'w Host \<Rightarrow> string \<Rightarrow> ('w, string) io" where
  "FindNewestLegacyNginxCandidate h candidateRoot =
     findNewest h candidateRoot ''nginx.conf'' ''/nginx/nginx.conf'' ''nginx/nginx.conf''"

definition WriteStableNginxConfig :: "'w Host \<Rightarrow> string \<Rightarrow> string \<Rightarrow> string option \<Rightarrow> ('w, unit) io" where
  "WriteStableNginxConfig h candidateRoot contents previous =
     (let stableConf = NginxLiveConfigPath candidateRoot; previousPath = NginxPreviousStableConfigPath candidateRoot in
      bindIO (plain (osMkdirAll h (Dir stableConf) dirMode)) (\<lambda>_.
      bindIO (if bytesOf previous \<noteq> [] then writeFileAtomically h previousPath (bytesOf previous)
              else removeIfPresent h previousPath) (\<lambda>_.
      writeFileAtomically h stableConf contents)))"

definition promoteNginx :: "'w Host \<Rightarrow> DockerOptions \<Rightarrow> string \<Rightarrow> string \<Rightarrow> ('w, unit) io" where
  "promoteNginx h opts name candidatePath =
     (let candidateConfig = PathJoin [candidatePath, ''nginx.conf''] in
      bindIO (plain (osReadFile h candidateConfig)) (\<lambda>contents.
      bindIO (readActive h name) (\<lambda>previous.
      bindIO (ignoreIO (dockerExec h name [''cp'', ''/etc/nginx/nginx.conf'', ''/etc/nginx/.proxycore.previous.conf''])) (\<lambda>_.
      onError
        (bindIO (dockerExec h name [''cp'', candidateConfig, ''/etc/nginx/nginx.conf'']) (\<lambda>_.
         WriteStableNginxConfig h (dkCandidateRoot opts) contents previous))
        (case previous of
           Some config \<Rightarrow> ignoreIO (putFile h name ''/etc/nginx'' ''nginx.conf'' config)
         | None \<Rightarrow> ignoreIO (dockerExec h name [''cp'', ''/etc/nginx/.proxycore.previous.conf'', ''/etc/nginx/nginx.conf'']))))))"

definition rollbackNginx :: "'w Host \<Rightarrow> DockerOptions \<Rightarrow> string \<Rightarrow> ('w, unit) io" where
  "rollbackNginx h opts name =
     (let stablePath = NginxLiveConfigPath (dkCandidateRoot opts) in
      bindIO (readFileIfPresent h (NginxPreviousStableConfigPath (dkCandidateRoot opts))) (\<lambda>previous.
      case previous of
        Some config \<Rightarrow>
          bindIO (readFileIfPresent h stablePath) (\<lambda>current.
          bindIO (writeFileAtomically h stablePath config) (\<lambda>_.
          onError (putFile h name ''/etc/nginx'' ''nginx.conf'' config)
            (case current of Some c \<Rightarrow> ignoreIO (writeFileAtomically h stablePath c) | None \<Rightarrow> returnIO ())))
      | None \<Rightarrow>
          bindIO (dockerExec h name [''cp'', ''/etc/nginx/.proxycore.previous.conf'', ''/etc/nginx/nginx.conf'']) (\<lambda>_.
          removeIfPresent h stablePath)))"

section \<open>Operations\<close>

definition observationText :: "Observation \<Rightarrow> string \<Rightarrow> string" where
  "observationText observation revisionID =
     (if obsReason observation = [] then obj [''status'', obsStatus observation, ''revisionId'', revisionID]
      else obj [''status'', obsStatus observation, ''reason'', obsReason observation, ''revisionId'', revisionID])"

definition dockerExecute :: "'w Host \<Rightarrow> DockerOptions \<Rightarrow> Request \<Rightarrow> ('w, string) io" where
  "dockerExecute h opts req =
     (case AssertCandidatePath (rqCandidatePath req) (dkCandidateRoot opts) of
        Inl e \<Rightarrow> throwIO e
      | Inr _ \<Rightarrow>
          let name = container opts (rqService req); nginx = (rqService req = ServiceNginx); operation = rqOperation req in
          if operation = OperationStage then
            bindIO (plain (osStat h (rqCandidatePath req))) (\<lambda>_.
            returnIO (obj [''status'', ''staged'', ''candidatePath'', rqCandidatePath req]))
          else if operation = OperationValidate then
            bindIO (if nginx then dockerExec h name [''nginx'', ''-t'', ''-c'', rqCandidatePath req @ ''/nginx.conf'']
                    else bindIO (plain (osStat h (rqCandidatePath req @ ''/Corefile''))) (\<lambda>_. returnIO ())) (\<lambda>_.
            returnIO (obj [''status'', ''validated'', ''checksum'', rqChecksum req]))
          else if operation = OperationPromote then
            bindIO (if nginx then promoteNginx h opts name (rqCandidatePath req)
                    else promoteCoreDNS h opts name (rqCandidatePath req)) (\<lambda>_.
            returnIO (obj [''status'', ''promoted'', ''revisionId'', rqRevisionID req]))
          else if operation = OperationReload then
            bindIO (if nginx then dockerExec h name [''nginx'', ''-s'', ''reload''] else dkRestart h name 10) (\<lambda>_.
            returnIO (obj [''status'', ''reloaded'']))
          else if operation = OperationHealth then
            bindIO (dkRunning h name) (\<lambda>running.
            if \<not> running then throwIO (rqService req @ '' container is not running'')
            else if \<not> nginx then returnIO (obj [''status'', ''healthy''])
            else bindIO (probeNginxActiveConfig h opts name (rqCandidatePath req)) (\<lambda>observation.
              returnIO (observationText observation (rqRevisionID req))))
          else if operation = OperationRollback then
            bindIO (if nginx then rollbackNginx h opts name else rollbackCoreDNS h opts name) (\<lambda>_.
            returnIO (obj [''status'', ''rolled-back'']))
          else throwIO (''Operation '' @ operation @ '' is unavailable for '' @ rqService req))"

definition dockerHandler :: "'w Host \<Rightarrow> DockerOptions \<Rightarrow> 'w Handler" where
  "dockerHandler h opts req w =
     (case dockerExecute h opts req w of
        (Inl e, w') \<Rightarrow> (Failure e, w') | (Inr output, w') \<Rightarrow> (Returned (Some output), w'))"

definition BackendHandlers :: "'w Host \<Rightarrow> DockerOptions \<Rightarrow> 'w Handlers" where
  "BackendHandlers h opts service operation =
     (if service \<in> {ServiceCoreDNS, ServiceNginx} \<and> operation \<in> set Operations then Some (dockerHandler h opts) else None)"

definition StartupSeed ::
  "'w Host \<Rightarrow> DockerOptions \<Rightarrow> (string \<Rightarrow> 'w \<Rightarrow> 'w) \<Rightarrow> (string \<Rightarrow> 'w \<Rightarrow> 'w) \<Rightarrow> ('w, unit) io" where
  "StartupSeed h opts stdout stderr =
     bindIO (SeedLiveCorefileFromCandidates h (dkCandidateRoot opts) (dkConfigRoot opts)) (\<lambda>seeded w.
     if seeded = [] then (Inr (), w)
     else
       let name = ctCoreDNS (dkContainers opts);
           w1 = stdout (''proxycore-control restored persisted CoreDNS Corefile from '' @ seeded @ NL) w in
       (case dkRestart h name 5 w1 of
          (Inl e, w2) \<Rightarrow> (Inr (), stderr (''proxycore-control could not restart CoreDNS after Corefile seed: '' @ e @ NL) w2)
        | (Inr _, w2) \<Rightarrow> (Inr (), stdout (''proxycore-control restarted '' @ name @ '' to load Corefile'' @ NL) w2)))"

end
