(* ===== verification/DockerLaws.thy ===== *)
theory DockerLaws
  imports ControlDocker
begin

text \<open>
  What the Docker backend relies on and what it gives.  The locale \<open>machine\<close> is the contract of the operating
  system and of the Docker daemon, stated on the text of the files of the host and of the containers; a call
  that fails may leave its own target in any state but touches nothing else.  Inside it: an atomic write is
  all or nothing, a promotion installs the candidate and keeps what it replaced, a rollback brings that
  back, and the other operations write nothing.  The contract is interpreted on a machine in memory.
\<close>

section \<open>Calls that leave a view of the world alone\<close>

definition keeps :: "('w \<Rightarrow> 'v) \<Rightarrow> ('w \<Rightarrow> 'r \<times> 'w) \<Rightarrow> bool" where
  "keeps view m \<longleftrightarrow> (\<forall>w. view (snd (m w)) = view w)"

lemma keeps_return: "keeps view (returnIO x)" and keeps_throw: "keeps view (throwIO e)"
  by (simp_all add: keeps_def)

lemma keeps_bind: "keeps view m \<Longrightarrow> (\<And>x. keeps view (f x)) \<Longrightarrow> keeps view (bindIO m f)"
  by (simp add: keeps_def bindIO_def split: prod.splits sum.splits) (metis snd_conv)

lemma keeps_orElse: "keeps view m \<Longrightarrow> keeps view n \<Longrightarrow> keeps view (orElse m n)"
  by (simp add: keeps_def orElse_def split: prod.splits sum.splits) (metis snd_conv)

lemma keeps_if: "(b \<Longrightarrow> keeps view m) \<Longrightarrow> (\<not> b \<Longrightarrow> keeps view n) \<Longrightarrow> keeps view (if b then m else n)"
  by simp

lemma keeps_plain: "keeps view (plain m) \<longleftrightarrow> keeps view m"
proof -
  have "snd (plain m w) = snd (m w)" for w by (simp add: plain_def split: prod.splits sum.splits)
  then show ?thesis by (simp add: keeps_def)
qed

section \<open>The contract\<close>

definition noUUID :: "(string \<Rightarrow> bool) \<Rightarrow> string \<Rightarrow> bool" where
  "noUUID goodUUID p \<longleftrightarrow> (\<forall>u. goodUUID u \<longrightarrow> \<not> Contains p u)"

text \<open>The paths of a promotion do not meet: no dots, no random identifier, and the candidate is not inside nginx.\<close>

abbreviation candidateConf :: "string \<Rightarrow> string" where "candidateConf cand \<equiv> PathJoin [cand, ''nginx.conf'']"
abbreviation liveConf :: "DockerOptions \<Rightarrow> string" where "liveConf opts \<equiv> NginxLiveConfigPath (dkCandidateRoot opts)"
abbreviation keptConf :: "DockerOptions \<Rightarrow> string" where "keptConf opts \<equiv> NginxPreviousStableConfigPath (dkCandidateRoot opts)"
abbreviation activeConf :: string where "activeConf \<equiv> ''/etc/nginx/nginx.conf''"
abbreviation backupConf :: string where "backupConf \<equiv> ''/etc/nginx/.proxycore.previous.conf''"

definition nginxPaths :: "(string \<Rightarrow> bool) \<Rightarrow> DockerOptions \<Rightarrow> string \<Rightarrow> bool" where
  "nginxPaths goodUUID opts cand \<longleftrightarrow>
     noDots (dkCandidateRoot opts) \<and> dkCandidateRoot opts \<noteq> [] \<and> noDots cand \<and> cand \<noteq> [] \<and>
     \<not> HasPrefix (candidateConf cand) ''/etc/nginx/'' \<and>
     list_all (noUUID goodUUID) [candidateConf cand, liveConf opts, keptConf opts]"

lemma pathParts_name: "noDots p \<Longrightarrow> p \<noteq> [] \<Longrightarrow> name \<in> {''nginx.conf'', ''nginx-live.conf'', ''nginx-previous-live.conf''} \<Longrightarrow>
    pathParts (PathJoin [p, name]) = pathParts p @ [name]"
  by (subst pathParts_PathJoin) (auto simp: pathParts_def noDots_def)

lemma nginxPaths_apart:
  assumes "nginxPaths goodUUID opts cand"
  shows "candidateConf cand \<noteq> liveConf opts" "candidateConf cand \<noteq> keptConf opts" "liveConf opts \<noteq> keptConf opts"
proof -
  have parts: "pathParts (candidateConf cand) = pathParts cand @ [''nginx.conf'']"
    "pathParts (liveConf opts) = pathParts (dkCandidateRoot opts) @ [''nginx-live.conf'']"
    "pathParts (keptConf opts) = pathParts (dkCandidateRoot opts) @ [''nginx-previous-live.conf'']"
    using assms by (simp_all add: nginxPaths_def pathParts_name NginxLiveConfigPath_def NginxPreviousStableConfigPath_def)
  show "candidateConf cand \<noteq> liveConf opts" using arg_cong [of _ _ "last \<circ> pathParts"] parts(1,2) by fastforce
  show "candidateConf cand \<noteq> keptConf opts" using arg_cong [of _ _ "last \<circ> pathParts"] parts(1,3) by fastforce
  show "liveConf opts \<noteq> keptConf opts" using arg_cong [of _ _ "last \<circ> pathParts"] parts(2,3) by fastforce
qed

text \<open>The active configuration could not be read out of the container in a world with these files.\<close>

definition unreadable ::
  "'w Host \<Rightarrow> ('w \<Rightarrow> string \<Rightarrow> string option) \<Rightarrow> ('w \<Rightarrow> string \<Rightarrow> string \<Rightarrow> string option) \<Rightarrow> string \<Rightarrow> 'w \<Rightarrow> bool" where
  "unreadable h disk box c w \<longleftrightarrow> (\<exists>v v'. disk v = disk w \<and> box v = box w \<and> readActive h c v = (Inr None, v'))"

locale machine =
  fixes h :: "'w Host"
    and disk :: "'w \<Rightarrow> string \<Rightarrow> string option"
    and box :: "'w \<Rightarrow> string \<Rightarrow> string \<Rightarrow> string option"
    and goodUUID :: "string \<Rightarrow> bool"
  assumes os_stat: "osStat h p w = (rs, w') \<Longrightarrow> disk w' = disk w \<and> box w' = box w"
    and os_read: "osReadFile h p w = (rt, w') \<Longrightarrow> disk w' = disk w \<and> box w' = box w \<and>
      (\<forall>s. rt = Inr s \<longrightarrow> disk w p = Some s) \<and> (\<forall>e. rt = Inl (NotExist e) \<longrightarrow> disk w p = None)"
    and os_write: "osWriteFile h p c m w = (r, w') \<Longrightarrow> (\<forall>q. q \<noteq> p \<longrightarrow> disk w' q = disk w q) \<and> box w' = box w \<and>
      (r = Inr () \<longrightarrow> disk w' p = Some c)"
    and os_mkdir: "osMkdirAll h p m w = (r, w') \<Longrightarrow> disk w' = disk w \<and> box w' = box w"
    and os_remove: "osRemove h p w = (r, w') \<Longrightarrow> box w' = box w \<and>
      (if r = Inr () then disk w' = (disk w)(p := None) else disk w' = disk w \<and> (\<forall>e. r = Inl (NotExist e) \<longrightarrow> disk w p = None))"
    and os_rename: "osRename h p q w = (r, w') \<Longrightarrow> box w' = box w \<and>
      (if r = Inr () then disk w' = (disk w)(p := None, q := disk w p) else disk w' = disk w)"
    and os_removeAll: "osRemoveAll h p w = (r, w') \<Longrightarrow> box w' = box w \<and>
      (\<forall>q. q \<noteq> p \<and> \<not> HasPrefix q (p @ ''/'') \<longrightarrow> disk w' q = disk w q)"
    and uuid: "uuidNewString h w = (u, w') \<Longrightarrow> disk w' = disk w \<and> box w' = box w \<and> goodUUID u"
    and dk_running: "dkRunning h c w = (rb, w') \<Longrightarrow> disk w' = disk w \<and> box w' = box w"
    and dk_restart: "dkRestart h c n w = (ru, w') \<Longrightarrow> disk w' = disk w \<and> box w' = box w"
    and dk_nginx: "dkExec h c (''nginx'' # args) w = (ri, w') \<Longrightarrow> disk w' = disk w \<and> box w' = box w"
    and dk_cp: "dkExec h c [''cp'', p, q] w = (ri, w') \<Longrightarrow> disk w' = disk w \<and>
      (\<forall>d x. d \<noteq> c \<or> x \<noteq> q \<longrightarrow> box w' d x = box w d x) \<and>
      (ri = Inr 0 \<longrightarrow> box w' c q = (if HasPrefix p ''/etc/nginx/'' then box w c p else disk w p) \<and> box w' c q \<noteq> None)"
    and dk_put: "CHR 0x00 \<notin> set f \<Longrightarrow> length f \<le> 100 \<Longrightarrow> length s \<le> 2 ^ 30 \<Longrightarrow>
      dkPutArchive h c dir (createTar [(f, s)]) w = (ru, w') \<Longrightarrow> disk w' = disk w \<and>
      (\<forall>d x. d \<noteq> c \<or> x \<noteq> dir @ ''/'' @ f \<longrightarrow> box w' d x = box w d x) \<and>
      (ru = Inr () \<longrightarrow> box w' c (dir @ ''/'' @ f) = Some s)"
    and dk_get: "dkGetArchive h c p w = (rt2, w') \<Longrightarrow> disk w' = disk w \<and> box w' = box w \<and>
      (\<forall>a s. rt2 = Inr a \<and> extractFirstFile a = Inr s \<longrightarrow> box w c p = Some s)"
begin

lemma tempPath_apart:
  assumes "noUUID goodUUID q" "goodUUID u"
  shows "q \<noteq> tempPath h p u \<and> \<not> HasPrefix q (tempPath h p u @ ''/'')"
proof -
  have "\<not> Contains q u" using assms by (simp add: noUUID_def)
  then have "q \<noteq> (p @ ''.tmp-'' @ Itoa (osGetpid h) @ ''-'') @ u @ r" for r unfolding Contains_iff by blast
  from this [of "[]"] this [of "''/'' @ r" for r] show ?thesis by (auto simp: HasPrefix_iff tempPath_def)
qed

lemma writeFileAtomically_effect:
  assumes run: "writeFileAtomically h p s w = (r, w')" and p: "noUUID goodUUID p"
  shows "box w' = box w" "noUUID goodUUID q \<Longrightarrow> disk w' q = (if q = p \<and> r = Inr () then Some s else disk w q)"
proof -
  obtain u w0 where u: "uuidNewString h w = (u, w0)" by fastforce
  let ?tmp = "tempPath h p u"
  note u' = uuid [OF u]
  obtain rw w1 where wr: "osWriteFile h ?tmp s fileMode w0 = (rw, w1)" by fastforce
  note wr' = os_write [OF wr]
  have apart: "q \<noteq> ?tmp \<and> \<not> HasPrefix q (?tmp @ ''/'')" if "noUUID goodUUID q" for q
    using tempPath_apart [OF that] u' by simp
  have "box w' = box w \<and> (noUUID goodUUID q \<longrightarrow> disk w' q = (if q = p \<and> r = Inr () then Some s else disk w q))"
  proof (cases rw)
    case (Inl e)
    obtain x w2 where ra: "osRemoveAll h ?tmp w1 = (x, w2)" by fastforce
    have "r = Inl (osText e)" "w' = w2"
      using run u wr ra Inl by (simp_all add: writeFileAtomically_def Let_def plain_def bindIO_def)
    then show ?thesis using os_removeAll [OF ra] wr' u' apart by auto
  next
    case (Inr y)
    obtain rr w2 where rn: "osRename h ?tmp p w1 = (rr, w2)" by fastforce
    obtain x w3 where ra: "osRemoveAll h ?tmp w2 = (x, w3)" by fastforce
    have "r = (case rr of Inl e \<Rightarrow> Inl (osText e) | Inr x \<Rightarrow> Inr x)" "w' = w3"
      using run u wr rn ra Inr by (cases rr; simp add: writeFileAtomically_def Let_def plain_def bindIO_def)+
    then show ?thesis
      using os_removeAll [OF ra] os_rename [OF rn] wr' u' apart [of p] apart [of q] p Inr by (cases rr) auto
  qed
  then show "box w' = box w" "noUUID goodUUID q \<Longrightarrow> disk w' q = (if q = p \<and> r = Inr () then Some s else disk w q)" by simp_all
qed

lemma removeIfPresent_effect:
  assumes "removeIfPresent h p w = (r, w')"
  shows "box w' = box w \<and> (if r = Inr () then disk w' = (disk w)(p := None) else disk w' = disk w)"
proof -
  obtain x w1 where x: "osRemove h p w = (x, w1)" by fastforce
  show ?thesis
    using assms x os_remove [OF x] by (auto simp: removeIfPresent_def split: sum.splits os_error.splits if_splits)
qed

lemma readFileIfPresent_effect:
  assumes "readFileIfPresent h p w = (r, w')"
  shows "disk w' = disk w \<and> box w' = box w \<and> (\<forall>x. r = Inr x \<longrightarrow> disk w p = x)"
proof -
  obtain x w1 where x: "osReadFile h p w = (x, w1)" by fastforce
  show ?thesis
    using assms x os_read [OF x] by (auto simp: readFileIfPresent_def split: sum.splits os_error.splits)
qed

lemma readActive_effect:
  assumes "readActive h c w = (r, w')"
  shows "disk w' = disk w \<and> box w' = box w \<and> (\<exists>x. r = Inr x \<and> (\<forall>s. x = Some s \<longrightarrow> box w c activeConf = Some s \<and> length s \<le> 2 ^ 30))"
proof -
  obtain x w1 where x: "dkGetArchive h c activeConf w = (x, w1)" by fastforce
  show ?thesis
    using assms x dk_get [OF x] extractFirstFile_bound
    by (auto simp: readActive_def readArchiveFile_def bindIO_def split: sum.splits prod.splits)
qed

lemma cp_effect:
  assumes "dockerExec h c [''cp'', p, q] w = (r, w')"
  shows "disk w' = disk w \<and> (\<forall>d x. d \<noteq> c \<or> x \<noteq> q \<longrightarrow> box w' d x = box w d x) \<and>
    (r = Inr () \<longrightarrow> box w' c q = (if HasPrefix p ''/etc/nginx/'' then box w c p else disk w p) \<and> box w' c q \<noteq> None)"
proof -
  obtain x w1 where x: "dkExec h c [''cp'', p, q] w = (x, w1)" by fastforce
  show ?thesis
  proof (cases x)
    case (Inl e)
    then show ?thesis using assms x dk_cp [OF x] by (auto simp: dockerExec_def bindIO_def)
  next
    case (Inr code)
    then have "w' = w1" "r = Inr () \<longrightarrow> x = Inr 0" using assms x by (auto simp: dockerExec_def bindIO_def split: if_splits)
    then show ?thesis using dk_cp [OF x] by blast
  qed
qed

lemma nginx_effect: "dockerExec h c (''nginx'' # args) w = (r, w') \<Longrightarrow> disk w' = disk w \<and> box w' = box w"
proof -
  assume r: "dockerExec h c (''nginx'' # args) w = (r, w')"
  obtain x w1 where x: "dkExec h c (''nginx'' # args) w = (x, w1)" by fastforce
  show ?thesis using r x dk_nginx [OF x] by (cases x) (auto simp: dockerExec_def bindIO_def split: if_splits)
qed

lemma putFile_effect:
  assumes "putFile h c ''/etc/nginx'' ''nginx.conf'' s w = (r, w')" "length s \<le> 2 ^ 30"
  shows "disk w' = disk w \<and> (\<forall>d x. d \<noteq> c \<or> x \<noteq> activeConf \<longrightarrow> box w' d x = box w d x) \<and> (r = Inr () \<longrightarrow> box w' c activeConf = Some s)"
  using dk_put [of "''nginx.conf''" s c "''/etc/nginx''" w r w'] assms by (simp add: putFile_def)

lemma WriteStableNginxConfig_effect:
  assumes run: "WriteStableNginxConfig h (dkCandidateRoot opts) s previous w = (r, w')" and paths: "nginxPaths goodUUID opts cand"
  shows "box w' = box w \<and> disk w' (candidateConf cand) = disk w (candidateConf cand) \<and>
    (if r = Inr () then disk w' (liveConf opts) = Some s \<and>
       disk w' (keptConf opts) = (if bytesOf previous \<noteq> [] then Some (bytesOf previous) else None)
     else disk w' (liveConf opts) = disk w (liveConf opts))"
proof -
  let ?keep = "if bytesOf previous \<noteq> [] then writeFileAtomically h (keptConf opts) (bytesOf previous) else removeIfPresent h (keptConf opts)"
  have u: "noUUID goodUUID (candidateConf cand)" "noUUID goodUUID (liveConf opts)" "noUUID goodUUID (keptConf opts)"
    using paths by (simp_all add: nginxPaths_def)
  note apart = nginxPaths_apart [OF paths]
  obtain x w1 where x: "osMkdirAll h (Dir (liveConf opts)) dirMode w = (x, w1)" by fastforce
  obtain y w2 where y: "?keep w1 = (y, w2)" by fastforce
  have keep: "box w2 = box w1 \<and> (\<forall>q. noUUID goodUUID q \<and> q \<noteq> keptConf opts \<longrightarrow> disk w2 q = disk w1 q) \<and>
      (y = Inr () \<longrightarrow> disk w2 (keptConf opts) = (if bytesOf previous \<noteq> [] then Some (bytesOf previous) else None))"
  proof (cases "bytesOf previous \<noteq> []")
    case True
    then have k: "writeFileAtomically h (keptConf opts) (bytesOf previous) w1 = (y, w2)" using y by simp
    show ?thesis using writeFileAtomically_effect [OF k u(3)] u(3) True by auto
  next
    case False
    then show ?thesis using y removeIfPresent_effect [of "keptConf opts" w1 y w2] by (auto split: if_splits)
  qed
  show ?thesis
  proof (cases "isl x \<or> isl y")
    case True
    then have "\<exists>e. r = Inl e" "w' = w1 \<or> w' = w2"
      using run x y by (cases x; cases y; force simp: WriteStableNginxConfig_def Let_def plain_def bindIO_def)+
    then show ?thesis using os_mkdir [OF x] keep u apart by auto
  next
    case False
    then have z: "writeFileAtomically h (liveConf opts) s w2 = (r, w')"
      using run x y by (cases x; cases y; simp add: WriteStableNginxConfig_def Let_def plain_def bindIO_def)
    have "y = Inr ()" using False by (cases y) simp_all
    then show ?thesis using writeFileAtomically_effect [OF z u(2)] os_mkdir [OF x] keep u apart by auto
  qed
qed

lemma promoteNginx_runs:
  assumes run: "promoteNginx h opts c cand w = (r, w')"
  obtains (unread) e where "r = Inl e" "disk w' = disk w" "box w' = box w"
  | (tried) s previous w1 r1 w2 where
      "disk w (candidateConf cand) = Some s" "disk w1 = disk w" "\<forall>d x. d \<noteq> c \<or> x \<noteq> backupConf \<longrightarrow> box w1 d x = box w d x"
      "\<forall>t. previous = Some t \<longrightarrow> box w c activeConf = Some t \<and> length t \<le> 2 ^ 30"
      "previous = None \<longrightarrow> unreadable h disk box c w"
      "bindIO (dockerExec h c [''cp'', candidateConf cand, activeConf])
        (\<lambda>_. WriteStableNginxConfig h (dkCandidateRoot opts) s previous) w1 = (r1, w2)"
      "r = r1" "w' = (case r1 of Inr _ \<Rightarrow> w2 | Inl e \<Rightarrow>
         (case previous of Some t \<Rightarrow> snd (putFile h c ''/etc/nginx'' ''nginx.conf'' t w2)
          | None \<Rightarrow> snd (dockerExec h c [''cp'', backupConf, activeConf] w2)))"
proof -
  obtain x wa where x: "osReadFile h (candidateConf cand) w = (x, wa)" by fastforce
  note x' = os_read [OF x]
  show thesis
  proof (cases x)
    case (Inl e)
    then show thesis using run x x' by (intro unread) (auto simp: promoteNginx_def Let_def plain_def bindIO_def)
  next
    case (Inr s)
    obtain y wb where y: "readActive h c wa = (y, wb)" by fastforce
    note y' = readActive_effect [OF y]
    then obtain previous where p: "y = Inr previous" by blast
    obtain z w1 where z: "dockerExec h c [''cp'', activeConf, backupConf] wb = (z, w1)" by fastforce
    note z' = cp_effect [OF z]
    obtain r1 w2 where b: "bindIO (dockerExec h c [''cp'', candidateConf cand, activeConf])
        (\<lambda>_. WriteStableNginxConfig h (dkCandidateRoot opts) s previous) w1 = (r1, w2)" by fastforce
    have "(r, w') = onError (bindIO (dockerExec h c [''cp'', candidateConf cand, activeConf])
        (\<lambda>_. WriteStableNginxConfig h (dkCandidateRoot opts) s previous))
        (case previous of
           Some config \<Rightarrow> ignoreIO (putFile h c ''/etc/nginx'' ''nginx.conf'' config)
         | None \<Rightarrow> ignoreIO (dockerExec h c [''cp'', backupConf, activeConf])) w1"
      using run x y z Inr p by (simp add: promoteNginx_def Let_def plain_def bindIO_def ignoreIO_def)
    then have "r = r1" "w' = (case r1 of Inr _ \<Rightarrow> w2 | Inl e \<Rightarrow>
         (case previous of Some t \<Rightarrow> snd (putFile h c ''/etc/nginx'' ''nginx.conf'' t w2)
          | None \<Rightarrow> snd (dockerExec h c [''cp'', backupConf, activeConf] w2)))"
      by (simp_all add: onError_def b ignoreIO_def split: sum.splits option.splits)
    moreover have "previous = None \<longrightarrow> unreadable h disk box c w" using x' y p unfolding unreadable_def by blast
    ultimately show thesis using x' y' z' Inr p b by (intro tried) auto
  qed
qed

lemma promoteNginx_ok:
  assumes run: "promoteNginx h opts c cand w = (Inr (), w')" and paths: "nginxPaths goodUUID opts cand"
  obtains s where "disk w (candidateConf cand) = Some s" "disk w' (candidateConf cand) = Some s"
    "disk w' (liveConf opts) = Some s" "box w' c activeConf = Some s"
    "disk w' (keptConf opts) \<noteq> None \<longrightarrow> disk w' (keptConf opts) = box w c activeConf"
    "\<forall>t. disk w' (keptConf opts) = Some t \<longrightarrow> length t \<le> 2 ^ 30"
    "disk w' (keptConf opts) = None \<longrightarrow> box w c activeConf = Some [] \<or> unreadable h disk box c w"
proof -
  from run show thesis
  proof (cases rule: promoteNginx_runs)
    case (unread e)
    then show ?thesis by simp
  next
    case (tried s previous w1 r1 w2)
    then have b: "bindIO (dockerExec h c [''cp'', candidateConf cand, activeConf])
        (\<lambda>_. WriteStableNginxConfig h (dkCandidateRoot opts) s previous) w1 = (Inr (), w')" by auto
    then obtain w3 where cp: "dockerExec h c [''cp'', candidateConf cand, activeConf] w1 = (Inr (), w3)"
      and st: "WriteStableNginxConfig h (dkCandidateRoot opts) s previous w3 = (Inr (), w')" by (auto simp: bindIO_Inr)
    note st' = WriteStableNginxConfig_effect [OF st paths]
    have "box w3 c activeConf = disk w (candidateConf cand)" "disk w3 = disk w"
      using cp_effect [OF cp] paths tried(2) by (auto simp: nginxPaths_def)
    moreover have "disk w' (keptConf opts) = None \<and> (previous = None \<or> previous = Some []) \<or>
        disk w' (keptConf opts) = previous \<and> previous \<noteq> None"
      using st' by (cases previous) (auto simp: bytesOf_def)
    ultimately show ?thesis using st' tried(1,4,5) by (intro that [of s]) (auto simp del: not_None_eq)
  qed
qed

lemma promoteNginx_fails:
  assumes run: "promoteNginx h opts c cand w = (Inl e, w')" and paths: "nginxPaths goodUUID opts cand"
  shows "disk w' (liveConf opts) = disk w (liveConf opts)"
    and "box w' c activeConf = box w c activeConf \<or>
      (\<exists>t e' v. putFile h c ''/etc/nginx'' ''nginx.conf'' t v = (Inl e', w')) \<or> unreadable h disk box c w"
proof -
  have "disk w' (liveConf opts) = disk w (liveConf opts) \<and> (box w' c activeConf = box w c activeConf \<or>
      (\<exists>t e' v. putFile h c ''/etc/nginx'' ''nginx.conf'' t v = (Inl e', w')) \<or> unreadable h disk box c w)"
    using run
  proof (cases rule: promoteNginx_runs)
    case (unread e)
    then show ?thesis by simp
  next
    case (tried s previous w1 r1 w2)
    then have bad: "r1 = Inl e" by simp
    have live: "disk w2 (liveConf opts) = disk w (liveConf opts)"
      using tried(6) unfolding bad
    proof (cases rule: bindIO_cases)
      case (fails e)
      then show ?thesis using cp_effect [OF fails(1)] tried(2) by simp
    next
      case (works x w3)
      then show ?thesis using cp_effect [OF works(1)] WriteStableNginxConfig_effect [OF works(2) paths] tried(2) by simp
    qed
    show ?thesis
    proof (cases previous)
      case None
      obtain r3 w3 where cp: "dockerExec h c [''cp'', backupConf, activeConf] w2 = (r3, w3)" by fastforce
      then show ?thesis using None tried(5,8) bad live cp_effect [OF cp] by simp
    next
      case (Some t)
      obtain r3 w3 where put: "putFile h c ''/etc/nginx'' ''nginx.conf'' t w2 = (r3, w3)" by fastforce
      then have "w' = w3" using Some tried(8) bad by simp
      moreover have "box w c activeConf = Some t" "length t \<le> 2 ^ 30" using tried(4) Some by simp_all
      ultimately show ?thesis using putFile_effect [OF put] live put by (cases r3) auto
    qed
  qed
  then show "disk w' (liveConf opts) = disk w (liveConf opts)" "box w' c activeConf = box w c activeConf \<or>
      (\<exists>t e' v. putFile h c ''/etc/nginx'' ''nginx.conf'' t v = (Inl e', w')) \<or> unreadable h disk box c w"
    by blast+
qed

lemma rollbackNginx_ok:
  assumes run: "rollbackNginx h opts c w = (Inr (), w')" and paths: "nginxPaths goodUUID opts cand"
  shows "disk w (keptConf opts) = Some t \<Longrightarrow> length t \<le> 2 ^ 30 \<Longrightarrow> box w' c activeConf = Some t \<and> disk w' (liveConf opts) = Some t"
    and "disk w (keptConf opts) = None \<Longrightarrow>
      box w' c activeConf = box w c backupConf \<and> box w c backupConf \<noteq> None \<and> disk w' (liveConf opts) = None"
proof -
  have u: "noUUID goodUUID (liveConf opts)" using paths by (simp add: nginxPaths_def)
  obtain x w1 where x: "readFileIfPresent h (keptConf opts) w = (x, w1)" by fastforce
  note x' = readFileIfPresent_effect [OF x]
  then obtain previous where p: "x = Inr previous" "disk w (keptConf opts) = previous"
    using run x by (cases x) (auto simp: rollbackNginx_def Let_def bindIO_def)
  show "box w' c activeConf = Some t \<and> disk w' (liveConf opts) = Some t" if t: "disk w (keptConf opts) = Some t" "length t \<le> 2 ^ 30"
  proof -
    obtain current w2 where "readFileIfPresent h (liveConf opts) w1 = (Inr current, w2)"
      and rest: "bindIO (writeFileAtomically h (liveConf opts) t) (\<lambda>_. onError (putFile h c ''/etc/nginx'' ''nginx.conf'' t)
        (case current of Some c \<Rightarrow> ignoreIO (writeFileAtomically h (liveConf opts) c) | None \<Rightarrow> returnIO ())) w2 = (Inr (), w')"
      using run x p t by (auto simp: rollbackNginx_def Let_def bindIO_def split: prod.splits sum.splits)
    then obtain w3 where a: "writeFileAtomically h (liveConf opts) t w2 = (Inr (), w3)"
      and "onError (putFile h c ''/etc/nginx'' ''nginx.conf'' t)
        (case current of Some c \<Rightarrow> ignoreIO (writeFileAtomically h (liveConf opts) c) | None \<Rightarrow> returnIO ()) w3 = (Inr (), w')"
      by (auto simp: bindIO_Inr)
    then have "putFile h c ''/etc/nginx'' ''nginx.conf'' t w3 = (Inr (), w')"
      by (auto simp: onError_def split: prod.splits sum.splits)
    from putFile_effect [OF this t(2)] writeFileAtomically_effect(2) [OF a u u] show ?thesis by simp
  qed
  show "box w' c activeConf = box w c backupConf \<and> box w c backupConf \<noteq> None \<and> disk w' (liveConf opts) = None"
    if "disk w (keptConf opts) = None"
  proof -
    have "x = Inr None" using p that by simp
    then obtain w2 where cp: "dockerExec h c [''cp'', backupConf, activeConf] w1 = (Inr (), w2)"
      and rm: "removeIfPresent h (liveConf opts) w2 = (Inr (), w')"
      using run x by (auto simp: rollbackNginx_def Let_def bindIO_def split: prod.splits sum.splits)
    have "box w2 c activeConf \<noteq> None" using cp_effect [OF cp] by blast
    moreover have e: "box w2 c activeConf = box w c backupConf" using cp_effect [OF cp] x' by simp
    ultimately have "box w c backupConf \<noteq> None" by metis
    then show ?thesis using e removeIfPresent_effect [OF rm] by simp
  qed
qed

lemma probe_healthy:
  assumes run: "probeNginxActiveConfig h opts c cand w = (Inr observation, w')"
    and same: "disk w (candidateConf cand) = Some s" "disk w (liveConf opts) = Some s" "box w c activeConf = Some s"
    and managed: "Contains s nginxManagedMarker"
  shows "observation \<in> {\<lparr>obsStatus = ''healthy'', obsReason = []\<rparr>, drift ''missing-active-config'', drift ''invalid-active-config''}"
proof -
  obtain active w1 where a: "readActive h c w = (Inr active, w1)" using readActive_effect by (metis surj_pair)
  note a' = readActive_effect [OF a]
  obtain st w2 where st: "readFileIfPresent h (liveConf opts) w1 = (Inr st, w2)"
    using run a by (auto simp: probeNginxActiveConfig_def bindIO_def split: prod.splits sum.splits)
  obtain ca w3 where ca: "readFileIfPresent h (candidateConf cand) w2 = (Inr ca, w3)"
    using run a st by (auto simp: probeNginxActiveConfig_def bindIO_def split: prod.splits sum.splits)
  have vals: "active = None \<or> active = Some s" "st = Some s" "ca = Some s"
    using a' readFileIfPresent_effect [OF st] readFileIfPresent_effect [OF ca] same by (cases active; simp)+
  have "s \<noteq> []" using managed by (auto simp: nginxManagedMarker_def)
  then have cls: "ClassifyNginxActiveConfig active st [ca] \<in> {drift ''missing-active-config'', \<lparr>obsStatus = ''healthy'', obsReason = []\<rparr>}"
    using vals managed by (auto simp: ClassifyNginxActiveConfig_def bytesOf_def Let_def)
  have "probeNginxActiveConfig h opts c cand w =
      (if obsStatus (ClassifyNginxActiveConfig active st [ca]) \<noteq> ''healthy'' then (Inr (ClassifyNginxActiveConfig active st [ca]), w3)
       else orElse (bindIO (dockerExec h c [''nginx'', ''-t'', ''-c'', ''/etc/nginx/nginx.conf''])
              (\<lambda>_. returnIO (ClassifyNginxActiveConfig active st [ca]))) (returnIO (drift ''invalid-active-config'')) w3)"
    using a st ca by (simp add: probeNginxActiveConfig_def bindIO_def Let_def)
  then have "observation = ClassifyNginxActiveConfig active st [ca] \<or> observation = drift ''invalid-active-config''"
    using run by (auto simp: orElse_def bindIO_def split: prod.splits sum.splits if_splits)
  with cls show ?thesis by blast
qed

lemma dockerExecute_reads:
  assumes run: "dockerExecute h opts req w = (r, w')" and "rqOperation req \<noteq> OperationPromote" "rqOperation req \<noteq> OperationRollback"
  shows "disk w' = disk w \<and> box w' = box w"
proof -
  let ?view = "\<lambda>w. (disk w, box w)"
  have nginx: "keeps ?view (dockerExec h c (''nginx'' # args))" for c args
    unfolding keeps_def using nginx_effect [OF prod.collapse [symmetric]] by simp
  have stat: "keeps ?view (plain (osStat h p))" for p
    using os_stat [OF prod.collapse [symmetric]] by (subst keeps_plain) (simp add: keeps_def)
  have running: "keeps ?view (dkRunning h c)" and restart: "keeps ?view (dkRestart h c n)" for c n
    unfolding keeps_def using dk_running [OF prod.collapse [symmetric]] dk_restart [OF prod.collapse [symmetric]] by simp_all
  have active: "keeps ?view (readActive h c)" and present: "keeps ?view (readFileIfPresent h p)" for c p
    unfolding keeps_def
    using readActive_effect [OF prod.collapse [symmetric]] readFileIfPresent_effect [OF prod.collapse [symmetric]] by simp_all
  have probe: "keeps ?view (probeNginxActiveConfig h opts c cand)" for c cand
    unfolding probeNginxActiveConfig_def Let_def
    by (intro keeps_bind keeps_if keeps_orElse active present nginx keeps_return)
  have "keeps ?view (dockerExecute h opts req)"
  proof (cases "AssertCandidatePath (rqCandidatePath req) (dkCandidateRoot opts)")
    case (Inl e)
    then show ?thesis by (simp add: dockerExecute_def keeps_throw)
  next
    case (Inr x)
    show ?thesis
      unfolding dockerExecute_def Let_def Inr sum.case if_not_P [OF assms(2)] if_not_P [OF assms(3)]
      by (intro keeps_bind keeps_if keeps_throw keeps_return stat nginx running restart probe)
  qed
  then have "?view (snd (dockerExecute h opts req w)) = ?view w" unfolding keeps_def by blast
  then show ?thesis using run by simp
qed

end

section \<open>A machine in memory\<close>

text \<open>
  The host's files, the files of the containers, the configuration nginx serves and the number of identifiers
  drawn.  Directories are not represented; every call succeeds that can.
\<close>

record memory =
  memDisk :: "string \<Rightarrow> string option"
  memBox :: "string \<Rightarrow> string \<Rightarrow> string option"
  memServed :: "string option"
  memNext :: nat

definition memCopy :: "string \<Rightarrow> string \<Rightarrow> string \<Rightarrow> (memory, int) io" where
  "memCopy c p q w =
     (case (if HasPrefix p ''/etc/nginx/'' then memBox w c p else memDisk w p) of
        None \<Rightarrow> (Inr 1, w)
      | Some s \<Rightarrow> (Inr 0, w\<lparr>memBox := (memBox w)(c := (memBox w c)(q := Some s))\<rparr>))"

definition memExec :: "string \<Rightarrow> string list \<Rightarrow> (memory, int) io" where
  "memExec c cmd w =
     (case cmd of
        [program, p, q] \<Rightarrow>
          if program = ''cp'' then memCopy c p q w
          else if cmd = [''nginx'', ''-s'', ''reload''] then (Inr 0, w\<lparr>memServed := memBox w c ''/etc/nginx/nginx.conf''\<rparr>)
          else (Inr 0, w)
      | _ \<Rightarrow> (Inr 0, w))"

definition memPut :: "string \<Rightarrow> string \<Rightarrow> string \<Rightarrow> (memory, unit) io" where
  "memPut c dir archive w =
     (case extractFirstFile archive of
        Inl e \<Rightarrow> (Inl e, w)
      | Inr s \<Rightarrow> (Inr (), w\<lparr>memBox := (memBox w)(c := (memBox w c)
          (dir @ ''/'' @ takeWhile (\<lambda>x. x \<noteq> CHR 0x00) (take 100 archive) := Some s))\<rparr>))"

definition memGet :: "string \<Rightarrow> string \<Rightarrow> (memory, string) io" where
  "memGet c p w =
     (case memBox w c p of
        Some s \<Rightarrow> if length s \<le> 2 ^ 30 then (Inr (createTar [(''f'', s)]), w) else (Inl ''too large'', w)
      | None \<Rightarrow> (Inl ''no such file'', w))"

definition memRemoveAll :: "string \<Rightarrow> (memory, unit) os" where
  "memRemoveAll p w =
     (Inr (), w\<lparr>memDisk := \<lambda>q. if q = p \<or> HasPrefix q (p @ ''/'') then None else memDisk w q\<rparr>)"

definition onFile :: "string \<Rightarrow> (string \<Rightarrow> (memory, 'a) os) \<Rightarrow> (memory, 'a) os" where
  "onFile p f w = (case memDisk w p of None \<Rightarrow> (Inl (NotExist ''no such file''), w) | Some s \<Rightarrow> f s w)"

definition memHost :: "memory Host" where
  "memHost =
     \<lparr>osStat = \<lambda>p. onFile p (\<lambda>s w. (Inr 0, w)),
      osReadFile = \<lambda>p. onFile p (\<lambda>s w. (Inr s, w)),
      osWriteFile = \<lambda>p c m w. (Inr (), w\<lparr>memDisk := (memDisk w)(p := Some c)\<rparr>),
      osMkdirAll = \<lambda>p m w. (Inr (), w),
      osReadDir = \<lambda>p w. (Inr [], w),
      osRemoveAll = memRemoveAll,
      osRemove = \<lambda>p. onFile p (\<lambda>s w. (Inr (), w\<lparr>memDisk := (memDisk w)(p := None)\<rparr>)),
      osRename = \<lambda>p q. onFile p (\<lambda>s w. (Inr (), w\<lparr>memDisk := (memDisk w)(p := None, q := Some s)\<rparr>)),
      osChmod = \<lambda>p m w. (Inr (), w),
      osOpen = \<lambda>p w. (Inr (), w),
      osCreate = \<lambda>p m w. (Inr (), w\<lparr>memDisk := (memDisk w)(p := Some [])\<rparr>),
      osCopy = \<lambda>p q. onFile p (\<lambda>s w. (Inr (), w\<lparr>memDisk := (memDisk w)(q := Some s)\<rparr>)),
      osClose = \<lambda>p w. (Inr (), w),
      osGetpid = 1,
      uuidNewString = \<lambda>w. (uuidOf (memNext w), w\<lparr>memNext := Suc (memNext w)\<rparr>),
      dkRunning = \<lambda>c. returnIO True,
      dkRestart = \<lambda>c n. returnIO (),
      dkExec = memExec,
      dkPutArchive = memPut,
      dkGetArchive = memGet\<rparr>"

lemma memPut_file:
  assumes "CHR 0x00 \<notin> set f" "length f \<le> 100" "length s \<le> 2 ^ 30"
  shows "memPut c dir (createTar [(f, s)]) w = (Inr (), w\<lparr>memBox := (memBox w)(c := (memBox w c)(dir @ ''/'' @ f := Some s))\<rparr>)"
proof -
  have "take 100 (createTar [(f, s)]) = take 100 (tarHeader f s)" by (simp add: createTar_def tarBlock_def)
  then show ?thesis
    using extract_createTar [OF assms(3), of f "[]"] tarHeader_name [OF assms(1,2), of s] by (simp add: memPut_def)
qed

interpretation mem: machine memHost memDisk memBox uuidShaped
proof (unfold_locales, goal_cases)
  case (11 c args w ri w')
  then show ?case by (auto simp: memHost_def memExec_def split: list.splits if_splits)
next
  case (12 c p q w ri w')
  then show ?case by (auto simp: memHost_def memExec_def memCopy_def split: option.splits if_splits)
next
  case (13 f s c dir w ru w')
  then show ?case by (auto simp: memHost_def memPut_file)
next
  case (14 c p w rt2 w')
  then show ?case by (auto simp: memHost_def memGet_def extract_createTar split: option.splits if_splits)
qed (auto simp: memHost_def onFile_def memRemoveAll_def uuidOf_shape split: option.splits)

text \<open>Promotions and rollbacks of the machine in memory succeed, and leave what nginx serves alone.\<close>

lemma mem_atomic: "\<exists>w'. writeFileAtomically memHost p s w = (Inr (), w') \<and> memServed w' = memServed w"
  by (simp add: writeFileAtomically_def memHost_def plain_def bindIO_def onFile_def memRemoveAll_def Let_def)

lemma mem_remove: "\<exists>w'. removeIfPresent memHost p w = (Inr (), w') \<and> memServed w' = memServed w"
  by (cases "memDisk w p") (simp_all add: removeIfPresent_def memHost_def onFile_def)

lemma mem_cp:
  "dockerExec memHost c [''cp'', p, q] w =
     (case (if HasPrefix p ''/etc/nginx/'' then memBox w c p else memDisk w p) of
        None \<Rightarrow> (Inl (''Fixed service operation failed with exit '' @ Itoa 1), w)
      | Some s \<Rightarrow> (Inr (), w\<lparr>memBox := (memBox w)(c := (memBox w c)(q := Some s))\<rparr>))"
  by (simp add: dockerExec_def memHost_def memExec_def memCopy_def bindIO_def split: option.split)

lemma mem_active:
  "memBox w c activeConf = Some s \<Longrightarrow> length s \<le> 2 ^ 30 \<Longrightarrow> readActive memHost c w = (Inr (Some s), w)"
  by (simp add: readActive_def readArchiveFile_def memHost_def memGet_def bindIO_def extract_createTar)

lemma mem_stable: "\<exists>w'. WriteStableNginxConfig memHost root s previous w = (Inr (), w') \<and> memServed w' = memServed w"
proof -
  obtain w1 where a: "(if bytesOf previous \<noteq> [] then writeFileAtomically memHost (NginxPreviousStableConfigPath root) (bytesOf previous)
      else removeIfPresent memHost (NginxPreviousStableConfigPath root)) w = (Inr (), w1)" "memServed w1 = memServed w"
    using mem_atomic [of "NginxPreviousStableConfigPath root" "bytesOf previous" w]
      mem_remove [of "NginxPreviousStableConfigPath root" w] by (cases "bytesOf previous = []") auto
  obtain w2 where b: "writeFileAtomically memHost (NginxLiveConfigPath root) s w1 = (Inr (), w2)" "memServed w2 = memServed w1"
    using mem_atomic by blast
  have "osMkdirAll memHost p m w = (Inr (), w)" for p m by (simp add: memHost_def)
  then show ?thesis using a b by (simp add: WriteStableNginxConfig_def Let_def plain_def bindIO_def)
qed

lemma mem_promote:
  assumes "memDisk w (candidateConf cand) = Some s" "\<not> HasPrefix (candidateConf cand) ''/etc/nginx/''"
    "memBox w c activeConf = Some t" "length t \<le> 2 ^ 30"
  shows "\<exists>w'. promoteNginx memHost opts c cand w = (Inr (), w') \<and> memServed w' = memServed w"
proof -
  let ?w1 = "w\<lparr>memBox := (memBox w)(c := (memBox w c)(backupConf := Some t))\<rparr>"
  let ?w2 = "?w1\<lparr>memBox := (memBox ?w1)(c := (memBox ?w1 c)(activeConf := Some s))\<rparr>"
  obtain w' where st: "WriteStableNginxConfig memHost (dkCandidateRoot opts) s (Some t) ?w2 = (Inr (), w')" "memServed w' = memServed ?w2"
    using mem_stable by blast
  have "osReadFile memHost (candidateConf cand) w = (Inr s, w)" using assms(1) by (simp add: memHost_def onFile_def)
  moreover have "dockerExec memHost c [''cp'', activeConf, backupConf] w = (Inr (), ?w1)" using assms(3) by (simp add: mem_cp)
  moreover have "dockerExec memHost c [''cp'', candidateConf cand, activeConf] ?w1 = (Inr (), ?w2)" using assms(1,2) by (simp add: mem_cp)
  ultimately have "promoteNginx memHost opts c cand w = (Inr (), w')"
    using st mem_active [OF assms(3,4)] by (simp add: promoteNginx_def Let_def plain_def bindIO_def ignoreIO_def onError_def)
  then show ?thesis using st(2) by simp
qed

lemma mem_rollback:
  assumes "memDisk w (keptConf opts) = Some t" "length t \<le> 2 ^ 30"
  shows "\<exists>w'. rollbackNginx memHost opts c w = (Inr (), w') \<and> memServed w' = memServed w"
proof -
  have read: "readFileIfPresent memHost p w = (Inr (memDisk w p), w)" for p
    by (simp add: readFileIfPresent_def memHost_def onFile_def split: option.split)
  obtain w1 where a: "writeFileAtomically memHost (liveConf opts) t w = (Inr (), w1)" "memServed w1 = memServed w"
    using mem_atomic by blast
  have "putFile memHost c ''/etc/nginx'' ''nginx.conf'' t w1 =
      (Inr (), w1\<lparr>memBox := (memBox w1)(c := (memBox w1 c)(activeConf := Some t))\<rparr>)"
    using memPut_file [of "''nginx.conf''" t c "''/etc/nginx''" w1] assms(2) by (simp add: putFile_def memHost_def)
  then show ?thesis using a read assms(1) by (simp add: rollbackNginx_def Let_def bindIO_def onError_def)
qed

text \<open>An installation with one candidate, in a short directory, whose nginx serves an older configuration.\<close>

definition memOptions :: DockerOptions where
  "memOptions = DefaultOptions\<lparr>dkCandidateRoot := ''/c''\<rparr>"

definition memStart :: memory where
  "memStart =
     \<lparr>memDisk = (\<lambda>p. if p = ''/c/r/nginx/nginx.conf'' then Some ''map $http_upgrade $connection_upgrade {}'' else None),
      memBox = (\<lambda>c p. if p = ''/etc/nginx/nginx.conf'' then Some ''events {}'' else None),
      memServed = Some ''events {}'', memNext = 0\<rparr>"

lemma memPaths: "nginxPaths uuidShaped memOptions ''/c/r/nginx''"
  "candidateConf ''/c/r/nginx'' = ''/c/r/nginx/nginx.conf''" "liveConf memOptions = ''/c/nginx-live.conf''"
  "keptConf memOptions = ''/c/nginx-previous-live.conf''"
proof -
  show paths: "candidateConf ''/c/r/nginx'' = ''/c/r/nginx/nginx.conf''" "liveConf memOptions = ''/c/nginx-live.conf''"
    "keptConf memOptions = ''/c/nginx-previous-live.conf''" by code_simp+
  have "noUUID uuidShaped p" if "length p < 36" for p
    using that by (auto simp: noUUID_def uuidShaped_def Contains_iff)
  moreover have "noDots ''/c''" "noDots ''/c/r/nginx''" "dkCandidateRoot memOptions = ''/c''"
    "\<not> HasPrefix ''/c/r/nginx/nginx.conf'' ''/etc/nginx/''" by code_simp+
  ultimately show "nginxPaths uuidShaped memOptions ''/c/r/nginx''" unfolding nginxPaths_def paths by simp
qed

lemma memStart_promote:
  obtains w1 where "promoteNginx memHost memOptions ''n'' ''/c/r/nginx'' memStart = (Inr (), w1)" "memServed w1 = Some ''events {}''"
    "memDisk w1 (keptConf memOptions) = Some ''events {}''" "memBox w1 ''n'' activeConf = Some ''map $http_upgrade $connection_upgrade {}''"
proof -
  have start: "memDisk memStart (candidateConf ''/c/r/nginx'') = Some ''map $http_upgrade $connection_upgrade {}''"
    "\<not> HasPrefix (candidateConf ''/c/r/nginx'') ''/etc/nginx/''" "memBox memStart ''n'' activeConf = Some ''events {}''"
    by (simp_all add: memPaths memStart_def)
  then obtain w1 where run: "promoteNginx memHost memOptions ''n'' ''/c/r/nginx'' memStart = (Inr (), w1)" "memServed w1 = memServed memStart"
    using mem_promote [of memStart "''/c/r/nginx''" _ "''n''" "''events {}''" memOptions] by auto
  have "\<not> unreadable memHost memDisk memBox ''n'' memStart"
  proof
    assume "unreadable memHost memDisk memBox ''n'' memStart"
    then obtain v v' where "memBox v = memBox memStart" "readActive memHost ''n'' v = (Inr None, v')" by (auto simp: unreadable_def)
    with mem_active [of v "''n''" "''events {}''"] start(3) show False by simp
  qed
  then show thesis
    using mem.promoteNginx_ok [OF run(1) memPaths(1)] start run(2) that [OF run(1)] by (auto simp: memStart_def)
qed

section \<open>Properties\<close>





text \<open>
  C37: The backend touches nothing for a candidate path outside its root, with two dots in a row or with a NUL
  byte, and only promote and rollback change a file of the host or of a container.
\<close>
theorem dockerExecute_confined:
  assumes "machine h disk box goodUUID" "dockerExecute h opts req w = (r, w')"
  shows "(\<not> HasPrefix (rqCandidatePath req) (dkCandidateRoot opts @ ''/'') \<or> Contains (rqCandidatePath req) ''..'' \<or>
       NUL \<in> set (rqCandidatePath req) \<longrightarrow> r = Inl ''Candidate path is outside the fixed worker root'' \<and> w' = w) \<and>
    (rqOperation req \<notin> {OperationPromote, OperationRollback} \<longrightarrow> disk w' = disk w \<and> box w' = box w)"
proof -
  have "r = Inl ''Candidate path is outside the fixed worker root'' \<and> w' = w"
    if "\<not> HasPrefix (rqCandidatePath req) (dkCandidateRoot opts @ ''/'') \<or> Contains (rqCandidatePath req) ''..'' \<or> NUL \<in> set (rqCandidatePath req)"
    using assms(2) that by (simp add: dockerExecute_def AssertCandidatePath_def)
  then show ?thesis using machine.dockerExecute_reads [OF assms(1,2)] by blast
qed

theorem dockerExecute_confined_witness:
  "dockerExecute memHost memOptions (sampleRequest\<lparr>rqCandidatePath := ''/etc/passwd''\<rparr>) memStart =
     (Inl ''Candidate path is outside the fixed worker root'', memStart)"
proof -
  let ?req = "sampleRequest\<lparr>rqCandidatePath := ''/etc/passwd''\<rparr>"
  obtain r w' where run: "dockerExecute memHost memOptions ?req memStart = (r, w')" by fastforce
  have "\<not> HasPrefix (rqCandidatePath ?req) (dkCandidateRoot memOptions @ ''/'')" by code_simp
  then show ?thesis using dockerExecute_confined [OF mem.machine_axioms run] run by blast
qed

section \<open>Observation\<close>

text \<open>
  Rolling nginx back rewrites its configuration but does not reload it: after a promotion that was reloaded and
  rolled back, the file is the old one again while nginx still serves the configuration that failed.
\<close>

lemma rolled_back_still_serving:
  "\<exists>w1 w2 w3. promoteNginx memHost memOptions ''n'' ''/c/r/nginx'' memStart = (Inr (), w1) \<and>
     dockerExec memHost ''n'' [''nginx'', ''-s'', ''reload''] w1 = (Inr (), w2) \<and> rollbackNginx memHost memOptions ''n'' w2 = (Inr (), w3) \<and>
     memBox w3 ''n'' activeConf = Some ''events {}'' \<and> memServed w3 = Some ''map $http_upgrade $connection_upgrade {}''"
proof -
  obtain w1 where run: "promoteNginx memHost memOptions ''n'' ''/c/r/nginx'' memStart = (Inr (), w1)"
    and kept: "memDisk w1 (keptConf memOptions) = Some ''events {}''"
    and active: "memBox w1 ''n'' activeConf = Some ''map $http_upgrade $connection_upgrade {}''" by (rule memStart_promote)
  let ?w2 = "w1\<lparr>memServed := Some ''map $http_upgrade $connection_upgrade {}''\<rparr>"
  have reload: "dockerExec memHost ''n'' [''nginx'', ''-s'', ''reload''] w1 = (Inr (), ?w2)"
    using active by (simp add: dockerExec_def memHost_def memExec_def bindIO_def)
  have kept2: "memDisk ?w2 (keptConf memOptions) = Some ''events {}''" using kept by simp
  obtain w3 where roll: "rollbackNginx memHost memOptions ''n'' ?w2 = (Inr (), w3)" "memServed w3 = memServed ?w2"
    using mem_rollback [OF kept2] by auto
  have "memBox w3 ''n'' activeConf = Some ''events {}''"
    using mem.rollbackNginx_ok(1) [OF roll(1) memPaths(1) kept2] by simp
  then show ?thesis using run reload roll by auto
qed

end
