(* ===== verification/SemVer.thy ===== *)
theory SemVer
  imports Candidates Timestamp "HOL-Library.Product_Lexorder"
begin

text \<open>
  Semantic versions (the second half of \<open>internal/update/checker.go\<close>): parsing and comparing.  The parser
  accepts exactly the version texts of the grammar, and the comparison is the order of precedence of the
  specification, which is stated here as a linear order on keys.
\<close>

section \<open>Versions\<close>

record semanticVersion =
  svMajor :: "64 word"
  svMinor :: "64 word"
  svPatch :: "64 word"
  svPrerelease :: "string list"

datatype number_error = InvalidNumericIdentifier | ParseUintSyntax | ParseUintRange

datatype version_error =
    VersionEmpty | InvalidBuildMetadata | NotThreeParts
  | InvalidMajor number_error | InvalidMinor number_error | InvalidPatch number_error
  | InvalidPrerelease | NumericPrereleaseLeadingZero

text \<open>\<open>strings.SplitN(s, sep, 2)\<close> for a separator of one byte.\<close>

definition SplitN2 :: "char \<Rightarrow> string \<Rightarrow> string list" where
  "SplitN2 sep s =
     (if sep \<in> set s then [takeWhile (\<lambda>c. c \<noteq> sep) s, tl (dropWhile (\<lambda>c. c \<noteq> sep) s)] else [s])"

definition normalizeVersion :: "string \<Rightarrow> string" where
  "normalizeVersion raw = (let s = TrimSpace raw in if HasPrefix s ''v'' then tl s else s)"

text \<open>\<open>strconv.ParseUint(s, 10, 64)\<close>, which stops at the first byte that is not a digit or that overflows.\<close>

fun parseUint :: "nat \<Rightarrow> string \<Rightarrow> number_error + nat" where
  "parseUint n [] = Inr n"
| "parseUint n (c # s) =
     (if \<not> isDigit c then Inl ParseUintSyntax
      else let m = 10 * n + digitVal c in if m \<ge> 2 ^ 64 then Inl ParseUintRange else parseUint m s)"

definition parseCoreNumber :: "string \<Rightarrow> number_error + 64 word" where
  "parseCoreNumber raw =
     (if raw = [] \<or> length raw > 1 \<and> hd raw = CHR ''0'' then Inl InvalidNumericIdentifier
      else (case parseUint 0 raw of Inl e \<Rightarrow> Inl e | Inr n \<Rightarrow> Inr (word_of_nat n)))"

definition identifierChar :: "char \<Rightarrow> bool" where
  "identifierChar c \<longleftrightarrow> isDigit c \<or> isUpper c \<or> isLower c \<or> c = CHR ''-''"

definition validIdentifierList :: "string \<Rightarrow> bool" where
  "validIdentifierList raw \<longleftrightarrow>
     raw \<noteq> [] \<and> list_all (\<lambda>identifier. identifier \<noteq> [] \<and> list_all identifierChar identifier) (Split (CHR ''.'') raw)"

definition isNumericIdentifier :: "string \<Rightarrow> bool" where
  "isNumericIdentifier identifier \<longleftrightarrow> identifier \<noteq> [] \<and> list_all isDigit identifier"

definition leadingZero :: "string \<Rightarrow> bool" where
  "leadingZero identifier \<longleftrightarrow> isNumericIdentifier identifier \<and> length identifier > 1 \<and> hd identifier = CHR ''0''"

definition parseCore :: "string \<Rightarrow> version_error + semanticVersion" where
  "parseCore core =
     (case Split (CHR ''.'') core of
        [a, b, c] \<Rightarrow>
          (case parseCoreNumber a of Inl e \<Rightarrow> Inl (InvalidMajor e) | Inr major \<Rightarrow>
          (case parseCoreNumber b of Inl e \<Rightarrow> Inl (InvalidMinor e) | Inr minor \<Rightarrow>
          (case parseCoreNumber c of Inl e \<Rightarrow> Inl (InvalidPatch e) | Inr patch \<Rightarrow>
             Inr \<lparr>svMajor = major, svMinor = minor, svPatch = patch, svPrerelease = []\<rparr>)))
      | _ \<Rightarrow> Inl NotThreeParts)"

definition parsePrerelease :: "string list \<Rightarrow> semanticVersion \<Rightarrow> version_error + semanticVersion" where
  "parsePrerelease parts version =
     (case parts of
        [_, pre] \<Rightarrow>
          if \<not> validIdentifierList pre then Inl InvalidPrerelease
          else if list_ex leadingZero (Split (CHR ''.'') pre) then Inl NumericPrereleaseLeadingZero
          else Inr (version\<lparr>svPrerelease := Split (CHR ''.'') pre\<rparr>)
      | _ \<Rightarrow> Inr version)"

definition parseSemVer :: "string \<Rightarrow> version_error + semanticVersion" where
  "parseSemVer text =
     (let raw = normalizeVersion text; buildParts = SplitN2 (CHR ''+'') raw in
      if raw = [] then Inl VersionEmpty
      else if length buildParts = 2 \<and> \<not> validIdentifierList (buildParts ! 1) then Inl InvalidBuildMetadata
      else let parts = SplitN2 (CHR ''-'') (buildParts ! 0) in
        bindE (parseCore (parts ! 0)) (parsePrerelease parts))"

section \<open>Comparison\<close>

definition compareOrd :: "'a :: linorder \<Rightarrow> 'a \<Rightarrow> int" where
  "compareOrd left right = (if left < right then -1 else if left > right then 1 else 0)"

abbreviation compareUint :: "64 word \<Rightarrow> 64 word \<Rightarrow> int" where "compareUint \<equiv> compareOrd"
abbreviation compareInt :: "nat \<Rightarrow> nat \<Rightarrow> int" where "compareInt \<equiv> compareOrd"

definition stripZeros :: "string \<Rightarrow> string" where
  "stripZeros s = (let t = TrimLeft s ''0'' in if t = [] then ''0'' else t)"

definition compareNumericStrings :: "string \<Rightarrow> string \<Rightarrow> int" where
  "compareNumericStrings left right =
     (let l = stripZeros left; r = stripZeros right in
      if length l \<noteq> length r then compareInt (length l) (length r)
      else if l < r then -1 else if l > r then 1 else 0)"

fun compareIdentifiers :: "string list \<Rightarrow> string list \<Rightarrow> int" where
  "compareIdentifiers (l # ls) (r # rs) =
     (if l = r then compareIdentifiers ls rs
      else if isNumericIdentifier l \<and> isNumericIdentifier r then compareNumericStrings l r
      else if isNumericIdentifier l \<noteq> isNumericIdentifier r then (if isNumericIdentifier l then -1 else 1)
      else if l < r then -1 else 1)"
| "compareIdentifiers ls rs = compareInt (length ls) (length rs)"

definition compareSemVer :: "semanticVersion \<Rightarrow> semanticVersion \<Rightarrow> int" where
  "compareSemVer left right =
     (if svMajor left \<noteq> svMajor right then compareUint (svMajor left) (svMajor right)
      else if svMinor left \<noteq> svMinor right then compareUint (svMinor left) (svMinor right)
      else if svPatch left \<noteq> svPatch right then compareUint (svPatch left) (svPatch right)
      else if svPrerelease left = [] \<and> svPrerelease right \<noteq> [] then 1
      else if svPrerelease left \<noteq> [] \<and> svPrerelease right = [] then -1
      else compareIdentifiers (svPrerelease left) (svPrerelease right))"

section \<open>Precedence\<close>

text \<open>
  The order of the specification: numeric identifiers are compared as numbers and come before the others, a
  list before its extensions, and a prerelease before the release.
\<close>

datatype idKey = Numeric nat | Alphanumeric string

instantiation idKey :: linorder
begin

fun less_eq_idKey :: "idKey \<Rightarrow> idKey \<Rightarrow> bool" where
  "Numeric m \<le> Numeric n \<longleftrightarrow> m \<le> n"
| "Numeric m \<le> Alphanumeric t \<longleftrightarrow> True"
| "Alphanumeric s \<le> Numeric n \<longleftrightarrow> False"
| "Alphanumeric s \<le> Alphanumeric t \<longleftrightarrow> s \<le> t"

definition less_idKey :: "idKey \<Rightarrow> idKey \<Rightarrow> bool" where
  "less_idKey x y \<longleftrightarrow> x \<le> y \<and> \<not> y \<le> x"

instance
proof
  fix x y z :: idKey
  show "x < y \<longleftrightarrow> x \<le> y \<and> \<not> y \<le> x" by (rule less_idKey_def)
  show "x \<le> x" by (cases x) simp_all
  show "x \<le> y \<or> y \<le> x" by (cases x; cases y) auto
  show "x = y" if "x \<le> y" "y \<le> x" using that by (cases x; cases y) auto
  show "x \<le> z" if "x \<le> y" "y \<le> z" using that by (cases x; cases y; cases z) auto
qed

end

definition identify :: "string \<Rightarrow> idKey" where
  "identify s = (if isNumericIdentifier s then Numeric (natOfDigits s) else Alphanumeric s)"

definition precedence :: "semanticVersion \<Rightarrow> 64 word \<times> 64 word \<times> 64 word \<times> bool \<times> idKey list" where
  "precedence v =
     (svMajor v, svMinor v, svPatch v, svPrerelease v = [], map identify (svPrerelease v))"

definition wellFormed :: "semanticVersion \<Rightarrow> bool" where
  "wellFormed v \<longleftrightarrow> list_all (\<lambda>s. s \<noteq> [] \<and> list_all identifierChar s \<and> \<not> leadingZero s) (svPrerelease v)"

lemma less_idKey_simps [simp]:
  "Numeric m < Numeric n \<longleftrightarrow> m < n" "Numeric m < Alphanumeric t" "\<not> Alphanumeric s < Numeric n"
  "Alphanumeric s < Alphanumeric t \<longleftrightarrow> s < t"
  by (auto simp: less_idKey_def less_le_not_le)

section \<open>Lemmas: numbers\<close>

lemma digitChar_digitVal: "isDigit c \<Longrightarrow> digitChar (digitVal c) = c"
  by (auto simp: isDigit_def digitChar_def digitVal_def less_eq_char_def)

lemma digitVal_less: "isDigit c \<Longrightarrow> digitVal c < 10"
  by (auto simp: isDigit_def digitVal_def less_eq_char_def)

lemma natOfDigits_bound: "list_all isDigit s \<Longrightarrow> natOfDigits s < 10 ^ length s"
proof (induction s rule: rev_induct)
  case (snoc c s)
  then show ?case using digitVal_less [of c] by simp
qed (simp add: natOfDigits_def)

lemma fixedDigits_natOfDigits: "list_all isDigit s \<Longrightarrow> fixedDigits (length s) (natOfDigits s) = s"
proof (induction s rule: rev_induct)
  case (snoc c s)
  then show ?case using digitVal_less [of c] digitChar_digitVal [of c] by simp
qed simp

lemma digits_less: "list_all isDigit s \<Longrightarrow> list_all isDigit t \<Longrightarrow> length s = length t \<Longrightarrow> s < t \<longleftrightarrow> natOfDigits s < natOfDigits t"
  using fixedDigits_less [of "natOfDigits s" "length s" "natOfDigits t"] fixedDigits_natOfDigits [of s] fixedDigits_natOfDigits [of t]
    natOfDigits_bound [of s] natOfDigits_bound [of t] by simp

lemma natOfDigits_Cons: "natOfDigits (c # s) = digitVal c * 10 ^ length s + natOfDigits s"
proof (induction s rule: rev_induct)
  case (snoc d s)
  then show ?case by (simp flip: append_Cons add: algebra_simps)
qed (simp add: natOfDigits_def)

lemma natOfDigits_longer:
  assumes "list_all isDigit s" "list_all isDigit t" "length t < length s" "hd s \<noteq> CHR ''0''"
  shows "natOfDigits t < natOfDigits s"
proof -
  obtain c u where s: "s = c # u" using assms(3) by (cases s) auto
  have "0 < digitVal c" using assms(1,4) digitChar_digitVal [of c] by (cases "digitVal c = 0") (auto simp: s digitChar_0)
  then have "10 ^ length u \<le> natOfDigits s" by (simp add: s natOfDigits_Cons trans_le_add1)
  moreover have "natOfDigits t < 10 ^ length t" using assms(2) by (rule natOfDigits_bound)
  moreover have "(10 :: nat) ^ length t \<le> 10 ^ length u" using assms(3) by (intro power_increasing) (simp_all add: s)
  ultimately show ?thesis by linarith
qed

lemma stripZeros_id: "isNumericIdentifier s \<Longrightarrow> \<not> leadingZero s \<Longrightarrow> stripZeros s = s"
  by (cases s) (auto simp: stripZeros_def TrimLeft_def leadingZero_def isNumericIdentifier_def)

lemma numeric_longer:
  assumes "isNumericIdentifier s" "\<not> leadingZero s" "isNumericIdentifier t" "length t < length s"
  shows "natOfDigits t < natOfDigits s"
proof (rule natOfDigits_longer)
  have "1 < length s" using assms(3,4) by (cases t) (auto simp: isNumericIdentifier_def)
  then show "hd s \<noteq> CHR ''0''" using assms(1,2) by (simp add: leadingZero_def)
qed (use assms in \<open>simp_all add: isNumericIdentifier_def\<close>)

lemma compareNumericStrings_number:
  assumes "isNumericIdentifier l" "\<not> leadingZero l" "isNumericIdentifier r" "\<not> leadingZero r"
  shows "compareNumericStrings l r = compareOrd (natOfDigits l) (natOfDigits r)"
proof -
  have d: "list_all isDigit l" "list_all isDigit r" "l \<noteq> []" "r \<noteq> []" using assms by (simp_all add: isNumericIdentifier_def)
  note c = compareNumericStrings_def stripZeros_id [OF assms(1,2)] stripZeros_id [OF assms(3,4)] Let_def
  consider "length l = length r" | "length l < length r" | "length r < length l" by linarith
  then show ?thesis
  proof cases
    case 1
    then show ?thesis unfolding c using digits_less [OF d(1,2)] digits_less [OF d(2,1)] by (simp add: compareOrd_def)
  next
    case 2
    then show ?thesis unfolding c using numeric_longer [OF assms(3,4,1)] by (simp add: compareOrd_def)
  next
    case 3
    then show ?thesis unfolding c using numeric_longer [OF assms(1,2,3)] by (simp add: compareOrd_def)
  qed
qed

section \<open>Lemmas: precedence\<close>

lemma identify_inject:
  assumes "\<not> leadingZero l" "\<not> leadingZero r" "identify l = identify r"
  shows "l = r"
proof (cases "isNumericIdentifier l \<and> isNumericIdentifier r")
  case True
  then have eq: "natOfDigits l = natOfDigits r" using assms(3) by (simp add: identify_def)
  have "\<not> length r < length l" "\<not> length l < length r"
    using numeric_longer [of l r] numeric_longer [of r l] True assms(1,2) eq by auto
  then have "length l = length r" by simp
  then show ?thesis using eq True fixedDigits_natOfDigits [of l] fixedDigits_natOfDigits [of r] by (metis isNumericIdentifier_def)
next
  case False
  then show ?thesis using assms(3) by (auto simp: identify_def split: if_splits)
qed

lemma Nil_less: "[] < xs \<longleftrightarrow> xs \<noteq> []" for xs :: "'a :: linorder list"
  by (cases xs) auto

lemma compareIdentifiers_order:
  assumes "list_all (\<lambda>s. \<not> leadingZero s) ls" "list_all (\<lambda>s. \<not> leadingZero s) rs"
  shows "compareIdentifiers ls rs = compareOrd (map identify ls) (map identify rs)"
  using assms
proof (induction ls rs rule: compareIdentifiers.induct)
  case (1 l ls r rs)
  show ?case
  proof (cases "l = r")
    case True
    then show ?thesis using 1 by (simp add: compareOrd_def)
  next
    case False
    then have ne: "identify l \<noteq> identify r" using identify_inject [of l r] 1(2,3) by auto
    have "compareOrd (map identify (l # ls)) (map identify (r # rs)) = compareOrd (identify l) (identify r)"
      using ne by (auto simp: compareOrd_def)
    also have "\<dots> = compareIdentifiers (l # ls) (r # rs)"
      using False 1(2,3) ne by (auto simp: compareNumericStrings_number identify_def compareOrd_def)
    finally show ?thesis by simp
  qed
qed (auto simp: compareOrd_def Nil_less)

lemma compareOrd_pair: "compareOrd (a, b) (c, d) = (if a \<noteq> c then compareOrd a c else compareOrd b d)"
  by (auto simp: compareOrd_def)

lemma compareOrd_bool: "compareOrd True False = 1" "compareOrd False True = -1"
  by (simp_all add: compareOrd_def)

lemma compareOrd_zero: "compareOrd a b = 0 \<longleftrightarrow> a = b"
  by (auto simp: compareOrd_def)

lemma compareSemVer_order:
  assumes "wellFormed l" "wellFormed r"
  shows "compareSemVer l r = compareOrd (precedence l) (precedence r)"
proof -
  have z: "list_all (\<lambda>s. \<not> leadingZero s) (svPrerelease l)" "list_all (\<lambda>s. \<not> leadingZero s) (svPrerelease r)"
    using assms by (simp_all add: wellFormed_def list_all_iff)
  then show ?thesis
    using compareIdentifiers_order [OF z] unfolding compareSemVer_def precedence_def compareOrd_pair
    by (auto simp: compareOrd_bool compareOrd_zero)
qed

lemma precedence_inject:
  assumes "wellFormed l" "wellFormed r" "precedence l = precedence r"
  shows "l = r"
proof -
  have "map identify (svPrerelease l) = map identify (svPrerelease r)" using assms(3) by (simp add: precedence_def)
  moreover have "inj_on identify (set (svPrerelease l) \<union> set (svPrerelease r))"
    using assms(1,2) identify_inject by (intro inj_onI) (auto simp: wellFormed_def list_all_iff)
  ultimately have "svPrerelease l = svPrerelease r" by (metis inj_on_map_eq_map)
  then show ?thesis using assms(3) by (cases l; cases r) (simp add: precedence_def)
qed

section \<open>Lemmas: the grammar\<close>

definition showCore :: "semanticVersion \<Rightarrow> string" where
  "showCore v = natItoa (unat (svMajor v)) @ ''.'' @ natItoa (unat (svMinor v)) @ ''.'' @ natItoa (unat (svPatch v))"

definition showVersion :: "semanticVersion \<Rightarrow> string" where
  "showVersion v = showCore v @ (if svPrerelease v = [] then [] else ''-'' @ Join (svPrerelease v) ''.'')"

lemma natItoa_hd: "0 < n \<Longrightarrow> hd (natItoa n) \<noteq> CHR ''0''"
proof (induction n rule: natItoa.induct)
  case (1 n)
  show ?case
  proof (cases "n < 10")
    case True
    then have "digitChar n \<noteq> digitChar 0" using 1(2) by (simp add: digitChar_eq)
    then show ?thesis using True by (subst natItoa.simps) (simp add: digitChar_0)
  next
    case False
    then show ?thesis using 1 by (subst natItoa.simps) simp
  qed
qed

lemma natItoa_numeric: "isNumericIdentifier (natItoa n)" "\<not> leadingZero (natItoa n)"
proof -
  show "isNumericIdentifier (natItoa n)" by (simp add: isNumericIdentifier_def natItoa_digits)
  show "\<not> leadingZero (natItoa n)"
  proof (cases "n = 0")
    case True
    then show ?thesis by (simp add: leadingZero_def natItoa.simps)
  next
    case False
    then show ?thesis using natItoa_hd [of n] by (simp add: leadingZero_def)
  qed
qed

lemma natItoa_natOfDigits: "isNumericIdentifier s \<Longrightarrow> \<not> leadingZero s \<Longrightarrow> natItoa (natOfDigits s) = s"
  using identify_inject [of "natItoa (natOfDigits s)" s] natItoa_numeric by (simp add: identify_def)

lemma parseUint_Inr:
  "n < 2 ^ 64 \<Longrightarrow> parseUint n s = Inr m \<longleftrightarrow> list_all isDigit s \<and> m = n * 10 ^ length s + natOfDigits s \<and> m < 2 ^ 64"
proof (induction n s rule: parseUint.induct)
  case (1 n)
  then show ?case by (auto simp: natOfDigits_def)
next
  case (2 n c s)
  let ?m = "10 * n + digitVal c"
  have eq: "n * 10 ^ length (c # s) + natOfDigits (c # s) = ?m * 10 ^ length s + natOfDigits s"
    by (simp add: natOfDigits_Cons algebra_simps)
  have "?m * 1 \<le> ?m * 10 ^ length s" by (rule mult_le_mono2) simp
  then have "?m \<le> ?m * 10 ^ length s + natOfDigits s" by (simp only: mult_1_right trans_le_add1)
  then show ?case using 2 unfolding eq by (auto simp: Let_def not_le)
qed

lemma parseCoreNumber_Inr: "parseCoreNumber raw = Inr x \<longleftrightarrow> raw = natItoa (unat x)"
proof
  assume "raw = natItoa (unat x)"
  moreover have "unat x < 2 ^ 64" using unsigned_less [of x] by simp
  ultimately have "parseUint 0 raw = Inr (unat x)" by (simp add: parseUint_Inr natItoa_digits)
  then show "parseCoreNumber raw = Inr x"
    using natItoa_numeric [of "unat x"] \<open>raw = natItoa (unat x)\<close>
    by (auto simp: parseCoreNumber_def leadingZero_def)
next
  assume p: "parseCoreNumber raw = Inr x"
  then obtain n where n: "parseUint 0 raw = Inr n" "x = word_of_nat n" and raw: "raw \<noteq> []" "\<not> (length raw > 1 \<and> hd raw = CHR ''0'')"
    by (auto simp: parseCoreNumber_def split: if_splits sum.splits)
  then have digits: "list_all isDigit raw" "n = natOfDigits raw" "n < 2 ^ 64" by (simp_all add: parseUint_Inr)
  then have "unat x = n" by (simp add: n(2) unsigned_of_nat take_bit_eq_mod)
  moreover have "natItoa (natOfDigits raw) = raw"
    using digits(1) raw by (intro natItoa_natOfDigits) (auto simp: isNumericIdentifier_def leadingZero_def)
  ultimately show "raw = natItoa (unat x)" using digits(2) by simp
qed

lemma natItoa_plain: "CHR ''.'' \<notin> set (natItoa n)" "CHR ''-'' \<notin> set (natItoa n)" "CHR ''+'' \<notin> set (natItoa n)"
  using natItoa_digits [of n] by (auto simp: list_all_iff isDigit_def)

lemma parseCore_Inr: "parseCore core = Inr v \<longleftrightarrow> svPrerelease v = [] \<and> core = showCore v"
proof
  assume "svPrerelease v = [] \<and> core = showCore v"
  then have pre: "svPrerelease v = []" and core: "core = showCore v" by simp_all
  have "Split (CHR ''.'') core = [natItoa (unat (svMajor v)), natItoa (unat (svMinor v)), natItoa (unat (svPatch v))]"
    unfolding core showCore_def by (simp add: Split_append Split_single natItoa_plain)
  moreover have "parseCoreNumber (natItoa (unat x)) = Inr x" for x by (simp add: parseCoreNumber_Inr)
  ultimately show "parseCore core = Inr v" using pre by (cases v) (simp add: parseCore_def)
next
  assume p: "parseCore core = Inr v"
  then obtain a b c where split: "Split (CHR ''.'') core = [a, b, c]"
    and n: "parseCoreNumber a = Inr (svMajor v)" "parseCoreNumber b = Inr (svMinor v)" "parseCoreNumber c = Inr (svPatch v)"
    and pre: "svPrerelease v = []"
    by (auto simp: parseCore_def split: list.splits sum.splits)
  have "core = Join [a, b, c] ''.''" using Join_Split [of "CHR ''.''" core] split by simp
  then show "svPrerelease v = [] \<and> core = showCore v" using n pre by (simp add: parseCoreNumber_Inr showCore_def)
qed

lemma SplitN2_append: "sep \<notin> set a \<Longrightarrow> SplitN2 sep (a @ sep # b) = [a, b]"
proof -
  assume "sep \<notin> set a"
  then have "\<And>x. x \<in> set a \<Longrightarrow> x \<noteq> sep" by auto
  then show ?thesis by (simp add: SplitN2_def takeWhile_append2 dropWhile_append2)
qed

lemma SplitN2_single: "sep \<notin> set a \<Longrightarrow> SplitN2 sep a = [a]"
  by (simp add: SplitN2_def)

lemma SplitN2_cases:
  obtains (one) "sep \<notin> set s" "SplitN2 sep s = [s]" | (two) a b where "s = a @ sep # b" "sep \<notin> set a" "SplitN2 sep s = [a, b]"
proof (cases "sep \<in> set s")
  case True
  then obtain a b where "s = a @ sep # b" "sep \<notin> set a" by (meson split_list_first)
  then show thesis using two SplitN2_append by blast
qed (use one SplitN2_single in blast)

lemma identifierChar_plain: "identifierChar c \<Longrightarrow> c \<noteq> CHR ''.'' \<and> c \<noteq> CHR ''+''"
  by (auto simp: identifierChar_def isDigit_def isUpper_def isLower_def)

lemma showCore_plain: "CHR ''-'' \<notin> set (showCore v)" "CHR ''+'' \<notin> set (showCore v)"
  by (simp_all add: showCore_def natItoa_plain)

lemma Join_chars: "set (Join ps sep) \<subseteq> (\<Union>p \<in> set ps. set p) \<union> set sep"
  by (induction ps sep rule: Join.induct) auto

lemma showVersion_plain: "wellFormed v \<Longrightarrow> CHR ''+'' \<notin> set (showVersion v)"
proof
  assume wf: "wellFormed v" and "CHR ''+'' \<in> set (showVersion v)"
  then have "CHR ''+'' \<in> set (Join (svPrerelease v) ''.'')" by (simp add: showVersion_def showCore_plain split: if_splits)
  then obtain p where "p \<in> set (svPrerelease v)" "CHR ''+'' \<in> set p" using Join_chars [of "svPrerelease v" "''.''"] by auto
  then have "identifierChar (CHR ''+'')" using wf by (simp add: wellFormed_def list_all_iff)
  then show False using identifierChar_plain by blast
qed

lemma validIdentifierList_Join:
  assumes "wellFormed v" "svPrerelease v \<noteq> []"
  shows "Split (CHR ''.'') (Join (svPrerelease v) ''.'') = svPrerelease v" "validIdentifierList (Join (svPrerelease v) ''.'')"
proof -
  have e: "\<forall>p \<in> set (svPrerelease v). p \<noteq> [] \<and> list_all identifierChar p"
    using assms(1) by (auto simp: wellFormed_def list_all_iff)
  then have "\<forall>p \<in> set (svPrerelease v). CHR ''.'' \<notin> set p" using identifierChar_plain by (fastforce simp: list_all_iff)
  then show split: "Split (CHR ''.'') (Join (svPrerelease v) ''.'') = svPrerelease v" using Split_Join [OF assms(2)] by blast
  have "Join (svPrerelease v) ''.'' \<noteq> []" using split assms(2) e by (metis Split.simps(1) list.set_intros(1))
  then show "validIdentifierList (Join (svPrerelease v) ''.'')" using split e by (auto simp: validIdentifierList_def list_all_iff)
qed

text \<open>The text before the build metadata.\<close>

lemma parse_head: "bindE (parseCore (SplitN2 (CHR ''-'') head ! 0)) (parsePrerelease (SplitN2 (CHR ''-'') head)) = Inr v \<longleftrightarrow>
    wellFormed v \<and> head = showVersion v"
proof
  assume p: "bindE (parseCore (SplitN2 (CHR ''-'') head ! 0)) (parsePrerelease (SplitN2 (CHR ''-'') head)) = Inr v"
  show "wellFormed v \<and> head = showVersion v"
  proof (cases rule: SplitN2_cases [of "CHR ''-''" head])
    case one
    then have "parseCore head = Inr v" using p by (simp add: parsePrerelease_def)
    then show ?thesis by (simp add: parseCore_Inr wellFormed_def showVersion_def)
  next
    case (two a b)
    then obtain v0 where v0: "parseCore a = Inr v0" and v: "v = v0\<lparr>svPrerelease := Split (CHR ''.'') b\<rparr>"
      and b: "validIdentifierList b" "\<not> list_ex leadingZero (Split (CHR ''.'') b)"
      using p by (auto simp: parsePrerelease_def split: if_splits)
    have "showCore v = a" using v0 by (simp add: parseCore_Inr v showCore_def)
    moreover have "Join (Split (CHR ''.'') b) ''.'' = b" by simp
    ultimately show ?thesis using b two by (auto simp: v wellFormed_def showVersion_def validIdentifierList_def list_all_iff list_ex_iff)
  qed
next
  assume "wellFormed v \<and> head = showVersion v"
  then have wf: "wellFormed v" and head: "head = showVersion v" by simp_all
  show "bindE (parseCore (SplitN2 (CHR ''-'') head ! 0)) (parsePrerelease (SplitN2 (CHR ''-'') head)) = Inr v"
  proof (cases "svPrerelease v = []")
    case True
    then have "SplitN2 (CHR ''-'') head = [showCore v]" by (simp add: head showVersion_def SplitN2_single showCore_plain)
    moreover have "parseCore (showCore v) = Inr v" using True by (simp add: parseCore_Inr)
    ultimately show ?thesis by (simp add: parsePrerelease_def)
  next
    case False
    let ?v0 = "v\<lparr>svPrerelease := []\<rparr>"
    have "SplitN2 (CHR ''-'') head = [showCore v, Join (svPrerelease v) ''.'']"
      using False by (simp add: head showVersion_def SplitN2_append showCore_plain)
    moreover have "parseCore (showCore v) = Inr ?v0" by (simp add: parseCore_Inr showCore_def)
    moreover have "\<not> list_ex leadingZero (svPrerelease v)" using wf by (auto simp: wellFormed_def list_all_iff list_ex_iff)
    ultimately show ?thesis using validIdentifierList_Join [OF wf False] by (simp add: parsePrerelease_def)
  qed
qed

lemma showVersion_not_Nil: "showVersion v \<noteq> []"
  by (simp add: showVersion_def showCore_def)

lemma parseSemVer_plain:
  "CHR ''+'' \<notin> set (normalizeVersion text) \<Longrightarrow> parseSemVer text = Inr v \<longleftrightarrow> wellFormed v \<and> normalizeVersion text = showVersion v"
  using showVersion_not_Nil [of v] by (auto simp: parseSemVer_def Let_def parse_head SplitN2_single simp del: bindE_eq_Inr)

lemma parseSemVer_wellFormed: "parseSemVer s = Inr v \<Longrightarrow> wellFormed v"
  by (auto simp: parseSemVer_def Let_def parse_head simp del: bindE_eq_Inr split: if_splits)

section \<open>Properties\<close>

text \<open>
  The parser accepts exactly the texts of the grammar of semantic versions, after trimming and one leading
  v: three numbers below 2^64 without leading zeros, optional prerelease identifiers of letters, digits and
  dashes of which the numeric ones have no leading zeros, optional build metadata of such identifiers; and
  the version it returns is the one whose text it read.
\<close>
theorem parseSemVer_grammar:
  "parseSemVer text = Inr v \<longleftrightarrow>
     wellFormed v \<and> (\<exists>build. normalizeVersion text = showVersion v @ build \<and>
       (build = [] \<or> (\<exists>b. build = CHR ''+'' # b \<and> validIdentifierList b)))"
proof -
  let ?raw = "normalizeVersion text"
  show ?thesis
  proof (cases rule: SplitN2_cases [of "CHR ''+''" ?raw])
    case one
    then show ?thesis using parseSemVer_plain [of "text" v] by auto
  next
    case (two a b)
    have "parseSemVer text = Inr v \<longleftrightarrow> validIdentifierList b \<and> wellFormed v \<and> a = showVersion v"
      using two by (auto simp: parseSemVer_def Let_def parse_head simp del: bindE_eq_Inr)
    moreover have "(\<exists>build. ?raw = showVersion v @ build \<and> (build = [] \<or> (\<exists>b. build = CHR ''+'' # b \<and> validIdentifierList b))) \<longleftrightarrow>
        validIdentifierList b \<and> a = showVersion v" if wf: "wellFormed v"
    proof -
      have "CHR ''+'' \<notin> set (showVersion v)" using showVersion_plain [OF wf] .
      then have "a @ CHR ''+'' # b = showVersion v @ CHR ''+'' # b' \<longleftrightarrow> a = showVersion v \<and> b = b'" for b'
        using two(2) by (metis SplitN2_append list.inject)
      moreover have "a @ CHR ''+'' # b \<noteq> showVersion v" using \<open>CHR ''+'' \<notin> set (showVersion v)\<close> by (metis in_set_conv_decomp)
      ultimately show ?thesis unfolding two(1) by auto
    qed
    ultimately show ?thesis by auto
  qed
qed

text \<open>
  C40: The comparison of versions is the precedence of the specification, a linear order: it is negative, zero or
  positive as the key of the first is below, equal to or above the key of the second, and for versions that
  came out of the parser it is zero only for equal versions.
\<close>
theorem compareSemVer_precedence:
  assumes "parseSemVer s = Inr l" "parseSemVer t = Inr r"
  shows "compareSemVer l r = compareOrd (precedence l) (precedence r) \<and> (compareSemVer l r = 0 \<longleftrightarrow> l = r)"
  using assms compareSemVer_order [of l r] precedence_inject [of l r] parseSemVer_wellFormed by (auto simp: compareOrd_zero)

definition candidate2 :: semanticVersion where
  "candidate2 = \<lparr>svMajor = 1, svMinor = 0, svPatch = 0, svPrerelease = [''rc'', ''2'']\<rparr>"

definition candidate10 :: semanticVersion where
  "candidate10 = \<lparr>svMajor = 1, svMinor = 0, svPatch = 0, svPrerelease = [''rc'', ''10'']\<rparr>"

theorem compareSemVer_precedence_witness:
  "parseSemVer ''v1.0.0-rc.2'' = Inr candidate2 \<and> parseSemVer ''1.0.0-rc.10'' = Inr candidate10 \<and>
   compareSemVer candidate2 candidate10 = -1 \<and> compareSemVer candidate2 candidate10 = compareOrd (precedence candidate2) (precedence candidate10)"
proof -
  have p: "parseSemVer ''v1.0.0-rc.2'' = Inr candidate2" "parseSemVer ''1.0.0-rc.10'' = Inr candidate10"
  proof -
    have v: "visible (CHR ''v'')" "visible (CHR ''0'')" "visible (CHR ''1'')" "visible (CHR ''2'')" by code_simp+
    have n: "normalizeVersion ''v1.0.0-rc.2'' = ''1.0.0-rc.2''" "normalizeVersion ''1.0.0-rc.10'' = ''1.0.0-rc.10''"
      by (simp_all add: normalizeVersion_def TrimSpace_id v)
    have w: "wellFormed candidate2" "wellFormed candidate10" by code_simp+
    have one: "digitChar (Suc 0) = CHR ''1''" using digitChar_digitVal [of "CHR ''1''"] by (simp add: digitVal_def isDigit_def)
    have s: "showVersion candidate2 = ''1.0.0-rc.2''" "showVersion candidate10 = ''1.0.0-rc.10''"
      by (simp_all add: showVersion_def showCore_def candidate2_def candidate10_def natItoa.simps digitChar_0 one)
    show "parseSemVer ''v1.0.0-rc.2'' = Inr candidate2" "parseSemVer ''1.0.0-rc.10'' = Inr candidate10"
      using n w s by (simp_all add: parseSemVer_plain)
  qed
  have "compareSemVer candidate2 candidate10 = -1" by code_simp
  then show ?thesis using p compareSemVer_precedence [OF p] by blast
qed

end
