(* ===== verification/UpdateCheck.thy ===== *)
theory UpdateCheck
  imports SemVer
begin

text \<open>
  The update checker (\<open>internal/update/checker.go\<close>): a cache over the latest release on GitHub that several
  requests use at once.  Each critical section of \<open>lookup\<close> is one function; the calls and their interleaving
  are a step relation.  Times are nanoseconds of the wall clock, which may go backwards.  The HTTP client,
  \<open>url.JoinPath\<close> and the JSON decoder of the release are parameters.  Errors keep their first words only: the
  checker just asks whether there was one.
\<close>

section \<open>Results\<close>

record Release =
  relVersion :: string
  relTag :: string
  relURL :: string
  relPublishedAt :: "int option"

record UpdateResult =
  urStatus :: string
  urCurrentVersion :: string
  urLatest :: "Release option"
  urUpdateAvailable :: bool
  urCheckedAt :: "int option"
  urUpdateInProgress :: bool
  urTargetVersion :: string

definition StatusCurrent :: string where "StatusCurrent = ''current''"
definition StatusUpdateAvailable :: string where "StatusUpdateAvailable = ''update_available''"
definition StatusStale :: string where "StatusStale = ''stale''"
definition StatusUnavailable :: string where "StatusUnavailable = ''unavailable''"
definition StatusDisabled :: string where "StatusDisabled = ''disabled''"

definition second :: int where "second = 1000000000"

definition minForcedRefreshInterval :: int where "minForcedRefreshInterval = 10 * second"
definition DefaultTTLUpdate :: int where "DefaultTTLUpdate = 6 * 3600 * second"
definition DefaultTimeout :: int where "DefaultTimeout = 5 * second"

definition emptyResult :: "string \<Rightarrow> string \<Rightarrow> UpdateResult" where
  "emptyResult status currentVersion =
     \<lparr>urStatus = status, urCurrentVersion = currentVersion, urLatest = None, urUpdateAvailable = False,
      urCheckedAt = None, urUpdateInProgress = False, urTargetVersion = []\<rparr>"

definition fallbackResult :: "string \<Rightarrow> UpdateResult option \<Rightarrow> UpdateResult" where
  "fallbackResult currentVersion cached =
     (case cached of
        Some result \<Rightarrow> if urLatest result \<noteq> None \<and> urCheckedAt result \<noteq> None then result\<lparr>urStatus := StatusStale\<rparr> else result
      | None \<Rightarrow> emptyResult StatusUnavailable currentVersion)"

section \<open>The checker\<close>

record CheckerOptions =
  coCurrentVersion :: string
  coEnabled :: bool
  coTTL :: int
  coTimeout :: int
  coBaseURL :: string
  coRepository :: string

record Checker =
  ckCurrentVersion :: string
  ckEnabled :: bool
  ckTTL :: int
  ckTimeout :: int
  ckBaseURL :: string
  ckRepository :: string
  ckCached :: "UpdateResult option"
  ckExpires :: int
  ckInFlight :: "nat option"
  ckLastForced :: "int option"

definition validRepository :: "string \<Rightarrow> bool" where
  "validRepository repository \<longleftrightarrow>
     (case Split (CHR ''/'') repository of
        [a, b] \<Rightarrow> TrimSpace a \<noteq> [] \<and> TrimSpace b \<noteq> [] \<and>
          \<not> list_ex (\<lambda>c. c \<in> {CHR '' '', CHR 0x09, CHR 0x0D, CHR 0x0A}) repository
      | _ \<Rightarrow> False)"

definition NewChecker :: "CheckerOptions \<Rightarrow> Checker" where
  "NewChecker options =
     (let baseURL = TrimRight (TrimSpace (coBaseURL options)) ''/''; repository = TrimSpace (coRepository options) in
      \<lparr>ckCurrentVersion = normalizeVersion (coCurrentVersion options),
       ckEnabled = coEnabled options,
       ckTTL = (if coTTL options \<le> 0 then DefaultTTLUpdate else coTTL options),
       ckTimeout = (if coTimeout options \<le> 0 then DefaultTimeout else coTimeout options),
       ckBaseURL = (if baseURL = [] then ''https://api.github.com'' else baseURL),
       ckRepository = (if validRepository repository then repository else ''zerkc/ProxyCore''),
       ckCached = None, ckExpires = 0, ckInFlight = None, ckLastForced = None\<rparr>)"

definition failureTTL :: "Checker \<Rightarrow> int" where
  "failureTTL c = (if ckTTL c < 300 * second then ckTTL c else 300 * second)"

definition resultFor :: "Checker \<Rightarrow> Release \<Rightarrow> int \<Rightarrow> goerror + UpdateResult" where
  "resultFor c latest checkedAt =
     (case parseSemVer (ckCurrentVersion c) of
        Inl e \<Rightarrow> Inl ''invalid current version''
      | Inr current \<Rightarrow>
          (case parseSemVer (relVersion latest) of
             Inl e \<Rightarrow> Inl ''invalid version''
           | Inr latestVersion \<Rightarrow>
               if svPrerelease latestVersion \<noteq> [] then Inl ''latest release is a prerelease''
               else
                 let available = (compareSemVer latestVersion current > 0) in
                 Inr \<lparr>urStatus = (if available then StatusUpdateAvailable else StatusCurrent),
                      urCurrentVersion = ckCurrentVersion c, urLatest = Some latest, urUpdateAvailable = available,
                      urCheckedAt = Some checkedAt, urUpdateInProgress = False, urTargetVersion = []\<rparr>))"

section \<open>Asking GitHub\<close>

record githubRelease =
  ghTagName :: string
  ghHTMLURL :: string
  ghPublishedAt :: "int option"

record 'w GitHub =
  ghJoinPath :: "string \<Rightarrow> string list \<Rightarrow> goerror + string"
  ghDo :: "string \<Rightarrow> (string \<times> string) list \<Rightarrow> ('w, nat \<times> string \<times> string) io"
  ghDecode :: "string \<Rightarrow> goerror + githubRelease"

definition latestReleaseURL :: "'w GitHub \<Rightarrow> Checker \<Rightarrow> goerror + string" where
  "latestReleaseURL gh c =
     (let parts = SplitN2 (CHR ''/'') (ckRepository c) in
      if length parts \<noteq> 2 \<or> parts ! 0 = [] \<or> parts ! 1 = [] then Inl (''invalid repository '' @ ckRepository c)
      else (case ghJoinPath gh (ckBaseURL c) [''repos'', parts ! 0, parts ! 1, ''releases'', ''latest''] of
          Inl e \<Rightarrow> Inl (''build github URL: '' @ e) | Inr url \<Rightarrow> Inr url))"

definition releaseOf :: "githubRelease \<Rightarrow> goerror + Release" where
  "releaseOf payload =
     (let tag = TrimSpace (ghTagName payload); normalized = normalizeVersion tag in
      case parseSemVer normalized of
        Inl e \<Rightarrow> Inl ''invalid github release tag''
      | Inr parsed \<Rightarrow>
          if svPrerelease parsed \<noteq> [] then Inl ''github release is a prerelease''
          else if tag = [] \<or> TrimSpace (ghHTMLURL payload) = [] then Inl ''github release is missing tag or URL''
          else Inr \<lparr>relVersion = normalized, relTag = tag, relURL = TrimSpace (ghHTMLURL payload),
                    relPublishedAt = ghPublishedAt payload\<rparr>)"

definition fetchLatestRelease :: "'w GitHub \<Rightarrow> Checker \<Rightarrow> ('w, Release) io" where
  "fetchLatestRelease gh c =
     bindIO (\<lambda>w. (latestReleaseURL gh c, w)) (\<lambda>endpoint.
     bindIO (ghDo gh endpoint
       [(''Accept'', ''application/vnd.github+json''), (''X-GitHub-Api-Version'', ''2022-11-28''),
        (''User-Agent'', ''ProxyCore/'' @ (if ckCurrentVersion c = [] then ''unknown'' else ckCurrentVersion c))])
       (\<lambda>(code, status, body).
         if code \<noteq> 200 then throwIO (''github returned '' @ status)
         else (case ghDecode gh (take (2 ^ 20) body) of
             Inl e \<Rightarrow> throwIO (''decode github release: '' @ e)
           | Inr payload \<Rightarrow> (\<lambda>w. (releaseOf payload, w)))))"

section \<open>Looking up\<close>

text \<open>
  The first critical section decides: answer at once, wait for the query in flight, or query.  The channel of a
  new query is a number that was not used before.
\<close>

datatype decision = Answer UpdateResult | Await nat "UpdateResult option" | Query nat "UpdateResult option"

definition throttledResultLocked :: "Checker \<Rightarrow> int \<Rightarrow> UpdateResult" where
  "throttledResultLocked c now =
     (case ckCached c of
        Some result \<Rightarrow> if now < ckExpires c then result else fallbackResult (ckCurrentVersion c) (Some result)
      | None \<Rightarrow> fallbackResult (ckCurrentVersion c) None)"

definition throttled :: "Checker \<Rightarrow> int \<Rightarrow> bool" where
  "throttled c now = (case ckLastForced c of None \<Rightarrow> False | Some t \<Rightarrow> now < t + minForcedRefreshInterval)"

definition freshCache :: "Checker \<Rightarrow> int \<Rightarrow> UpdateResult option" where
  "freshCache c now = (if now < ckExpires c then ckCached c else None)"

definition lookupStart :: "bool \<Rightarrow> int \<Rightarrow> nat \<Rightarrow> Checker \<Rightarrow> decision \<times> Checker" where
  "lookupStart force now channel c =
     (if \<not> ckEnabled c then (Answer (emptyResult StatusDisabled (ckCurrentVersion c)), c)
      else case (if force then None else freshCache c now) of
        Some result \<Rightarrow> (Answer result, c)
      | None \<Rightarrow>
          (case ckInFlight c of
             Some busy \<Rightarrow> (Await busy (ckCached c), c)
           | None \<Rightarrow>
               if force \<and> throttled c now then (Answer (throttledResultLocked c now), c)
               else (Query channel (ckCached c),
                     c\<lparr>ckInFlight := Some channel, ckLastForced := (if force then Some now else ckLastForced c)\<rparr>)))"

text \<open>The second critical section stores the answer of GitHub, or what is left without one.\<close>

definition lookupFinish :: "UpdateResult option \<Rightarrow> goerror + Release \<Rightarrow> int \<Rightarrow> Checker \<Rightarrow> UpdateResult \<times> Checker" where
  "lookupFinish cached fetched now c =
     (case bindE fetched (\<lambda>latest. resultFor c latest now) of
        Inr result \<Rightarrow> (result, c\<lparr>ckCached := Some result, ckExpires := now + ckTTL c, ckInFlight := None\<rparr>)
      | Inl e \<Rightarrow>
          let result = fallbackResult (ckCurrentVersion c) cached in
          (result, c\<lparr>ckCached := Some result, ckExpires := now + failureTTL c, ckInFlight := None\<rparr>))"

section \<open>Many callers\<close>

datatype call = Starting bool | Awaiting nat "UpdateResult option" | Querying nat "UpdateResult option" | Returned UpdateResult

text \<open>The calls so far, the next channel, and the times of the forced queries, newest first.\<close>

record system =
  sysChecker :: Checker
  sysCalls :: "call list"
  sysNext :: nat
  sysForced :: "int list"

fun started :: "decision \<Rightarrow> call" where
  "started (Answer r) = Returned r"
| "started (Await ch cached) = Awaiting ch cached"
| "started (Query ch cached) = Querying ch cached"

fun isQuery :: "decision \<Rightarrow> bool" where
  "isQuery (Query _ _) = True"
| "isQuery _ = False"

inductive step :: "system \<Rightarrow> system \<Rightarrow> bool" where
  call: "step s (s\<lparr>sysCalls := sysCalls s @ [Starting force]\<rparr>)"
| start: "i < length (sysCalls s) \<Longrightarrow> sysCalls s ! i = Starting force \<Longrightarrow> lookupStart force now (sysNext s) (sysChecker s) = (d, c) \<Longrightarrow>
    step s (s\<lparr>sysChecker := c, sysCalls := (sysCalls s)[i := started d], sysNext := Suc (sysNext s),
      sysForced := (if force \<and> isQuery d then now # sysForced s else sysForced s)\<rparr>)"
| finish: "i < length (sysCalls s) \<Longrightarrow> sysCalls s ! i = Querying ch cached \<Longrightarrow>
    lookupFinish cached fetched now (sysChecker s) = (r, c) \<Longrightarrow>
    step s (s\<lparr>sysChecker := c, sysCalls := (sysCalls s)[i := Returned r]\<rparr>)"
| wake: "i < length (sysCalls s) \<Longrightarrow> sysCalls s ! i = Awaiting ch cached \<Longrightarrow> ckInFlight (sysChecker s) \<noteq> Some ch \<Longrightarrow>
    step s (s\<lparr>sysCalls := (sysCalls s)[i := Starting False]\<rparr>)"
| cancel: "i < length (sysCalls s) \<Longrightarrow> sysCalls s ! i = Awaiting ch cached \<Longrightarrow>
    step s (s\<lparr>sysCalls := (sysCalls s)[i := Returned (fallbackResult (ckCurrentVersion (sysChecker s)) cached)]\<rparr>)"

inductive reachable :: "CheckerOptions \<Rightarrow> system \<Rightarrow> bool" for options where
  init: "reachable options \<lparr>sysChecker = NewChecker options, sysCalls = [], sysNext = 0, sysForced = []\<rparr>"
| next_step: "reachable options s \<Longrightarrow> step s s' \<Longrightarrow> reachable options s'"

inductive_cases step_cases: "step s s'"

section \<open>Lemmas: results\<close>

text \<open>
  What a result says: without a release there is no update; with one, that release is no prerelease and there is
  an update exactly when it takes precedence over the running version.
\<close>

definition resultOK :: "string \<Rightarrow> UpdateResult \<Rightarrow> bool" where
  "resultOK current r \<longleftrightarrow>
     urCurrentVersion r = current \<and>
     (case urLatest r of
        None \<Rightarrow> \<not> urUpdateAvailable r \<and> urStatus r \<in> {StatusUnavailable, StatusDisabled}
      | Some latest \<Rightarrow>
          (\<exists>l v. parseSemVer (relVersion latest) = Inr l \<and> parseSemVer current = Inr v \<and> svPrerelease l = [] \<and>
             (urUpdateAvailable r \<longleftrightarrow> precedence v < precedence l)) \<and>
          urCheckedAt r \<noteq> None \<and>
          urStatus r \<in> {StatusStale, if urUpdateAvailable r then StatusUpdateAvailable else StatusCurrent})"

lemma emptyResult_ok: "status \<in> {StatusUnavailable, StatusDisabled} \<Longrightarrow> resultOK current (emptyResult status current)"
  by (auto simp: resultOK_def emptyResult_def)

lemma fallbackResult_ok: "pred_option (resultOK current) cached \<Longrightarrow> resultOK current (fallbackResult current cached)"
  by (cases cached) (auto simp: fallbackResult_def emptyResult_def resultOK_def split: option.splits)

lemma compareSemVer_greater:
  assumes "parseSemVer s = Inr l" "parseSemVer t = Inr r"
  shows "compareSemVer l r > 0 \<longleftrightarrow> precedence r < precedence l"
  using compareSemVer_order [of l r] parseSemVer_wellFormed assms by (auto simp: compareOrd_def)

lemma resultFor_ok: "resultFor c latest now = Inr r \<Longrightarrow> resultOK (ckCurrentVersion c) r"
  by (auto simp: resultFor_def resultOK_def Let_def compareSemVer_greater split: sum.splits if_splits)

lemma throttledResultLocked_ok:
  "pred_option (resultOK (ckCurrentVersion c)) (ckCached c) \<Longrightarrow> resultOK (ckCurrentVersion c) (throttledResultLocked c now)"
  using fallbackResult_ok [of "ckCurrentVersion c" "ckCached c"] by (auto simp: throttledResultLocked_def split: option.splits)

section \<open>Lemmas: the cache\<close>

definition storedOK :: "Checker \<Rightarrow> bool" where
  "storedOK c \<longleftrightarrow> pred_option (resultOK (ckCurrentVersion c)) (ckCached c)"

definition callOK :: "string \<Rightarrow> call \<Rightarrow> bool" where
  "callOK current x \<longleftrightarrow>
     (case x of Starting _ \<Rightarrow> True | Awaiting _ cached \<Rightarrow> pred_option (resultOK current) cached
      | Querying _ cached \<Rightarrow> pred_option (resultOK current) cached | Returned r \<Rightarrow> resultOK current r)"

lemma lookupStart_keeps:
  assumes "lookupStart force now ch c = (d, c')" "storedOK c"
  shows "ckCurrentVersion c' = ckCurrentVersion c" "ckEnabled c' = ckEnabled c" "storedOK c'" "callOK (ckCurrentVersion c) (started d)"
proof -
  have "resultOK (ckCurrentVersion c) (throttledResultLocked c now)"
    using assms(2) by (intro throttledResultLocked_ok) (simp add: storedOK_def)
  then show "ckCurrentVersion c' = ckCurrentVersion c" "ckEnabled c' = ckEnabled c" "storedOK c'" "callOK (ckCurrentVersion c) (started d)"
    using assms
    by (auto simp: lookupStart_def storedOK_def callOK_def freshCache_def emptyResult_ok split: if_splits option.splits)
qed

lemma lookupFinish_keeps:
  assumes "lookupFinish cached fetched now c = (r, c')" "pred_option (resultOK (ckCurrentVersion c)) cached"
  shows "ckCurrentVersion c' = ckCurrentVersion c" "ckEnabled c' = ckEnabled c" "ckInFlight c' = None" "ckLastForced c' = ckLastForced c"
    "storedOK c'" "resultOK (ckCurrentVersion c) r"
  using assms resultFor_ok fallbackResult_ok
  by (auto simp: lookupFinish_def storedOK_def Let_def split: sum.splits)

section \<open>Lemmas: one query at a time\<close>

definition queryOf :: "call \<Rightarrow> nat list" where
  "queryOf x = (case x of Querying ch _ \<Rightarrow> [ch] | _ \<Rightarrow> [])"

definition queries :: "call list \<Rightarrow> nat list" where
  "queries calls = concat (map queryOf calls)"

lemma queries_append [simp]: "queries (xs @ ys) = queries xs @ queries ys"
  by (simp add: queries_def)

lemma queries_Cons [simp]: "queries (x # xs) = queryOf x @ queries xs" "queries [] = []"
  by (simp_all add: queries_def)

lemma queries_nth: "i < length xs \<Longrightarrow> queries xs = queries (take i xs) @ queryOf (xs ! i) @ queries (drop (Suc i) xs)"
  by (metis id_take_nth_drop queries_Cons(1) queries_append)

lemma queries_update: "i < length xs \<Longrightarrow> queries (xs[i := x]) = queries (take i xs) @ queryOf x @ queries (drop (Suc i) xs)"
  by (simp add: upd_conv_take_nth_drop)

lemma queries_same: "i < length xs \<Longrightarrow> queryOf x = queryOf (xs ! i) \<Longrightarrow> queries (xs[i := x]) = queries xs"
  using queries_nth [of i xs] queries_update [of i xs x] by simp

definition inFlight :: "Checker \<Rightarrow> nat list" where
  "inFlight c = (case ckInFlight c of None \<Rightarrow> [] | Some ch \<Rightarrow> [ch])"

lemma lookupStart_query:
  assumes "lookupStart force now ch c = (d, c')"
  shows "queryOf (started d) = (if isQuery d then [ch] else [])"
    "isQuery d \<Longrightarrow> ckEnabled c \<and> ckInFlight c = None \<and> ckInFlight c' = Some ch \<and>
       ckLastForced c' = (if force then Some now else ckLastForced c) \<and> (force \<longrightarrow> \<not> throttled c now)"
    "\<not> isQuery d \<Longrightarrow> c' = c"
  using assms by (auto simp: lookupStart_def queryOf_def split: if_splits option.splits)

section \<open>Lemmas: the invariant\<close>

definition spaced :: "int list \<Rightarrow> bool" where
  "spaced ts \<longleftrightarrow> sorted_wrt (\<lambda>later earlier. earlier + minForcedRefreshInterval \<le> later) ts"

definition sysOK :: "CheckerOptions \<Rightarrow> system \<Rightarrow> bool" where
  "sysOK options s \<longleftrightarrow>
     ckCurrentVersion (sysChecker s) = normalizeVersion (coCurrentVersion options) \<and>
     ckEnabled (sysChecker s) = coEnabled options \<and> storedOK (sysChecker s) \<and>
     list_all (callOK (normalizeVersion (coCurrentVersion options))) (sysCalls s) \<and>
     queries (sysCalls s) = inFlight (sysChecker s) \<and> (inFlight (sysChecker s) \<noteq> [] \<longrightarrow> coEnabled options) \<and>
     spaced (sysForced s) \<and> ckLastForced (sysChecker s) = (case sysForced s of [] \<Rightarrow> None | t # _ \<Rightarrow> Some t) \<and>
     (sysForced s \<noteq> [] \<longrightarrow> coEnabled options)"

lemma spaced_Cons:
  assumes "spaced ts" "\<not> (case ts of [] \<Rightarrow> False | t # _ \<Rightarrow> now < t + minForcedRefreshInterval)"
  shows "spaced (now # ts)"
proof -
  have "t + minForcedRefreshInterval \<le> now" if "t \<in> set ts" for t
  proof (cases ts)
    case (Cons u us)
    then have "u + minForcedRefreshInterval \<le> now" using assms(2) by simp
    moreover have "t = u \<or> t + minForcedRefreshInterval \<le> u" using assms(1) that Cons by (auto simp: spaced_def)
    ultimately show ?thesis by (auto simp: minForcedRefreshInterval_def second_def)
  qed (use that in simp)
  then show ?thesis using assms(1) by (simp add: spaced_def)
qed

lemma list_all_update: "list_all P xs \<Longrightarrow> P x \<Longrightarrow> list_all P (xs[i := x])"
  by (auto simp: list_all_iff dest: set_update_subset_insert [THEN subsetD])

lemma step_ok:
  assumes "step s s'" "sysOK options s"
  shows "sysOK options s'"
  using assms
proof (induction rule: step.induct)
  case (call s force)
  then show ?case by (simp add: sysOK_def callOK_def queryOf_def)
next
  case (start i s force now d c)
  have stored: "storedOK (sysChecker s)" using start.prems by (simp add: sysOK_def)
  note keeps = lookupStart_keeps [OF start.hyps(3) stored] and query = lookupStart_query [OF start.hyps(3)]
  note inv = start.prems [unfolded sysOK_def]
  have calls: "list_all (callOK (normalizeVersion (coCurrentVersion options))) ((sysCalls s)[i := started d])"
    using inv keeps(4) by (auto intro: list_all_update)
  have old: "queryOf (sysCalls s ! i) = []" using start.hyps(2) by (simp add: queryOf_def)
  show ?case
  proof (cases "isQuery d")
    case True
    then have none: "queries (sysCalls s) = []" using inv query(2) by (simp add: inFlight_def)
    then have "queries ((sysCalls s)[i := started d]) = [sysNext s]"
      using queries_nth [OF start.hyps(1)] queries_update [OF start.hyps(1), of "started d"] query(1) True by simp
    moreover have "spaced (now # sysForced s)" if force
      using spaced_Cons [of "sysForced s" now] inv query(2) [OF True] that by (auto simp: throttled_def split: list.splits)
    ultimately show ?thesis
      using inv keeps query(2) [OF True] True calls by (simp add: sysOK_def inFlight_def)
  next
    case False
    then have "queries ((sysCalls s)[i := started d]) = queries (sysCalls s)"
      using queries_same [OF start.hyps(1), of "started d"] query(1) old by simp
    then show ?thesis using inv query(3) [OF False] False calls by (simp add: sysOK_def)
  qed
next
  case (finish i s ch cached fetched now r c)
  note inv = finish.prems [unfolded sysOK_def]
  have "sysCalls s ! i \<in> set (sysCalls s)" using finish.hyps(1) by simp
  then have "callOK (normalizeVersion (coCurrentVersion options)) (Querying ch cached)"
    using inv finish.hyps(2) by (auto simp: list_all_iff)
  then have "pred_option (resultOK (ckCurrentVersion (sysChecker s))) cached" using inv by (simp add: callOK_def)
  note keeps = lookupFinish_keeps [OF finish.hyps(3) this]
  have "queries (sysCalls s) = queries (take i (sysCalls s)) @ [ch] @ queries (drop (Suc i) (sysCalls s))"
    using queries_nth [OF finish.hyps(1)] finish.hyps(2) by (simp add: queryOf_def)
  moreover have "length (queries (sysCalls s)) \<le> 1" using inv by (simp add: inFlight_def split: option.splits)
  ultimately have "queries ((sysCalls s)[i := Returned r]) = []"
    using queries_update [OF finish.hyps(1), of "Returned r"] by (simp add: queryOf_def)
  moreover have "list_all (callOK (normalizeVersion (coCurrentVersion options))) ((sysCalls s)[i := Returned r])"
    using inv keeps(6) by (intro list_all_update) (simp_all add: callOK_def)
  ultimately show ?case using inv keeps by (simp add: sysOK_def inFlight_def)
next
  case (wake i s ch cached)
  then show ?case using queries_same [OF wake.hyps(1), of "Starting False"]
    by (auto simp: sysOK_def callOK_def queryOf_def intro!: list_all_update)
next
  case (cancel i s ch cached)
  note inv = cancel.prems [unfolded sysOK_def]
  have "sysCalls s ! i \<in> set (sysCalls s)" using cancel.hyps(1) by simp
  then have "callOK (normalizeVersion (coCurrentVersion options)) (Awaiting ch cached)"
    using inv cancel.hyps(2) by (auto simp: list_all_iff)
  then have "callOK (normalizeVersion (coCurrentVersion options)) (Returned (fallbackResult (ckCurrentVersion (sysChecker s)) cached))"
    using inv fallbackResult_ok by (simp add: callOK_def)
  then have "list_all (callOK (normalizeVersion (coCurrentVersion options)))
      ((sysCalls s)[i := Returned (fallbackResult (ckCurrentVersion (sysChecker s)) cached)])"
    using inv by (intro list_all_update) simp_all
  then show ?case using inv cancel.hyps queries_same [OF cancel.hyps(1), of "Returned (fallbackResult (ckCurrentVersion (sysChecker s)) cached)"]
    by (simp add: sysOK_def queryOf_def)
qed

lemma reachable_ok: "reachable options s \<Longrightarrow> sysOK options s"
proof (induction rule: reachable.induct)
  case init
  show ?case by (simp add: sysOK_def NewChecker_def Let_def storedOK_def inFlight_def spaced_def)
qed (rule step_ok)

section \<open>Lemmas: waiting\<close>

lemma queries_mem: "ch \<in> set (queries xs) \<longleftrightarrow> (\<exists>j cached. j < length xs \<and> xs ! j = Querying ch cached)"
proof -
  have "ch \<in> set (queryOf x) \<longleftrightarrow> (\<exists>cached. x = Querying ch cached)" for x by (cases x) (auto simp: queryOf_def)
  then have "ch \<in> set (queries xs) \<longleftrightarrow> (\<exists>cached. Querying ch cached \<in> set xs)" by (auto simp: queries_def)
  then show ?thesis by (auto simp: in_set_conv_nth)
qed

text \<open>Whatever GitHub answers, the end of the query in flight lets a waiting call go on.\<close>

lemma waiter_goes_on:
  assumes "reachable options s" "i < length (sysCalls s)" "sysCalls s ! i = Awaiting ch cached"
  shows "\<exists>s'. step\<^sup>*\<^sup>* s s' \<and> sysCalls s' ! i = Starting False"
proof (cases "ckInFlight (sysChecker s) = Some ch")
  case False
  then have "step s (s\<lparr>sysCalls := (sysCalls s)[i := Starting False]\<rparr>)" using assms by (intro wake) auto
  then have "step\<^sup>*\<^sup>* s (s\<lparr>sysCalls := (sysCalls s)[i := Starting False]\<rparr>)" by (rule r_into_rtranclp)
  then show ?thesis using assms(2) by (intro exI [of _ "s\<lparr>sysCalls := (sysCalls s)[i := Starting False]\<rparr>"] conjI) auto
next
  case True
  then have "ch \<in> set (queries (sysCalls s))" using reachable_ok [OF assms(1)] by (simp add: sysOK_def inFlight_def)
  then obtain j old where j: "j < length (sysCalls s)" "sysCalls s ! j = Querying ch old" by (auto simp: queries_mem)
  obtain r c where f: "lookupFinish old (Inl ''down'') 0 (sysChecker s) = (r, c)" by (cases "lookupFinish old (Inl ''down'') 0 (sysChecker s)")
  then have c: "ckInFlight c = None" by (auto simp: lookupFinish_def Let_def)
  let ?t = "s\<lparr>sysChecker := c, sysCalls := (sysCalls s)[j := Returned r]\<rparr>"
  have "step s ?t" by (rule finish [OF j f])
  moreover have "sysCalls ?t ! i = Awaiting ch cached" using j assms(2,3) by (cases "i = j") auto
  then have "step ?t (?t\<lparr>sysCalls := (sysCalls ?t)[i := Starting False]\<rparr>)" using assms(2) c by (intro wake) auto
  ultimately have "step\<^sup>*\<^sup>* s (?t\<lparr>sysCalls := (sysCalls ?t)[i := Starting False]\<rparr>)" by (meson converse_rtranclp_into_rtranclp r_into_rtranclp)
  then show ?thesis using assms(2) by (intro exI [of _ "?t\<lparr>sysCalls := (sysCalls ?t)[i := Starting False]\<rparr>"] conjI) auto
qed

section \<open>Properties\<close>

text \<open>
  C38: However the calls of \<open>Check\<close> and \<open>Refresh\<close> interleave and whatever the clock and GitHub say, at most one
  query runs at a time, exactly when the checker has one in flight; a disabled checker never queries; forced
  queries are ten seconds apart; and a call that waits can always go on once the query it waits for has ended.
\<close>

theorem lookup_coalesces:
  assumes "reachable options s"
  shows "queries (sysCalls s) = inFlight (sysChecker s) \<and> length (queries (sysCalls s)) \<le> 1 \<and>
    (coEnabled options \<or> queries (sysCalls s) = [] \<and> sysForced s = []) \<and> spaced (sysForced s) \<and>
    list_all (\<lambda>i. case sysCalls s ! i of
        Awaiting ch cached \<Rightarrow> \<exists>s'. step\<^sup>*\<^sup>* s s' \<and> sysCalls s' ! i = Starting False | _ \<Rightarrow> True) [0..<length (sysCalls s)]"
proof -
  have "length (inFlight (sysChecker s)) \<le> 1" by (simp add: inFlight_def split: option.splits)
  moreover have "case sysCalls s ! i of
        Awaiting ch cached \<Rightarrow> \<exists>s'. step\<^sup>*\<^sup>* s s' \<and> sysCalls s' ! i = Starting False | _ \<Rightarrow> True" if "i < length (sysCalls s)" for i
    using waiter_goes_on [OF assms that] by (simp split: call.splits)
  ultimately show ?thesis using reachable_ok [OF assms] by (auto simp: sysOK_def list_all_iff)
qed

text \<open>
  C39: Every call that returns reports the running version, and announces an update only together with a release
  that is no prerelease and that takes precedence over the running version; without a known release it says so.
\<close>

theorem lookup_results:
  assumes "reachable options s" "Returned r \<in> set (sysCalls s)"
  shows "resultOK (normalizeVersion (coCurrentVersion options)) r"
  using reachable_ok [OF assms(1)] assms(2) by (auto simp: sysOK_def list_all_iff callOK_def split: call.splits)

section \<open>Witnesses\<close>

text \<open>Two forced calls on an enabled checker of version 1.0.0: the first queries, the second waits for it.\<close>

definition someOptions :: CheckerOptions where
  "someOptions = \<lparr>coCurrentVersion = ''1.0.0'', coEnabled = True, coTTL = 0, coTimeout = 0, coBaseURL = [], coRepository = []\<rparr>"

definition twoCalls :: system where
  "twoCalls = \<lparr>sysChecker = (NewChecker someOptions)\<lparr>ckInFlight := Some 0, ckLastForced := Some 5\<rparr>,
     sysCalls = [Querying 0 None, Awaiting 0 None], sysNext = 2, sysForced = [5]\<rparr>"

lemma reach_call: "reachable options s \<Longrightarrow> reachable options (s\<lparr>sysCalls := sysCalls s @ [Starting force]\<rparr>)"
  by (rule next_step, assumption, rule call)

lemma reach_start:
  assumes "reachable options s" "i < length (sysCalls s)" "sysCalls s ! i = Starting force"
    "lookupStart force now (sysNext s) (sysChecker s) = (d, c)"
    "s' = s\<lparr>sysChecker := c, sysCalls := (sysCalls s)[i := started d], sysNext := Suc (sysNext s),
      sysForced := (if force \<and> isQuery d then now # sysForced s else sysForced s)\<rparr>"
  shows "reachable options s'"
  unfolding assms(5) by (rule next_step [OF assms(1)], rule start [OF assms(2-4)])

lemma twoCalls_reachable: "reachable someOptions twoCalls"
proof -
  let ?n = "NewChecker someOptions"
  have n: "ckEnabled ?n" "ckCached ?n = None" "ckInFlight ?n = None" "ckLastForced ?n = None"
    by (simp_all add: NewChecker_def Let_def someOptions_def)
  note first = reach_call [OF reach_call [OF init [of someOptions], of True], of True, simplified]
  have "reachable someOptions \<lparr>sysChecker = ?n\<lparr>ckInFlight := Some 0, ckLastForced := Some 5\<rparr>,
     sysCalls = [Querying 0 None, Starting True], sysNext = 1, sysForced = [5]\<rparr>"
    by (rule reach_start [OF first, of 0 True 5 "Query 0 None" "?n\<lparr>ckInFlight := Some 0, ckLastForced := Some 5\<rparr>"]) (simp_all add: lookupStart_def n throttled_def)
  then show ?thesis
    by (rule reach_start [of _ _ 1 True 6 "Await 0 None" "?n\<lparr>ckInFlight := Some 0, ckLastForced := Some 5\<rparr>"]) (simp_all add: twoCalls_def lookupStart_def n throttled_def)
qed

theorem lookup_coalesces_witness: "reachable someOptions twoCalls \<and> queries (sysCalls twoCalls) = inFlight (sysChecker twoCalls)"
  using lookup_coalesces [OF twoCalls_reachable] twoCalls_reachable by simp

text \<open>The first call returns without an answer from GitHub.\<close>

definition unanswered :: system where
  "unanswered = twoCalls\<lparr>sysChecker := snd (lookupFinish None (Inl ''down'') 7 (sysChecker twoCalls)),
     sysCalls := [Returned (emptyResult StatusUnavailable ''1.0.0''), Awaiting 0 None]\<rparr>"

lemma unanswered_reachable: "reachable someOptions unanswered"
proof -
  have v: "visible (CHR ''1'')" "visible (CHR ''0'')" by code_simp+
  have n: "normalizeVersion ''1.0.0'' = ''1.0.0''" by (simp add: normalizeVersion_def TrimSpace_id v)
  have "step twoCalls (twoCalls\<lparr>sysChecker := snd (lookupFinish None (Inl ''down'') 7 (sysChecker twoCalls)),
     sysCalls := (sysCalls twoCalls)[0 := Returned (fst (lookupFinish None (Inl ''down'') 7 (sysChecker twoCalls)))]\<rparr>)"
    by (rule finish [of 0 twoCalls 0 None]) (simp_all add: twoCalls_def)
  then show ?thesis using next_step [OF twoCalls_reachable]
    by (simp add: unanswered_def twoCalls_def lookupFinish_def fallbackResult_def NewChecker_def someOptions_def Let_def n)
qed

theorem lookup_results_witness:
  "reachable someOptions unanswered \<and> Returned (emptyResult StatusUnavailable ''1.0.0'') \<in> set (sysCalls unanswered) \<and>
   resultOK (normalizeVersion (coCurrentVersion someOptions)) (emptyResult StatusUnavailable ''1.0.0'')"
  using lookup_results [OF unanswered_reachable, of "emptyResult StatusUnavailable ''1.0.0''"] unanswered_reachable
  by (simp add: unanswered_def)

end
