(* ===== verification/AuthPassword.thy ===== *)
theory AuthPassword
  imports Database GoHash
begin

text \<open>
  Passwords, tokens and user names (\<open>internal/auth/password.go\<close> and the end of \<open>service.go\<close>).  A byte is an 8-bit
  word.  Random bytes are arguments, \<open>None\<close> when the source of randomness fails; the key derivation of
  \<open>golang.org/x/crypto/scrypt\<close> is a parameter.
\<close>

section \<open>Base64\<close>

type_synonym bytes = "8 word list"

text \<open>\<open>base64.RawURLEncoding\<close>: no padding, the alphabet of URLs; the decoder skips line breaks.\<close>

definition b64Alphabet :: string where
  "b64Alphabet = ''ABCDEFGHIJKLMNOPQRSTUVWXYZabcdefghijklmnopqrstuvwxyz0123456789-_''"

definition b64Char :: "nat \<Rightarrow> char" where
  "b64Char v = b64Alphabet ! v"

fun b64Sextets :: "nat list \<Rightarrow> nat list" where
  "b64Sextets [] = []"
| "b64Sextets [a] = [a div 4, a mod 4 * 16]"
| "b64Sextets [a, b] = [a div 4, a mod 4 * 16 + b div 16, b mod 16 * 4]"
| "b64Sextets (a # b # c # r) = (a div 4) # (a mod 4 * 16 + b div 16) # (b mod 16 * 4 + c div 64) # (c mod 64) # b64Sextets r"

definition EncodeToString :: "bytes \<Rightarrow> string" where
  "EncodeToString bs = map b64Char (b64Sextets (map unat bs))"

fun b64Octets :: "nat list \<Rightarrow> nat list option" where
  "b64Octets [] = Some []"
| "b64Octets [w] = None"
| "b64Octets [w, x] = Some [w * 4 + x div 16]"
| "b64Octets [w, x, y] = Some [w * 4 + x div 16, x mod 16 * 16 + y div 4]"
| "b64Octets (w # x # y # z # r) =
     map_option (\<lambda>bs. (w * 4 + x div 16) # (x mod 16 * 16 + y div 4) # (y mod 4 * 64 + z) # bs) (b64Octets r)"

definition b64Value :: "char \<Rightarrow> nat option" where
  "b64Value c = (if c \<in> set b64Alphabet then Some (length (takeWhile (\<lambda>d. d \<noteq> c) b64Alphabet)) else None)"

definition DecodeString :: "string \<Rightarrow> bytes option" where
  "DecodeString s =
     (let text = filter (\<lambda>c. c \<noteq> CHR 0x0A \<and> c \<noteq> CHR 0x0D) s in
      if list_all (\<lambda>c. b64Value c \<noteq> None) text
      then map_option (map word_of_nat) (b64Octets (map (the \<circ> b64Value) text))
      else None)"

section \<open>Numbers\<close>

definition Atoi :: "string \<Rightarrow> int option" where
  "Atoi s =
     (let (negative, digits) = (case s of c # r \<Rightarrow> if c = CHR ''-'' then (True, r) else if c = CHR ''+'' then (False, r) else (False, s)
                                | [] \<Rightarrow> (False, s));
          v = (if negative then - int (natOfDigits digits) else int (natOfDigits digits)) in
      if digits \<noteq> [] \<and> list_all isDigit digits \<and> - (2 ^ 63) \<le> v \<and> v < 2 ^ 63 then Some v else None)"

section \<open>Passwords\<close>

text \<open>The password, the salt, the three cost numbers and the length of the key.\<close>

type_synonym scrypt = "string \<Rightarrow> bytes \<Rightarrow> int \<Rightarrow> int \<Rightarrow> int \<Rightarrow> nat \<Rightarrow> bytes option"

definition passwordN :: int where "passwordN = 16384"
definition passwordR :: int where "passwordR = 8"
definition passwordP :: int where "passwordP = 1"
definition passwordKeyLength :: nat where "passwordKeyLength = 64"
definition passwordSaltLength :: nat where "passwordSaltLength = 16"
definition minPasswordLength :: nat where "minPasswordLength = 5"
definition opaqueTokenBytes :: nat where "opaqueTokenBytes = 32"
definition temporaryPasswordBytes :: nat where "temporaryPasswordBytes = 24"

definition HashPassword :: "scrypt \<Rightarrow> bytes option \<Rightarrow> string \<Rightarrow> auth_error + string" where
  "HashPassword key salt password =
     (if length password < minPasswordLength then Inl PasswordTooShort
      else case salt of
        None \<Rightarrow> Inl RandomFailed
      | Some salt \<Rightarrow>
          (case key password salt passwordN passwordR passwordP passwordKeyLength of
             None \<Rightarrow> Inl DeriveFailed
           | Some derived \<Rightarrow>
               Inr (Join [''scrypt'', Itoa passwordN, Itoa passwordR, Itoa passwordP, EncodeToString salt, EncodeToString derived] ''$'')))"

definition VerifyPassword :: "scrypt \<Rightarrow> string \<Rightarrow> string \<Rightarrow> bool" where
  "VerifyPassword key password encoded =
     (case Split (CHR ''$'') encoded of
        [scheme, ns, rs, ps, salts, keys] \<Rightarrow>
          if scheme \<noteq> ''scrypt'' then False
          else (case (Atoi ns, Atoi rs, Atoi ps, DecodeString salts, DecodeString keys) of
              (Some n, Some r, Some p, Some salt, Some expected) \<Rightarrow>
                (case key password salt n r p (length expected) of
                   None \<Rightarrow> False
                 | Some derived \<Rightarrow> length derived = length expected \<and> derived = expected)
            | _ \<Rightarrow> False)
      | _ \<Rightarrow> False)"

definition GenerateTemporaryPassword :: "bytes option \<Rightarrow> auth_error + string" where
  "GenerateTemporaryPassword random = (case random of None \<Rightarrow> Inl RandomFailed | Some password \<Rightarrow> Inr (EncodeToString password))"

definition CreateOpaqueToken :: "bytes option \<Rightarrow> auth_error + string" where
  "CreateOpaqueToken random = (case random of None \<Rightarrow> Inl RandomFailed | Some token \<Rightarrow> Inr (EncodeToString token))"

definition HashOpaqueToken :: "string \<Rightarrow> string" where
  "HashOpaqueToken token = hexEncode (sha256 token)"

section \<open>User names\<close>

definition usernamePattern :: "string \<Rightarrow> bool" where
  "usernamePattern s \<longleftrightarrow>
     (case s of
        [] \<Rightarrow> False
      | c # r \<Rightarrow> (isLower c \<or> isDigit c) \<and> 2 \<le> length r \<and> length r \<le> 63 \<and>
          list_all (\<lambda>d. isLower d \<or> isDigit d \<or> d \<in> {CHR ''.'', CHR ''_'', CHR ''-''}) r)"

definition NormalizeUsername :: "string \<Rightarrow> auth_error + string" where
  "NormalizeUsername username =
     (let normalized = ToLower (TrimSpace username) in
      if usernamePattern normalized then Inr normalized else Inl ErrUsernameInvalid)"

section \<open>Lemmas\<close>

lemma b64Alphabet_length: "length b64Alphabet = 64"
  by (simp add: b64Alphabet_def)

lemma b64Alphabet_distinct: "distinct b64Alphabet"
  by (simp add: b64Alphabet_def)

lemma takeWhile_nth: "distinct xs \<Longrightarrow> i < length xs \<Longrightarrow> length (takeWhile (\<lambda>d. d \<noteq> xs ! i) xs) = i"
proof (induction xs arbitrary: i)
  case (Cons x xs)
  then show ?case by (cases i) (auto simp: in_set_conv_nth)
qed simp

lemma b64Value_Char: "v < 64 \<Longrightarrow> b64Value (b64Char v) = Some v"
  by (simp add: b64Value_def b64Char_def takeWhile_nth b64Alphabet_distinct b64Alphabet_length)

lemma b64Char_text:
  assumes "v < 64"
  shows "b64Char v \<notin> {CHR 0x0A, CHR 0x0D, CHR ''$''}"
proof -
  have "b64Char v \<in> set b64Alphabet" using assms by (simp add: b64Char_def b64Alphabet_length)
  then show ?thesis by (auto simp: b64Alphabet_def)
qed

lemma b64Sextets_bound: "list_all (\<lambda>a. a < 256) as \<Longrightarrow> list_all (\<lambda>v. v < 64) (b64Sextets as)"
  by (induction as rule: b64Sextets.induct) (auto simp: less_mult_imp_div_less)

lemma b64_join: "y < k \<Longrightarrow> (x * k + y) div k = x" "y < k \<Longrightarrow> (x * k + y) mod k = y" for x y k :: nat
  by simp_all

lemma b64_high: "b < 256 \<Longrightarrow> b div 16 < 16" "c < 256 \<Longrightarrow> c div 64 < 4" for b c :: nat
  by (simp_all add: less_mult_imp_div_less)

lemma b64Octets_Sextets: "list_all (\<lambda>a. a < 256) as \<Longrightarrow> b64Octets (b64Sextets as) = Some as"
proof (induction as rule: b64Sextets.induct)
  case (4 a b c r)
  then have high: "b div 16 < 16" "c div 64 < 4" by (simp_all add: b64_high)
  show ?case using 4 by (simp add: b64_join [OF high(1)] b64_join [OF high(2)] del: mod_mult_self3)
next
  case (3 a b)
  then have high: "b div 16 < 16" by (simp_all add: b64_high)
  show ?case by (simp add: b64_join [OF high] del: mod_mult_self3)
qed simp_all

lemma byte_less: "unat (b :: 8 word) < 256"
  using unsigned_less [of b] by simp

lemma EncodeToString_bound: "list_all (\<lambda>v. v < 64) (b64Sextets (map unat (bs :: bytes)))"
proof (rule b64Sextets_bound)
  show "list_all (\<lambda>a. a < 256) (map unat bs)" using byte_less by (simp add: list_all_iff)
qed

lemma EncodeToString_chars: "c \<in> set (EncodeToString bs) \<Longrightarrow> c \<notin> {CHR 0x0A, CHR 0x0D, CHR ''$''} \<and> b64Value c \<noteq> None"
  using EncodeToString_bound [of bs] b64Char_text b64Value_Char by (auto simp: EncodeToString_def list_all_iff)

lemma map_inverse: "list_all P xs \<Longrightarrow> (\<And>x. P x \<Longrightarrow> g (f x) = x) \<Longrightarrow> map (g \<circ> f) xs = xs"
  by (induction xs) auto

text \<open>Decoding what was encoded gives the bytes back.\<close>

lemma DecodeString_EncodeToString: "DecodeString (EncodeToString bs) = Some bs"
proof -
  let ?v = "b64Sextets (map unat bs)"
  have "filter (\<lambda>c. c \<noteq> CHR 0x0A \<and> c \<noteq> CHR 0x0D) (EncodeToString bs) = EncodeToString bs"
    using EncodeToString_chars by (intro filter_True) blast
  moreover have "list_all (\<lambda>c. b64Value c \<noteq> None) (EncodeToString bs)"
    using EncodeToString_chars by (auto simp: list_all_iff)
  moreover have "map (the \<circ> b64Value) (EncodeToString bs) = ?v"
    unfolding EncodeToString_def using map_inverse [OF EncodeToString_bound [of bs], of "the \<circ> b64Value" b64Char] b64Value_Char
    by (simp add: comp_assoc)
  moreover have "b64Octets ?v = Some (map unat bs)"
    using byte_less by (intro b64Octets_Sextets) (simp add: list_all_iff)
  ultimately show ?thesis by (simp add: DecodeString_def Let_def comp_def)
qed

text \<open>The fields of an encoded password are read back.\<close>

lemma Split_field: "c \<notin> set a \<Longrightarrow> Split c (a @ c # r) = a # Split c r"
  by (induction a) auto

lemma Split_last: "c \<notin> set a \<Longrightarrow> Split c a = [a]"
  by (induction a) auto

lemma Atoi_natItoa: "n < 2 ^ 63 \<Longrightarrow> Atoi (natItoa n) = Some (int n)"
proof -
  assume n: "n < 2 ^ 63"
  obtain c r where cr: "natItoa n = c # r" using natItoa_digits [of n] by (cases "natItoa n") (auto simp: natItoa_not_Nil)
  then have "isDigit c" using natItoa_digits [of n] by simp
  then have "c \<noteq> CHR ''-''" "c \<noteq> CHR ''+''" by (auto simp: isDigit_def)
  then show ?thesis
    using cr n natItoa_digits [of n] natOfDigits_natItoa [of n] by (simp add: Atoi_def Let_def)
qed

lemma natItoa_dollar: "CHR ''$'' \<notin> set (natItoa n)"
  using natItoa_digits [of n] by (auto simp: list_all_iff isDigit_def)

lemma passwordNumbers: "Atoi (Itoa passwordN) = Some passwordN" "Atoi (Itoa passwordR) = Some passwordR" "Atoi (Itoa passwordP) = Some passwordP"
  by (simp_all add: Itoa_def passwordN_def passwordR_def passwordP_def Atoi_natItoa)

lemma passwordNumbers_dollar: "CHR ''$'' \<notin> set (Itoa passwordN)" "CHR ''$'' \<notin> set (Itoa passwordR)" "CHR ''$'' \<notin> set (Itoa passwordP)"
  by (simp_all add: Itoa_def passwordN_def passwordR_def passwordP_def natItoa_dollar)

lemma EncodeToString_dollar: "CHR ''$'' \<notin> set (EncodeToString bs)"
  using EncodeToString_chars by blast

lemma Split_password:
  "Split (CHR ''$'') (Join [''scrypt'', Itoa passwordN, Itoa passwordR, Itoa passwordP, EncodeToString salt, EncodeToString derived] ''$'') =
   [''scrypt'', Itoa passwordN, Itoa passwordR, Itoa passwordP, EncodeToString salt, EncodeToString derived]"
  using EncodeToString_dollar passwordNumbers_dollar Split_field [of "CHR ''$''" "''scrypt''"]
  by (simp add: Split_field Split_last)

text \<open>The documented length of a derived key.\<close>

definition derivesLength :: "scrypt \<Rightarrow> bool" where
  "derivesLength key \<longleftrightarrow> (\<forall>p s n r q k d. key p s n r q k = Some d \<longrightarrow> length d = k)"

text \<open>Verifying against a stored text compares derived keys.\<close>

lemma VerifyPassword_stored:
  assumes "derivesLength key" "length derived = passwordKeyLength"
  shows "VerifyPassword key p (Join [''scrypt'', Itoa passwordN, Itoa passwordR, Itoa passwordP, EncodeToString s, EncodeToString derived] ''$'') \<longleftrightarrow>
    key p s passwordN passwordR passwordP passwordKeyLength = Some derived"
  unfolding VerifyPassword_def Split_password using assms
  by (auto simp: derivesLength_def passwordNumbers DecodeString_EncodeToString split: option.splits)

lemma HashPassword_Inr:
  assumes "HashPassword key salt password = Inr encoded"
  obtains s derived where "salt = Some s" "key password s passwordN passwordR passwordP passwordKeyLength = Some derived"
    "encoded = Join [''scrypt'', Itoa passwordN, Itoa passwordR, Itoa passwordP, EncodeToString s, EncodeToString derived] ''$''"
    "5 \<le> length password"
  using assms by (auto simp: HashPassword_def minPasswordLength_def split: if_splits option.splits)

lemma HashPassword_verifies:
  assumes "derivesLength key" "HashPassword key salt password = Inr encoded"
  shows "VerifyPassword key password encoded"
  using assms(2)
proof (rule HashPassword_Inr)
  fix s derived
  assume d: "key password s passwordN passwordR passwordP passwordKeyLength = Some derived"
    and e: "encoded = Join [''scrypt'', Itoa passwordN, Itoa passwordR, Itoa passwordP, EncodeToString s, EncodeToString derived] ''$''"
  have "VerifyPassword key password encoded \<longleftrightarrow> key password s passwordN passwordR passwordP passwordKeyLength = Some derived"
    unfolding e using assms(1) d by (intro VerifyPassword_stored) (auto simp: derivesLength_def)
  then show ?thesis using d by simp
qed

section \<open>Properties\<close>

text \<open>
  C15: A hashed password verifies, and nothing else does but what derives the same key: the stored text carries
  the salt and the costs, so verifying depends on the derived key alone.  A password of fewer than five bytes is
  refused.
\<close>

theorem password_roundtrip:
  assumes "derivesLength key"
    and "HashPassword key salt password = Inr encoded"
  shows "5 \<le> length password \<and> VerifyPassword key password encoded \<and>
    (VerifyPassword key other encoded \<longleftrightarrow>
       key other (the salt) passwordN passwordR passwordP passwordKeyLength = key password (the salt) passwordN passwordR passwordP passwordKeyLength)"
  using assms(2)
proof (rule HashPassword_Inr)
  fix s derived
  assume s: "salt = Some s" and d: "key password s passwordN passwordR passwordP passwordKeyLength = Some derived"
    and e: "encoded = Join [''scrypt'', Itoa passwordN, Itoa passwordR, Itoa passwordP, EncodeToString s, EncodeToString derived] ''$''"
    and l: "5 \<le> length password"
  have "VerifyPassword key p encoded \<longleftrightarrow> key p s passwordN passwordR passwordP passwordKeyLength = Some derived" for p
    unfolding e using assms(1) d by (intro VerifyPassword_stored) (auto simp: derivesLength_def)
  then show ?thesis using d l s by simp
qed

section \<open>Witnesses\<close>

text \<open>A key derivation that pads or cuts the password.\<close>

definition padKey :: scrypt where
  "padKey password salt n r p k = Some (take k (map (\<lambda>c. word_of_nat (of_char c)) password @ replicate k 0))"

lemma padKey_length: "derivesLength padKey"
  by (auto simp: derivesLength_def padKey_def)

definition storedHello :: string where
  "storedHello = Join [''scrypt'', Itoa passwordN, Itoa passwordR, Itoa passwordP, EncodeToString [7],
     EncodeToString (the (padKey ''hello'' [7] passwordN passwordR passwordP passwordKeyLength))] ''$''"

theorem password_roundtrip_witness:
  "HashPassword padKey (Some [7]) ''hello'' = Inr storedHello \<and> VerifyPassword padKey ''hello'' storedHello \<and>
   \<not> VerifyPassword padKey ''jello'' storedHello"
proof -
  have h: "HashPassword padKey (Some [7]) ''hello'' = Inr storedHello"
    by (simp add: HashPassword_def minPasswordLength_def storedHello_def padKey_def)
  have "padKey ''jello'' [7] n r p passwordKeyLength \<noteq> padKey ''hello'' [7] n r p passwordKeyLength" for n r p
    by (simp add: padKey_def passwordKeyLength_def)
  then show ?thesis using password_roundtrip [OF padKey_length h, of "''jello''"] h by simp
qed

end
