(* ===== verification/AuthStore.thy ===== *)
theory AuthStore
  imports AuthPassword
begin

text \<open>
  The users, sessions and audit events of the API in SQLite (\<open>internal/auth/sqlite.go\<close>, \<open>sqlite_values.go\<close>, with
  the tables of \<open>sqlitedb/migrations/001_auth.sql\<close>).  A row holds its columns as the database stores them; a
  statement that violates a constraint is refused.  Each operation is one transaction or one query.
\<close>

section \<open>Data\<close>

record User =
  uID :: string
  uUsername :: string
  uPasswordHash :: string
  uRole :: string
  uActive :: bool
  uPasswordChangeRequired :: bool
  uCreatedAt :: gotime
  uUpdatedAt :: gotime

record Session =
  sID :: string
  sUserID :: string
  sTokenHash :: string
  sExpiresAt :: gotime
  sRevokedAt :: "gotime option"
  sLastSeenAt :: "gotime option"
  sCreatedAt :: gotime

record AuditEvent =
  evID :: string
  evActorUserID :: "string option"
  evAction :: string
  evResourceType :: string
  evResourceID :: "string option"
  evAfterValue :: "json option"
  evCorrelation :: string
  evResult :: string
  evCreatedAt :: gotime

record UserPatch =
  upRole :: "string option"
  upActive :: "bool option"
  upPasswordHash :: "string option"
  upPasswordChangeRequired :: "bool option"

definition RoleOwner :: string where "RoleOwner = ''owner''"
definition RoleOperator :: string where "RoleOperator = ''operator''"

section \<open>Tables\<close>

record userRow =
  urID :: string
  urUsername :: string
  urPasswordHash :: string
  urRole :: string
  urActive :: int
  urPasswordChangeRequired :: int
  urCreatedAt :: string
  urUpdatedAt :: string

record sessionRow =
  ssID :: string
  ssUserID :: string
  ssTokenHash :: string
  ssExpiresAt :: string
  ssRevokedAt :: "string option"
  ssLastSeenAt :: "string option"
  ssCreatedAt :: string

record auditRow =
  arID :: string
  arActorUserID :: "string option"
  arAction :: string
  arResourceType :: string
  arResourceID :: "string option"
  arAfterValue :: "json option"
  arCorrelation :: string
  arResult :: string
  arCreatedAt :: string

text \<open>The last field: the users that rows of other tables refer to without a cascade (jobs, revisions, enrollment tokens).\<close>

record authDB =
  tbUsers :: "userRow list"
  tbSessions :: "sessionRow list"
  tbAudits :: "auditRow list"
  tbReferences :: "string list"

definition noNUL :: "string \<Rightarrow> bool" where
  "noNUL s \<longleftrightarrow> NUL \<notin> set s"

definition userRowOK :: "userRow \<Rightarrow> bool" where
  "userRowOK r \<longleftrightarrow>
     uuidPattern (urID r) \<and> noNUL (urUsername r) \<and> noNUL (urPasswordHash r) \<and> urRole r \<in> {RoleOwner, RoleOperator} \<and>
     urActive r \<in> {0, 1} \<and> urPasswordChangeRequired r \<in> {0, 1} \<and> timestampText (urCreatedAt r) \<and> timestampText (urUpdatedAt r)"

definition sessionRowOK :: "authDB \<Rightarrow> sessionRow \<Rightarrow> bool" where
  "sessionRowOK d r \<longleftrightarrow>
     uuidPattern (ssID r) \<and> ssUserID r \<in> urID ` set (tbUsers d) \<and> noNUL (ssTokenHash r) \<and> timestampText (ssExpiresAt r) \<and>
     pred_option timestampText (ssRevokedAt r) \<and> pred_option timestampText (ssLastSeenAt r) \<and> timestampText (ssCreatedAt r)"

definition auditRowOK :: "authDB \<Rightarrow> auditRow \<Rightarrow> bool" where
  "auditRowOK d r \<longleftrightarrow>
     uuidPattern (arID r) \<and> pred_option (\<lambda>a. a \<in> urID ` set (tbUsers d)) (arActorUserID r) \<and> noNUL (arAction r) \<and>
     noNUL (arResourceType r) \<and> pred_option noNUL (arResourceID r) \<and> noNUL (arCorrelation r) \<and> noNUL (arResult r) \<and>
     timestampText (arCreatedAt r)"

definition authOK :: "authDB \<Rightarrow> bool" where
  "authOK d \<longleftrightarrow>
     list_all userRowOK (tbUsers d) \<and> distinct (map urID (tbUsers d)) \<and> distinct (map urUsername (tbUsers d)) \<and>
     list_all (sessionRowOK d) (tbSessions d) \<and> distinct (map ssID (tbSessions d)) \<and> distinct (map ssTokenHash (tbSessions d)) \<and>
     list_all (auditRowOK d) (tbAudits d) \<and> distinct (map arID (tbAudits d)) \<and> set (tbReferences d) \<subseteq> urID ` set (tbUsers d)"

section \<open>Values\<close>

text \<open>The years 1 to 9999 in seconds.\<close>

definition sqliteMinSecond :: int where "sqliteMinSecond = - 62135596800"
definition sqliteMaxSecond :: int where "sqliteMaxSecond = 253402300799"

definition sqliteTime :: "gotime \<Rightarrow> store_error + string" where
  "sqliteTime t =
     (if fst t < sqliteMinSecond \<or> fst t > sqliteMaxSecond then Inl (Refused TimestampYears)
      else (case EncodeTimestamp (FiniteTimestamp (fst t) (snd t)) of
          Inl e \<Rightarrow> Inl (TimestampError e) | Inr key \<Rightarrow> Inr (the key)))"

definition sqliteDecodeTime :: "string option \<Rightarrow> store_error + gotime" where
  "sqliteDecodeTime key =
     (case key of
        None \<Rightarrow> Inl (InvalidText ''required auth timestamp is NULL'')
      | Some k \<Rightarrow>
          (case DecodeTimestamp (Some k) of
             Inl e \<Rightarrow> Inl (TimestampError e)
           | Inr (FiniteTimestamp s n) \<Rightarrow>
               if s < sqliteMinSecond \<or> s > sqliteMaxSecond then Inl (Refused TimestampYears)
               else if sqliteTime (s, n) \<noteq> Inr k then Inl (Refused RoundtripFailed)
               else Inr (s, n)
           | Inr _ \<Rightarrow> Inl (Refused TimestampYears)))"

definition sqliteNullableTime :: "string option \<Rightarrow> store_error + gotime option" where
  "sqliteNullableTime key = (case key of None \<Rightarrow> Inr None | Some k \<Rightarrow> bindE (sqliteDecodeTime key) (\<lambda>t. Inr (Some t)))"

definition sqliteTimePointer :: "gotime option \<Rightarrow> store_error + string option" where
  "sqliteTimePointer t = (case t of None \<Rightarrow> Inr None | Some t \<Rightarrow> bindE (sqliteTime t) (\<lambda>k. Inr (Some k)))"

definition sqliteBool :: "bool \<Rightarrow> int" where
  "sqliteBool b = (if b then 1 else 0)"

definition sqliteReadBool :: "int \<Rightarrow> store_error + bool" where
  "sqliteReadBool n = (if n \<noteq> 0 \<and> n \<noteq> 1 then Inl (Refused (BadBoolean n)) else Inr (n = 1))"

definition sqliteScanUser :: "userRow \<Rightarrow> store_error + User" where
  "sqliteScanUser row =
     bindE (sqliteReadBool (urActive row)) (\<lambda>active.
     bindE (sqliteReadBool (urPasswordChangeRequired row)) (\<lambda>required.
     bindE (sqliteDecodeTime (Some (urCreatedAt row))) (\<lambda>created.
     bindE (sqliteDecodeTime (Some (urUpdatedAt row))) (\<lambda>updated.
     Inr \<lparr>uID = urID row, uUsername = urUsername row, uPasswordHash = urPasswordHash row, uRole = urRole row,
          uActive = active, uPasswordChangeRequired = required, uCreatedAt = created, uUpdatedAt = updated\<rparr>))))"

definition sqliteScanSession :: "sessionRow \<Rightarrow> store_error + Session" where
  "sqliteScanSession row =
     bindE (sqliteDecodeTime (Some (ssExpiresAt row))) (\<lambda>expires.
     bindE (sqliteDecodeTime (Some (ssCreatedAt row))) (\<lambda>created.
     bindE (sqliteNullableTime (ssRevokedAt row)) (\<lambda>revoked.
     bindE (sqliteNullableTime (ssLastSeenAt row)) (\<lambda>seen.
     Inr \<lparr>sID = ssID row, sUserID = ssUserID row, sTokenHash = ssTokenHash row, sExpiresAt = expires,
          sRevokedAt = revoked, sLastSeenAt = seen, sCreatedAt = created\<rparr>))))"

text \<open>The row of a query for one user or session; \<open>None\<close> is \<open>sql.ErrNoRows\<close>.\<close>

definition queryUser :: "(userRow \<Rightarrow> bool) \<Rightarrow> authDB \<Rightarrow> store_error + User option" where
  "queryUser cond d =
     (case find cond (tbUsers d) of None \<Rightarrow> Inr None | Some row \<Rightarrow> bindE (sqliteScanUser row) (\<lambda>u. Inr (Some u)))"

definition querySession :: "(sessionRow \<Rightarrow> bool) \<Rightarrow> authDB \<Rightarrow> store_error + Session option" where
  "querySession cond d =
     (case find cond (tbSessions d) of None \<Rightarrow> Inr None | Some row \<Rightarrow> bindE (sqliteScanSession row) (\<lambda>s. Inr (Some s)))"

text \<open>\<open>sqliteDefaults\<close>: an empty identifier and zero times get fresh values; the clock of the transaction must decode.\<close>

definition defaultID :: "string \<Rightarrow> string \<Rightarrow> string" where
  "defaultID uuid i = (if i = [] then uuid else i)"

definition defaultTime :: "gotime \<Rightarrow> gotime \<Rightarrow> gotime" where
  "defaultTime now t = (if t = zeroTime then now else t)"

section \<open>Statements\<close>

definition insertUserRow :: "userRow \<Rightarrow> authDB \<Rightarrow> store_error + authDB" where
  "insertUserRow row d =
     (if userRowOK row \<and> urID row \<notin> urID ` set (tbUsers d) \<and> urUsername row \<notin> urUsername ` set (tbUsers d)
      then Inr (d\<lparr>tbUsers := tbUsers d @ [row]\<rparr>) else Inl ConstraintViolation)"

definition updateUserRows :: "string \<Rightarrow> (userRow \<Rightarrow> userRow) \<Rightarrow> authDB \<Rightarrow> store_error + authDB" where
  "updateUserRows i f d =
     (if list_all (\<lambda>r. urID r = i \<longrightarrow> userRowOK (f r)) (tbUsers d)
      then Inr (d\<lparr>tbUsers := map (\<lambda>r. if urID r = i then f r else r) (tbUsers d)\<rparr>) else Inl ConstraintViolation)"

definition deleteUserRows :: "string \<Rightarrow> authDB \<Rightarrow> store_error + authDB" where
  "deleteUserRows i d =
     (if i \<in> set (tbReferences d) \<or> list_ex (\<lambda>a. arActorUserID a = Some i) (tbAudits d) then Inl ConstraintViolation
      else Inr (d\<lparr>tbUsers := filter (\<lambda>r. urID r \<noteq> i) (tbUsers d), tbSessions := filter (\<lambda>r. ssUserID r \<noteq> i) (tbSessions d)\<rparr>))"

definition insertSessionRow :: "sessionRow \<Rightarrow> authDB \<Rightarrow> store_error + authDB" where
  "insertSessionRow row d =
     (if sessionRowOK d row \<and> ssID row \<notin> ssID ` set (tbSessions d) \<and> ssTokenHash row \<notin> ssTokenHash ` set (tbSessions d)
      then Inr (d\<lparr>tbSessions := tbSessions d @ [row]\<rparr>) else Inl ConstraintViolation)"

definition updateSessionRows :: "(sessionRow \<Rightarrow> bool) \<Rightarrow> (sessionRow \<Rightarrow> sessionRow) \<Rightarrow> authDB \<Rightarrow> store_error + authDB" where
  "updateSessionRows cond f d =
     (if list_all (\<lambda>r. cond r \<longrightarrow> sessionRowOK d (f r)) (tbSessions d)
      then Inr (d\<lparr>tbSessions := map (\<lambda>r. if cond r then f r else r) (tbSessions d)\<rparr>) else Inl ConstraintViolation)"

definition insertAuditRow :: "auditRow \<Rightarrow> authDB \<Rightarrow> store_error + authDB" where
  "insertAuditRow row d =
     (if auditRowOK d row \<and> arID row \<notin> arID ` set (tbAudits d)
      then Inr (d\<lparr>tbAudits := tbAudits d @ [row]\<rparr>) else Inl ConstraintViolation)"

section \<open>Users\<close>

definition ListUsers :: "authDB \<Rightarrow> store_error + User list" where
  "ListUsers d = mapE sqliteScanUser (stableSort (\<lambda>a b. urUsername a < urUsername b) (tbUsers d))"

definition FindUserByUsername :: "string \<Rightarrow> authDB \<Rightarrow> store_error + User option" where
  "FindUserByUsername username = queryUser (\<lambda>r. urUsername r = username)"

definition FindUserByID :: "string \<Rightarrow> authDB \<Rightarrow> store_error + User option" where
  "FindUserByID i = queryUser (\<lambda>r. urID r = i)"

definition sqliteInsertUser :: "string \<Rightarrow> string \<Rightarrow> User \<Rightarrow> authDB \<Rightarrow> store_error + authDB \<times> User" where
  "sqliteInsertUser uuid stamp u d =
     bindE (sqliteDecodeTime (Some stamp)) (\<lambda>now.
     let u = u\<lparr>uID := defaultID uuid (uID u), uCreatedAt := defaultTime now (uCreatedAt u), uUpdatedAt := defaultTime now (uUpdatedAt u)\<rparr> in
     bindE (sqliteTime (uCreatedAt u)) (\<lambda>created.
     bindE (sqliteTime (uUpdatedAt u)) (\<lambda>updated.
     bindE (insertUserRow
       \<lparr>urID = uID u, urUsername = uUsername u, urPasswordHash = uPasswordHash u, urRole = uRole u, urActive = sqliteBool (uActive u),
        urPasswordChangeRequired = sqliteBool (uPasswordChangeRequired u), urCreatedAt = created, urUpdatedAt = updated\<rparr> d) (\<lambda>d.
     Inr (d, u)))))"

definition CreateUser :: "User \<Rightarrow> writeEnv \<Rightarrow> authDB \<Rightarrow> (store_error + User) \<times> authDB" where
  "CreateUser u env d = Write env d (\<lambda>stamp. sqliteInsertUser (envUUID env) stamp u)"

definition BootstrapUser :: "User \<Rightarrow> writeEnv \<Rightarrow> authDB \<Rightarrow> (store_error + User) \<times> authDB" where
  "BootstrapUser u env d =
     Write env d (\<lambda>stamp d.
       if list_ex (\<lambda>r. urActive r = 1) (tbUsers d) then Inl (Refused ErrBootstrapComplete)
       else sqliteInsertUser (envUUID env) stamp (u\<lparr>uRole := RoleOwner, uActive := True\<rparr>) d)"

definition isActiveOwner :: "userRow \<Rightarrow> bool" where
  "isActiveOwner r \<longleftrightarrow> urActive r = 1 \<and> urRole r = RoleOwner"

definition sqliteOwnerGuard :: "User \<Rightarrow> bool \<Rightarrow> string \<Rightarrow> authDB \<Rightarrow> store_error + unit" where
  "sqliteOwnerGuard u removing message d =
     (if \<not> uActive u \<or> uRole u \<noteq> RoleOwner \<or> \<not> removing then Inr ()
      else if length (filter isActiveOwner (tbUsers d)) \<le> 1 then Inl (Refused (LastOwner message)) else Inr ())"

definition sqliteWriteUser :: "User \<Rightarrow> string \<Rightarrow> authDB \<Rightarrow> store_error + authDB" where
  "sqliteWriteUser u stamp =
     updateUserRows (uID u) (\<lambda>r. r\<lparr>urRole := uRole u, urActive := sqliteBool (uActive u), urPasswordHash := uPasswordHash u,
       urPasswordChangeRequired := sqliteBool (uPasswordChangeRequired u), urUpdatedAt := stamp\<rparr>)"

definition patched :: "UserPatch \<Rightarrow> User \<Rightarrow> User" where
  "patched patch u =
     u\<lparr>uRole := (case upRole patch of None \<Rightarrow> uRole u | Some x \<Rightarrow> x),
       uActive := (case upActive patch of None \<Rightarrow> uActive u | Some x \<Rightarrow> x),
       uPasswordHash := (case upPasswordHash patch of None \<Rightarrow> uPasswordHash u | Some x \<Rightarrow> x),
       uPasswordChangeRequired := (case upPasswordChangeRequired patch of None \<Rightarrow> uPasswordChangeRequired u | Some x \<Rightarrow> x)\<rparr>"

definition UpdateUser :: "string \<Rightarrow> UserPatch \<Rightarrow> writeEnv \<Rightarrow> authDB \<Rightarrow> (store_error + User) \<times> authDB" where
  "UpdateUser i patch env d =
     Write env d (\<lambda>stamp d.
       bindE (queryUser (\<lambda>r. urID r = i) d) (\<lambda>found.
       case found of
         None \<Rightarrow> Inl (Refused ErrUserNotFound)
       | Some u \<Rightarrow>
           let changed = patched patch u in
           bindE (sqliteOwnerGuard u (\<not> uActive changed \<or> uRole changed \<noteq> RoleOwner) ''Cannot remove or demote the last Owner'' d) (\<lambda>_.
           bindE (sqliteDecodeTime (Some stamp)) (\<lambda>now.
           bindE (sqliteWriteUser (changed\<lparr>uUpdatedAt := now\<rparr>) stamp d) (\<lambda>d.
           Inr (d, changed\<lparr>uUpdatedAt := now\<rparr>))))))"

definition DeleteUser :: "string \<Rightarrow> writeEnv \<Rightarrow> authDB \<Rightarrow> (store_error + unit) \<times> authDB" where
  "DeleteUser i env d =
     Write env d (\<lambda>stamp d.
       bindE (queryUser (\<lambda>r. urID r = i) d) (\<lambda>found.
       case found of
         None \<Rightarrow> Inr (d, ())
       | Some u \<Rightarrow>
           bindE (sqliteOwnerGuard u True ''Cannot delete the last Owner'' d) (\<lambda>_.
           bindE (deleteUserRows i d) (\<lambda>d. Inr (d, ())))))"

section \<open>Sessions\<close>

definition timeAfter :: "gotime \<Rightarrow> gotime \<Rightarrow> bool" where
  "timeAfter a b \<longleftrightarrow> fst a > fst b \<or> fst a = fst b \<and> snd a > snd b"

definition sqliteInsertSession :: "string \<Rightarrow> string \<Rightarrow> Session \<Rightarrow> authDB \<Rightarrow> store_error + authDB \<times> Session" where
  "sqliteInsertSession uuid stamp s d =
     (if sExpiresAt s = zeroTime then Inl (Refused ExpiryRequired)
      else
        bindE (sqliteDecodeTime (Some stamp)) (\<lambda>now.
        let s = s\<lparr>sID := defaultID uuid (sID s), sCreatedAt := defaultTime now (sCreatedAt s)\<rparr> in
        bindE (sqliteTime (sExpiresAt s)) (\<lambda>expires.
        bindE (sqliteTime (sCreatedAt s)) (\<lambda>created.
        bindE (sqliteTimePointer (sRevokedAt s)) (\<lambda>revoked.
        bindE (sqliteTimePointer (sLastSeenAt s)) (\<lambda>seen.
        bindE (insertSessionRow
          \<lparr>ssID = sID s, ssUserID = sUserID s, ssTokenHash = sTokenHash s, ssExpiresAt = expires, ssRevokedAt = revoked,
           ssLastSeenAt = seen, ssCreatedAt = created\<rparr> d) (\<lambda>d.
        Inr (d, s))))))))"

definition CreateSession :: "Session \<Rightarrow> writeEnv \<Rightarrow> authDB \<Rightarrow> (store_error + Session) \<times> authDB" where
  "CreateSession s env d = Write env d (\<lambda>stamp. sqliteInsertSession (envUUID env) stamp s)"

definition CreateSessionForCredential :: "Session \<Rightarrow> string \<Rightarrow> writeEnv \<Rightarrow> authDB \<Rightarrow> (store_error + Session \<times> User) \<times> authDB" where
  "CreateSessionForCredential s expectedHash env d =
     Write env d (\<lambda>stamp d.
       bindE (queryUser (\<lambda>r. urID r = sUserID s) d) (\<lambda>found.
       case found of
         None \<Rightarrow> Inl (Refused ErrInvalidCredential)
       | Some current \<Rightarrow>
           if \<not> uActive current \<or> uPasswordHash current \<noteq> expectedHash then Inl (Refused ErrInvalidCredential)
           else bindE (sqliteInsertSession (envUUID env) stamp s d) (\<lambda>(d, s). Inr (d, s, current))))"

definition FindSessionByTokenHash :: "string \<Rightarrow> authDB \<Rightarrow> store_error + Session option" where
  "FindSessionByTokenHash hash = querySession (\<lambda>r. ssTokenHash r = hash \<and> ssRevokedAt r = None)"

definition sessionStamp ::
  "string \<Rightarrow> gotime \<Rightarrow> (string \<Rightarrow> sessionRow \<Rightarrow> sessionRow) \<Rightarrow> writeEnv \<Rightarrow> authDB \<Rightarrow> (store_error + unit) \<times> authDB" where
  "sessionStamp i at column env d =
     Write env d (\<lambda>_ d.
       bindE (sqliteTime at) (\<lambda>stamp.
       bindE (updateSessionRows (\<lambda>r. ssID r = i \<and> ssRevokedAt r = None) (column stamp) d) (\<lambda>d. Inr (d, ()))))"

definition RevokeSession :: "string \<Rightarrow> gotime \<Rightarrow> writeEnv \<Rightarrow> authDB \<Rightarrow> (store_error + unit) \<times> authDB" where
  "RevokeSession i at = sessionStamp i at (\<lambda>stamp r. r\<lparr>ssRevokedAt := Some stamp\<rparr>)"

definition TouchSession :: "string \<Rightarrow> gotime \<Rightarrow> writeEnv \<Rightarrow> authDB \<Rightarrow> (store_error + unit) \<times> authDB" where
  "TouchSession i at = sessionStamp i at (\<lambda>stamp r. r\<lparr>ssLastSeenAt := Some stamp\<rparr>)"

section \<open>Audit and passwords\<close>

definition sqliteInsertAudit :: "string \<Rightarrow> string \<Rightarrow> AuditEvent \<Rightarrow> authDB \<Rightarrow> store_error + authDB" where
  "sqliteInsertAudit uuid stamp event d =
     bindE (sqliteDecodeTime (Some stamp)) (\<lambda>now.
     bindE (sqliteTime (defaultTime now (evCreatedAt event))) (\<lambda>created.
     insertAuditRow
       \<lparr>arID = defaultID uuid (evID event), arActorUserID = evActorUserID event, arAction = evAction event,
        arResourceType = evResourceType event, arResourceID = evResourceID event, arAfterValue = evAfterValue event,
        arCorrelation = evCorrelation event, arResult = evResult event, arCreatedAt = created\<rparr> d))"

definition AddAudit :: "AuditEvent \<Rightarrow> writeEnv \<Rightarrow> authDB \<Rightarrow> (store_error + unit) \<times> authDB" where
  "AddAudit event env d =
     Write env d (\<lambda>stamp d. bindE (sqliteInsertAudit (envUUID env) stamp event d) (\<lambda>d. Inr (d, ())))"

text \<open>The check of the session that a password change comes from.\<close>

definition changingSession :: "string \<Rightarrow> string \<Rightarrow> gotime \<Rightarrow> authDB \<Rightarrow> store_error + unit" where
  "changingSession target sessionID at d =
     bindE (querySession (\<lambda>r. ssID r = sessionID) d) (\<lambda>found.
     case found of
       None \<Rightarrow> Inl (Refused ErrInvalidSession)
     | Some s \<Rightarrow> if sUserID s \<noteq> target \<or> sRevokedAt s \<noteq> None \<or> \<not> timeAfter (sExpiresAt s) at
         then Inl (Refused ErrInvalidSession) else Inr ())"

definition passwordMutation ::
  "string \<Rightarrow> string \<Rightarrow> string \<Rightarrow> gotime \<Rightarrow> AuditEvent \<Rightarrow> bool \<Rightarrow> writeEnv \<Rightarrow> authDB \<Rightarrow> (store_error + User) \<times> authDB" where
  "passwordMutation target sessionID hash at event reset env d =
     Write env d (\<lambda>txStamp d.
       bindE (sqliteTime at) (\<lambda>stamp.
       bindE (if reset then Inr () else changingSession target sessionID at d) (\<lambda>_.
       bindE (queryUser (\<lambda>r. (if reset then urUsername r else urID r) = target) d) (\<lambda>found.
       case found of
         None \<Rightarrow> Inl (Refused (if reset then ErrUserNotFound else ErrUnavailableUser))
       | Some u \<Rightarrow>
           if \<not> uActive u then Inl (Refused ErrUnavailableUser)
           else
             let u = u\<lparr>uPasswordHash := hash, uPasswordChangeRequired := reset, uUpdatedAt := at\<rparr> in
             bindE (sqliteWriteUser u stamp d) (\<lambda>d.
             bindE (updateSessionRows (\<lambda>r. ssUserID r = uID u \<and> ssRevokedAt r = None \<and> (reset \<or> ssID r \<noteq> sessionID))
               (\<lambda>r. r\<lparr>ssRevokedAt := Some stamp\<rparr>) d) (\<lambda>d.
             bindE (sqliteInsertAudit (envUUID env) txStamp (event\<lparr>evResourceID := Some (uID u)\<rparr>) d) (\<lambda>d.
             Inr (d, u))))))))"

definition StoreResetPassword :: "string \<Rightarrow> string \<Rightarrow> gotime \<Rightarrow> AuditEvent \<Rightarrow> writeEnv \<Rightarrow> authDB \<Rightarrow> (store_error + User) \<times> authDB" where
  "StoreResetPassword username hash at event = passwordMutation username [] hash at event True"

definition CompletePasswordChange ::
  "string \<Rightarrow> string \<Rightarrow> string \<Rightarrow> gotime \<Rightarrow> AuditEvent \<Rightarrow> writeEnv \<Rightarrow> authDB \<Rightarrow> (store_error + User) \<times> authDB" where
  "CompletePasswordChange userID sessionID hash at event = passwordMutation userID sessionID hash at event False"

end
