(* ===== verification/AuthLaws.thy ===== *)
theory AuthLaws
  imports AuthStore
begin

text \<open>
  Laws of the user store: every transaction keeps the tables legal, there is always an active owner once there is
  one, and a revoked session stays revoked.
\<close>

section \<open>Statements keep the tables legal\<close>

lemma sessionRowOK_users: "urID ` set (tbUsers d') = urID ` set (tbUsers d) \<Longrightarrow> sessionRowOK d' = sessionRowOK d"
  by (rule ext) (simp add: sessionRowOK_def)

lemma auditRowOK_users: "urID ` set (tbUsers d') = urID ` set (tbUsers d) \<Longrightarrow> auditRowOK d' = auditRowOK d"
  by (rule ext) (simp add: auditRowOK_def)

lemma insertUserRow_legal:
  assumes "insertUserRow row d = Inr d'" "authOK d"
  shows "authOK d'"
proof -
  have d': "d' = d\<lparr>tbUsers := tbUsers d @ [row]\<rparr>" and row: "userRowOK row" "urID row \<notin> urID ` set (tbUsers d)" "urUsername row \<notin> urUsername ` set (tbUsers d)"
    using assms(1) by (auto simp: insertUserRow_def split: if_splits)
  have "sessionRowOK d r \<Longrightarrow> sessionRowOK d' r" "auditRowOK d a \<Longrightarrow> auditRowOK d' a" for r a
    by (auto simp: d' sessionRowOK_def auditRowOK_def option.pred_set)
  then show ?thesis using assms(2) row by (auto simp: authOK_def d' list_all_iff)
qed

lemma updateUserRows_legal:
  assumes "updateUserRows i f d = Inr d'" "authOK d" "\<And>r. urID (f r) = urID r" "\<And>r. urUsername (f r) = urUsername r"
  shows "authOK d'"
proof -
  let ?g = "\<lambda>r. if urID r = i then f r else r"
  have d': "d' = d\<lparr>tbUsers := map ?g (tbUsers d)\<rparr>" and ok: "list_all (\<lambda>r. urID r = i \<longrightarrow> userRowOK (f r)) (tbUsers d)"
    using assms(1) by (auto simp: updateUserRows_def split: if_splits)
  have ids: "map urID (map ?g (tbUsers d)) = map urID (tbUsers d)" "map urUsername (map ?g (tbUsers d)) = map urUsername (tbUsers d)"
    using assms(3,4) by simp_all
  have "urID ` set (map ?g (tbUsers d)) = urID ` set (tbUsers d)"
    using arg_cong [OF ids(1), of set] by (simp only: list.set_map)
  then have "urID ` set (tbUsers d') = urID ` set (tbUsers d)" by (simp add: d')
  note same = sessionRowOK_users [OF this] auditRowOK_users [OF this] this
  have "list_all userRowOK (map ?g (tbUsers d))" using ok assms(2) by (auto simp: authOK_def list_all_iff)
  then show ?thesis
    using assms(2) unfolding authOK_def same by (simp add: d' ids [unfolded map_map])
qed

lemma deleteUserRows_legal:
  assumes "deleteUserRows i d = Inr d'" "authOK d"
  shows "authOK d'"
proof -
  have d': "d' = d\<lparr>tbUsers := filter (\<lambda>r. urID r \<noteq> i) (tbUsers d), tbSessions := filter (\<lambda>r. ssUserID r \<noteq> i) (tbSessions d)\<rparr>"
    and free: "i \<notin> set (tbReferences d)" "\<And>a. a \<in> set (tbAudits d) \<Longrightarrow> arActorUserID a \<noteq> Some i"
    using assms(1) by (auto simp: deleteUserRows_def list_ex_iff split: if_splits)
  have users: "urID ` set (tbUsers d') = urID ` set (tbUsers d) - {i}" by (auto simp: d')
  have s: "sessionRowOK d r \<Longrightarrow> ssUserID r \<noteq> i \<Longrightarrow> sessionRowOK d' r" for r unfolding sessionRowOK_def users by simp
  have a: "auditRowOK d a \<Longrightarrow> a \<in> set (tbAudits d) \<Longrightarrow> auditRowOK d' a" for a
    unfolding auditRowOK_def users using free(2) [of a] by (auto simp: option.pred_set)
  have refs: "set (tbReferences d') \<subseteq> urID ` set (tbUsers d')"
    using assms(2) free(1) unfolding users by (auto simp: authOK_def d')
  have lists: "list_all userRowOK (tbUsers d')" "list_all (sessionRowOK d') (tbSessions d')" "list_all (auditRowOK d') (tbAudits d')"
    using assms(2) s a by (auto simp: authOK_def list_all_iff d')
  have "distinct (map urID (tbUsers d'))" "distinct (map urUsername (tbUsers d'))" "distinct (map ssID (tbSessions d'))"
    "distinct (map ssTokenHash (tbSessions d'))" "distinct (map arID (tbAudits d'))"
    using assms(2) by (simp_all add: authOK_def d' distinct_map_filter)
  then show ?thesis using refs lists by (simp add: authOK_def)
qed

lemma insertSessionRow_legal: "insertSessionRow row d = Inr d' \<Longrightarrow> authOK d \<Longrightarrow> authOK d'"
proof -
  assume assms: "insertSessionRow row d = Inr d'" "authOK d"
  have d': "d' = d\<lparr>tbSessions := tbSessions d @ [row]\<rparr>"
    and row: "sessionRowOK d row" "ssID row \<notin> ssID ` set (tbSessions d)" "ssTokenHash row \<notin> ssTokenHash ` set (tbSessions d)"
    using assms(1) by (auto simp: insertSessionRow_def split: if_splits)
  have "sessionRowOK d' = sessionRowOK d" "auditRowOK d' = auditRowOK d"
    by (rule sessionRowOK_users auditRowOK_users, simp add: d')+
  then show ?thesis using assms(2) row unfolding authOK_def by (simp add: d')
qed

lemma updateSessionRows_legal:
  assumes "updateSessionRows cond f d = Inr d'" "authOK d" "\<And>r. ssID (f r) = ssID r" "\<And>r. ssTokenHash (f r) = ssTokenHash r"
  shows "authOK d'"
proof -
  let ?g = "\<lambda>r. if cond r then f r else r"
  have d': "d' = d\<lparr>tbSessions := map ?g (tbSessions d)\<rparr>" and ok: "list_all (\<lambda>r. cond r \<longrightarrow> sessionRowOK d (f r)) (tbSessions d)"
    using assms(1) by (auto simp: updateSessionRows_def split: if_splits)
  have same: "sessionRowOK d' = sessionRowOK d" "auditRowOK d' = auditRowOK d"
    by (rule sessionRowOK_users auditRowOK_users, simp add: d')+
  have ids: "map ssID (map ?g (tbSessions d)) = map ssID (tbSessions d)" "map ssTokenHash (map ?g (tbSessions d)) = map ssTokenHash (tbSessions d)"
    using assms(3,4) by simp_all
  have "list_all (sessionRowOK d) (map ?g (tbSessions d))" using ok assms(2) by (auto simp: authOK_def list_all_iff)
  then show ?thesis using assms(2) unfolding authOK_def same by (simp add: d' ids [unfolded map_map])
qed

lemma insertAuditRow_legal: "insertAuditRow row d = Inr d' \<Longrightarrow> authOK d \<Longrightarrow> authOK d'"
proof -
  assume assms: "insertAuditRow row d = Inr d'" "authOK d"
  have d': "d' = d\<lparr>tbAudits := tbAudits d @ [row]\<rparr>" and row: "auditRowOK d row" "arID row \<notin> arID ` set (tbAudits d)"
    using assms(1) by (auto simp: insertAuditRow_def split: if_splits)
  have "sessionRowOK d' = sessionRowOK d" "auditRowOK d' = auditRowOK d"
    by (rule sessionRowOK_users auditRowOK_users, simp add: d')+
  then show ?thesis using assms(2) row unfolding authOK_def by (simp add: d')
qed

section \<open>The tables a statement touches\<close>

lemma insertUserRow_tables: "insertUserRow row d = Inr d' \<Longrightarrow> d' = d\<lparr>tbUsers := tbUsers d @ [row]\<rparr>"
  by (simp add: insertUserRow_def split: if_splits)

lemma insertSessionRow_tables: "insertSessionRow row d = Inr d' \<Longrightarrow> d' = d\<lparr>tbSessions := tbSessions d @ [row]\<rparr>"
  by (simp add: insertSessionRow_def split: if_splits)

lemma insertAuditRow_tables: "insertAuditRow row d = Inr d' \<Longrightarrow> d' = d\<lparr>tbAudits := tbAudits d @ [row]\<rparr>"
  by (simp add: insertAuditRow_def split: if_splits)

lemma updateUserRows_tables:
  "updateUserRows i f d = Inr d' \<Longrightarrow> d' = d\<lparr>tbUsers := map (\<lambda>r. if urID r = i then f r else r) (tbUsers d)\<rparr>"
  by (simp add: updateUserRows_def split: if_splits)

lemma updateSessionRows_tables:
  "updateSessionRows cond f d = Inr d' \<Longrightarrow> d' = d\<lparr>tbSessions := map (\<lambda>r. if cond r then f r else r) (tbSessions d)\<rparr>"
  by (simp add: updateSessionRows_def split: if_splits)

section \<open>Transactions\<close>

definition owned :: "authDB \<Rightarrow> bool" where
  "owned d \<longleftrightarrow> list_ex isActiveOwner (tbUsers d)"

text \<open>A revoked session stays as it is until its user is deleted.\<close>

definition revokedKept :: "authDB \<Rightarrow> authDB \<Rightarrow> bool" where
  "revokedKept d d' \<longleftrightarrow>
     list_all (\<lambda>r. ssRevokedAt r = None \<or> r \<in> set (tbSessions d') \<or> ssUserID r \<notin> urID ` set (tbUsers d')) (tbSessions d)"

definition authKeeps :: "authDB \<Rightarrow> authDB \<Rightarrow> bool" where
  "authKeeps d d' \<longleftrightarrow> (authOK d \<longrightarrow> authOK d' \<and> (owned d \<longrightarrow> owned d') \<and> revokedKept d d')"

lemma keeps_refl: "authKeeps d d"
  by (simp add: authKeeps_def revokedKept_def list_all_iff)

lemma Write_keeps:
  assumes "Write env d f = (r, d')" "\<And>stamp e x. f stamp d = Inr (e, x) \<Longrightarrow> authKeeps d e"
  shows "authKeeps d d'"
proof (cases r)
  case (Inl e)
  then show ?thesis using Write_Inl assms(1) keeps_refl by metis
next
  case (Inr x)
  then show ?thesis using assms by (auto elim: Write_Inr)
qed

lemma keeps_insertUser: "insertUserRow row d = Inr d' \<Longrightarrow> authKeeps d d'"
  using insertUserRow_legal insertUserRow_tables
  by (fastforce simp: authKeeps_def owned_def revokedKept_def list_ex_iff list_all_iff)

lemma keeps_insertSession: "insertSessionRow row d = Inr d' \<Longrightarrow> authKeeps d d'"
  using insertSessionRow_legal insertSessionRow_tables
  by (fastforce simp: authKeeps_def owned_def revokedKept_def list_all_iff)

lemma keeps_insertAudit: "insertAuditRow row d = Inr d' \<Longrightarrow> authKeeps d d'"
  using insertAuditRow_legal insertAuditRow_tables
  by (fastforce simp: authKeeps_def owned_def revokedKept_def list_all_iff)

lemma keeps_updateSessions:
  assumes "updateSessionRows cond f d = Inr d'" "\<And>r. ssID (f r) = ssID r" "\<And>r. ssTokenHash (f r) = ssTokenHash r" "\<And>r. cond r \<Longrightarrow> ssRevokedAt r = None"
  shows "authKeeps d d'"
proof -
  note d' = updateSessionRows_tables [OF assms(1)]
  have "r \<in> set (tbSessions d')" if "r \<in> set (tbSessions d)" "ssRevokedAt r \<noteq> None" for r
    using that assms(4) [of r] by (force simp: d')
  then show ?thesis using updateSessionRows_legal [OF assms(1) _ assms(2,3)]
    by (auto simp: authKeeps_def owned_def revokedKept_def d' list_all_iff)
qed

text \<open>Two active owners are two users.\<close>

lemma other_owner:
  assumes "distinct (map urID us)" "1 < length (filter P us)"
  shows "\<exists>r\<in>set us. P r \<and> urID r \<noteq> i"
proof (rule ccontr)
  assume none: "\<not> (\<exists>r\<in>set us. P r \<and> urID r \<noteq> i)"
  then have "set (map urID (filter P us)) \<subseteq> {i}" by auto
  moreover have "distinct (map urID (filter P us))" using assms(1) by (rule distinct_map_filter)
  ultimately have "length (map urID (filter P us)) \<le> card {i}" by (metis card_mono distinct_card finite.emptyI finite.insertI)
  then show False using assms(2) by simp
qed

lemma sqliteScanUser_fields:
  assumes "sqliteScanUser row = Inr u"
  shows "uID u = urID row" "uUsername u = urUsername row" "uPasswordHash u = urPasswordHash row" "uRole u = urRole row"
    "uActive u \<longleftrightarrow> urActive row = 1" "uPasswordChangeRequired u \<longleftrightarrow> urPasswordChangeRequired row = 1"
  using assms by (auto simp: sqliteScanUser_def sqliteReadBool_def bindE_eq_Inr split: if_splits)

lemma queryUser_found:
  assumes "queryUser cond d = Inr (Some u)"
  obtains row where "row \<in> set (tbUsers d)" "cond row" "sqliteScanUser row = Inr u"
  using assms by (auto simp: queryUser_def bindE_eq_Inr split: option.splits dest: find_some)

text \<open>Changing the row of one user keeps an owner when that user is not the only one or stays one.\<close>

lemma keeps_updateUser:
  assumes "updateUserRows i f d = Inr d'" "\<And>r. urID (f r) = urID r" "\<And>r. urUsername (f r) = urUsername r"
    "authOK d \<Longrightarrow> owned d \<Longrightarrow> (\<exists>r\<in>set (tbUsers d). isActiveOwner r \<and> urID r \<noteq> i) \<or> (\<exists>r\<in>set (tbUsers d). urID r = i \<and> isActiveOwner (f r))"
  shows "authKeeps d d'"
proof -
  note d' = updateUserRows_tables [OF assms(1)]
  have "owned d'" if "authOK d" "owned d"
    using assms(4) [OF that] by (force simp: owned_def d' list_ex_iff)
  then show ?thesis using updateUserRows_legal [OF assms(1) _ assms(2,3)]
    by (auto simp: authKeeps_def revokedKept_def d' list_all_iff)
qed

lemma sqliteOwnerGuard_passes:
  assumes "sqliteOwnerGuard u removing message d = Inr ()" "sqliteScanUser row = Inr u" "row \<in> set (tbUsers d)" "removing" "authOK d" "owned d"
  shows "\<exists>r\<in>set (tbUsers d). isActiveOwner r \<and> urID r \<noteq> uID u"
proof (cases "uActive u \<and> uRole u = RoleOwner")
  case True
  then have "1 < length (filter isActiveOwner (tbUsers d))" using assms(1,4) by (auto simp: sqliteOwnerGuard_def split: if_splits)
  then show ?thesis using assms(5) by (intro other_owner) (simp_all add: authOK_def)
next
  case False
  obtain r where r: "r \<in> set (tbUsers d)" "isActiveOwner r" using assms(6) by (auto simp: owned_def list_ex_iff)
  have "urID r \<noteq> uID u"
  proof
    assume "urID r = uID u"
    then have "r = row" using r(1) assms(2,3,5) sqliteScanUser_fields(1) [OF assms(2)] by (auto simp: authOK_def distinct_map inj_on_def)
    then show False using False r(2) sqliteScanUser_fields [OF assms(2)] by (simp add: isActiveOwner_def)
  qed
  then show ?thesis using r by blast
qed

section \<open>Operations\<close>

lemma keeps_sqliteInsertUser: "sqliteInsertUser uuid stamp u d = Inr (d', x) \<Longrightarrow> authKeeps d d'"
  by (auto simp: sqliteInsertUser_def bindE_eq_Inr Let_def dest: keeps_insertUser)

lemma keeps_sqliteInsertSession: "sqliteInsertSession uuid stamp s d = Inr (d', x) \<Longrightarrow> authKeeps d d'"
  by (auto simp: sqliteInsertSession_def bindE_eq_Inr Let_def split: if_splits dest: keeps_insertSession)

lemma keeps_sqliteInsertAudit: "sqliteInsertAudit uuid stamp event d = Inr d' \<Longrightarrow> authKeeps d d'"
  by (auto simp: sqliteInsertAudit_def bindE_eq_Inr dest: keeps_insertAudit)

lemma CreateUser_keeps: "CreateUser u env d = (r, d') \<Longrightarrow> authKeeps d d'"
  by (auto simp: CreateUser_def elim!: Write_keeps dest: keeps_sqliteInsertUser)

lemma BootstrapUser_keeps: "BootstrapUser u env d = (r, d') \<Longrightarrow> authKeeps d d'"
  by (auto simp: BootstrapUser_def elim!: Write_keeps split: if_splits dest: keeps_sqliteInsertUser)

lemma UpdateUser_keeps:
  assumes "UpdateUser i patch env d = (r, d')"
  shows "authKeeps d d'"
proof (rule Write_keeps [OF assms [unfolded UpdateUser_def]])
  fix stamp e x
  assume "bindE (queryUser (\<lambda>r. urID r = i) d) (\<lambda>found.
       case found of
         None \<Rightarrow> Inl (Refused ErrUserNotFound)
       | Some u \<Rightarrow>
           let changed = patched patch u in
           bindE (sqliteOwnerGuard u (\<not> uActive changed \<or> uRole changed \<noteq> RoleOwner) ''Cannot remove or demote the last Owner'' d) (\<lambda>_.
           bindE (sqliteDecodeTime (Some stamp)) (\<lambda>now.
           bindE (sqliteWriteUser (changed\<lparr>uUpdatedAt := now\<rparr>) stamp d) (\<lambda>d.
           Inr (d, changed\<lparr>uUpdatedAt := now\<rparr>))))) = Inr (e, x)"
  then obtain u now where u: "queryUser (\<lambda>r. urID r = i) d = Inr (Some u)"
    and guard: "sqliteOwnerGuard u (\<not> uActive (patched patch u) \<or> uRole (patched patch u) \<noteq> RoleOwner) ''Cannot remove or demote the last Owner'' d = Inr ()"
    and w: "sqliteWriteUser ((patched patch u)\<lparr>uUpdatedAt := now\<rparr>) stamp d = Inr e"
    by (auto simp: bindE_eq_Inr Let_def split: option.splits)
  obtain row where row: "row \<in> set (tbUsers d)" "urID row = i" "sqliteScanUser row = Inr u" using u by (rule queryUser_found)
  have i: "uID u = i" "uID (patched patch u) = i" using sqliteScanUser_fields(1) [OF row(3)] row(2) by (simp_all add: patched_def)
  show "authKeeps d e"
  proof (rule keeps_updateUser [OF w [unfolded sqliteWriteUser_def]])
    assume ok: "authOK d" "owned d"
    show "(\<exists>r\<in>set (tbUsers d). isActiveOwner r \<and> urID r \<noteq> uID ((patched patch u)\<lparr>uUpdatedAt := now\<rparr>)) \<or>
      (\<exists>r\<in>set (tbUsers d). urID r = uID ((patched patch u)\<lparr>uUpdatedAt := now\<rparr>) \<and>
        isActiveOwner (r\<lparr>urRole := uRole ((patched patch u)\<lparr>uUpdatedAt := now\<rparr>), urActive := sqliteBool (uActive ((patched patch u)\<lparr>uUpdatedAt := now\<rparr>)),
          urPasswordHash := uPasswordHash ((patched patch u)\<lparr>uUpdatedAt := now\<rparr>),
          urPasswordChangeRequired := sqliteBool (uPasswordChangeRequired ((patched patch u)\<lparr>uUpdatedAt := now\<rparr>)), urUpdatedAt := stamp\<rparr>))"
    proof (cases "\<not> uActive (patched patch u) \<or> uRole (patched patch u) \<noteq> RoleOwner")
      case True
      then show ?thesis using sqliteOwnerGuard_passes [OF guard row(3,1) _ ok] i by auto
    next
      case False
      then show ?thesis using row(1,2) i(2) by (auto simp: isActiveOwner_def sqliteBool_def)
    qed
  qed simp_all
qed

lemma DeleteUser_keeps:
  assumes "DeleteUser i env d = (r, d')"
  shows "authKeeps d d'"
proof (rule Write_keeps [OF assms [unfolded DeleteUser_def]])
  fix stamp e x
  assume run: "bindE (queryUser (\<lambda>r. urID r = i) d) (\<lambda>found.
       case found of
         None \<Rightarrow> Inr (d, ())
       | Some u \<Rightarrow>
           bindE (sqliteOwnerGuard u True ''Cannot delete the last Owner'' d) (\<lambda>_.
           bindE (deleteUserRows i d) (\<lambda>d. Inr (d, ())))) = Inr (e, x)"
  show "authKeeps d e"
  proof (cases "queryUser (\<lambda>r. urID r = i) d = Inr None")
    case True
    then show ?thesis using run keeps_refl by simp
  next
    case False
    then obtain u where u: "queryUser (\<lambda>r. urID r = i) d = Inr (Some u)"
      and guard: "sqliteOwnerGuard u True ''Cannot delete the last Owner'' d = Inr ()" and del: "deleteUserRows i d = Inr e"
      using run by (auto simp: bindE_eq_Inr split: option.splits)
    obtain row where row: "row \<in> set (tbUsers d)" "urID row = i" "sqliteScanUser row = Inr u" using u by (rule queryUser_found)
    then have i: "uID u = i" using sqliteScanUser_fields(1) by simp
    have e: "e = d\<lparr>tbUsers := filter (\<lambda>r. urID r \<noteq> i) (tbUsers d), tbSessions := filter (\<lambda>r. ssUserID r \<noteq> i) (tbSessions d)\<rparr>"
      using del by (simp add: deleteUserRows_def split: if_splits)
    have "owned e" if "authOK d" "owned d"
      using sqliteOwnerGuard_passes [OF guard row(3,1) _ that] i by (auto simp: owned_def list_ex_iff e)
    moreover have "revokedKept d e" by (auto simp: revokedKept_def list_all_iff e)
    ultimately show ?thesis using deleteUserRows_legal [OF del] by (simp add: authKeeps_def)
  qed
qed

lemma CreateSession_keeps: "CreateSession s env d = (r, d') \<Longrightarrow> authKeeps d d'"
  by (auto simp: CreateSession_def elim!: Write_keeps dest: keeps_sqliteInsertSession)

lemma CreateSessionForCredential_Inr:
  assumes "CreateSessionForCredential s hash env d = (Inr (t, u), d')"
  obtains stamp where "queryUser (\<lambda>r. urID r = sUserID s) d = Inr (Some u)" "uActive u" "uPasswordHash u = hash"
    "sqliteInsertSession (envUUID env) stamp s d = Inr (d', t)"
  using assms unfolding CreateSessionForCredential_def
  by (rule Write_Inr) (auto simp: bindE_eq_Inr split: option.splits if_splits)

lemma CreateSessionForCredential_keeps:
  assumes "CreateSessionForCredential s hash env d = (r, d')"
  shows "authKeeps d d'"
proof (cases r)
  case (Inl e)
  then have "d' = d" using assms unfolding CreateSessionForCredential_def by (auto dest: Write_Inl)
  then show ?thesis by (simp add: keeps_refl)
next
  case (Inr x)
  obtain t u where "x = (t, u)" by (cases x)
  then obtain stamp where "sqliteInsertSession (envUUID env) stamp s d = Inr (d', t)"
    using assms Inr by (auto elim: CreateSessionForCredential_Inr)
  then show ?thesis by (rule keeps_sqliteInsertSession)
qed

lemma sessionStamp_keeps:
  assumes "sessionStamp i at column env d = (r, d')" "\<And>k r. ssID (column k r) = ssID r" "\<And>k r. ssTokenHash (column k r) = ssTokenHash r"
  shows "authKeeps d d'"
  using assms(1) unfolding sessionStamp_def
  by (rule Write_keeps) (auto simp: bindE_eq_Inr assms(2,3) elim!: keeps_updateSessions)

lemma AddAudit_keeps: "AddAudit event env d = (r, d') \<Longrightarrow> authKeeps d d'"
  by (auto simp: AddAudit_def bindE_eq_Inr elim!: Write_keeps dest: keeps_sqliteInsertAudit)

text \<open>What a password reset or change does, step by step.\<close>

lemma passwordMutation_Inr:
  assumes "passwordMutation target sessionID hash at event reset env d = (Inr u', d')"
  obtains stamp txStamp u d1 d2 where
    "sqliteTime at = Inr stamp" "reset \<or> changingSession target sessionID at d = Inr ()"
    "queryUser (\<lambda>r. (if reset then urUsername r else urID r) = target) d = Inr (Some u)" "uActive u"
    "u' = u\<lparr>uPasswordHash := hash, uPasswordChangeRequired := reset, uUpdatedAt := at\<rparr>"
    "sqliteWriteUser u' stamp d = Inr d1"
    "updateSessionRows (\<lambda>r. ssUserID r = uID u \<and> ssRevokedAt r = None \<and> (reset \<or> ssID r \<noteq> sessionID)) (\<lambda>r. r\<lparr>ssRevokedAt := Some stamp\<rparr>) d1 = Inr d2"
    "sqliteInsertAudit (envUUID env) txStamp (event\<lparr>evResourceID := Some (uID u)\<rparr>) d2 = Inr d'"
  using assms unfolding passwordMutation_def
  by (rule Write_Inr) (auto simp: bindE_eq_Inr Let_def split: option.splits if_splits)

lemma keeps_trans_users:
  assumes "authKeeps d d1" "authKeeps d1 d2" "urID ` set (tbUsers d1) = urID ` set (tbUsers d2)"
  shows "authKeeps d d2"
  using assms unfolding authKeeps_def revokedKept_def list_all_iff by metis

lemma passwordMutation_keeps:
  assumes "passwordMutation target sessionID hash at event reset env d = (r, d')"
  shows "authKeeps d d'"
proof (cases r)
  case (Inl e)
  then have "d' = d" using assms unfolding passwordMutation_def by (auto dest: Write_Inl)
  then show ?thesis by (simp add: keeps_refl)
next
  case (Inr u')
  note run = assms [unfolded Inr]
  obtain stamp txStamp u d1 d2 where u: "queryUser (\<lambda>r. (if reset then urUsername r else urID r) = target) d = Inr (Some u)" "uActive u"
    "u' = u\<lparr>uPasswordHash := hash, uPasswordChangeRequired := reset, uUpdatedAt := at\<rparr>"
    and w: "sqliteWriteUser u' stamp d = Inr d1"
    and s: "updateSessionRows (\<lambda>r. ssUserID r = uID u \<and> ssRevokedAt r = None \<and> (reset \<or> ssID r \<noteq> sessionID)) (\<lambda>r. r\<lparr>ssRevokedAt := Some stamp\<rparr>) d1 = Inr d2"
    and a: "sqliteInsertAudit (envUUID env) txStamp (event\<lparr>evResourceID := Some (uID u)\<rparr>) d2 = Inr d'"
    using run by (rule passwordMutation_Inr)
  obtain row where row: "row \<in> set (tbUsers d)" "sqliteScanUser row = Inr u" using u(1) by (auto elim: queryUser_found)
  note fields = sqliteScanUser_fields [OF row(2)]
  have "authKeeps d d1"
  proof (rule keeps_updateUser [OF w [unfolded sqliteWriteUser_def]])
    assume "authOK d" "owned d"
    then obtain o1 where o1: "o1 \<in> set (tbUsers d)" "isActiveOwner o1" by (auto simp: owned_def list_ex_iff)
    show "(\<exists>r\<in>set (tbUsers d). isActiveOwner r \<and> urID r \<noteq> uID u') \<or>
      (\<exists>r\<in>set (tbUsers d). urID r = uID u' \<and> isActiveOwner (r\<lparr>urRole := uRole u', urActive := sqliteBool (uActive u'),
         urPasswordHash := uPasswordHash u', urPasswordChangeRequired := sqliteBool (uPasswordChangeRequired u'), urUpdatedAt := stamp\<rparr>))"
    proof (cases "urID o1 = uID u'")
      case True
      then have "o1 = row" using o1(1) row(1) fields(1) u(3) \<open>authOK d\<close> by (auto simp: authOK_def distinct_map inj_on_def)
      then show ?thesis using o1 True fields u(2,3) by (auto simp: isActiveOwner_def sqliteBool_def)
    qed (use o1 in blast)
  qed simp_all
  moreover have "authKeeps d1 d2" by (rule keeps_updateSessions [OF s]) simp_all
  moreover have "authKeeps d2 d'" using a by (rule keeps_sqliteInsertAudit)
  moreover have "tbUsers d2 = tbUsers d1" "tbUsers d' = tbUsers d2"
    using updateSessionRows_tables [OF s] a by (auto simp: sqliteInsertAudit_def bindE_eq_Inr dest: insertAuditRow_tables)
  ultimately show ?thesis by (metis keeps_trans_users)
qed

section \<open>Runs\<close>

text \<open>One transaction of any caller.\<close>

inductive authStep :: "authDB \<Rightarrow> authDB \<Rightarrow> bool" where
  "CreateUser u env d = (r1, d') \<Longrightarrow> authStep d d'"
| "BootstrapUser u env d = (r2, d') \<Longrightarrow> authStep d d'"
| "UpdateUser i patch env d = (r3, d') \<Longrightarrow> authStep d d'"
| "DeleteUser i env d = (r4, d') \<Longrightarrow> authStep d d'"
| "CreateSession s env d = (r5, d') \<Longrightarrow> authStep d d'"
| "CreateSessionForCredential s hash env d = (r6, d') \<Longrightarrow> authStep d d'"
| "RevokeSession i at env d = (r7, d') \<Longrightarrow> authStep d d'"
| "TouchSession i at env d = (r8, d') \<Longrightarrow> authStep d d'"
| "AddAudit event env d = (r9, d') \<Longrightarrow> authStep d d'"
| "StoreResetPassword username hash at event env d = (r10, d') \<Longrightarrow> authStep d d'"
| "CompletePasswordChange i sid hash at event env d = (r11, d') \<Longrightarrow> authStep d d'"

lemma authStep_keeps: "authStep d d' \<Longrightarrow> authKeeps d d'"
proof (induction rule: authStep.induct)
  case (7 i at env d r7 d')
  then show ?case unfolding RevokeSession_def by (rule sessionStamp_keeps) simp_all
next
  case (8 i at env d r8 d')
  then show ?case unfolding TouchSession_def by (rule sessionStamp_keeps) simp_all
next
  case (10 username hash at event env d r10 d')
  then show ?case unfolding StoreResetPassword_def by (rule passwordMutation_keeps)
next
  case (11 i sid hash at event env d r11 d')
  then show ?case unfolding CompletePasswordChange_def by (rule passwordMutation_keeps)
qed (blast intro: CreateUser_keeps BootstrapUser_keeps UpdateUser_keeps DeleteUser_keeps CreateSession_keeps
  CreateSessionForCredential_keeps AddAudit_keeps)+

lemma authSteps_keep: "authStep\<^sup>*\<^sup>* d d' \<Longrightarrow> authOK d \<Longrightarrow> authOK d' \<and> (owned d \<longrightarrow> owned d')"
proof (induction rule: rtranclp_induct)
  case (step e f)
  then show ?case using authStep_keeps [OF step.hyps(2)] by (simp add: authKeeps_def)
qed simp

end
