(* ===== verification/AuthService.thy ===== *)
theory AuthService
  imports AuthLaws
begin

text \<open>
  The authentication service (\<open>internal/auth/service.go\<close>, \<open>users.go\<close>) over the SQLite store, which has both optional
  capabilities of a store (\<open>BootstrapUser\<close>, \<open>CreateSessionForCredential\<close>).  A call is a function of the tables and
  of a counter that numbers its effects; what the clock, the random source and the database answer to the n-th
  effect is the environment.
\<close>

section \<open>Effects\<close>

record authEnv =
  aeNow :: "nat \<Rightarrow> gotime"
  aeUUID :: "nat \<Rightarrow> string"
  aeRandom :: "nat \<Rightarrow> nat \<Rightarrow> bytes option"
  aeReadFails :: "nat \<Rightarrow> bool"
  aeWriteFails :: "nat \<Rightarrow> bool"
  aeKey :: scrypt

record authWorld =
  awDB :: authDB
  awTick :: nat

type_synonym 'a auth = "authWorld \<Rightarrow> (store_error + 'a) \<times> authWorld"

definition returnA :: "'a \<Rightarrow> 'a auth" where
  "returnA x w = (Inr x, w)"

definition throwA :: "store_error \<Rightarrow> 'a auth" where
  "throwA e w = (Inl e, w)"

definition bindA :: "'a auth \<Rightarrow> ('a \<Rightarrow> 'b auth) \<Rightarrow> 'b auth" where
  "bindA m f w = (case m w of (Inl e, w') \<Rightarrow> (Inl e, w') | (Inr x, w') \<Rightarrow> f x w')"

definition nextTick :: "authWorld \<Rightarrow> authWorld" where
  "nextTick w = w\<lparr>awTick := Suc (awTick w)\<rparr>"

definition nowA :: "authEnv \<Rightarrow> gotime auth" where
  "nowA env w = (Inr (aeNow env (awTick w)), nextTick w)"

definition uuidA :: "authEnv \<Rightarrow> string auth" where
  "uuidA env w = (Inr (aeUUID env (awTick w)), nextTick w)"

definition randomA :: "authEnv \<Rightarrow> nat \<Rightarrow> bytes option auth" where
  "randomA env n w = (Inr (aeRandom env (awTick w) n), nextTick w)"

definition refuseA :: "auth_error + 'a \<Rightarrow> 'a auth" where
  "refuseA r w = ((case r of Inl e \<Rightarrow> Inl (Refused e) | Inr x \<Rightarrow> Inr x), w)"

definition readA :: "authEnv \<Rightarrow> (authDB \<Rightarrow> store_error + 'a) \<Rightarrow> 'a auth" where
  "readA env query w = ((if aeReadFails env (awTick w) then Inl IOError else query (awDB w)), nextTick w)"

definition writeA :: "authEnv \<Rightarrow> (writeEnv \<Rightarrow> authDB \<Rightarrow> (store_error + 'a) \<times> authDB) \<Rightarrow> 'a auth" where
  "writeA env operation w =
     (let (r, d) = operation \<lparr>envNow = aeNow env (awTick w), envUUID = aeUUID env (awTick w), envFails = aeWriteFails env (awTick w)\<rparr> (awDB w) in
      (r, nextTick (w\<lparr>awDB := d\<rparr>)))"

text \<open>\<open>_ = s.audit(...)\<close>: the error is dropped, the effects stay.\<close>

definition ignoreA :: "'a auth \<Rightarrow> unit auth" where
  "ignoreA m w = (Inr (), snd (m w))"

definition thenA :: "'a auth \<Rightarrow> 'b auth \<Rightarrow> 'b auth" where
  "thenA m k = bindA m (\<lambda>_. k)"

section \<open>Audit events\<close>

definition auditEvent :: "authEnv \<Rightarrow> string \<Rightarrow> string \<Rightarrow> string option \<Rightarrow> string option \<Rightarrow> string \<Rightarrow> json option \<Rightarrow> AuditEvent auth" where
  "auditEvent env action resourceType resourceID actorUserID result afterValue =
     bindA (uuidA env) (\<lambda>i. bindA (uuidA env) (\<lambda>correlation. bindA (nowA env) (\<lambda>now.
     returnA \<lparr>evID = i, evActorUserID = actorUserID, evAction = action, evResourceType = resourceType, evResourceID = resourceID,
       evAfterValue = afterValue, evCorrelation = correlation, evResult = result, evCreatedAt = now\<rparr>)))"

definition audit :: "authEnv \<Rightarrow> string \<Rightarrow> string \<Rightarrow> string option \<Rightarrow> string option \<Rightarrow> string \<Rightarrow> json option \<Rightarrow> unit auth" where
  "audit env action resourceType resourceID actorUserID result afterValue =
     bindA (auditEvent env action resourceType resourceID actorUserID result afterValue) (\<lambda>event. writeA env (AddAudit event))"

section \<open>Sessions\<close>

record Service =
  svSessionTTL :: int

definition NewService :: "int \<Rightarrow> Service" where
  "NewService ttl = \<lparr>svSessionTTL = (if ttl \<le> 0 then 8 * 3600 * 1000000000 else ttl)\<rparr>"

definition addTime :: "gotime \<Rightarrow> int \<Rightarrow> gotime" where
  "addTime t d = (let n = fst t * 1000000000 + snd t + d in (n div 1000000000, n mod 1000000000))"

record AuthSession =
  asToken :: string
  asUserID :: string
  asExpiresAt :: gotime
  asUser :: User

definition nameValue :: "string \<Rightarrow> json option" where
  "nameValue username = Some (JObj [(''username'', JStr username)])"

definition roleValue :: "string \<Rightarrow> json option" where
  "roleValue role = Some (JObj [(''role'', JStr role)])"

definition loginFailure :: "authEnv \<Rightarrow> string option \<Rightarrow> string \<Rightarrow> unit auth" where
  "loginFailure env userID username = ignoreA (audit env ''login'' ''user'' userID None ''failure'' (nameValue username))"

definition credentialSession :: "authEnv \<Rightarrow> Session \<Rightarrow> User \<Rightarrow> string \<Rightarrow> (Session \<times> User) auth" where
  "credentialSession env session user normalized w =
     (let (r, w') = writeA env (CreateSessionForCredential session (uPasswordHash user)) w in
      if r = Inl (Refused ErrInvalidCredential) then (r, snd (loginFailure env (Some (uID user)) normalized w')) else (r, w'))"

definition Login :: "authEnv \<Rightarrow> Service \<Rightarrow> string \<Rightarrow> string \<Rightarrow> AuthSession auth" where
  "Login env s username password =
     (case NormalizeUsername username of
        Inl e \<Rightarrow> thenA (loginFailure env None (TrimSpace (ToLower username))) (throwA (Refused ErrInvalidCredential))
      | Inr normalized \<Rightarrow>
          bindA (readA env (FindUserByUsername normalized)) (\<lambda>found.
          case found of
            None \<Rightarrow> thenA (loginFailure env None normalized) (throwA (Refused ErrInvalidCredential))
          | Some user \<Rightarrow>
              if \<not> uActive user \<or> \<not> VerifyPassword (aeKey env) password (uPasswordHash user)
              then thenA (loginFailure env (Some (uID user)) normalized) (throwA (Refused ErrInvalidCredential))
              else
                bindA (randomA env opaqueTokenBytes) (\<lambda>random.
                bindA (refuseA (CreateOpaqueToken random)) (\<lambda>token.
                bindA (nowA env) (\<lambda>now.
                bindA (uuidA env) (\<lambda>i.
                bindA (credentialSession env
                  \<lparr>sID = i, sUserID = uID user, sTokenHash = HashOpaqueToken token, sExpiresAt = addTime now (svSessionTTL s),
                   sRevokedAt = None, sLastSeenAt = None, sCreatedAt = now\<rparr> user normalized) (\<lambda>(session, current).
                thenA (ignoreA (audit env ''login'' ''user'' (Some (uID current)) None ''success'' None))
                  (returnA \<lparr>asToken = token, asUserID = uID current, asExpiresAt = sExpiresAt session, asUser = current\<rparr>))))))))"

text \<open>The session of a token, as \<open>Authenticate\<close> and \<open>ChangePassword\<close> look it up, with the time of the check and its user.\<close>

definition liveSession :: "authEnv \<Rightarrow> string \<Rightarrow> (Session \<times> gotime \<times> User) auth" where
  "liveSession env token =
     (if TrimSpace token = [] then throwA (Refused ErrInvalidSession)
      else
        bindA (readA env (FindSessionByTokenHash (HashOpaqueToken token))) (\<lambda>found.
        bindA (nowA env) (\<lambda>now.
        case found of
          None \<Rightarrow> throwA (Refused ErrInvalidSession)
        | Some session \<Rightarrow>
            if sRevokedAt session \<noteq> None \<or> \<not> timeAfter (sExpiresAt session) now then throwA (Refused ErrInvalidSession)
            else
              bindA (readA env (FindUserByID (sUserID session))) (\<lambda>user.
              case user of
                None \<Rightarrow> throwA (Refused ErrUnavailableUser)
              | Some user \<Rightarrow> if \<not> uActive user then throwA (Refused ErrUnavailableUser) else returnA (session, now, user)))))"

definition Authenticate :: "authEnv \<Rightarrow> string \<Rightarrow> User auth" where
  "Authenticate env token =
     bindA (liveSession env token) (\<lambda>(session, now, user).
     thenA (writeA env (TouchSession (sID session) now)) (returnA user))"

definition ChangePassword :: "authEnv \<Rightarrow> string \<Rightarrow> string \<Rightarrow> User auth" where
  "ChangePassword env token password =
     bindA (liveSession env token) (\<lambda>(session, now, user).
     bindA (randomA env passwordSaltLength) (\<lambda>salt.
     bindA (refuseA (HashPassword (aeKey env) salt password)) (\<lambda>hash.
     bindA (auditEvent env ''password.change'' ''user'' (Some (uID user)) (Some (uID user)) ''success'' None) (\<lambda>event.
     writeA env (CompletePasswordChange (uID user) (sID session) hash now event)))))"

definition ResetPassword :: "authEnv \<Rightarrow> string \<Rightarrow> string auth" where
  "ResetPassword env username =
     bindA (refuseA (NormalizeUsername username)) (\<lambda>normalized.
     bindA (randomA env temporaryPasswordBytes) (\<lambda>random.
     bindA (refuseA (GenerateTemporaryPassword random)) (\<lambda>temporary.
     bindA (randomA env passwordSaltLength) (\<lambda>salt.
     bindA (refuseA (HashPassword (aeKey env) salt temporary)) (\<lambda>hash.
     bindA (nowA env) (\<lambda>now.
     bindA (auditEvent env ''password.reset'' ''user'' None None ''success'' None) (\<lambda>event.
     thenA (writeA env (StoreResetPassword normalized hash now event)) (returnA temporary))))))))"

definition revokeFound :: "authEnv \<Rightarrow> Session \<Rightarrow> unit auth" where
  "revokeFound env session =
     (if sRevokedAt session \<noteq> None then returnA ()
      else
        bindA (nowA env) (\<lambda>now.
        thenA (writeA env (RevokeSession (sID session) now))
          (ignoreA (audit env ''logout'' ''session'' (Some (sID session)) (Some (sUserID session)) ''success'' None))))"

definition Revoke :: "authEnv \<Rightarrow> string \<Rightarrow> unit auth" where
  "Revoke env token =
     (if TrimSpace token = [] then returnA ()
      else
        bindA (readA env (FindSessionByTokenHash (HashOpaqueToken token))) (\<lambda>found.
        case found of None \<Rightarrow> returnA () | Some session \<Rightarrow> revokeFound env session))"

definition Logout :: "authEnv \<Rightarrow> string \<Rightarrow> unit auth" where
  "Logout env token = Revoke env token"

section \<open>Users\<close>

definition buildUser :: "authEnv \<Rightarrow> string \<Rightarrow> string \<Rightarrow> string \<Rightarrow> User auth" where
  "buildUser env username password role =
     bindA (refuseA (NormalizeUsername username)) (\<lambda>normalized.
     bindA (randomA env passwordSaltLength) (\<lambda>salt.
     bindA (refuseA (HashPassword (aeKey env) salt password)) (\<lambda>hash.
     bindA (nowA env) (\<lambda>now.
     bindA (uuidA env) (\<lambda>i.
     returnA \<lparr>uID = i, uUsername = normalized, uPasswordHash = hash, uRole = role, uActive = True,
       uPasswordChangeRequired = False, uCreatedAt = now, uUpdatedAt = now\<rparr>)))))"

definition bootstrapDenied :: "authEnv \<Rightarrow> unit auth" where
  "bootstrapDenied env = ignoreA (audit env ''bootstrap'' ''installation'' None None ''denied'' None)"

definition insertFirst :: "authEnv \<Rightarrow> User \<Rightarrow> User auth" where
  "insertFirst env user w =
     (let (r, w') = writeA env (BootstrapUser user) w in
      if r = Inl (Refused ErrBootstrapComplete) then (r, snd (bootstrapDenied env w')) else (r, w'))"

definition Bootstrap :: "authEnv \<Rightarrow> string \<Rightarrow> string \<Rightarrow> User auth" where
  "Bootstrap env username password =
     bindA (readA env ListUsers) (\<lambda>users.
     if list_ex uActive users then thenA (bootstrapDenied env) (throwA (Refused ErrBootstrapComplete))
     else
       bindA (buildUser env username password RoleOwner) (\<lambda>user.
       bindA (insertFirst env user) (\<lambda>created.
       thenA (ignoreA (audit env ''bootstrap'' ''user'' (Some (uID created)) None ''success'' (roleValue (uRole created))))
         (returnA created))))"

definition ServiceListUsers :: "authEnv \<Rightarrow> User list auth" where
  "ServiceListUsers env = readA env ListUsers"

definition ServiceCreateUser :: "authEnv \<Rightarrow> User \<Rightarrow> string \<Rightarrow> string \<Rightarrow> string \<Rightarrow> User auth" where
  "ServiceCreateUser env actor username password role =
     bindA (buildUser env username password role) (\<lambda>user.
     bindA (writeA env (CreateUser user)) (\<lambda>created.
     thenA (ignoreA (audit env ''user.create'' ''user'' (Some (uID created)) (Some (uID actor)) ''success'' (roleValue (uRole created))))
       (returnA created)))"

definition activeOwnerCount :: "authEnv \<Rightarrow> nat auth" where
  "activeOwnerCount env = bindA (readA env ListUsers) (\<lambda>users. returnA (length (filter (\<lambda>u. uActive u \<and> uRole u = RoleOwner) users)))"

definition ServiceUpdateUser :: "authEnv \<Rightarrow> User \<Rightarrow> string \<Rightarrow> UserPatch \<Rightarrow> User auth" where
  "ServiceUpdateUser env actor userID patch =
     bindA (readA env (FindUserByID userID)) (\<lambda>found.
     case found of
       None \<Rightarrow> throwA (Refused ErrUserNotFound)
     | Some target \<Rightarrow>
         let demoting = (upRole patch = Some RoleOperator \<or> upActive patch = Some False) in
         thenA
           (if uRole target = RoleOwner \<and> demoting then
              bindA (activeOwnerCount env) (\<lambda>count.
              if count \<le> 1 then throwA (Refused (LastOwner ''Cannot remove or demote the last Owner'')) else returnA ())
            else returnA ())
           (bindA (writeA env (UpdateUser userID
              \<lparr>upRole = upRole patch, upActive = upActive patch, upPasswordHash = upPasswordHash patch, upPasswordChangeRequired = None\<rparr>)) (\<lambda>updated.
            thenA (ignoreA (audit env ''user.update'' ''user'' (Some userID) (Some (uID actor)) ''success'' None)) (returnA updated))))"

definition ServiceDeleteUser :: "authEnv \<Rightarrow> User \<Rightarrow> string \<Rightarrow> unit auth" where
  "ServiceDeleteUser env actor userID =
     bindA (readA env (FindUserByID userID)) (\<lambda>found.
     case found of
       None \<Rightarrow> throwA (Refused ErrUserNotFound)
     | Some target \<Rightarrow>
         thenA
           (if uRole target = RoleOwner then
              bindA (activeOwnerCount env) (\<lambda>count.
              if count \<le> 1 then throwA (Refused (LastOwner ''Cannot delete the last Owner'')) else returnA ())
            else returnA ())
           (bindA (writeA env (DeleteUser userID)) (\<lambda>_.
            ignoreA (audit env ''user.delete'' ''user'' (Some userID) (Some (uID actor)) ''success'' None))))"

end
