(* ===== verification/AuthProps.thy ===== *)
theory AuthProps
  imports AuthService
begin

text \<open>
  Lemmas on the authentication service: what each operation that succeeded did to the tables, and that in an
  environment without failures the operations on sessions succeed.
\<close>

section \<open>Effects\<close>

lemma ball_map: "(\<forall>y\<in>set (map f xs). P y) \<longleftrightarrow> (\<forall>x\<in>set xs. P (f x))"
  by simp

lemma bindA_Inr: "bindA m f w = (Inr y, w') \<longleftrightarrow> (\<exists>x v. m w = (Inr x, v) \<and> f x v = (Inr y, w'))"
  by (auto simp: bindA_def split: prod.splits sum.splits)

lemma thenA_Inr: "thenA m k w = (Inr y, w') \<longleftrightarrow> (\<exists>x v. m w = (Inr x, v) \<and> k v = (Inr y, w'))"
  by (simp add: thenA_def bindA_Inr)

lemma nextTick_DB [simp]: "awDB (nextTick w) = awDB w"
  by (simp add: nextTick_def)

lemma effects_Inr:
  "returnA x w = (Inr y, w') \<longleftrightarrow> y = x \<and> w' = w" "throwA e w \<noteq> (Inr y, w')"
  "nowA env w = (Inr t, w') \<longleftrightarrow> t = aeNow env (awTick w) \<and> w' = nextTick w"
  "uuidA env w = (Inr i, w') \<longleftrightarrow> i = aeUUID env (awTick w) \<and> w' = nextTick w"
  "randomA env n w = (Inr bs, w') \<longleftrightarrow> bs = aeRandom env (awTick w) n \<and> w' = nextTick w"
  "refuseA r w = (Inr y, w') \<longleftrightarrow> r = Inr y \<and> w' = w"
  "readA env query w = (Inr z, w') \<longleftrightarrow> \<not> aeReadFails env (awTick w) \<and> query (awDB w) = Inr z \<and> w' = nextTick w"
  "ignoreA m w = (Inr u, w') \<longleftrightarrow> w' = snd (m w)"
  by (auto simp: returnA_def throwA_def nowA_def uuidA_def randomA_def refuseA_def readA_def ignoreA_def split: sum.splits)

lemma guard_Inr:
  "(if b then throwA e else m) w = (Inr y, w') \<longleftrightarrow> \<not> b \<and> m w = (Inr y, w')"
  "(case x of None \<Rightarrow> throwA e | Some v \<Rightarrow> g v) w = (Inr y, w') \<longleftrightarrow> (\<exists>v. x = Some v \<and> g v w = (Inr y, w'))"
  "(if b then thenA l (throwA e) else m) w = (Inr y, w') \<longleftrightarrow> \<not> b \<and> m w = (Inr y, w')"
  "(case x of None \<Rightarrow> thenA l (throwA e) | Some v \<Rightarrow> g v) w = (Inr y, w') \<longleftrightarrow> (\<exists>v. x = Some v \<and> g v w = (Inr y, w'))"
  by (auto simp: thenA_Inr effects_Inr split: option.splits)

lemmas runA = bindA_Inr thenA_Inr effects_Inr guard_Inr

lemma writeA_Inr: "writeA env operation w = (r, w') \<Longrightarrow> \<exists>tx. operation tx (awDB w) = (r, awDB w')"
  by (auto simp: writeA_def Let_def split: prod.splits)

lemma auditEvent_DB: "auditEvent env a t i u res v w = (r, w') \<Longrightarrow> awDB w' = awDB w"
  by (auto simp: auditEvent_def bindA_def uuidA_def nowA_def returnA_def)

lemma AddAudit_tables: "AddAudit event env d = (r, d') \<Longrightarrow> tbUsers d' = tbUsers d \<and> tbSessions d' = tbSessions d"
  by (cases r) (auto simp: AddAudit_def bindE_eq_Inr sqliteInsertAudit_def dest: Write_Inl elim!: Write_Inr dest!: insertAuditRow_tables)

text \<open>Auditing changes no user and no session.\<close>

lemma audit_tables:
  assumes "audit env a t i u res v w = (r, w')"
  shows "tbUsers (awDB w') = tbUsers (awDB w)" "tbSessions (awDB w') = tbSessions (awDB w)"
proof -
  obtain event w1 where e: "auditEvent env a t i u res v w = (Inr event, w1)"
    by (auto simp: auditEvent_def bindA_def uuidA_def nowA_def returnA_def)
  then have "writeA env (AddAudit event) w1 = (r, w')" using assms by (simp add: audit_def bindA_def)
  then obtain tx where "AddAudit event tx (awDB w1) = (r, awDB w')" using writeA_Inr by blast
  from AddAudit_tables [OF this] show "tbUsers (awDB w') = tbUsers (awDB w)" "tbSessions (awDB w') = tbSessions (awDB w)"
    using auditEvent_DB [OF e] by simp_all
qed

lemma ignored_audit_tables:
  "tbUsers (awDB (snd (audit env a t i u res v w))) = tbUsers (awDB w)" "tbSessions (awDB (snd (audit env a t i u res v w))) = tbSessions (awDB w)"
  using audit_tables [of env a t i u res v w "fst (audit env a t i u res v w)"] by simp_all

section \<open>Times\<close>

lemma sqliteTime_range: "sqliteTime t = Inr k \<Longrightarrow> finiteRange (fst t) (snd t) \<and> EncodeTimestamp (FiniteTimestamp (fst t) (snd t)) = Inr (Some k)"
  by (auto simp: sqliteTime_def sqliteMinSecond_def sqliteMaxSecond_def EncodeTimestamp_def finiteRange_def split: if_splits)

lemma sqliteTime_text: "sqliteTime t = Inr k \<Longrightarrow> timestampText k"
  using sqliteTime_range timestampText_stamp by blast

lemma sqliteTime_roundtrip:
  assumes "sqliteTime t = Inr k"
  shows "sqliteDecodeTime (Some k) = Inr t"
proof -
  have r: "finiteRange (fst t) (snd t)" "EncodeTimestamp (FiniteTimestamp (fst t) (snd t)) = Inr (Some k)"
    using sqliteTime_range [OF assms] by simp_all
  then have "DecodeTimestamp (Some k) = Inr (FiniteTimestamp (fst t) (snd t))"
    using EncodeTimestamp_finite [OF r(1)] DecodeTimestamp_finite [OF r(1)] by simp
  then show ?thesis using assms by (auto simp: sqliteDecodeTime_def sqliteTime_def split: if_splits)
qed

section \<open>Sessions\<close>

lemma querySession_found:
  assumes "querySession cond d = Inr (Some s)"
  obtains row where "row \<in> set (tbSessions d)" "cond row" "sqliteScanSession row = Inr s"
  using assms by (auto simp: querySession_def bindE_eq_Inr split: option.splits dest: find_some)

lemma sqliteScanSession_fields:
  assumes "sqliteScanSession row = Inr s"
  shows "sID s = ssID row" "sUserID s = ssUserID row" "sTokenHash s = ssTokenHash row" "sRevokedAt s = None \<longleftrightarrow> ssRevokedAt row = None"
    "sqliteDecodeTime (Some (ssExpiresAt row)) = Inr (sExpiresAt s)"
  using assms by (auto simp: sqliteScanSession_def sqliteNullableTime_def bindE_eq_Inr split: option.splits)

text \<open>What \<open>Authenticate\<close> and \<open>ChangePassword\<close> know of the session they found.\<close>

lemma liveSession_Inr:
  assumes "liveSession env token w = (Inr (s, now, u), w')"
  obtains row urow where "awDB w' = awDB w" "now = aeNow env (Suc (awTick w))"
    "row \<in> set (tbSessions (awDB w))" "ssTokenHash row = HashOpaqueToken token" "ssRevokedAt row = None" "sqliteScanSession row = Inr s"
    "timeAfter (sExpiresAt s) now" "urow \<in> set (tbUsers (awDB w))" "urID urow = ssUserID row" "urActive urow = 1" "sqliteScanUser urow = Inr u"
proof -
  have f: "FindSessionByTokenHash (HashOpaqueToken token) (awDB w) = Inr (Some s)"
    and t: "timeAfter (sExpiresAt s) now" and now: "now = aeNow env (Suc (awTick w))"
    and u: "FindUserByID (sUserID s) (awDB w) = Inr (Some u)" "uActive u" and db: "awDB w' = awDB w"
    using assms by (auto simp: liveSession_def runA nextTick_def)
  obtain row where row: "row \<in> set (tbSessions (awDB w))" "ssTokenHash row = HashOpaqueToken token" "ssRevokedAt row = None" "sqliteScanSession row = Inr s"
    using f unfolding FindSessionByTokenHash_def by (auto elim: querySession_found)
  obtain urow where urow: "urow \<in> set (tbUsers (awDB w))" "urID urow = sUserID s" "sqliteScanUser urow = Inr u"
    using u(1) unfolding FindUserByID_def by (auto elim: queryUser_found)
  show thesis
    using that [OF db now row t urow(1) _ _ urow(3)] urow(2) u(2) sqliteScanSession_fields(2) [OF row(4)] sqliteScanUser_fields(5) [OF urow(3)] by simp
qed

lemma TouchSession_tables:
  assumes "TouchSession i at tx d = (Inr (), d')"
  obtains stamp where "sqliteTime at = Inr stamp"
    "d' = d\<lparr>tbSessions := map (\<lambda>r. if ssID r = i \<and> ssRevokedAt r = None then r\<lparr>ssLastSeenAt := Some stamp\<rparr> else r) (tbSessions d)\<rparr>"
  using assms unfolding TouchSession_def sessionStamp_def
  by (rule Write_Inr) (auto simp: bindE_eq_Inr dest!: updateSessionRows_tables)

lemma RevokeSession_tables:
  assumes "RevokeSession i at tx d = (Inr (), d')"
  obtains stamp where "sqliteTime at = Inr stamp"
    "d' = d\<lparr>tbSessions := map (\<lambda>r. if ssID r = i \<and> ssRevokedAt r = None then r\<lparr>ssRevokedAt := Some stamp\<rparr> else r) (tbSessions d)\<rparr>"
  using assms unfolding RevokeSession_def sessionStamp_def
  by (rule Write_Inr) (auto simp: bindE_eq_Inr dest!: updateSessionRows_tables)

text \<open>A token without an unrevoked session is never accepted.\<close>

lemma Authenticate_needs_session:
  assumes "\<And>r. r \<in> set (tbSessions (awDB w)) \<Longrightarrow> ssTokenHash r = HashOpaqueToken token \<Longrightarrow> ssRevokedAt r \<noteq> None"
  shows "isl (fst (Authenticate env token w))"
proof (rule ccontr)
  assume "\<not> isl (fst (Authenticate env token w))"
  then obtain u w' where "Authenticate env token w = (Inr u, w')"
    by (cases "Authenticate env token w", cases "fst (Authenticate env token w)") auto
  then obtain s now w1 where "liveSession env token w = (Inr (s, now, u), w1)" by (auto simp: Authenticate_def runA)
  then obtain row where "row \<in> set (tbSessions (awDB w))" "ssTokenHash row = HashOpaqueToken token" "ssRevokedAt row = None"
    by (rule liveSession_Inr)
  then show False using assms by blast
qed

section \<open>Changing passwords\<close>

lemma sqliteInsertAudit_tables:
  assumes "sqliteInsertAudit uuid stamp event d = Inr d'"
  obtains a where "d' = d\<lparr>tbAudits := tbAudits d @ [a]\<rparr>" "arAction a = evAction event" "arResourceID a = evResourceID event"
  using assms by (auto simp: sqliteInsertAudit_def bindE_eq_Inr dest!: insertAuditRow_tables)

text \<open>The tables after a password was set: the row of the user, the sessions that end, one audit event.\<close>

lemma passwordMutation_tables:
  assumes "passwordMutation target sessionID hash at event reset tx d = (Inr u', d')"
  obtains row stamp a where
    "row \<in> set (tbUsers d)" "(if reset then urUsername row else urID row) = target" "urActive row = 1" "uID u' = urID row"
    "reset \<or> changingSession target sessionID at d = Inr ()"
    "tbUsers d' = map (\<lambda>r. if urID r = urID row
       then r\<lparr>urRole := urRole row, urActive := 1, urPasswordHash := hash, urPasswordChangeRequired := sqliteBool reset, urUpdatedAt := stamp\<rparr>
       else r) (tbUsers d)"
    "tbSessions d' = map (\<lambda>r. if ssUserID r = urID row \<and> ssRevokedAt r = None \<and> (reset \<or> ssID r \<noteq> sessionID)
       then r\<lparr>ssRevokedAt := Some stamp\<rparr> else r) (tbSessions d)"
    "tbAudits d' = tbAudits d @ [a]" "arAction a = evAction event" "arResourceID a = Some (urID row)"
  using assms
proof (rule passwordMutation_Inr)
  fix stamp txStamp u d1 d2
  assume c: "reset \<or> changingSession target sessionID at d = Inr ()"
    and u: "queryUser (\<lambda>r. (if reset then urUsername r else urID r) = target) d = Inr (Some u)" "uActive u"
    "u' = u\<lparr>uPasswordHash := hash, uPasswordChangeRequired := reset, uUpdatedAt := at\<rparr>"
    and w: "sqliteWriteUser u' stamp d = Inr d1"
    and s: "updateSessionRows (\<lambda>r. ssUserID r = uID u \<and> ssRevokedAt r = None \<and> (reset \<or> ssID r \<noteq> sessionID)) (\<lambda>r. r\<lparr>ssRevokedAt := Some stamp\<rparr>) d1 = Inr d2"
    and a: "sqliteInsertAudit (envUUID tx) txStamp (event\<lparr>evResourceID := Some (uID u)\<rparr>) d2 = Inr d'"
  obtain row where row: "row \<in> set (tbUsers d)" "(if reset then urUsername row else urID row) = target" "sqliteScanUser row = Inr u"
    using u(1) by (rule queryUser_found)
  note fields = sqliteScanUser_fields [OF row(3)]
  note d1 = updateUserRows_tables [OF w [unfolded sqliteWriteUser_def]] and d2 = updateSessionRows_tables [OF s]
  obtain b where b: "d' = d2\<lparr>tbAudits := tbAudits d2 @ [b]\<rparr>" "arAction b = evAction event" "arResourceID b = Some (uID u)"
    using a by (auto elim: sqliteInsertAudit_tables)
  show thesis
  proof (rule that [OF row(1,2) _ _ c])
    show "urActive row = 1" "uID u' = urID row" using u(2,3) fields by simp_all
    show "tbUsers d' = map (\<lambda>r. if urID r = urID row
       then r\<lparr>urRole := urRole row, urActive := 1, urPasswordHash := hash, urPasswordChangeRequired := sqliteBool reset, urUpdatedAt := stamp\<rparr>
       else r) (tbUsers d)"
      using u(2) fields(1,4) by (simp add: b(1) d2 d1 u(3) sqliteBool_def)
    show "tbSessions d' = map (\<lambda>r. if ssUserID r = urID row \<and> ssRevokedAt r = None \<and> (reset \<or> ssID r \<noteq> sessionID)
       then r\<lparr>ssRevokedAt := Some stamp\<rparr> else r) (tbSessions d)"
      using fields(1) by (simp add: b(1) d2 d1)
    show "tbAudits d' = tbAudits d @ [b]" by (simp add: b(1) d2 d1)
    show "arAction b = evAction event" by (rule b(2))
    show "arResourceID b = Some (urID row)" using b(3) fields(1) by simp
  qed
qed

definition endedFor :: "string \<Rightarrow> string option \<Rightarrow> authDB \<Rightarrow> bool" where
  "endedFor userID kept d \<longleftrightarrow> list_all (\<lambda>s. ssUserID s \<noteq> userID \<or> ssRevokedAt s \<noteq> None \<or> kept = Some (ssID s)) (tbSessions d)"

definition othersSame :: "string \<Rightarrow> authDB \<Rightarrow> authDB \<Rightarrow> bool" where
  "othersSame userID d d' \<longleftrightarrow>
     filter (\<lambda>r. urID r \<noteq> userID) (tbUsers d') = filter (\<lambda>r. urID r \<noteq> userID) (tbUsers d) \<and>
     filter (\<lambda>s. ssUserID s \<noteq> userID) (tbSessions d') = filter (\<lambda>s. ssUserID s \<noteq> userID) (tbSessions d)"

lemma filter_map_id: "(\<And>x. P (f x) = P x) \<Longrightarrow> (\<And>x. P x \<Longrightarrow> f x = x) \<Longrightarrow> filter P (map f xs) = filter P xs"
  by (induction xs) auto

lemma passwordMutation_effect:
  assumes "passwordMutation target sessionID hash at event reset tx d = (Inr u', d')"
  obtains row a where
    "row \<in> set (tbUsers d')" "(if reset then urUsername row else urID row) = target" "uID u' = urID row" "urActive row = 1"
    "urPasswordHash row = hash" "urPasswordChangeRequired row = sqliteBool reset"
    "endedFor (urID row) (if reset then None else Some sessionID) d'" "othersSame (urID row) d d'"
    "tbAudits d' = tbAudits d @ [a]" "arAction a = evAction event" "arResourceID a = Some (urID row)"
    "\<And>x. \<not> reset \<Longrightarrow> x \<in> set (tbSessions d) \<Longrightarrow> ssID x = sessionID \<Longrightarrow> x \<in> set (tbSessions d')"
  using assms
proof (rule passwordMutation_tables)
  fix row :: userRow and stamp and a :: auditRow
  let ?f = "\<lambda>r :: userRow. if urID r = urID row
       then r\<lparr>urRole := urRole row, urActive := 1, urPasswordHash := hash, urPasswordChangeRequired := sqliteBool reset, urUpdatedAt := stamp\<rparr>
       else r"
  let ?g = "\<lambda>r :: sessionRow. if ssUserID r = urID row \<and> ssRevokedAt r = None \<and> (reset \<or> ssID r \<noteq> sessionID)
       then r\<lparr>ssRevokedAt := Some stamp\<rparr> else r"
  assume row: "row \<in> set (tbUsers d)" "(if reset then urUsername row else urID row) = target" "uID u' = urID row"
    and users: "tbUsers d' = map ?f (tbUsers d)" and sessions: "tbSessions d' = map ?g (tbSessions d)"
    and audit: "tbAudits d' = tbAudits d @ [a]" "arAction a = evAction event" "arResourceID a = Some (urID row)"
  let ?r = "row\<lparr>urActive := 1, urPasswordHash := hash, urPasswordChangeRequired := sqliteBool reset, urUpdatedAt := stamp\<rparr>"
  have "?f row \<in> set (tbUsers d')" unfolding users set_map using row(1) by (rule imageI)
  then have "?r \<in> set (tbUsers d')" by simp
  moreover have "x \<in> set (tbSessions d')" if "\<not> reset" "x \<in> set (tbSessions d)" "ssID x = sessionID" for x
  proof -
    have "?g x \<in> set (tbSessions d')" unfolding sessions set_map using that(2) by (rule imageI)
    then show ?thesis using that(1,3) by simp
  qed
  moreover have "endedFor (urID row) (if reset then None else Some sessionID) d'"
    unfolding endedFor_def sessions list.pred_map by (auto simp: list_all_iff)
  moreover have "othersSame (urID row) d d'"
    unfolding othersSame_def users sessions by (intro conjI filter_map_id) simp_all
  ultimately show thesis using that [of ?r a] row(2,3) audit by (cases reset) simp_all
qed

lemma auditEvent_Inr: "auditEvent env action t i u res v w = (Inr event, w') \<Longrightarrow> evAction event = action \<and> awDB w' = awDB w"
  by (auto simp: auditEvent_def runA)

section \<open>Logging in\<close>

lemma sqliteInsertSession_Inr:
  assumes "sqliteInsertSession uuid stamp s d = Inr (d', t)" "sRevokedAt s = None" "sLastSeenAt s = None"
  obtains row where "sTokenHash t = sTokenHash s" "sUserID t = sUserID s" "sExpiresAt t = sExpiresAt s" "sRevokedAt t = None"
    "d' = d\<lparr>tbSessions := tbSessions d @ [row]\<rparr>" "sqliteScanSession row = Inr t" "ssTokenHash row = sTokenHash s"
    "ssTokenHash row \<notin> ssTokenHash ` set (tbSessions d)" "ssRevokedAt row = None"
proof -
  obtain expires created where k: "sqliteTime (sExpiresAt t) = Inr expires" "sqliteTime (sCreatedAt t) = Inr created"
    and t: "sTokenHash t = sTokenHash s" "sUserID t = sUserID s" "sExpiresAt t = sExpiresAt s" "sRevokedAt t = None" "sLastSeenAt t = None"
    and i: "insertSessionRow \<lparr>ssID = sID t, ssUserID = sUserID t, ssTokenHash = sTokenHash t, ssExpiresAt = expires, ssRevokedAt = None,
           ssLastSeenAt = None, ssCreatedAt = created\<rparr> d = Inr d'"
    using assms by (auto simp: sqliteInsertSession_def bindE_eq_Inr Let_def sqliteTimePointer_def split: if_splits)
  let ?row = "\<lparr>ssID = sID t, ssUserID = sUserID t, ssTokenHash = sTokenHash t, ssExpiresAt = expires, ssRevokedAt = None,
           ssLastSeenAt = None, ssCreatedAt = created\<rparr>"
  have "sqliteScanSession ?row = Inr t"
    using sqliteTime_roundtrip [OF k(1)] sqliteTime_roundtrip [OF k(2)] t(4,5)
    by (simp add: sqliteScanSession_def sqliteNullableTime_def bindE_def)
  then show thesis using that [of ?row] t i by (simp add: insertSessionRow_def split: if_splits)
qed

lemma find_append_last: "(\<And>x. x \<in> set xs \<Longrightarrow> \<not> P x) \<Longrightarrow> P y \<Longrightarrow> find P (xs @ [y]) = Some y"
  by (induction xs) auto

lemma EncodeToString_visible: "c \<in> set (EncodeToString bs) \<Longrightarrow> visible c"
proof -
  assume "c \<in> set (EncodeToString bs)"
  then have "c \<in> set b64Alphabet"
    using EncodeToString_bound [of bs] by (auto simp: EncodeToString_def b64Char_def list_all_iff b64Alphabet_length)
  moreover have "list_all visible b64Alphabet" by code_simp
  ultimately show ?thesis by (simp add: list_all_iff)
qed

lemma EncodeToString_token:
  assumes "bs \<noteq> []"
  shows "TrimSpace (EncodeToString bs) \<noteq> []"
proof -
  have "b64Sextets (map unat bs) \<noteq> []" using assms by (cases "map unat bs" rule: b64Sextets.cases) auto
  then have ne: "EncodeToString bs \<noteq> []" by (simp add: EncodeToString_def)
  then have "TrimSpace (EncodeToString bs) = EncodeToString bs"
    using EncodeToString_visible [of _ bs] by (intro TrimSpace_id) simp
  then show ?thesis using ne by simp
qed

lemma audit_keeps:
  assumes "audit env a t i u res v w = (r, w')"
  shows "authKeeps (awDB w) (awDB w')"
proof -
  obtain event w1 where e: "auditEvent env a t i u res v w = (Inr event, w1)"
    by (auto simp: auditEvent_def bindA_def uuidA_def nowA_def returnA_def)
  then have "writeA env (AddAudit event) w1 = (r, w')" using assms by (simp add: audit_def bindA_def)
  then obtain tx where "AddAudit event tx (awDB w1) = (r, awDB w')" using writeA_Inr by blast
  then have "authKeeps (awDB w1) (awDB w')" by (rule AddAudit_keeps)
  then show ?thesis using auditEvent_DB [OF e] by simp
qed

text \<open>What a login that succeeded did.\<close>

lemma Login_Inr:
  assumes "Login env svc username password w = (Inr a, w')"
  obtains user bs tx session t w1 where
    "\<exists>normalized. NormalizeUsername username = Inr normalized \<and> FindUserByUsername normalized (awDB w) = Inr (Some user)"
    "uActive user" "VerifyPassword (aeKey env) password (uPasswordHash user)"
    "aeRandom env (Suc (awTick w)) opaqueTokenBytes = Some bs" "asToken a = EncodeToString bs"
    "sUserID session = uID user" "sTokenHash session = HashOpaqueToken (asToken a)" "sRevokedAt session = None" "sLastSeenAt session = None"
    "sExpiresAt session = addTime (aeNow env (Suc (Suc (awTick w)))) (svSessionTTL svc)"
    "CreateSessionForCredential session (uPasswordHash user) tx (awDB w) = (Inr (t, asUser a), awDB w1)"
    "asUserID a = uID (asUser a)" "asExpiresAt a = sExpiresAt t"
    "\<exists>r i. audit env ''login'' ''user'' i None ''success'' None w1 = (r, w')"
proof -
  obtain normalized user bs where n: "NormalizeUsername username = Inr normalized" "FindUserByUsername normalized (awDB w) = Inr (Some user)"
    and v: "uActive user" "VerifyPassword (aeKey env) password (uPasswordHash user)"
    and b: "aeRandom env (Suc (awTick w)) opaqueTokenBytes = Some bs"
    and c: "bindA (credentialSession env
                  \<lparr>sID = aeUUID env (Suc (Suc (Suc (awTick w)))), sUserID = uID user, sTokenHash = HashOpaqueToken (EncodeToString bs),
                   sExpiresAt = addTime (aeNow env (Suc (Suc (awTick w)))) (svSessionTTL svc),
                   sRevokedAt = None, sLastSeenAt = None, sCreatedAt = aeNow env (Suc (Suc (awTick w)))\<rparr> user normalized) (\<lambda>(session, current).
                thenA (ignoreA (audit env ''login'' ''user'' (Some (uID current)) None ''success'' None))
                  (returnA \<lparr>asToken = EncodeToString bs, asUserID = uID current, asExpiresAt = sExpiresAt session, asUser = current\<rparr>))
       (nextTick (nextTick (nextTick (nextTick w)))) = (Inr a, w')"
    using assms by (auto simp: Login_def runA CreateOpaqueToken_def nextTick_def split: sum.splits option.splits)
  let ?s = "\<lparr>sID = aeUUID env (Suc (Suc (Suc (awTick w)))), sUserID = uID user, sTokenHash = HashOpaqueToken (EncodeToString bs),
                   sExpiresAt = addTime (aeNow env (Suc (Suc (awTick w)))) (svSessionTTL svc),
                   sRevokedAt = None, sLastSeenAt = None, sCreatedAt = aeNow env (Suc (Suc (awTick w)))\<rparr>"
  obtain t current w1 where s: "credentialSession env ?s user normalized (nextTick (nextTick (nextTick (nextTick w)))) = (Inr (t, current), w1)"
    and w': "w' = snd (audit env ''login'' ''user'' (Some (uID current)) None ''success'' None w1)"
    and a: "a = \<lparr>asToken = EncodeToString bs, asUserID = uID current, asExpiresAt = sExpiresAt t, asUser = current\<rparr>"
    using c by (auto simp: runA)
  have "writeA env (CreateSessionForCredential ?s (uPasswordHash user)) (nextTick (nextTick (nextTick (nextTick w)))) = (Inr (t, current), w1)"
    using s by (auto simp: credentialSession_def Let_def split: prod.splits if_splits)
  then obtain tx where "CreateSessionForCredential ?s (uPasswordHash user) tx (awDB w) = (Inr (t, current), awDB w1)"
    using writeA_Inr by fastforce
  then show thesis using that [of user bs ?s tx t w1] n v b a w' by (simp add: prod_eq_iff) metis
qed

text \<open>An environment in which no call fails and every clock reading is a legal time.\<close>

definition calm :: "authEnv \<Rightarrow> bool" where
  "calm env \<longleftrightarrow> (\<forall>n. \<not> aeReadFails env n \<and> \<not> aeWriteFails env n \<and> \<not> isl (sqliteTime (aeNow env n)))"

text \<open>The random source fills the buffer it is given.\<close>

definition fillsBuffers :: "authEnv \<Rightarrow> bool" where
  "fillsBuffers env \<longleftrightarrow> (\<forall>n k bs. aeRandom env n k = Some bs \<longrightarrow> length bs = k)"

lemma Write_calm:
  assumes "sqliteTime (envNow tx) = Inr k" "\<not> envFails tx" "f k d = Inr (d', x)"
  shows "Write tx d f = (Inr x, d')"
  using Write_ok [of tx k f d d' x] sqliteTime_range [OF assms(1)] assms(2,3) by simp

lemma sessionStamp_calm:
  assumes "authOK d" "sqliteTime at = Inr stamp" "\<not> envFails tx" "sqliteTime (envNow tx) = Inr k"
    "\<And>r. sessionRowOK d r \<Longrightarrow> sessionRowOK d (column stamp r)"
  shows "\<exists>d'. sessionStamp i at column tx d = (Inr (), d')"
proof -
  have "list_all (\<lambda>r. ssID r = i \<and> ssRevokedAt r = None \<longrightarrow> sessionRowOK d (column stamp r)) (tbSessions d)"
    using assms(1,5) by (auto simp: authOK_def list_all_iff)
  then have "sessionStamp i at column tx d = (Inr (), d\<lparr>tbSessions := map (\<lambda>r. if ssID r = i \<and> ssRevokedAt r = None then column stamp r else r) (tbSessions d)\<rparr>)"
    unfolding sessionStamp_def using assms(2) by (intro Write_calm [OF assms(4,3)]) (simp add: updateSessionRows_def bindE_def)
  then show ?thesis by blast
qed

lemma calm_write:
  assumes "calm env"
  obtains k where "sqliteTime (aeNow env n) = Inr k" "\<not> aeWriteFails env n"
  using assms by (metis calm_def isl_def sum.exhaust)

lemma writeA_session_calm:
  assumes "calm env" "authOK (awDB w)" "sqliteTime at = Inr stamp" "\<And>r. sessionRowOK (awDB w) r \<Longrightarrow> sessionRowOK (awDB w) (column stamp r)"
  shows "\<exists>w'. writeA env (sessionStamp i at column) w = (Inr (), w')"
proof -
  obtain k where "sqliteTime (aeNow env (awTick w)) = Inr k" "\<not> aeWriteFails env (awTick w)" using assms(1) by (rule calm_write)
  then have "\<exists>d'. sessionStamp i at column \<lparr>envNow = aeNow env (awTick w), envUUID = aeUUID env (awTick w), envFails = aeWriteFails env (awTick w)\<rparr> (awDB w) = (Inr (), d')"
    by (intro sessionStamp_calm [OF assms(2,3)]) (simp_all add: assms(4))
  then show ?thesis by (auto simp: writeA_def)
qed

lemma Authenticate_calm:
  assumes "calm env" "authOK (awDB w)" "TrimSpace token \<noteq> []"
    "FindSessionByTokenHash (HashOpaqueToken token) (awDB w) = Inr (Some s)" "sRevokedAt s = None" "timeAfter (sExpiresAt s) (aeNow env (Suc (awTick w)))"
    "FindUserByID (sUserID s) (awDB w) = Inr (Some u)" "uActive u"
  shows "fst (Authenticate env token w) = Inr u"
proof -
  let ?now = "aeNow env (Suc (awTick w))" and ?w = "nextTick (nextTick (nextTick w))"
  have live: "liveSession env token w = (Inr (s, ?now, u), ?w)"
    using assms by (simp add: liveSession_def bindA_def readA_def nowA_def returnA_def calm_def nextTick_def)
  obtain stamp where t: "sqliteTime ?now = Inr stamp" using assms(1) by (rule calm_write)
  have "\<exists>w'. writeA env (TouchSession (sID s) ?now) ?w = (Inr (), w')"
    unfolding TouchSession_def using assms(2) sqliteTime_text [OF t]
    by (intro writeA_session_calm [OF assms(1) _ t]) (simp_all add: sessionRowOK_def)
  then show ?thesis by (auto simp: Authenticate_def bindA_def thenA_def live returnA_def)
qed

lemma Logout_calm:
  assumes "calm env" "authOK (awDB w)" "TrimSpace token \<noteq> []"
    "FindSessionByTokenHash (HashOpaqueToken token) (awDB w) = Inr (Some s)" "sRevokedAt s = None"
  shows "fst (Logout env token w) = Inr ()"
proof -
  let ?now = "aeNow env (Suc (awTick w))" and ?w = "nextTick (nextTick w)"
  obtain stamp where t: "sqliteTime ?now = Inr stamp" using assms(1) by (rule calm_write)
  have "\<exists>w'. writeA env (RevokeSession (sID s) ?now) ?w = (Inr (), w')"
    unfolding RevokeSession_def using assms(2) sqliteTime_text [OF t]
    by (intro writeA_session_calm [OF assms(1) _ t]) (simp_all add: sessionRowOK_def)
  moreover have "\<not> aeReadFails env (awTick w)" using assms(1) by (simp add: calm_def)
  ultimately show ?thesis using assms(3-5)
    by (auto simp: Logout_def Revoke_def revokeFound_def bindA_def thenA_def readA_def nowA_def ignoreA_def nextTick_def)
qed

section \<open>Bootstrap\<close>

lemma BootstrapUser_row:
  assumes "BootstrapUser user tx d = (Inr x, d')"
  shows "\<not> list_ex (\<lambda>r. urActive r = 1) (tbUsers d)"
    "\<exists>row. tbUsers d' = tbUsers d @ [row] \<and> isActiveOwner row \<and> urID row = uID x \<and>
      urUsername row = uUsername user \<and> urPasswordHash row = uPasswordHash user"
  using assms unfolding BootstrapUser_def
  by (rule Write_Inr,
      auto simp: sqliteInsertUser_def bindE_eq_Inr Let_def isActiveOwner_def sqliteBool_def split: if_splits dest!: insertUserRow_tables)+

lemma Bootstrap_inserts:
  assumes "Bootstrap env username password w = (Inr u, w')"
  obtains user d1 tx salt where "HashPassword (aeKey env) salt password = Inr (uPasswordHash user)" "NormalizeUsername username = Inr (uUsername user)"
    "BootstrapUser user tx (awDB w) = (Inr u, d1)" "tbUsers (awDB w') = tbUsers d1"
proof -
  obtain user w0 w1 where user: "buildUser env username password RoleOwner (nextTick w) = (Inr user, w0)" and i: "insertFirst env user w0 = (Inr u, w1)"
    and w': "tbUsers (awDB w') = tbUsers (awDB w1)"
    using assms ignored_audit_tables by (auto simp: Bootstrap_def runA)
  have "writeA env (BootstrapUser user) w0 = (Inr u, w1)" using i by (auto simp: insertFirst_def Let_def split: prod.splits if_splits)
  then obtain tx where "BootstrapUser user tx (awDB w0) = (Inr u, awDB w1)" using writeA_Inr by blast
  moreover obtain salt where "awDB w0 = awDB w" "NormalizeUsername username = Inr (uUsername user)" "HashPassword (aeKey env) salt password = Inr (uPasswordHash user)"
    using user by (auto simp: buildUser_def runA)
  ultimately show thesis using that [of salt user tx "awDB w1"] w' by simp
qed

lemma Bootstrap_refused:
  assumes "list_ex (\<lambda>r. urActive r = 1) (tbUsers (awDB w))"
  shows "isl (fst (Bootstrap env username password w))"
proof (rule ccontr)
  assume "\<not> ?thesis"
  then obtain x w' where "Bootstrap env username password w = (Inr x, w')"
    by (cases "Bootstrap env username password w", cases "fst (Bootstrap env username password w)") auto
  then show False
  proof (rule Bootstrap_inserts)
    fix user d1 tx
    assume "BootstrapUser user tx (awDB w) = (Inr x, d1)"
    then show False using assms BootstrapUser_row(1) by simp
  qed
qed

end
