(* ===== verification/AuthGuarantees.thy ===== *)
theory AuthGuarantees
  imports AuthProps
begin

text \<open>
  What the user store and the authentication service guarantee: who gets a session, when a token is accepted, what
  logging out and changing passwords end, and that there is one bootstrap and always an owner.  The installation
  the witnesses run on comes first.
\<close>

section \<open>A concrete installation\<close>

definition demoKey :: string where
  "demoKey = ''1'' @ fixedDigits 20 (nat (1000 + 2 ^ 63)) @ ''.'' @ fixedDigits 9 0"

definition demoExpiry :: string where
  "demoExpiry = ''1'' @ fixedDigits 20 (nat (2000 + 2 ^ 63)) @ ''.'' @ fixedDigits 9 0"

definition demoEnv :: authEnv where
  "demoEnv = \<lparr>aeNow = \<lambda>_. (1000, 0), aeUUID = \<lambda>_. ''99999999-9999-4999-8999-999999999999'', aeRandom = \<lambda>n k. Some (replicate k 1),
     aeReadFails = \<lambda>_. False, aeWriteFails = \<lambda>_. False, aeKey = padKey\<rparr>"

definition demoUserRow :: userRow where
  "demoUserRow = \<lparr>urID = ''11111111-1111-4111-8111-111111111111'', urUsername = ''ada'', urPasswordHash = storedHello, urRole = RoleOwner,
     urActive = 1, urPasswordChangeRequired = 0, urCreatedAt = demoKey, urUpdatedAt = demoKey\<rparr>"

definition demoSessionRow :: sessionRow where
  "demoSessionRow = \<lparr>ssID = ''22222222-2222-4222-8222-222222222222'', ssUserID = ''11111111-1111-4111-8111-111111111111'',
     ssTokenHash = HashOpaqueToken ''token'', ssExpiresAt = demoExpiry, ssRevokedAt = None, ssLastSeenAt = None, ssCreatedAt = demoKey\<rparr>"

definition demoWorld :: authWorld where
  "demoWorld = \<lparr>awDB = \<lparr>tbUsers = [demoUserRow], tbSessions = [demoSessionRow], tbAudits = [], tbReferences = []\<rparr>, awTick = 0\<rparr>"

lemma demo_times: "sqliteTime (1000, 0) = Inr demoKey" "sqliteTime (2000, 0) = Inr demoExpiry"
  by (simp_all add: sqliteTime_def sqliteMinSecond_def sqliteMaxSecond_def EncodeTimestamp_finite finiteRange_def demoKey_def demoExpiry_def)

lemmas demo_decode = sqliteTime_roundtrip [OF demo_times(1)] sqliteTime_roundtrip [OF demo_times(2)]
lemmas demo_text = sqliteTime_text [OF demo_times(1)] sqliteTime_text [OF demo_times(2)]

lemma demo_uuids:
  "uuidPattern ''11111111-1111-4111-8111-111111111111''" "uuidPattern ''22222222-2222-4222-8222-222222222222''"
  "uuidPattern ''99999999-9999-4999-8999-999999999999''"
  by code_simp+

lemma EncodeToString_noNUL: "noNUL (EncodeToString bs)"
proof -
  have "set (EncodeToString bs) \<subseteq> set b64Alphabet"
    using EncodeToString_bound [of bs] by (auto simp: EncodeToString_def b64Char_def list_all_iff b64Alphabet_length)
  moreover have "NUL \<notin> set b64Alphabet" by (simp add: NUL_def b64Alphabet_def)
  ultimately show ?thesis by (auto simp: noNUL_def)
qed

lemma natItoa_noNUL: "noNUL (natItoa n)"
  using natItoa_digits [of n] by (auto simp: noNUL_def NUL_def list_all_iff isDigit_def)

lemma stored_noNUL: "noNUL (Join [''scrypt'', Itoa passwordN, Itoa passwordR, Itoa passwordP, EncodeToString a, EncodeToString b] ''$'')"
  using EncodeToString_noNUL [of a] EncodeToString_noNUL [of b] natItoa_noNUL
  by (simp add: noNUL_def Itoa_def passwordN_def passwordR_def passwordP_def) (simp add: NUL_def)

lemma token_noNUL: "noNUL (HashOpaqueToken t)"
proof -
  have "isHexText (HashOpaqueToken t)" unfolding HashOpaqueToken_def by (rule hexEncode_hex) (simp add: sha256_ok)
  then show ?thesis by (auto simp: noNUL_def NUL_def isHexText_def list_all_iff isDigit_def)
qed

lemma demo_ok: "authOK (awDB demoWorld)"
proof -
  have "noNUL storedHello" unfolding storedHello_def by (rule stored_noNUL)
  moreover have "noNUL ''ada''" by (simp add: noNUL_def NUL_def)
  ultimately show ?thesis
    using demo_uuids demo_text token_noNUL
    by (simp add: authOK_def demoWorld_def userRowOK_def sessionRowOK_def demoUserRow_def demoSessionRow_def)
qed

lemma demo_calm: "calm demoEnv"
  by (simp add: calm_def demoEnv_def demo_times)

definition demoUser :: User where
  "demoUser = \<lparr>uID = ''11111111-1111-4111-8111-111111111111'', uUsername = ''ada'', uPasswordHash = storedHello, uRole = RoleOwner,
     uActive = True, uPasswordChangeRequired = False, uCreatedAt = (1000, 0), uUpdatedAt = (1000, 0)\<rparr>"

lemma demo_user: "sqliteScanUser demoUserRow = Inr demoUser"
  by (simp add: sqliteScanUser_def sqliteReadBool_def demoUserRow_def demoUser_def demo_decode bindE_def)

definition demoSession :: Session where
  "demoSession = \<lparr>sID = ''22222222-2222-4222-8222-222222222222'', sUserID = ''11111111-1111-4111-8111-111111111111'',
     sTokenHash = HashOpaqueToken ''token'', sExpiresAt = (2000, 0), sRevokedAt = None, sLastSeenAt = None, sCreatedAt = (1000, 0)\<rparr>"

lemma demo_active: "uActive demoUser"
  by (simp add: demoUser_def)

lemma demo_session: "sqliteScanSession demoSessionRow = Inr demoSession"
  by (simp add: sqliteScanSession_def sqliteNullableTime_def demoSessionRow_def demoSession_def demo_decode bindE_def)

lemma demo_token: "TrimSpace ''token'' \<noteq> []"
proof -
  have "visible (CHR ''t'')" "visible (CHR ''n'')" by code_simp+
  then show ?thesis by (simp add: TrimSpace_id)
qed

lemma demo_finds:
  "FindSessionByTokenHash (HashOpaqueToken ''token'') (awDB demoWorld) = Inr (Some demoSession)"
  "FindUserByID ''11111111-1111-4111-8111-111111111111'' (awDB demoWorld) = Inr (Some demoUser)"
  using demo_session demo_user
  by (simp_all add: FindSessionByTokenHash_def FindUserByID_def querySession_def queryUser_def demoWorld_def demoSessionRow_def demoUserRow_def bindE_def)

text \<open>Neither of the two ways to set a password fails in the installation.\<close>

lemma demo_mutation:
  assumes "reset \<and> target = ''ada'' \<or> \<not> reset \<and> target = uID demoUser \<and> sessionID = sID demoSession" "noNUL hash"
    "event = \<lparr>evID = ''99999999-9999-4999-8999-999999999999'', evActorUserID = actor, evAction = action, evResourceType = ''user'', evResourceID = rid,
       evAfterValue = None, evCorrelation = ''99999999-9999-4999-8999-999999999999'', evResult = ''success'', evCreatedAt = (1000, 0)\<rparr>"
    "pred_option (\<lambda>a. a = uID demoUser) actor" "noNUL action" "envNow tx = (1000, 0)" "\<not> envFails tx"
  shows "\<exists>u d'. passwordMutation target sessionID hash (1000, 0) event reset tx (awDB demoWorld) = (Inr u, d')"
proof -
  let ?u = "demoUser\<lparr>uPasswordHash := hash, uPasswordChangeRequired := reset, uUpdatedAt := (1000, 0)\<rparr>"
  let ?row = "demoUserRow\<lparr>urPasswordHash := hash, urPasswordChangeRequired := sqliteBool reset, urUpdatedAt := demoKey\<rparr>"
  let ?d1 = "(awDB demoWorld)\<lparr>tbUsers := [?row]\<rparr>"
  let ?c = "\<lambda>r. ssUserID r = uID demoUser \<and> ssRevokedAt r = None \<and> (reset \<or> ssID r \<noteq> sessionID)"
  define d2 where "d2 = ?d1\<lparr>tbSessions := map (\<lambda>r. if ?c r then r\<lparr>ssRevokedAt := Some demoKey\<rparr> else r) [demoSessionRow]\<rparr>"
  have q: "queryUser (\<lambda>r. (if reset then urUsername r else urID r) = target) (awDB demoWorld) = Inr (Some demoUser)"
    using assms(1) demo_user by (auto simp: queryUser_def demoWorld_def demoUserRow_def demoUser_def bindE_def)
  have c: "(if reset then Inr () else changingSession target sessionID (1000, 0) (awDB demoWorld)) = Inr ()"
    using assms(1) demo_session
    by (auto simp: changingSession_def querySession_def demoWorld_def demoSessionRow_def demoSession_def demoUser_def bindE_def timeAfter_def)
  have w: "sqliteWriteUser ?u demoKey (awDB demoWorld) = Inr ?d1"
    using assms(2) demo_uuids demo_text
    by (simp add: sqliteWriteUser_def updateUserRows_def demoWorld_def demoUserRow_def demoUser_def userRowOK_def sqliteBool_def noNUL_def NUL_def)
  have s: "updateSessionRows ?c (\<lambda>r. r\<lparr>ssRevokedAt := Some demoKey\<rparr>) ?d1 = Inr d2"
    using demo_uuids demo_text token_noNUL
    by (simp add: d2_def updateSessionRows_def demoWorld_def demoSessionRow_def sessionRowOK_def demoUserRow_def demoUser_def)
  have "\<exists>d'. sqliteInsertAudit (envUUID tx) demoKey (event\<lparr>evResourceID := Some (uID demoUser)\<rparr>) d2 = Inr d'"
    using assms(4,5) demo_uuids demo_text
    by (simp add: d2_def assms(3) sqliteInsertAudit_def demo_decode demo_times defaultTime_def zeroTime_def defaultID_def bindE_def insertAuditRow_def auditRowOK_def
        demoWorld_def demoUserRow_def demoUser_def noNUL_def NUL_def option.pred_set)
  then obtain d' where a: "sqliteInsertAudit (envUUID tx) demoKey (event\<lparr>evResourceID := Some (uID demoUser)\<rparr>) d2 = Inr d'" by blast
  have "passwordMutation target sessionID hash (1000, 0) event reset tx (awDB demoWorld) = (Inr ?u, d')"
    unfolding passwordMutation_def
    by (rule Write_calm [of tx demoKey]) (simp_all add: assms(6,7) demo_times c q w s a Let_def demo_active)
  then show ?thesis by blast
qed

lemma demo_password: "HashPassword padKey (Some (replicate 16 1)) p = Inr h \<Longrightarrow> noNUL h"
  using stored_noNUL by (auto elim!: HashPassword_Inr)

lemma demo_name: "NormalizeUsername ''ada'' = Inr ''ada''"
proof -
  have "visible (CHR ''a'')" by code_simp
  then have t: "TrimSpace ''ada'' = ''ada''" by (simp add: TrimSpace_id)
  have l: "ToLower ''ada'' = ''ada''" by code_simp
  have p: "usernamePattern ''ada''" by code_simp
  show ?thesis by (simp only: NormalizeUsername_def t l p Let_def if_True)
qed

definition demoTemporary :: string where
  "demoTemporary = EncodeToString (replicate 24 1)"

lemma demo_hash:
  assumes "5 \<le> length p"
  shows "\<exists>h. HashPassword padKey (Some (replicate 16 1)) p = Inr h"
  using assms by (simp add: HashPassword_def minPasswordLength_def padKey_def)

lemma b64Sextets_length: "length as \<le> length (b64Sextets as)"
  by (induction as rule: b64Sextets.induct) auto

lemma demo_temporary: "5 \<le> length demoTemporary"
  using b64Sextets_length [of "replicate 24 1"] by (simp add: demoTemporary_def EncodeToString_def)

lemma demo_reset: "\<exists>w'. ResetPassword demoEnv ''ada'' demoWorld = (Inr demoTemporary, w')"
proof -
  obtain h where h: "HashPassword padKey (Some (replicate 16 1)) demoTemporary = Inr h" using demo_hash demo_temporary by blast
  let ?tx = "\<lparr>envNow = (1000, 0), envUUID = ''99999999-9999-4999-8999-999999999999'', envFails = False\<rparr>"
  let ?e = "\<lparr>evID = ''99999999-9999-4999-8999-999999999999'', evActorUserID = None, evAction = ''password.reset'', evResourceType = ''user'', evResourceID = None,
       evAfterValue = None, evCorrelation = ''99999999-9999-4999-8999-999999999999'', evResult = ''success'', evCreatedAt = (1000, 0)\<rparr>"
  have "\<exists>u d'. passwordMutation ''ada'' [] h (1000, 0) ?e True ?tx (awDB demoWorld) = (Inr u, d')"
    by (rule demo_mutation [OF _ demo_password [OF h] refl]) (simp_all add: noNUL_def NUL_def)
  then obtain u d' where m: "passwordMutation ''ada'' [] h (1000, 0) ?e True ?tx (awDB demoWorld) = (Inr u, d')" by blast
  have g: "GenerateTemporaryPassword (Some (replicate temporaryPasswordBytes 1)) = Inr demoTemporary"
    by (simp add: GenerateTemporaryPassword_def temporaryPasswordBytes_def demoTemporary_def)
  show ?thesis
    using m h g
    by (simp add: ResetPassword_def demo_name bindA_def thenA_def refuseA_def randomA_def nowA_def auditEvent_def uuidA_def returnA_def writeA_def
        StoreResetPassword_def demoEnv_def passwordSaltLength_def)
qed

definition demoPassword :: string where
  "demoPassword = ''brand new''"

lemma demo_change: "\<exists>u w'. ChangePassword demoEnv ''token'' demoPassword demoWorld = (Inr u, w')"
proof -
  obtain h where h: "HashPassword padKey (Some (replicate 16 1)) demoPassword = Inr h" using demo_hash by (force simp: demoPassword_def)
  let ?tx = "\<lparr>envNow = (1000, 0), envUUID = ''99999999-9999-4999-8999-999999999999'', envFails = False\<rparr>"
  let ?i = "Some (uID demoUser)"
  let ?e = "\<lparr>evID = ''99999999-9999-4999-8999-999999999999'', evActorUserID = ?i, evAction = ''password.change'', evResourceType = ''user'', evResourceID = ?i,
       evAfterValue = None, evCorrelation = ''99999999-9999-4999-8999-999999999999'', evResult = ''success'', evCreatedAt = (1000, 0)\<rparr>"
  have "\<exists>u d'. passwordMutation (uID demoUser) (sID demoSession) h (1000, 0) ?e False ?tx (awDB demoWorld) = (Inr u, d')"
    by (rule demo_mutation [OF _ demo_password [OF h] refl]) (simp_all add: noNUL_def NUL_def)
  then obtain u d' where m: "passwordMutation (uID demoUser) (sID demoSession) h (1000, 0) ?e False ?tx (awDB demoWorld) = (Inr u, d')" by blast
  have live: "liveSession demoEnv ''token'' demoWorld = (Inr (demoSession, (1000, 0), demoUser), nextTick (nextTick (nextTick demoWorld)))"
    using demo_token demo_finds demo_active
    by (simp add: liveSession_def bindA_def readA_def nowA_def returnA_def demoEnv_def demoSession_def timeAfter_def)
  show ?thesis
    using m h live
    by (simp add: ChangePassword_def bindA_def refuseA_def randomA_def nowA_def auditEvent_def uuidA_def returnA_def writeA_def
        CompletePasswordChange_def demoEnv_def passwordSaltLength_def)
qed

text \<open>The same installation before anyone logged in, and before the bootstrap.\<close>

definition quietWorld :: authWorld where
  "quietWorld = \<lparr>awDB = \<lparr>tbUsers = [demoUserRow], tbSessions = [], tbAudits = [], tbReferences = []\<rparr>, awTick = 0\<rparr>"

definition emptyWorld :: authWorld where
  "emptyWorld = \<lparr>awDB = \<lparr>tbUsers = [], tbSessions = [], tbAudits = [], tbReferences = []\<rparr>, awTick = 0\<rparr>"

lemma quiet_ok: "authOK (awDB quietWorld)"
  using demo_ok by (simp add: authOK_def quietWorld_def demoWorld_def)

definition hourService :: Service where
  "hourService = NewService (3600 * 1000000000)"

lemma demo_later: "addTime (1000, 0) (svSessionTTL hourService) = (4600, 0)"
  by (simp add: addTime_def hourService_def NewService_def)

lemma demo_verify: "VerifyPassword padKey ''hello'' storedHello"
proof (rule HashPassword_verifies [OF padKey_length])
  show "HashPassword padKey (Some [7]) ''hello'' = Inr storedHello"
    by (simp add: HashPassword_def minPasswordLength_def storedHello_def padKey_def)
qed

lemma later_time: "\<exists>k. sqliteTime (4600, 0) = Inr k"
  by (simp add: sqliteTime_def sqliteMinSecond_def sqliteMaxSecond_def EncodeTimestamp_finite finiteRange_def)

lemma demo_login: "\<exists>a w'. Login demoEnv hourService ''ada'' ''hello'' quietWorld = (Inr a, w') \<and> asExpiresAt a = (4600, 0)"
proof -
  let ?w = "nextTick (nextTick (nextTick (nextTick quietWorld)))"
  let ?tx = "\<lparr>envNow = (1000, 0), envUUID = ''99999999-9999-4999-8999-999999999999'', envFails = False\<rparr>"
  let ?s = "\<lparr>sID = ''99999999-9999-4999-8999-999999999999'', sUserID = uID demoUser, sTokenHash = HashOpaqueToken (EncodeToString (replicate 32 1)),
     sExpiresAt = (4600, 0), sRevokedAt = None, sLastSeenAt = None, sCreatedAt = (1000, 0)\<rparr>"
  obtain k where k: "sqliteTime (4600, 0) = Inr k" using later_time by blast
  have "\<exists>d'. sqliteInsertSession (envUUID ?tx) demoKey ?s (awDB quietWorld) = Inr (d', ?s)"
    using demo_uuids demo_text sqliteTime_text [OF k] token_noNUL
    by (simp add: sqliteInsertSession_def zeroTime_def demo_decode demo_times k defaultID_def defaultTime_def sqliteTimePointer_def bindE_def
        insertSessionRow_def sessionRowOK_def quietWorld_def demoUserRow_def demoUser_def)
  then obtain d' where d': "sqliteInsertSession (envUUID ?tx) demoKey ?s (awDB quietWorld) = Inr (d', ?s)" by blast
  have q: "queryUser (\<lambda>r. urID r = uID demoUser) (awDB quietWorld) = Inr (Some demoUser)" "queryUser (\<lambda>r. urUsername r = ''ada'') (awDB quietWorld) = Inr (Some demoUser)"
    using demo_user by (simp_all add: queryUser_def quietWorld_def demoUserRow_def demoUser_def bindE_def)
  have "CreateSessionForCredential ?s (uPasswordHash demoUser) ?tx (awDB quietWorld) = (Inr (?s, demoUser), d')"
    unfolding CreateSessionForCredential_def using d' q(1)
    by (intro Write_calm [of ?tx demoKey]) (simp_all add: demo_times demo_active)
  then have "writeA demoEnv (CreateSessionForCredential ?s (uPasswordHash demoUser)) ?w = (Inr (?s, demoUser), nextTick (?w\<lparr>awDB := d'\<rparr>))"
    by (simp add: writeA_def demoEnv_def)
  then have c: "credentialSession demoEnv ?s demoUser ''ada'' ?w = (Inr (?s, demoUser), nextTick (?w\<lparr>awDB := d'\<rparr>))"
    by (simp add: credentialSession_def)
  have v: "VerifyPassword (aeKey demoEnv) ''hello'' (uPasswordHash demoUser)" using demo_verify by (simp add: demoEnv_def demoUser_def)
  have e: "aeRandom demoEnv n 32 = Some (replicate 32 1)" "aeNow demoEnv n = (1000, 0)" "aeUUID demoEnv n = ''99999999-9999-4999-8999-999999999999''"
    "\<not> aeReadFails demoEnv n" for n by (simp_all add: demoEnv_def)
  show ?thesis
    by (simp add: Login_def demo_name FindUserByUsername_def bindA_def readA_def q(2) e v demo_active randomA_def refuseA_def CreateOpaqueToken_def
        opaqueTokenBytes_def nowA_def uuidA_def demo_later c thenA_def ignoreA_def returnA_def del: replicate.simps)
qed

lemma demo_bootstrap: "\<exists>u w'. Bootstrap demoEnv ''ada'' ''hello'' emptyWorld = (Inr u, w')"
proof -
  obtain h where h: "HashPassword padKey (Some (replicate 16 1)) ''hello'' = Inr h" using demo_hash by force
  let ?tx = "\<lparr>envNow = (1000, 0), envUUID = ''99999999-9999-4999-8999-999999999999'', envFails = False\<rparr>"
  let ?u = "\<lparr>uID = ''99999999-9999-4999-8999-999999999999'', uUsername = ''ada'', uPasswordHash = h, uRole = RoleOwner, uActive = True,
       uPasswordChangeRequired = False, uCreatedAt = (1000, 0), uUpdatedAt = (1000, 0)\<rparr>"
  have "\<exists>d'. sqliteInsertUser (envUUID ?tx) demoKey ?u (awDB emptyWorld) = Inr (d', ?u)"
    using demo_uuids demo_text demo_password [OF h]
    by (simp add: sqliteInsertUser_def demo_decode demo_times defaultID_def defaultTime_def zeroTime_def bindE_def insertUserRow_def userRowOK_def
        emptyWorld_def sqliteBool_def noNUL_def NUL_def)
  then obtain d' where "sqliteInsertUser (envUUID ?tx) demoKey ?u (awDB emptyWorld) = Inr (d', ?u)" by blast
  then have b: "BootstrapUser ?u ?tx (awDB emptyWorld) = (Inr ?u, d')"
    unfolding BootstrapUser_def by (intro Write_calm [of ?tx demoKey]) (simp_all add: demo_times emptyWorld_def)
  have l: "ListUsers (awDB emptyWorld) = Inr []" by (simp add: ListUsers_def emptyWorld_def stableSort_def)
  have e: "aeRandom demoEnv n 16 = Some (replicate 16 1)" "aeNow demoEnv n = (1000, 0)" "aeUUID demoEnv n = ''99999999-9999-4999-8999-999999999999''"
    "\<not> aeReadFails demoEnv n" "\<not> aeWriteFails demoEnv n" "aeKey demoEnv = padKey" for n by (simp_all add: demoEnv_def)
  have i: "insertFirst demoEnv ?u w = (Inr ?u, nextTick (w\<lparr>awDB := d'\<rparr>))" if "awDB w = awDB emptyWorld" for w
    using b by (simp add: insertFirst_def writeA_def that e)
  show ?thesis
    by (simp add: Bootstrap_def bindA_def readA_def l e buildUser_def demo_name refuseA_def randomA_def passwordSaltLength_def h nowA_def uuidA_def
        returnA_def i thenA_def ignoreA_def del: replicate.simps)
qed

text \<open>The last owner cannot be deleted.\<close>

definition demoTx :: writeEnv where
  "demoTx = \<lparr>envNow = (1000, 0), envUUID = ''99999999-9999-4999-8999-999999999999'', envFails = False\<rparr>"

lemma demo_delete: "snd (DeleteUser (uID demoUser) demoTx (awDB demoWorld)) = awDB demoWorld"
proof -
  have q: "queryUser (\<lambda>r. urID r = uID demoUser) (awDB demoWorld) = Inr (Some demoUser)"
    using demo_finds(2) by (simp add: FindUserByID_def demoUser_def)
  have g: "sqliteOwnerGuard demoUser True m (awDB demoWorld) = Inl (Refused (LastOwner m))" for m
    by (simp add: sqliteOwnerGuard_def demoUser_def demoWorld_def)
  show ?thesis by (simp add: DeleteUser_def Write_def q g split: sum.splits option.splits)
qed

text \<open>A second owner who has been deactivated.\<close>

definition formerRow :: userRow where
  "formerRow = demoUserRow\<lparr>urID := ''33333333-3333-4333-8333-333333333333'', urUsername := ''bob'', urActive := 0\<rparr>"

definition formerWorld :: authWorld where
  "formerWorld = \<lparr>awDB = \<lparr>tbUsers = [demoUserRow, formerRow], tbSessions = [], tbAudits = [], tbReferences = []\<rparr>, awTick = 0\<rparr>"

text \<open>
  The service counts the active owners but does not ask whether the user to delete is one of them: a deactivated
  owner cannot be deleted while one owner is active.  The store deletes the same user.
\<close>

lemma former_owner_undeletable:
  "fst (ServiceDeleteUser demoEnv demoUser (urID formerRow) formerWorld) = Inl (Refused (LastOwner ''Cannot delete the last Owner''))"
  "fst (DeleteUser (urID formerRow) demoTx (awDB formerWorld)) = Inr ()"
proof -
  let ?f = "demoUser\<lparr>uID := ''33333333-3333-4333-8333-333333333333'', uUsername := ''bob'', uActive := False\<rparr>"
  have f: "sqliteScanUser formerRow = Inr ?f"
    by (simp add: sqliteScanUser_def sqliteReadBool_def formerRow_def demoUserRow_def demoUser_def demo_decode bindE_def)
  have q: "queryUser (\<lambda>r. urID r = urID formerRow) (awDB formerWorld) = Inr (Some ?f)"
    using f by (simp add: queryUser_def formerWorld_def formerRow_def demoUserRow_def bindE_def)
  have "stableSort (\<lambda>a b. urUsername a < urUsername b) [demoUserRow, formerRow] = [demoUserRow, formerRow]"
    by (simp add: stableSort_def formerRow_def demoUserRow_def)
  then have l: "ListUsers (awDB formerWorld) = Inr [demoUser, ?f]"
    using f demo_user by (simp add: ListUsers_def formerWorld_def bindE_def)
  have e: "\<not> aeReadFails demoEnv n" for n by (simp add: demoEnv_def)
  show "fst (ServiceDeleteUser demoEnv demoUser (urID formerRow) formerWorld) = Inl (Refused (LastOwner ''Cannot delete the last Owner''))"
    by (simp add: ServiceDeleteUser_def FindUserByID_def bindA_def readA_def q e thenA_def activeOwnerCount_def l returnA_def throwA_def demoUser_def)
  have "DeleteUser (urID formerRow) demoTx (awDB formerWorld) =
      (Inr (), (awDB formerWorld)\<lparr>tbUsers := filter (\<lambda>r. urID r \<noteq> urID formerRow) (tbUsers (awDB formerWorld)),
         tbSessions := filter (\<lambda>r. ssUserID r \<noteq> urID formerRow) (tbSessions (awDB formerWorld))\<rparr>)"
    unfolding DeleteUser_def using q
    by (intro Write_calm [of demoTx demoKey]) (simp_all add: demoTx_def demo_times sqliteOwnerGuard_def deleteUserRows_def formerWorld_def)
  then show "fst (DeleteUser (urID formerRow) demoTx (awDB formerWorld)) = Inr ()" by simp
qed

section \<open>Properties\<close>

text \<open>
  C8: However the transactions of the user store interleave, the tables stay legal, there is an active owner as
  soon as and as long as there has been one, and a revoked session never changes again while its user exists.
\<close>

theorem auth_store_invariant:
  assumes "authStep\<^sup>*\<^sup>* d e" "authStep e f" "authOK d"
  shows "authOK f \<and> (owned d \<longrightarrow> owned f) \<and> revokedKept e f"
  using authSteps_keep [OF assms(1,3)] authStep_keeps [OF assms(2)] by (simp add: authKeeps_def)

theorem auth_store_invariant_witness:
  "authStep\<^sup>*\<^sup>* (awDB demoWorld) (awDB demoWorld) \<and> authStep (awDB demoWorld) (snd (DeleteUser (uID demoUser) demoTx (awDB demoWorld))) \<and>
   authOK (awDB demoWorld) \<and> owned (awDB demoWorld) \<and> owned (snd (DeleteUser (uID demoUser) demoTx (awDB demoWorld)))"
proof -
  have s: "authStep (awDB demoWorld) (snd (DeleteUser (uID demoUser) demoTx (awDB demoWorld)))"
    by (rule authStep.intros(4)) (rule prod.collapse [symmetric])
  have "owned (awDB demoWorld)" by (simp add: owned_def isActiveOwner_def demoWorld_def demoUserRow_def)
  then show ?thesis using auth_store_invariant [OF rtranclp.rtrancl_refl s demo_ok] s demo_ok by simp
qed

text \<open>
  C10: A token is accepted only with a session of that token that is not revoked and not expired, of a user that
  exists and is active; that user is returned, and nothing but the time the session was last seen is changed.
\<close>

theorem Authenticate_sound:
  assumes "Authenticate env token w = (Inr u, w')"
  shows "\<exists>row urow s. row \<in> set (tbSessions (awDB w)) \<and> ssTokenHash row = HashOpaqueToken token \<and> ssRevokedAt row = None \<and>
    sqliteScanSession row = Inr s \<and> timeAfter (sExpiresAt s) (aeNow env (Suc (awTick w))) \<and>
    urow \<in> set (tbUsers (awDB w)) \<and> urID urow = ssUserID row \<and> urActive urow = 1 \<and> sqliteScanUser urow = Inr u \<and>
    tbUsers (awDB w') = tbUsers (awDB w) \<and> tbAudits (awDB w') = tbAudits (awDB w) \<and>
    map (\<lambda>r. r\<lparr>ssLastSeenAt := None\<rparr>) (tbSessions (awDB w')) = map (\<lambda>r. r\<lparr>ssLastSeenAt := None\<rparr>) (tbSessions (awDB w))"
proof -
  obtain s now w1 where live: "liveSession env token w = (Inr (s, now, u), w1)" and touch: "writeA env (TouchSession (sID s) now) w1 = (Inr (), w')"
    using assms by (auto simp: Authenticate_def runA)
  obtain row urow where l: "awDB w1 = awDB w" "now = aeNow env (Suc (awTick w))"
    "row \<in> set (tbSessions (awDB w))" "ssTokenHash row = HashOpaqueToken token" "ssRevokedAt row = None" "sqliteScanSession row = Inr s"
    "timeAfter (sExpiresAt s) now" "urow \<in> set (tbUsers (awDB w))" "urID urow = ssUserID row" "urActive urow = 1" "sqliteScanUser urow = Inr u"
    using live by (rule liveSession_Inr)
  obtain tx where "TouchSession (sID s) now tx (awDB w1) = (Inr (), awDB w')" using writeA_Inr [OF touch] by blast
  then obtain stamp where "awDB w' = (awDB w)\<lparr>tbSessions :=
      map (\<lambda>r. if ssID r = sID s \<and> ssRevokedAt r = None then r\<lparr>ssLastSeenAt := Some stamp\<rparr> else r) (tbSessions (awDB w))\<rparr>"
    using l(1) by (auto elim: TouchSession_tables)
  then show ?thesis using l(2-) by (intro exI [of _ row] exI [of _ urow] exI [of _ s]) (simp add: comp_def)
qed

theorem Authenticate_sound_witness:
  "fst (Authenticate demoEnv ''token'' demoWorld) = Inr demoUser \<and>
   tbUsers (awDB (snd (Authenticate demoEnv ''token'' demoWorld))) = tbUsers (awDB demoWorld)"
proof -
  have "fst (Authenticate demoEnv ''token'' demoWorld) = Inr demoUser"
    by (rule Authenticate_calm [OF demo_calm demo_ok demo_token demo_finds(1)])
      (simp_all add: demoSession_def demo_finds(2) timeAfter_def demoEnv_def demo_active)
  then show ?thesis using Authenticate_sound [of demoEnv "''token''" demoWorld demoUser "snd (Authenticate demoEnv ''token'' demoWorld)"]
    by (metis prod.collapse)
qed

text \<open>
  C11: Logging out ends the session: after it returned without an error, the token is refused, whatever the clock
  says, and the users are as before.
\<close>

theorem Logout_ends_session:
  assumes "authOK (awDB w)" "TrimSpace token \<noteq> []" "Logout env token w = (Inr (), w')"
  shows "isl (fst (Authenticate env' token (w'\<lparr>awTick := n\<rparr>))) \<and> tbUsers (awDB w') = tbUsers (awDB w)"
proof -
  let ?h = "HashOpaqueToken token"
  have dist: "distinct (map ssTokenHash (tbSessions (awDB w)))" using assms(1) by (simp add: authOK_def)
  obtain found w1 where f: "FindSessionByTokenHash ?h (awDB w) = Inr found" "w1 = nextTick w"
    and k: "(case found of None \<Rightarrow> returnA () | Some session \<Rightarrow> revokeFound env session) w1 = (Inr (), w')"
    using assms(2,3) by (auto simp: Logout_def Revoke_def runA)
  have "(\<forall>r\<in>set (tbSessions (awDB w')). ssTokenHash r = ?h \<longrightarrow> ssRevokedAt r \<noteq> None) \<and> tbUsers (awDB w') = tbUsers (awDB w)"
  proof (cases found)
    case None
    then have "w' = nextTick w" using k f(2) by (simp add: effects_Inr)
    then show ?thesis using f(1) None by (auto simp: FindSessionByTokenHash_def querySession_def bindE_eq_Inr find_None_iff split: option.splits)
  next
    case (Some s)
    obtain row where row: "row \<in> set (tbSessions (awDB w))" "ssTokenHash row = ?h" "ssRevokedAt row = None" "sqliteScanSession row = Inr s"
      using f(1) Some unfolding FindSessionByTokenHash_def by (auto elim: querySession_found)
    note fields = sqliteScanSession_fields [OF row(4)]
    let ?now = "aeNow env (awTick (nextTick w))"
    obtain w3 where w3: "writeA env (RevokeSession (sID s) ?now) (nextTick (nextTick w)) = (Inr (), w3)"
      and w': "w' = snd (audit env ''logout'' ''session'' (Some (sID s)) (Some (sUserID s)) ''success'' None w3)"
      using k Some fields(4) row(3) f(2) by (auto simp: revokeFound_def runA)
    obtain tx where "RevokeSession (sID s) ?now tx (awDB w) = (Inr (), awDB w3)" using writeA_Inr [OF w3] by auto
    then obtain stamp where d: "awDB w3 = (awDB w)\<lparr>tbSessions :=
        map (\<lambda>r. if ssID r = sID s \<and> ssRevokedAt r = None then r\<lparr>ssRevokedAt := Some stamp\<rparr> else r) (tbSessions (awDB w))\<rparr>"
      by (auto elim: RevokeSession_tables)
    have same: "ssID r = sID s" if "r \<in> set (tbSessions (awDB w))" "ssTokenHash r = ?h" for r
    proof -
      have "r = row" using that row(1,2) dist by (auto simp: distinct_map inj_on_def)
      then show ?thesis using fields(1) by simp
    qed
    let ?g = "\<lambda>r. if ssID r = sID s \<and> ssRevokedAt r = None then r\<lparr>ssRevokedAt := Some stamp\<rparr> else r"
    have "ssRevokedAt (?g r) \<noteq> None" if "r \<in> set (tbSessions (awDB w))" "ssTokenHash (?g r) = ?h" for r
    proof -
      have "ssTokenHash r = ?h" using that(2) by (simp split: if_splits)
      then show ?thesis using same [OF that(1)] by simp
    qed
    then have "\<forall>r\<in>set (tbSessions (awDB w)). ssTokenHash (?g r) = ?h \<longrightarrow> ssRevokedAt (?g r) \<noteq> None" by (intro ballI impI)
    then have "\<forall>r\<in>set (map ?g (tbSessions (awDB w))). ssTokenHash r = ?h \<longrightarrow> ssRevokedAt r \<noteq> None" by (subst ball_map)
    moreover have "tbSessions (awDB w3) = map ?g (tbSessions (awDB w))" by (simp add: d)
    ultimately have "\<forall>r\<in>set (tbSessions (awDB w3)). ssTokenHash r = ?h \<longrightarrow> ssRevokedAt r \<noteq> None" by (simp only:)
    moreover have "tbSessions (awDB w') = tbSessions (awDB w3)" "tbUsers (awDB w') = tbUsers (awDB w3)"
      unfolding w' by (rule ignored_audit_tables)+
    moreover have "tbUsers (awDB w3) = tbUsers (awDB w)" by (simp add: d)
    ultimately show ?thesis by (simp only: simp_thms)
  qed
  then show ?thesis using Authenticate_needs_session [of "w'\<lparr>awTick := n\<rparr>" token env'] by simp
qed

theorem Logout_ends_session_witness:
  "authOK (awDB demoWorld) \<and> TrimSpace ''token'' \<noteq> [] \<and> fst (Logout demoEnv ''token'' demoWorld) = Inr () \<and>
   isl (fst (Authenticate demoEnv ''token'' ((snd (Logout demoEnv ''token'' demoWorld))\<lparr>awTick := 0\<rparr>)))"
proof -
  have "fst (Logout demoEnv ''token'' demoWorld) = Inr ()"
    by (rule Logout_calm [OF demo_calm demo_ok demo_token demo_finds(1)]) (simp add: demoSession_def)
  then show ?thesis using Logout_ends_session [OF demo_ok demo_token, of demoEnv "snd (Logout demoEnv ''token'' demoWorld)" demoEnv 0] demo_ok demo_token
    by (metis prod.collapse)
qed

text \<open>
  C9: A login that succeeds was made by an active user whose stored hash the password verifies against; its session
  lasts for the configured time from the login; and its token is then accepted as that user until it expires.
\<close>

theorem Login_Authenticate:
  assumes "authOK (awDB w)" "fillsBuffers env"
    "Login env svc username password w = (Inr a, w')"
    "calm env'" "timeAfter (asExpiresAt a) (aeNow env' (Suc n))"
  shows "(\<exists>row\<in>set (tbUsers (awDB w)). NormalizeUsername username = Inr (urUsername row) \<and> urActive row = 1 \<and>
      VerifyPassword (aeKey env) password (urPasswordHash row) \<and> asUserID a = urID row) \<and>
    asExpiresAt a = addTime (aeNow env (Suc (Suc (awTick w)))) (svSessionTTL svc) \<and>
    fst (Authenticate env' (asToken a) (w'\<lparr>awTick := n\<rparr>)) = Inr (asUser a)"
  using assms(3)
proof (rule Login_Inr)
  fix user bs tx session t w1
  assume f: "\<exists>normalized. NormalizeUsername username = Inr normalized \<and> FindUserByUsername normalized (awDB w) = Inr (Some user)"
    and v: "uActive user" "VerifyPassword (aeKey env) password (uPasswordHash user)"
    and b: "aeRandom env (Suc (awTick w)) opaqueTokenBytes = Some bs" "asToken a = EncodeToString bs"
    and s: "sUserID session = uID user" "sTokenHash session = HashOpaqueToken (asToken a)" "sRevokedAt session = None" "sLastSeenAt session = None"
    "sExpiresAt session = addTime (aeNow env (Suc (Suc (awTick w)))) (svSessionTTL svc)"
    and c: "CreateSessionForCredential session (uPasswordHash user) tx (awDB w) = (Inr (t, asUser a), awDB w1)"
    and ids: "asUserID a = uID (asUser a)" "asExpiresAt a = sExpiresAt t"
    and au: "\<exists>r i. audit env ''login'' ''user'' i None ''success'' None w1 = (r, w')"
  obtain stamp where q: "queryUser (\<lambda>r. urID r = sUserID session) (awDB w) = Inr (Some (asUser a))" "uActive (asUser a)"
    and i: "sqliteInsertSession (envUUID tx) stamp session (awDB w) = Inr (awDB w1, t)"
    using c by (rule CreateSessionForCredential_Inr)
  obtain row where t: "sUserID t = sUserID session" "sExpiresAt t = sExpiresAt session" "sRevokedAt t = None"
    and d1: "awDB w1 = (awDB w)\<lparr>tbSessions := tbSessions (awDB w) @ [row]\<rparr>"
    and row: "sqliteScanSession row = Inr t" "ssTokenHash row = sTokenHash session"
    "ssTokenHash row \<notin> ssTokenHash ` set (tbSessions (awDB w))" "ssRevokedAt row = None"
    using i s(3,4) by (rule sqliteInsertSession_Inr)
  have tables: "tbUsers (awDB w') = tbUsers (awDB w)" "tbSessions (awDB w') = tbSessions (awDB w) @ [row]"
    using au audit_tables d1 by fastforce+
  have ok: "authOK (awDB w')"
    using assms(1) CreateSessionForCredential_keeps [OF c] au audit_keeps by (auto simp: authKeeps_def)
  obtain urow where u: "urow \<in> set (tbUsers (awDB w))" "NormalizeUsername username = Inr (urUsername urow)" "sqliteScanUser urow = Inr user"
    using f by (auto simp: FindUserByUsername_def elim: queryUser_found)
  have "uID (asUser a) = uID user" using q(1) s(1) sqliteScanUser_fields(1) by (auto elim!: queryUser_found)
  then have "\<exists>row\<in>set (tbUsers (awDB w)). NormalizeUsername username = Inr (urUsername row) \<and> urActive row = 1 \<and>
      VerifyPassword (aeKey env) password (urPasswordHash row) \<and> asUserID a = urID row"
    using u v ids(1) sqliteScanUser_fields [OF u(3)] by auto
  moreover have "fst (Authenticate env' (asToken a) (w'\<lparr>awTick := n\<rparr>)) = Inr (asUser a)"
  proof (rule Authenticate_calm [OF assms(4)])
    show "authOK (awDB (w'\<lparr>awTick := n\<rparr>))" using ok by simp
    have "length bs = opaqueTokenBytes" using assms(2) b(1) by (simp add: fillsBuffers_def)
    then have "bs \<noteq> []" by (auto simp: opaqueTokenBytes_def)
    then show "TrimSpace (asToken a) \<noteq> []" unfolding b(2) by (rule EncodeToString_token)
    have "find (\<lambda>r. ssTokenHash r = HashOpaqueToken (asToken a) \<and> ssRevokedAt r = None) (tbSessions (awDB w) @ [row]) = Some row"
      using row(4) row(2,3) s(2) by (intro find_append_last) (simp_all add: image_iff, metis)
    then show "FindSessionByTokenHash (HashOpaqueToken (asToken a)) (awDB (w'\<lparr>awTick := n\<rparr>)) = Inr (Some t)"
      using row(1) by (simp add: FindSessionByTokenHash_def querySession_def tables(2) bindE_def)
    show "sRevokedAt t = None" by (rule t(3))
    show "timeAfter (sExpiresAt t) (aeNow env' (Suc (awTick (w'\<lparr>awTick := n\<rparr>))))" using assms(5) ids(2) by simp
    show "FindUserByID (sUserID t) (awDB (w'\<lparr>awTick := n\<rparr>)) = Inr (Some (asUser a))"
      using q(1) t(1) by (simp add: FindUserByID_def queryUser_def tables(1))
    show "uActive (asUser a)" by (rule q(2))
  qed
  ultimately show ?thesis using ids(2) t(2) s(5) by simp
qed

theorem Login_Authenticate_witness:
  "\<exists>a w'. Login demoEnv hourService ''ada'' ''hello'' quietWorld = (Inr a, w') \<and>
     fst (Authenticate demoEnv (asToken a) (w'\<lparr>awTick := 0\<rparr>)) = Inr (asUser a)"
proof -
  obtain a w' where l: "Login demoEnv hourService ''ada'' ''hello'' quietWorld = (Inr a, w')" "asExpiresAt a = (4600, 0)" using demo_login by blast
  have r: "fillsBuffers demoEnv" by (auto simp: fillsBuffers_def demoEnv_def)
  have "timeAfter (asExpiresAt a) (aeNow demoEnv (Suc 0))" by (simp add: l(2) timeAfter_def demoEnv_def)
  then show ?thesis using Login_Authenticate [OF quiet_ok r l(1) demo_calm] l(1) by blast
qed

text \<open>
  C12: A password reset gives back a password that verifies against the new hash of the named active user, who has
  to change it; every session of that user ends, no other user or session changes, and one audit event is
  written with it.
\<close>

theorem ResetPassword_locks_out:
  assumes "derivesLength (aeKey env)"
    and "ResetPassword env username w = (Inr temporary, w')"
  shows "\<exists>row a. row \<in> set (tbUsers (awDB w')) \<and> NormalizeUsername username = Inr (urUsername row) \<and> urActive row = 1 \<and>
    VerifyPassword (aeKey env) temporary (urPasswordHash row) \<and> urPasswordChangeRequired row = 1 \<and>
    endedFor (urID row) None (awDB w') \<and> othersSame (urID row) (awDB w) (awDB w') \<and>
    tbAudits (awDB w') = tbAudits (awDB w) @ [a] \<and> arAction a = ''password.reset'' \<and> arResourceID a = Some (urID row)"
proof -
  let ?now = "aeNow env (awTick (nextTick (nextTick w)))"
  obtain normalized salt hash event u w1 where n: "NormalizeUsername username = Inr normalized"
    and h: "HashPassword (aeKey env) salt temporary = Inr hash" and e: "evAction event = ''password.reset''" and w1: "awDB w1 = awDB w"
    and s: "writeA env (StoreResetPassword normalized hash ?now event) w1 = (Inr u, w')"
    using assms(2) by (auto simp: ResetPassword_def runA dest!: auditEvent_Inr)
  obtain tx where "passwordMutation normalized [] hash ?now event True tx (awDB w) = (Inr u, awDB w')"
    using writeA_Inr [OF s] w1 by (auto simp: StoreResetPassword_def)
  then show ?thesis
  proof (rule passwordMutation_effect)
    fix row a
    assume "row \<in> set (tbUsers (awDB w'))" "(if True then urUsername row else urID row) = normalized" "urActive row = 1"
      "urPasswordHash row = hash" "urPasswordChangeRequired row = sqliteBool True"
      "endedFor (urID row) (if True then None else Some []) (awDB w')" "othersSame (urID row) (awDB w) (awDB w')"
      "tbAudits (awDB w') = tbAudits (awDB w) @ [a]" "arAction a = evAction event" "arResourceID a = Some (urID row)"
    moreover have "VerifyPassword (aeKey env) temporary hash" by (rule HashPassword_verifies [OF assms(1) h])
    ultimately show ?thesis using n e by (intro exI [of _ row] exI [of _ a]) (simp add: sqliteBool_def)
  qed
qed

theorem ResetPassword_locks_out_witness:
  "\<exists>w' row. ResetPassword demoEnv ''ada'' demoWorld = (Inr demoTemporary, w') \<and> row \<in> set (tbUsers (awDB w')) \<and>
     VerifyPassword padKey demoTemporary (urPasswordHash row) \<and> endedFor (urID row) None (awDB w')"
proof -
  obtain w' where w': "ResetPassword demoEnv ''ada'' demoWorld = (Inr demoTemporary, w')" using demo_reset by blast
  have k: "aeKey demoEnv = padKey" "derivesLength (aeKey demoEnv)" using padKey_length by (simp_all add: demoEnv_def)
  show ?thesis using ResetPassword_locks_out [OF k(2) w'] w' k(1) by auto
qed



text \<open>
  C14: A bootstrap succeeds only while no user is active; it creates an active owner whose password verifies; and
  after it no bootstrap succeeds again.
\<close>

theorem Bootstrap_once:
  assumes "derivesLength (aeKey env)"
    and "Bootstrap env username password w = (Inr u, w')"
  shows "\<not> list_ex (\<lambda>r. urActive r = 1) (tbUsers (awDB w)) \<and>
    (\<exists>row. tbUsers (awDB w') = tbUsers (awDB w) @ [row] \<and> isActiveOwner row \<and> urID row = uID u \<and>
       NormalizeUsername username = Inr (urUsername row) \<and> VerifyPassword (aeKey env) password (urPasswordHash row)) \<and>
    isl (fst (Bootstrap env' username' password' (w'\<lparr>awTick := n\<rparr>)))"
  using assms(2)
proof (rule Bootstrap_inserts)
  fix user d1 tx salt
  assume h: "HashPassword (aeKey env) salt password = Inr (uPasswordHash user)" and n: "NormalizeUsername username = Inr (uUsername user)"
    and b: "BootstrapUser user tx (awDB w) = (Inr u, d1)" and w': "tbUsers (awDB w') = tbUsers d1"
  obtain row where row: "tbUsers (awDB w') = tbUsers (awDB w) @ [row]" "isActiveOwner row" "urID row = uID u"
    "urUsername row = uUsername user" "urPasswordHash row = uPasswordHash user"
    using BootstrapUser_row(2) [OF b] w' by auto
  have "VerifyPassword (aeKey env) password (uPasswordHash user)" by (rule HashPassword_verifies [OF assms(1) h])
  moreover have "isl (fst (Bootstrap env' username' password' (w'\<lparr>awTick := n\<rparr>)))"
    by (rule Bootstrap_refused) (use row(1,2) in \<open>simp add: isActiveOwner_def\<close>)
  ultimately show ?thesis using BootstrapUser_row(1) [OF b] row n by auto
qed

theorem Bootstrap_once_witness:
  "\<exists>u w'. Bootstrap demoEnv ''ada'' ''hello'' emptyWorld = (Inr u, w') \<and> isl (fst (Bootstrap demoEnv ''eve'' ''secret'' (w'\<lparr>awTick := 0\<rparr>)))"
proof -
  obtain u w' where b: "Bootstrap demoEnv ''ada'' ''hello'' emptyWorld = (Inr u, w')" using demo_bootstrap by blast
  have k: "derivesLength (aeKey demoEnv)" using padKey_length by (simp add: demoEnv_def)
  show ?thesis using Bootstrap_once [OF k b] b by blast
qed

end
