(* ===== verification/GoCrypto.thy ===== *)
theory GoCrypto
  imports GoHash "HOL-Library.Word"
begin

text \<open>
  The parts of \<open>crypto/hmac\<close>, \<open>crypto/pbkdf2\<close>, \<open>crypto/aes\<close> and \<open>crypto/cipher\<close> that the backups use: HMAC and PBKDF2 with
  SHA-256, the encryption of a block with AES (FIPS 197) and the GCM mode with a nonce of 12 bytes and no
  additional data (SP 800-38D).  A byte is an 8-bit word.
\<close>

unbundle bit_operations_syntax

type_synonym octets = "8 word list"

section \<open>HMAC and PBKDF2\<close>

definition shaSum :: "octets \<Rightarrow> octets" where
  "shaSum bs = map word_of_nat (sha256 (map (\<lambda>b. char_of (unat b)) bs))"

definition hmacSum :: "octets \<Rightarrow> octets \<Rightarrow> octets" where
  "hmacSum key message =
     (let k = (if length key > 64 then shaSum key else key); k = k @ replicate (64 - length k) 0 in
      shaSum (map (\<lambda>b. b XOR 0x5C) k @ shaSum (map (\<lambda>b. b XOR 0x36) k @ message)))"

definition xorBytes :: "octets \<Rightarrow> octets \<Rightarrow> octets" where
  "xorBytes a b = map2 (XOR) a b"

definition putUint32 :: "nat \<Rightarrow> octets" where
  "putUint32 n = map (\<lambda>i. word_of_nat (n div 256 ^ i)) [3, 2, 1, 0]"

definition putUint64 :: "nat \<Rightarrow> octets" where
  "putUint64 n = map (\<lambda>i. word_of_nat (n div 256 ^ i)) [7, 6, 5, 4, 3, 2, 1, 0]"

definition bigEndian :: "octets \<Rightarrow> nat" where
  "bigEndian bs = foldl (\<lambda>n b. 256 * n + unat b) 0 bs"

fun pbkdf2Rounds :: "nat \<Rightarrow> octets \<Rightarrow> octets \<Rightarrow> octets \<Rightarrow> octets" where
  "pbkdf2Rounds 0 password u t = t"
| "pbkdf2Rounds (Suc n) password u t = (let u' = hmacSum password u in pbkdf2Rounds n password u' (xorBytes t u'))"

text \<open>One block, which is all a key of 32 bytes needs.\<close>

definition pbkdf2Key :: "octets \<Rightarrow> octets \<Rightarrow> nat \<Rightarrow> octets" where
  "pbkdf2Key password salt iterations =
     (let u = hmacSum password (salt @ putUint32 1) in pbkdf2Rounds (iterations - 1) password u u)"

section \<open>AES\<close>

definition xtime :: "8 word \<Rightarrow> 8 word" where
  "xtime b = (if bit b 7 then push_bit 1 b XOR 0x1B else push_bit 1 b)"

fun gfMul :: "nat \<Rightarrow> 8 word \<Rightarrow> 8 word \<Rightarrow> 8 word" where
  "gfMul 0 a b = 0"
| "gfMul (Suc n) a b = (if bit b 0 then a else 0) XOR gfMul n (xtime a) (drop_bit 1 b)"

fun gfPow :: "8 word \<Rightarrow> nat \<Rightarrow> 8 word" where
  "gfPow a 0 = 1"
| "gfPow a (Suc n) = gfMul 8 a (gfPow a n)"

definition rotl8 :: "nat \<Rightarrow> 8 word \<Rightarrow> 8 word" where
  "rotl8 n b = push_bit n b OR drop_bit (8 - n) b"

text \<open>The inverse of a byte is its power 254.\<close>

definition sboxByte :: "8 word \<Rightarrow> 8 word" where
  "sboxByte a = (let b = gfPow a 254 in b XOR rotl8 1 b XOR rotl8 2 b XOR rotl8 3 b XOR rotl8 4 b XOR 0x63)"

definition subWord :: "octets \<Rightarrow> octets" where
  "subWord w = map sboxByte w"

text \<open>The key schedule for 32 bytes: 60 words of four bytes, newest first in the accumulator.\<close>

fun keyWords :: "nat \<Rightarrow> nat \<Rightarrow> octets \<Rightarrow> octets list \<Rightarrow> octets list" where
  "keyWords 0 i rcon ws = rev ws"
| "keyWords (Suc n) i rcon ws =
     (let prev = hd ws;
          t = (if i mod 8 = 0 then xorBytes (subWord (tl prev @ [hd prev])) rcon
               else if i mod 8 = 4 then subWord prev else prev) in
      keyWords n (Suc i) (if i mod 8 = 0 then [xtime (hd rcon), 0, 0, 0] else rcon) (xorBytes (ws ! 7) t # ws))"

definition keySchedule :: "octets \<Rightarrow> octets list" where
  "keySchedule key = keyWords 52 8 [1, 0, 0, 0] (rev (chunks 4 8 key))"

definition roundKey :: "octets list \<Rightarrow> nat \<Rightarrow> octets" where
  "roundKey ws r = concat (take 4 (drop (4 * r) ws))"

text \<open>A block is 16 bytes, column by column.\<close>

definition shiftRows :: "octets \<Rightarrow> octets" where
  "shiftRows s = map (\<lambda>i. s ! ((i + 4 * (i mod 4)) mod 16)) [0..<16]"

definition mixColumns :: "octets \<Rightarrow> octets" where
  "mixColumns s =
     map (\<lambda>i. let c = 4 * (i div 4); f = (\<lambda>j. s ! (c + (i + j) mod 4)) in
       xtime (f 0) XOR (xtime (f 1) XOR f 1) XOR f 2 XOR f 3) [0..<16]"

fun aesRounds :: "nat \<Rightarrow> octets list \<Rightarrow> nat \<Rightarrow> octets \<Rightarrow> octets" where
  "aesRounds 0 ws r s = s"
| "aesRounds (Suc n) ws r s =
     aesRounds n ws (Suc r) (xorBytes (mixColumns (shiftRows (map sboxByte s))) (roundKey ws r))"

definition aesEncrypt :: "octets \<Rightarrow> octets \<Rightarrow> octets" where
  "aesEncrypt key b =
     (let ws = keySchedule key; s = aesRounds 13 ws 1 (xorBytes b (roundKey ws 0)) in
      xorBytes (shiftRows (map sboxByte s)) (roundKey ws 14))"

section \<open>GCM\<close>

fun gmulStep :: "nat \<Rightarrow> 128 word \<Rightarrow> 128 word \<Rightarrow> 128 word \<Rightarrow> 128 word" where
  "gmulStep 0 x v z = z"
| "gmulStep (Suc n) x v z =
     gmulStep n x (if bit v 0 then drop_bit 1 v XOR push_bit 120 0xE1 else drop_bit 1 v) (if bit x n then z XOR v else z)"

definition gmul :: "128 word \<Rightarrow> 128 word \<Rightarrow> 128 word" where
  "gmul x y = gmulStep 128 x y 0"

definition blockWord :: "octets \<Rightarrow> 128 word" where
  "blockWord b = word_of_nat (bigEndian b)"

definition wordBlock :: "128 word \<Rightarrow> octets" where
  "wordBlock w = map (\<lambda>i. word_of_nat (unat w div 256 ^ (15 - i))) [0..<16]"

definition blocksOf :: "octets \<Rightarrow> octets list" where
  "blocksOf bs = (let p = bs @ replicate ((16 - length bs mod 16) mod 16) 0 in chunks 16 (length p div 16) p)"

definition ghash :: "128 word \<Rightarrow> octets list \<Rightarrow> 128 word" where
  "ghash h bs = foldl (\<lambda>y b. gmul (y XOR blockWord b) h) 0 bs"

definition counterBlock :: "octets \<Rightarrow> nat \<Rightarrow> octets" where
  "counterBlock nonce i = nonce @ putUint32 (i mod 2 ^ 32)"

fun keyStream :: "octets \<Rightarrow> octets \<Rightarrow> nat \<Rightarrow> nat \<Rightarrow> octets" where
  "keyStream key nonce i 0 = []"
| "keyStream key nonce i (Suc n) = aesEncrypt key (counterBlock nonce i) @ keyStream key nonce (Suc i) n"

definition gcmCrypt :: "octets \<Rightarrow> octets \<Rightarrow> octets \<Rightarrow> octets" where
  "gcmCrypt key nonce text = xorBytes text (keyStream key nonce 2 ((length text + 15) div 16))"

definition gcmTag :: "octets \<Rightarrow> octets \<Rightarrow> octets \<Rightarrow> octets" where
  "gcmTag key nonce ciphertext =
     (let h = blockWord (aesEncrypt key (replicate 16 0));
          s = ghash h (blocksOf ciphertext @ [putUint64 0 @ putUint64 (8 * length ciphertext)]) in
      xorBytes (wordBlock s) (aesEncrypt key (counterBlock nonce 1)))"

definition gcmSeal :: "octets \<Rightarrow> octets \<Rightarrow> octets \<Rightarrow> octets" where
  "gcmSeal key nonce plain = (let c = gcmCrypt key nonce plain in c @ gcmTag key nonce c)"

definition gcmOpen :: "octets \<Rightarrow> octets \<Rightarrow> octets \<Rightarrow> octets option" where
  "gcmOpen key nonce sealed =
     (if length sealed < 16 then None
      else let c = take (length sealed - 16) sealed; tag = drop (length sealed - 16) sealed in
           if tag = gcmTag key nonce c then Some (gcmCrypt key nonce c) else None)"

section \<open>Lemmas: lengths\<close>

lemma xorBytes_length [simp]: "length (xorBytes a b) = min (length a) (length b)"
  by (simp add: xorBytes_def)

lemma putUint_length [simp]: "length (putUint32 n) = 4" "length (putUint64 n) = 8"
  by (simp_all add: putUint32_def putUint64_def)

lemma shaSum_length [simp]: "length (shaSum bs) = 32"
  by (simp add: shaSum_def sha256_ok)

lemma hmacSum_length [simp]: "length (hmacSum key m) = 32"
  by (simp add: hmacSum_def Let_def)

lemma pbkdf2Rounds_length: "length t = 32 \<Longrightarrow> length (pbkdf2Rounds n p u t) = 32"
  by (induction n arbitrary: u t) (simp_all add: Let_def)

lemma pbkdf2Key_length [simp]: "length (pbkdf2Key p s n) = 32"
  by (simp add: pbkdf2Key_def Let_def pbkdf2Rounds_length)

lemma shiftRows_length [simp]: "length (shiftRows s) = 16"
  by (simp add: shiftRows_def)

lemma wordBlock_length [simp]: "length (wordBlock w) = 16"
  by (simp add: wordBlock_def)

lemma keyWords_length:
  "8 \<le> length ws \<Longrightarrow> list_all (\<lambda>w. length w = 4) ws \<Longrightarrow> length rcon = 4 \<Longrightarrow>
   length (keyWords n i rcon ws) = n + length ws \<and> list_all (\<lambda>w. length w = 4) (keyWords n i rcon ws)"
proof (induction n i rcon ws rule: keyWords.induct)
  case (2 n i rcon ws)
  have "ws \<noteq> []" using 2(2) by auto
  then have "length (hd ws) = 4" "length (ws ! 7) = 4" using 2(2,3) by (auto simp: list_all_length hd_conv_nth)
  then have t: "length (if i mod 8 = 0 then xorBytes (subWord (tl (hd ws) @ [hd (hd ws)])) rcon else if i mod 8 = 4 then subWord (hd ws) else hd ws) = 4"
    using 2(4) by (simp add: subWord_def)
  show ?case using 2(1) [OF refl refl] 2(2-4) t \<open>length (ws ! 7) = 4\<close> by (simp add: Let_def)
qed simp

lemma chunks_words: "length key = 4 * n \<Longrightarrow> length (chunks 4 n key) = n \<and> list_all (\<lambda>w. length w = 4) (chunks 4 n key)"
  by (induction n arbitrary: key) auto

lemma keySchedule_length:
  assumes "length key = 32"
  shows "length (keySchedule key) = 60 \<and> list_all (\<lambda>w. length w = 4) (keySchedule key)"
  unfolding keySchedule_def using chunks_words [of key 8] assms
  by (simp add: keyWords_length [of "rev (chunks 4 8 key)" "[1, 0, 0, 0]"])

lemma concat_words: "list_all (\<lambda>w. length w = 4) ws \<Longrightarrow> length (concat ws) = 4 * length ws"
  by (induction ws) auto

lemma roundKey_length:
  assumes "length key = 32" "r \<le> 14"
  shows "length (roundKey (keySchedule key) r) = 16"
proof -
  have "list_all (\<lambda>w. length w = 4) (take 4 (drop (4 * r) (keySchedule key)))"
    using keySchedule_length [OF assms(1)] by (auto simp: list_all_iff dest!: in_set_takeD in_set_dropD)
  then show ?thesis using keySchedule_length [OF assms(1)] assms(2) by (simp add: roundKey_def concat_words)
qed

lemma aesEncrypt_length: "length key = 32 \<Longrightarrow> length (aesEncrypt key b) = 16"
  by (simp add: aesEncrypt_def Let_def roundKey_length)

lemma keyStream_length: "length key = 32 \<Longrightarrow> length (keyStream key nonce i n) = 16 * n"
  by (induction n arbitrary: i) (simp_all add: aesEncrypt_length)

lemma gcmTag_length: "length key = 32 \<Longrightarrow> length (gcmTag key nonce c) = 16"
  by (simp add: gcmTag_def Let_def aesEncrypt_length)

section \<open>Lemmas: sealing and opening\<close>

lemma xorBytes_twice: "length a \<le> length b \<Longrightarrow> xorBytes (xorBytes a b) b = a"
proof (induction a arbitrary: b)
  case (Cons x a)
  then show ?case by (cases b) (simp_all add: xorBytes_def xor.assoc)
qed (simp add: xorBytes_def)

lemma stream_covers: "n \<le> 16 * ((n + 15) div 16)" for n :: nat
  by linarith

lemma gcmCrypt_length: "length key = 32 \<Longrightarrow> length (gcmCrypt key nonce t) = length t"
  using stream_covers [of "length t"] by (simp add: gcmCrypt_def keyStream_length)

lemma gcmCrypt_twice: "length key = 32 \<Longrightarrow> gcmCrypt key nonce (gcmCrypt key nonce t) = t"
  using stream_covers [of "length t"] gcmCrypt_length [of key nonce t]
  by (simp add: gcmCrypt_def keyStream_length xorBytes_twice)

lemma gcmSeal_length: "length key = 32 \<Longrightarrow> length (gcmSeal key nonce p) = length p + 16"
  by (simp add: gcmSeal_def Let_def gcmCrypt_length gcmTag_length)

text \<open>Opening with the key and the nonce gives back what was sealed.\<close>

lemma gcmOpen_gcmSeal: "length key = 32 \<Longrightarrow> gcmOpen key nonce (gcmSeal key nonce p) = Some p"
  by (simp add: gcmOpen_def gcmSeal_def Let_def gcmCrypt_length gcmTag_length gcmCrypt_twice)

section \<open>Lemmas: numbers\<close>

lemma bigEndian_Cons: "bigEndian (b # bs) = unat b * 256 ^ length bs + bigEndian bs"
proof -
  have "foldl (\<lambda>n b. 256 * n + unat b) m bs = m * 256 ^ length bs + foldl (\<lambda>n b. 256 * n + unat b) 0 bs" for m :: nat and bs :: octets
  proof (induction bs arbitrary: m rule: rev_induct)
    case (snoc x xs)
    have "foldl (\<lambda>n b. 256 * n + unat b) m (xs @ [x]) = 256 * foldl (\<lambda>n b. 256 * n + unat b) m xs + unat x" by simp
    also have "\<dots> = 256 * (m * 256 ^ length xs + foldl (\<lambda>n b. 256 * n + unat b) 0 xs) + unat x" by (simp only: snoc [of m])
    also have "\<dots> = m * 256 ^ length (xs @ [x]) + foldl (\<lambda>n b. 256 * n + unat b) 0 (xs @ [x])" by simp
    finally show ?case .
  qed simp
  from this [of "unat b" bs] show ?thesis by (simp add: bigEndian_def)
qed

lemma bigEndian_bytes: "bigEndian (map (\<lambda>i. word_of_nat (n div 256 ^ i)) (rev [0..<k])) = n mod 256 ^ k"
proof (induction k)
  case (Suc k)
  have "n mod 256 ^ Suc k = 256 ^ k * (n div 256 ^ k mod 256) + n mod 256 ^ k"
    using mod_mult2_eq [of n "256 ^ k" 256] by (simp add: mult.commute)
  then show ?case using Suc by (simp add: bigEndian_Cons unsigned_of_nat take_bit_eq_mod mult.commute)
qed (simp add: bigEndian_def)

lemma bigEndian_putUint32: "n < 2 ^ 32 \<Longrightarrow> bigEndian (putUint32 n) = n"
  using bigEndian_bytes [of n 4] by (simp add: putUint32_def upt_rec)

lemma bigEndian_putUint64: "n < 2 ^ 64 \<Longrightarrow> bigEndian (putUint64 n) = n"
  using bigEndian_bytes [of n 8] by (simp add: putUint64_def upt_rec)

end
