(* ===== verification/BackupEnvelope.thy ===== *)
theory BackupEnvelope
  imports GoCrypto Candidates
begin

text \<open>
  Backup archives (\<open>internal/backupcore/paths.go\<close>, \<open>zipwriter\<close> and \<open>zipextract\<close>): which paths an archive may hold, the
  writer that collects entries, the encrypted BX01 envelope around the archive and the reader that checks both.
  The bytes of an archive and their directory are \<open>archive/zip\<close>, a parameter of the reader; the spool file neither
  fails nor is the context cancelled; a derived key always exists.
\<close>

section \<open>Paths\<close>

datatype backup_error =
    ErrCorruptArchive
  | ErrUnsupportedVersion
  | ErrUnknownCompression
  | ErrPassphraseRequired
  | ErrPassphraseMismatch
  | ErrPathEscape
  | ErrFileTooLarge
  | ErrDuplicatePath
  | ErrEmptyPath
  | ErrAbsolutePath
  | ErrDrivePath
  | ErrBackslashPath
  | ErrAggregateLimitExceeded
  | ErrTrailerMismatch
  | ErrWriterClosed
  | ErrNilOpener
  | ErrOpen string
  | ErrEncryptedBodySize
  | ErrRandom

definition isLetter :: "char \<Rightarrow> bool" where
  "isLetter c \<longleftrightarrow> isLower c \<or> isUpper c"

fun containsWindowsDriveRoot :: "bool \<Rightarrow> string \<Rightarrow> bool" where
  "containsWindowsDriveRoot start (a # b # c # r) =
     (start \<and> isLetter a \<and> b = CHR '':'' \<and> (c = CHR ''/'' \<or> c = CHR 0x5C) \<or> containsWindowsDriveRoot (a = CHR ''/'') (b # c # r))"
| "containsWindowsDriveRoot start _ = False"

definition EscapesBundleRoot :: "string \<Rightarrow> bool" where
  "EscapesBundleRoot value \<longleftrightarrow>
     value = [] \<or> HasPrefix value ''/'' \<or> CHR 0x5C \<in> set value \<or> containsWindowsDriveRoot True value \<or>
     ''..'' \<in> set (Split (CHR ''/'') value)"

definition ValidatePath :: "string \<Rightarrow> backup_error option" where
  "ValidatePath value =
     (if \<not> EscapesBundleRoot value then None
      else if value = [] then Some ErrEmptyPath
      else if HasPrefix value ''/'' then Some ErrAbsolutePath
      else if containsWindowsDriveRoot True value then Some ErrDrivePath
      else if CHR 0x5C \<in> set value then Some ErrBackslashPath
      else Some ErrPathEscape)"

section \<open>Writing entries\<close>

definition maxFileSize :: int where "maxFileSize = 2147483648"

datatype zip_method = Store | Deflate | OtherMethod nat

record zipEntry =
  zeName :: string
  zeSize :: int
  zeMethod :: zip_method

record writerOptions =
  woCompression :: zip_method
  woAggregateLimit :: "int option"

definition defaultWriterOptions :: writerOptions where
  "defaultWriterOptions = \<lparr>woCompression = Deflate, woAggregateLimit = None\<rparr>"

definition WithCompression :: "zip_method \<Rightarrow> writerOptions \<Rightarrow> writerOptions" where
  "WithCompression method options = options\<lparr>woCompression := method\<rparr>"

definition WithAggregateLimit :: "int \<Rightarrow> writerOptions \<Rightarrow> writerOptions" where
  "WithAggregateLimit maxBytes options = options\<lparr>woAggregateLimit := (if maxBytes < 0 then None else Some maxBytes)\<rparr>"

text \<open>The writer with the entries it has sent to the archive; the names it has seen are the names of the entries.\<close>

record zipWriter =
  zwOptions :: writerOptions
  zwTotal :: int
  zwClosed :: bool
  zwEntries :: "zipEntry list"

definition openWriter :: "writerOptions \<Rightarrow> zipWriter" where
  "openWriter options = \<lparr>zwOptions = options, zwTotal = 0, zwClosed = False, zwEntries = []\<rparr>"

definition exceeds :: "int \<Rightarrow> int \<Rightarrow> int \<Rightarrow> bool" where
  "exceeds current addition limit \<longleftrightarrow> current > limit \<or> addition > limit - current"

text \<open>
  What opening an entry gives: an error, or a reader with the number of bytes it yields and the error with which
  reading or closing it fails, if any.
\<close>

type_synonym opener = "goerror + nat \<times> goerror option"

text \<open>The limit of one entry, and the error when its reader yields more.\<close>

definition entryLimit :: "zipWriter \<Rightarrow> int \<times> backup_error" where
  "entryLimit w =
     (case woAggregateLimit (zwOptions w) of
        None \<Rightarrow> (maxFileSize, ErrFileTooLarge)
      | Some limit \<Rightarrow>
          let remaining = max 0 (limit - zwTotal w) in
          if remaining < maxFileSize then (remaining, ErrAggregateLimitExceeded) else (maxFileSize, ErrFileTooLarge))"

definition checkEntry :: "zipWriter \<Rightarrow> string \<Rightarrow> int \<Rightarrow> opener option \<Rightarrow> backup_error option" where
  "checkEntry w name declared open =
     (if zwClosed w then Some ErrWriterClosed
      else case ValidatePath name of
        Some e \<Rightarrow> Some e
      | None \<Rightarrow>
          if name \<in> zeName ` set (zwEntries w) then Some ErrDuplicatePath
          else if declared > maxFileSize then Some ErrFileTooLarge
          else if open = None then Some ErrNilOpener
          else if (case woAggregateLimit (zwOptions w) of None \<Rightarrow> False | Some limit \<Rightarrow> declared \<ge> 0 \<and> exceeds (zwTotal w) declared limit)
          then Some ErrAggregateLimitExceeded
          else if woCompression (zwOptions w) \<notin> {Store, Deflate} then Some ErrUnknownCompression
          else None)"

definition Add :: "zipWriter \<Rightarrow> string \<Rightarrow> int \<Rightarrow> opener option \<Rightarrow> backup_error option \<times> zipWriter" where
  "Add w name declared open =
     (case checkEntry w name declared open of
        Some e \<Rightarrow> (Some e, w)
      | None \<Rightarrow>
          let add = (\<lambda>n. w\<lparr>zwTotal := zwTotal w + n, zwEntries := zwEntries w @ [\<lparr>zeName = name, zeSize = n, zeMethod = woCompression (zwOptions w)\<rparr>]\<rparr>) in
          (case the open of
             Inl e \<Rightarrow> (Some (ErrOpen e), add 0)
           | Inr (n, failure) \<Rightarrow>
               let (limit, limitErr) = entryLimit w in
               if int n > limit then (Some limitErr, add limit)
               else (map_option ErrOpen failure, add (int n))))"

definition CloseWriter :: "zipWriter \<Rightarrow> zipWriter" where
  "CloseWriter w = w\<lparr>zwClosed := True\<rparr>"

section \<open>The envelope\<close>

definition textBytes :: "string \<Rightarrow> octets" where
  "textBytes s = map (\<lambda>c. word_of_nat (of_char c)) s"

definition envelopeMagic :: octets where "envelopeMagic = textBytes ''BX01''"
definition envelopeVersion :: "8 word" where "envelopeVersion = 1"
definition envelopeKDFID :: "8 word" where "envelopeKDFID = 1"
definition kdfIterations :: nat where "kdfIterations = 600000"
definition kdfRParam :: "8 word" where "kdfRParam = 8"
definition kdfPParam :: "8 word" where "kdfPParam = 1"
definition envelopeReserved :: "8 word" where "envelopeReserved = 0"
definition envelopeSaltSize :: nat where "envelopeSaltSize = 16"
definition envelopeNonceSize :: nat where "envelopeNonceSize = 12"
definition envelopeVerifierSize :: nat where "envelopeVerifierSize = 32"
definition envelopeHeaderSize :: nat where "envelopeHeaderSize = 81"
definition envelopeChunkSize :: nat where "envelopeChunkSize = 65536"
definition envelopeTagSize :: nat where "envelopeTagSize = 16"

definition derivePassphraseKey :: "octets \<Rightarrow> octets \<Rightarrow> octets" where
  "derivePassphraseKey passphrase salt = pbkdf2Key passphrase salt kdfIterations"

definition computeVerifier :: "octets \<Rightarrow> octets" where
  "computeVerifier key = hmacSum key (textBytes ''proxycore-backup-v1'')"

definition deriveBodyKey :: "octets \<Rightarrow> octets \<Rightarrow> octets" where
  "deriveBodyKey key nonce = hmacSum key (textBytes ''proxycore-backup-body-v1'' @ nonce)"

definition encryptedBodySize :: "int \<Rightarrow> backup_error + nat" where
  "encryptedBodySize plainSize =
     (if plainSize < 0 then Inl ErrEncryptedBodySize
      else let n = nat plainSize; chunks = n div envelopeChunkSize + (if n mod envelopeChunkSize \<noteq> 0 then 1 else 0) in
           Inr (n + chunks * (4 + envelopeNonceSize + envelopeTagSize) + 4))"

text \<open>\<open>copy\<close> into a field of the header.\<close>

definition field :: "nat \<Rightarrow> octets \<Rightarrow> octets" where
  "field n bs = take n bs @ replicate (n - length bs) 0"

definition makeEnvelopeHeader :: "octets \<Rightarrow> octets \<Rightarrow> octets \<Rightarrow> nat \<Rightarrow> octets" where
  "makeEnvelopeHeader salt nonce verifier bodySize =
     envelopeMagic @ [envelopeVersion, envelopeKDFID] @ putUint32 kdfIterations @ [kdfRParam, kdfPParam, envelopeReserved] @
     field envelopeSaltSize salt @ field envelopeNonceSize nonce @ field envelopeVerifierSize verifier @ putUint64 bodySize"

text \<open>The chunks: length, nonce and sealed bytes.  The nonce of the i-th chunk is random, \<open>None\<close> when there is none.\<close>

function sealChunks :: "octets \<Rightarrow> (nat \<Rightarrow> octets option) \<Rightarrow> nat \<Rightarrow> octets \<Rightarrow> backup_error + octets" where
  "sealChunks key nonces i plain =
     (if plain = [] then Inr []
      else case nonces i of
        None \<Rightarrow> Inl ErrRandom
      | Some nonce \<Rightarrow>
          let p = take envelopeChunkSize plain in
          bindE (sealChunks key nonces (Suc i) (drop envelopeChunkSize plain)) (\<lambda>rest.
          Inr (putUint32 (length p) @ nonce @ gcmSeal key nonce p @ rest)))"
  by pat_completeness auto
termination
  by (relation "measure (\<lambda>(_, _, _, plain). length plain)") (auto simp: envelopeChunkSize_def)

declare sealChunks.simps [simp del]

definition writeEnvelope :: "octets \<Rightarrow> octets \<Rightarrow> octets \<Rightarrow> octets \<Rightarrow> (nat \<Rightarrow> octets option) \<Rightarrow> octets \<Rightarrow> backup_error + octets" where
  "writeEnvelope salt headerNonce verifier bodyKey nonces archive =
     bindE (encryptedBodySize (int (length archive))) (\<lambda>bodySize.
     bindE (sealChunks bodyKey nonces 0 archive) (\<lambda>body.
     if length body + 4 \<noteq> bodySize then Inl ErrEncryptedBodySize
     else Inr (makeEnvelopeHeader salt headerNonce verifier bodySize @ body @ replicate 4 0)))"

text \<open>\<open>OpenEncrypted\<close> and \<open>Close\<close> around a finished archive: without a passphrase it is written as it is.\<close>

definition sealArchive :: "octets \<Rightarrow> octets option \<Rightarrow> octets option \<Rightarrow> (nat \<Rightarrow> octets option) \<Rightarrow> octets \<Rightarrow> backup_error + octets" where
  "sealArchive passphrase salt headerNonce nonces archive =
     (if passphrase = [] then Inr archive
      else case (salt, headerNonce) of
        (Some salt, Some headerNonce) \<Rightarrow>
          let key = derivePassphraseKey passphrase salt in
          writeEnvelope salt headerNonce (computeVerifier key) (deriveBodyKey key headerNonce) nonces archive
      | _ \<Rightarrow> Inl ErrRandom)"

section \<open>Reading\<close>

function decryptChunks :: "octets \<Rightarrow> nat \<Rightarrow> octets \<Rightarrow> backup_error + octets \<times> octets" where
  "decryptChunks key remaining input =
     (if remaining < 4 then Inl ErrTrailerMismatch
      else if length input < 4 then Inl ErrCorruptArchive
      else
        let chunkSize = bigEndian (take 4 input); remaining' = remaining - 4; body = drop 4 input;
            recordSize = envelopeNonceSize + chunkSize + envelopeTagSize in
        if chunkSize = 0 then (if remaining' \<noteq> 0 then Inl ErrTrailerMismatch else Inr ([], body))
        else if chunkSize > envelopeChunkSize then Inl ErrCorruptArchive
        else if remaining' < recordSize then Inl ErrTrailerMismatch
        else if length body < recordSize then Inl ErrCorruptArchive
        else (case gcmOpen key (take envelopeNonceSize body) (take (chunkSize + envelopeTagSize) (drop envelopeNonceSize body)) of
            None \<Rightarrow> Inl ErrCorruptArchive
          | Some plain \<Rightarrow>
              if length plain \<noteq> chunkSize then Inl ErrCorruptArchive
              else bindE (decryptChunks key (remaining' - recordSize) (drop recordSize body)) (\<lambda>(rest, tail). Inr (plain @ rest, tail))))"
  by pat_completeness auto
termination
  by (relation "measure (\<lambda>(_, remaining, _). remaining)") auto

declare decryptChunks.simps [simp del]

definition decryptBody :: "octets \<Rightarrow> nat \<Rightarrow> octets \<Rightarrow> backup_error + octets" where
  "decryptBody key bodySize input =
     bindE (decryptChunks key bodySize input) (\<lambda>(plain, trailing). if trailing \<noteq> [] then Inl ErrTrailerMismatch else Inr plain)"

text \<open>The envelope after its magic bytes.\<close>

definition openEncrypted :: "octets \<Rightarrow> octets \<Rightarrow> backup_error + octets" where
  "openEncrypted passphrase input =
     (let header = envelopeMagic @ take (envelopeHeaderSize - 4) input; body = drop (envelopeHeaderSize - 4) input in
      if length header < envelopeHeaderSize then Inl ErrCorruptArchive
      else if header ! 4 \<noteq> envelopeVersion then Inl ErrUnsupportedVersion
      else if header ! 5 \<noteq> envelopeKDFID \<or> header ! 12 \<noteq> envelopeReserved then Inl ErrCorruptArchive
      else if bigEndian (take 4 (drop 6 header)) \<noteq> kdfIterations \<or> header ! 10 \<noteq> kdfRParam \<or> header ! 11 \<noteq> kdfPParam then Inl ErrCorruptArchive
      else
        let key = derivePassphraseKey passphrase (take 16 (drop 13 header)) in
        if computeVerifier key \<noteq> take 32 (drop 41 header) then Inl ErrPassphraseMismatch
        else decryptBody (deriveBodyKey key (take 12 (drop 29 header))) (bigEndian (drop 73 header)) body)"

definition maxExtractedFileSize :: int where "maxExtractedFileSize = 2147483648"

fun checkEntries :: "string list \<Rightarrow> zipEntry list \<Rightarrow> backup_error + zipEntry list" where
  "checkEntries seen [] = Inr []"
| "checkEntries seen (entry # rest) =
     (case ValidatePath (zeName entry) of
        Some e \<Rightarrow> Inl e
      | None \<Rightarrow>
          if zeName entry \<in> set seen then Inl ErrDuplicatePath
          else if zeSize entry > maxExtractedFileSize then Inl ErrFileTooLarge
          else if zeMethod entry \<notin> {Store, Deflate} then Inl ErrUnknownCompression
          else bindE (checkEntries (zeName entry # seen) rest) (\<lambda>files. Inr (entry # files)))"

definition finalizeArchive :: "(octets \<Rightarrow> zipEntry list option) \<Rightarrow> octets \<Rightarrow> backup_error + zipEntry list" where
  "finalizeArchive directory archive =
     (case directory archive of None \<Rightarrow> Inl ErrCorruptArchive | Some entries \<Rightarrow> checkEntries [] entries)"

definition OpenBackup :: "(octets \<Rightarrow> zipEntry list option) \<Rightarrow> octets \<Rightarrow> octets \<Rightarrow> backup_error + zipEntry list" where
  "OpenBackup directory input passphrase =
     (if take 4 input = envelopeMagic then
        (if passphrase = [] then Inl ErrPassphraseRequired
         else bindE (openEncrypted passphrase (drop 4 input)) (finalizeArchive directory))
      else if passphrase \<noteq> [] then Inl ErrPassphraseRequired
      else finalizeArchive directory input)"

end
