(* ===== verification/BackupLaws.thy ===== *)
theory BackupLaws
  imports BackupEnvelope
begin

text \<open>Laws of the backup archives: the envelope opens to what was sealed, and nothing shorter opens.\<close>

section \<open>Chunks\<close>

definition chunkCount :: "nat \<Rightarrow> nat" where
  "chunkCount n = n div envelopeChunkSize + (if n mod envelopeChunkSize \<noteq> 0 then 1 else 0)"

lemma chunkCount_step:
  assumes "0 < n"
  shows "chunkCount n = Suc (chunkCount (n - envelopeChunkSize))"
proof (cases "n < envelopeChunkSize")
  case True
  then show ?thesis using assms by (simp add: chunkCount_def)
next
  case False
  then have "n div envelopeChunkSize = Suc ((n - envelopeChunkSize) div envelopeChunkSize)"
    by (simp add: envelopeChunkSize_def le_div_geq)
  moreover have "(n - envelopeChunkSize) mod envelopeChunkSize = n mod envelopeChunkSize" using False by (simp add: le_mod_geq)
  ultimately show ?thesis by (simp add: chunkCount_def)
qed

definition freshNonces :: "(nat \<Rightarrow> octets option) \<Rightarrow> bool" where
  "freshNonces nonces \<longleftrightarrow> (\<forall>i. \<exists>n. nonces i = Some n \<and> length n = envelopeNonceSize)"

lemma sealChunks_Nil: "sealChunks key nonces i [] = Inr []"
  by (simp add: sealChunks.simps)

lemma sealChunks_total:
  assumes "freshNonces nonces" "length key = 32"
  shows "\<exists>body. sealChunks key nonces i plain = Inr body \<and> length body = length plain + 32 * chunkCount (length plain)"
proof (induction "length plain" arbitrary: i plain rule: less_induct)
  case less
  show ?case
  proof (cases "plain = []")
    case True
    then show ?thesis by (simp add: sealChunks_Nil chunkCount_def)
  next
    case False
    then have "length (drop envelopeChunkSize plain) < length plain" by (simp add: envelopeChunkSize_def)
    then obtain rest where rest: "sealChunks key nonces (Suc i) (drop envelopeChunkSize plain) = Inr rest"
      "length rest = length (drop envelopeChunkSize plain) + 32 * chunkCount (length (drop envelopeChunkSize plain))"
      using less by blast
    obtain nonce where nonce: "nonces i = Some nonce" "length nonce = 12" using assms(1) by (auto simp: freshNonces_def envelopeNonceSize_def)
    let ?p = "take envelopeChunkSize plain"
    have "sealChunks key nonces i plain = Inr (putUint32 (length ?p) @ nonce @ gcmSeal key nonce ?p @ rest)"
      using False rest(1) nonce(1) by (simp add: sealChunks.simps [of key nonces i plain] Let_def bindE_def)
    moreover have "chunkCount (length plain) = Suc (chunkCount (length plain - envelopeChunkSize))" using False by (intro chunkCount_step) simp
    ultimately show ?thesis using rest(2) nonce(2) by (simp add: gcmSeal_length [OF assms(2)])
  qed
qed

lemma decryptChunks_end: "decryptChunks key 4 (replicate 4 0 @ tail) = Inr ([], tail)"
proof -
  have "bigEndian (replicate 4 0) = 0" by (simp add: bigEndian_def numeral_eq_Suc)
  then show ?thesis by (subst decryptChunks.simps) (simp add: Let_def)
qed

lemma decryptChunks_step:
  assumes "p \<noteq> []" "length p \<le> 65536" "bigEndian header = length p" "length header = 4" "length nonce = 12"
    "length sealed = length p + 16" "gcmOpen key nonce sealed = Some p"
  shows "decryptChunks key (32 + length p + m) (header @ nonce @ sealed @ r) =
    bindE (decryptChunks key m r) (\<lambda>(rest, tail). Inr (p @ rest, tail))"
  by (subst decryptChunks.simps) (use assms in \<open>simp add: Let_def envelopeNonceSize_def envelopeTagSize_def envelopeChunkSize_def\<close>)

text \<open>The chunks are read back one by one.\<close>

lemma decryptChunks_sealChunks:
  assumes "freshNonces nonces" "length key = 32" "sealChunks key nonces i plain = Inr body"
  shows "decryptChunks key (length body + 4) (body @ replicate 4 0 @ tail) = Inr (plain, tail)"
  using assms(3)
proof (induction "length plain" arbitrary: i plain body rule: less_induct)
  case less
  show ?case
  proof (cases "plain = []")
    case True
    then show ?thesis using less.prems decryptChunks_end by (simp add: sealChunks_Nil)
  next
    case False
    let ?p = "take envelopeChunkSize plain" and ?d = "drop envelopeChunkSize plain"
    obtain nonce where nonce: "nonces i = Some nonce" "length nonce = 12" using assms(1) by (auto simp: freshNonces_def envelopeNonceSize_def)
    obtain rest where rest: "sealChunks key nonces (Suc i) ?d = Inr rest" and body: "body = putUint32 (length ?p) @ nonce @ gcmSeal key nonce ?p @ rest"
      using less.prems False nonce(1) by (auto simp: sealChunks.simps [of key nonces i plain] Let_def bindE_eq_Inr)
    have "length ?d < length plain" using False by (simp add: envelopeChunkSize_def)
    from less.hyps [OF this rest] have ih: "decryptChunks key (length rest + 4) (rest @ replicate 4 0 @ tail) = Inr (?d, tail)" .
    have n: "0 < length ?p" "length ?p \<le> 65536" "bigEndian (putUint32 (length ?p)) = length ?p"
      using False by (auto simp: envelopeChunkSize_def intro!: bigEndian_putUint32)
    have s: "length (gcmSeal key nonce ?p) = length ?p + 16" "gcmOpen key nonce (gcmSeal key nonce ?p) = Some ?p"
      using gcmSeal_length gcmOpen_gcmSeal assms(2) by blast+
    have "length body + 4 = 32 + length ?p + (length rest + 4)" using s(1) nonce(2) by (simp add: body)
    then have "decryptChunks key (length body + 4) (body @ replicate 4 0 @ tail) =
        bindE (decryptChunks key (length rest + 4) (rest @ replicate 4 0 @ tail)) (\<lambda>(rest, tail). Inr (?p @ rest, tail))"
      using decryptChunks_step [of ?p "putUint32 (length ?p)" nonce "gcmSeal key nonce ?p" key "length rest + 4" "rest @ replicate 4 0 @ tail"] n s nonce(2)
      by (simp only: body append_assoc putUint_length) (simp del: length_take)
    then show ?thesis by (simp add: ih bindE_def)
  qed
qed

text \<open>A body that opens is used up to its declared size.\<close>

lemma decryptChunks_consumes: "decryptChunks key remaining input = Inr (plain, tail) \<Longrightarrow> length input = remaining + length tail"
proof (induction key remaining input arbitrary: plain tail rule: decryptChunks.induct)
  case (1 key remaining input)
  let ?c = "bigEndian (take 4 input)" and ?b = "drop 4 input"
  let ?r = "envelopeNonceSize + ?c + envelopeTagSize"
  have l: "4 \<le> remaining" "4 \<le> length input"
    using 1(2) by (auto simp: decryptChunks.simps [of key remaining input] split: if_splits)
  show ?case
  proof (cases "?c = 0")
    case True
    then show ?thesis using 1(2) l by (auto simp: decryptChunks.simps [of key remaining input] Let_def split: if_splits)
  next
    case False
    obtain p rest where p: "gcmOpen key (take envelopeNonceSize ?b) (take (?c + envelopeTagSize) (drop envelopeNonceSize ?b)) = Some p" "length p = ?c"
      and c: "?c \<le> envelopeChunkSize" "?r \<le> remaining - 4" "?r \<le> length ?b" and d: "decryptChunks key (remaining - 4 - ?r) (drop ?r ?b) = Inr (rest, tail)"
      using 1(2) False l by (auto simp: decryptChunks.simps [of key remaining input] Let_def bindE_eq_Inr split: if_splits option.splits)
    have "length (drop ?r ?b) = remaining - 4 - ?r + length tail"
      using 1(1) [OF _ _ refl refl refl refl False _ _ _ p(1) _ d] l c p(2) by simp
    then show ?thesis using c(2,3) l by simp
  qed
qed

section \<open>The envelope\<close>

lemma envelopeMagic_length [simp]: "length envelopeMagic = 4"
  by (simp add: envelopeMagic_def textBytes_def)

lemma field_id: "length bs = n \<Longrightarrow> field n bs = bs"
  by (simp add: field_def)

lemma keys_length [simp]: "length (computeVerifier key) = 32" "length (deriveBodyKey key nonce) = 32"
  by (simp_all add: computeVerifier_def deriveBodyKey_def)

text \<open>The reader finds the fields of the header where the writer put them.\<close>

lemma openEncrypted_header:
  assumes "length salt = 16" "length nonce = 12" "length verifier = 32" "n < 2 ^ 64"
  shows "openEncrypted passphrase (drop 4 (makeEnvelopeHeader salt nonce verifier n) @ body) =
    (let key = derivePassphraseKey passphrase salt in
     if computeVerifier key \<noteq> verifier then Inl ErrPassphraseMismatch else decryptBody (deriveBodyKey key nonce) n body)"
proof -
  let ?h = "makeEnvelopeHeader salt nonce verifier n"
  have h: "?h = envelopeMagic @ [envelopeVersion, envelopeKDFID] @ putUint32 kdfIterations @ [kdfRParam, kdfPParam, envelopeReserved] @ salt @ nonce @ verifier @ putUint64 n"
    using assms by (simp add: makeEnvelopeHeader_def field_id envelopeSaltSize_def envelopeNonceSize_def envelopeVerifierSize_def)
  have l: "length ?h = 81" using assms by (simp add: h)
  have eq: "envelopeMagic @ take (envelopeHeaderSize - 4) (drop 4 ?h @ body) = ?h" "drop (envelopeHeaderSize - 4) (drop 4 ?h @ body) = body"
    using l by (simp_all add: h envelopeHeaderSize_def)
  have fields: "?h ! 4 = envelopeVersion" "?h ! 5 = envelopeKDFID" "?h ! 10 = kdfRParam" "?h ! 11 = kdfPParam" "?h ! 12 = envelopeReserved"
    "take 4 (drop 6 ?h) = putUint32 kdfIterations" "take 16 (drop 13 ?h) = salt" "take 12 (drop 29 ?h) = nonce" "take 32 (drop 41 ?h) = verifier" "drop 73 ?h = putUint64 n"
    unfolding h using assms by (simp_all add: nth_append)
  have "bigEndian (putUint32 kdfIterations) = kdfIterations" by (rule bigEndian_putUint32) (simp add: kdfIterations_def)
  then show ?thesis
    unfolding openEncrypted_def Let_def eq fields using l bigEndian_putUint64 [OF assms(4)] by (simp add: envelopeHeaderSize_def)
qed

lemma chunkCount_bound: "chunkCount n \<le> n div 65536 + 1"
  by (simp add: chunkCount_def envelopeChunkSize_def)

lemma encryptedBodySize_nat: "encryptedBodySize (int n) = Inr (n + 32 * chunkCount n + 4)"
  by (simp add: encryptedBodySize_def Let_def chunkCount_def envelopeNonceSize_def envelopeTagSize_def)

text \<open>An accepted envelope is as long as its header says.\<close>

lemma openEncrypted_length:
  assumes "openEncrypted passphrase input = Inr archive"
  shows "77 \<le> length input \<and> length input = 77 + bigEndian (take 8 (drop 69 input))"
proof -
  let ?h = "envelopeMagic @ take 77 input"
  have l: "77 \<le> length input" using assms by (auto simp: openEncrypted_def Let_def envelopeHeaderSize_def split: if_splits)
  obtain key where "decryptBody key (bigEndian (drop 73 ?h)) (drop 77 input) = Inr archive"
    using assms by (auto simp: openEncrypted_def Let_def envelopeHeaderSize_def split: if_splits)
  then have "length (drop 77 input) = bigEndian (drop 73 ?h)"
    by (auto simp: decryptBody_def bindE_eq_Inr split: if_splits dest!: decryptChunks_consumes)
  moreover have "drop 73 ?h = take 8 (drop 69 input)" by (simp add: drop_take)
  ultimately show ?thesis using l by simp
qed

lemma magic_prefix: "take 4 input = envelopeMagic \<Longrightarrow> n < 4 \<Longrightarrow> take 4 (take n input) \<noteq> envelopeMagic"
  using envelopeMagic_length by (metis length_take min.absorb1 min.strict_boundedE nat_less_le not_less take_take)

section \<open>Entries\<close>

text \<open>The reader accepts exactly the lists of legal entries without a name twice.\<close>

definition legalEntry :: "zipEntry \<Rightarrow> bool" where
  "legalEntry e \<longleftrightarrow> \<not> EscapesBundleRoot (zeName e) \<and> zeSize e \<le> maxExtractedFileSize \<and> zeMethod e \<in> {Store, Deflate}"

lemma ValidatePath_None: "ValidatePath name = None \<longleftrightarrow> \<not> EscapesBundleRoot name"
  by (simp add: ValidatePath_def)

lemma checkEntries_iff:
  "checkEntries seen es = Inr files \<longleftrightarrow>
     files = es \<and> list_all legalEntry es \<and> distinct (map zeName es) \<and> set seen \<inter> zeName ` set es = {}"
proof (induction es arbitrary: seen files)
  case (Cons e es)
  have "ValidatePath (zeName e) = None \<longleftrightarrow> \<not> EscapesBundleRoot (zeName e)" by (rule ValidatePath_None)
  then show ?case
    using Cons by (auto simp: legalEntry_def bindE_eq_Inr split: option.splits)
qed auto

text \<open>What the writer has sent to the archive.\<close>

definition writerOK :: "zipWriter \<Rightarrow> bool" where
  "writerOK w \<longleftrightarrow>
     list_all legalEntry (zwEntries w) \<and> distinct (map zeName (zwEntries w)) \<and> list_all (\<lambda>e. 0 \<le> zeSize e) (zwEntries w) \<and>
     zwTotal w = sum_list (map zeSize (zwEntries w)) \<and>
     (case woAggregateLimit (zwOptions w) of None \<Rightarrow> True | Some limit \<Rightarrow> zwTotal w \<le> max 0 limit)"

lemma openWriter_ok: "writerOK (openWriter options)"
  by (simp add: writerOK_def openWriter_def split: option.splits)

lemma entryLimit_bound:
  assumes "entryLimit w = (limit, e)"
  shows "limit \<le> maxFileSize" "0 \<le> limit" "woAggregateLimit (zwOptions w) = Some cap \<Longrightarrow> zwTotal w + limit \<le> max cap (zwTotal w)"
  using assms by (auto simp: entryLimit_def maxFileSize_def Let_def split: option.splits if_splits)

lemma Add_ok:
  assumes "Add w name declared opener = (r, w')" "writerOK w"
  shows "writerOK w'"
proof (cases "checkEntry w name declared opener")
  case (Some e)
  then show ?thesis using assms by (simp add: Add_def)
next
  case None
  obtain limit e where l: "entryLimit w = (limit, e)" by (cases "entryLimit w")
  define add where "add = (\<lambda>n. w\<lparr>zwTotal := zwTotal w + n,
     zwEntries := zwEntries w @ [\<lparr>zeName = name, zeSize = n, zeMethod = woCompression (zwOptions w)\<rparr>]\<rparr>)"
  have run: "(r, w') = (case the opener of Inl e \<Rightarrow> (Some (ErrOpen e), add 0) | Inr (n, failure) \<Rightarrow>
      if int n > limit then (Some e, add limit) else (map_option ErrOpen failure, add (int n)))"
    using assms(1) None l by (cases "the opener") (auto simp: Add_def add_def Let_def split: prod.splits)
  have "\<exists>n. w' = add n \<and> 0 \<le> n \<and> n \<le> limit"
  proof (cases "the opener")
    case (Inl x)
    then show ?thesis using run entryLimit_bound(2) [OF l] by auto
  next
    case (Inr x)
    then show ?thesis using run entryLimit_bound(2) [OF l] by (cases x) (auto split: if_splits)
  qed
  then obtain n where n: "w' = add n" "0 \<le> n" "n \<le> limit" by blast
  have c: "\<not> EscapesBundleRoot name" "name \<notin> zeName ` set (zwEntries w)" "woCompression (zwOptions w) \<in> {Store, Deflate}"
    using None by (auto simp: checkEntry_def ValidatePath_None split: if_splits option.splits)
  have "zwTotal w + n \<le> max 0 cap" if "woAggregateLimit (zwOptions w) = Some cap" for cap
    using entryLimit_bound(3) [OF l that] n(3) that assms(2) by (auto simp: writerOK_def max_def split: if_splits)
  moreover have "n \<le> maxExtractedFileSize" using n(3) entryLimit_bound(1) [OF l] by (simp add: maxFileSize_def maxExtractedFileSize_def)
  ultimately show ?thesis using assms(2) n(1,2) c by (auto simp: writerOK_def add_def legalEntry_def split: option.splits)
qed

fun addAll :: "zipWriter \<Rightarrow> (string \<times> int \<times> opener option) list \<Rightarrow> zipWriter" where
  "addAll w [] = w"
| "addAll w ((name, declared, opener) # rest) = addAll (snd (Add w name declared opener)) rest"

lemma addAll_ok: "writerOK w \<Longrightarrow> writerOK (addAll w calls)"
proof (induction w calls rule: addAll.induct)
  case (2 w name declared opener rest)
  then show ?case using Add_ok [of w name declared opener "fst (Add w name declared opener)" "snd (Add w name declared opener)"] by simp
qed simp

lemma Add_options: "zwOptions (snd (Add w name declared opener)) = zwOptions w"
  by (auto simp: Add_def Let_def split: option.splits sum.splits prod.splits if_splits)

lemma addAll_options: "zwOptions (addAll w calls) = zwOptions w"
  by (induction w calls rule: addAll.induct) (simp_all add: Add_options)

lemma legal_noDots: "\<not> EscapesBundleRoot name \<Longrightarrow> noDots name"
  by (auto simp: EscapesBundleRoot_def noDots_def pathParts_def)

lemma sealArchive_opens:
  assumes "passphrase \<noteq> []" "length salt = 16" "length nonce = 12" "freshNonces nonces" "length archive < 2 ^ 63"
  shows "\<exists>out. sealArchive passphrase (Some salt) (Some nonce) nonces archive = Inr out \<and> take 4 out = envelopeMagic \<and>
    openEncrypted passphrase (drop 4 out) = Inr archive"
proof -
  let ?key = "derivePassphraseKey passphrase salt"
  let ?n = "length archive + 32 * chunkCount (length archive) + 4"
  let ?h = "makeEnvelopeHeader salt nonce (computeVerifier ?key) ?n"
  obtain body where b: "sealChunks (deriveBodyKey ?key nonce) nonces 0 archive = Inr body" "length body = length archive + 32 * chunkCount (length archive)"
    using sealChunks_total [OF assms(4)] by (metis keys_length(2))
  have out: "sealArchive passphrase (Some salt) (Some nonce) nonces archive = Inr (?h @ body @ replicate 4 0)"
    using assms(1) b by (simp add: sealArchive_def writeEnvelope_def Let_def encryptedBodySize_nat bindE_def)
  have "?n < 2 ^ 64" using chunkCount_bound [of "length archive"] assms(5) by simp
  note h = openEncrypted_header [OF assms(2,3) keys_length(1) [of ?key] this, of passphrase "body @ replicate 4 0"]
  have "decryptBody (deriveBodyKey ?key nonce) ?n (body @ replicate 4 0) = Inr archive"
    using decryptChunks_sealChunks [OF assms(4) keys_length(2) b(1), of "[]"] b(2) by (simp add: decryptBody_def bindE_def)
  then have "openEncrypted passphrase (drop 4 ?h @ body @ replicate 4 0) = Inr archive" using h by (simp add: Let_def)
  moreover have "take 4 ?h = envelopeMagic" "4 \<le> length ?h" by (simp_all add: makeEnvelopeHeader_def)
  ultimately show ?thesis using out by simp
qed

section \<open>Properties\<close>

text \<open>
  C16: An archive sealed with a passphrase opens with that passphrase to the same archive, and without one it is
  refused.  Sealing succeeds whenever there is randomness: the size in the header is always the size of the body.
\<close>

theorem envelope_roundtrip:
  assumes "passphrase \<noteq> []" "length salt = 16" "length nonce = 12" "freshNonces nonces" "length archive < 2 ^ 63"
  shows "\<exists>out. sealArchive passphrase (Some salt) (Some nonce) nonces archive = Inr out \<and>
    OpenBackup directory out passphrase = finalizeArchive directory archive \<and> OpenBackup directory out [] = Inl ErrPassphraseRequired"
  using sealArchive_opens [OF assms] assms(1) by (auto simp: OpenBackup_def bindE_def)

text \<open>
  C17: A backup in an envelope that was cut short is refused: whatever the directory reader accepts, no proper
  prefix of an accepted envelope is accepted.
\<close>

theorem truncated_backup_refused:
  assumes "OpenBackup directory input passphrase = Inr files" "take 4 input = envelopeMagic" "n < length input"
  shows "isl (OpenBackup directory (take n input) passphrase)"
proof (rule ccontr)
  assume "\<not> ?thesis"
  then obtain files' where o2: "OpenBackup directory (take n input) passphrase = Inr files'" by (cases "OpenBackup directory (take n input) passphrase") auto
  have p: "passphrase \<noteq> []" using assms(1,2) by (auto simp: OpenBackup_def)
  then have m: "take 4 (take n input) = envelopeMagic" using o2 by (auto simp: OpenBackup_def split: if_splits)
  then have n: "4 \<le> n" using magic_prefix [OF assms(2)] by (meson not_less)
  obtain a where "openEncrypted passphrase (drop 4 input) = Inr a" using assms(1,2) p by (auto simp: OpenBackup_def bindE_eq_Inr)
  note full = openEncrypted_length [OF this]
  obtain b where "openEncrypted passphrase (drop 4 (take n input)) = Inr b" using o2 m p by (auto simp: OpenBackup_def bindE_eq_Inr)
  note cut = openEncrypted_length [OF this]
  have "81 \<le> n" using conjunct1 [OF cut] n by (simp add: min_def split: if_splits)
  then have "take 8 (drop 69 (drop 4 (take n input))) = take 8 (drop 69 (drop 4 input))" by (simp add: drop_take)
  then show False using conjunct2 [OF full] conjunct2 [OF cut] assms(3) n by simp
qed

text \<open>
  C18: Whatever files an export adds, the reader accepts the entries that were written: their names are distinct and
  stay below the directory they are extracted to, and their bytes stay within the limit of the export.
\<close>

theorem export_import_entries:
  assumes "noDots root" "root \<noteq> []"
  shows "let w = addAll (openWriter options) calls in
    finalizeArchive (\<lambda>_. Some (zwEntries w)) archive = Inr (zwEntries w) \<and>
    list_all (\<lambda>e. pathParts (PathJoin [root, zeName e]) = pathParts root @ pathParts (zeName e)) (zwEntries w) \<and>
    (case woAggregateLimit options of None \<Rightarrow> True | Some limit \<Rightarrow> sum_list (map zeSize (zwEntries w)) \<le> max 0 limit)"
proof -
  let ?w = "addAll (openWriter options) calls"
  have ok: "writerOK ?w" by (rule addAll_ok [OF openWriter_ok])
  have "zwOptions ?w = options" by (simp add: addAll_options openWriter_def)
  then have "case woAggregateLimit options of None \<Rightarrow> True | Some limit \<Rightarrow> sum_list (map zeSize (zwEntries ?w)) \<le> max 0 limit"
    using ok by (simp add: writerOK_def split: option.splits)
  moreover have "checkEntries [] (zwEntries ?w) = Inr (zwEntries ?w)" using ok by (simp add: checkEntries_iff writerOK_def)
  moreover have "pathParts (PathJoin [root, zeName e]) = pathParts root @ pathParts (zeName e)" if "e \<in> set (zwEntries ?w)" for e
  proof (rule pathParts_PathJoin [OF assms(1) _ assms(2)])
    have "legalEntry e" using ok that by (simp add: writerOK_def list_all_iff)
    then show "noDots (zeName e)" by (simp add: legalEntry_def legal_noDots)
  qed
  ultimately show ?thesis by (simp add: Let_def finalizeArchive_def list_all_iff)
qed

section \<open>Witnesses\<close>

definition demoNonces :: "nat \<Rightarrow> octets option" where
  "demoNonces i = Some (replicate 12 (word_of_nat i))"

lemma demo_fresh: "freshNonces demoNonces"
  by (simp add: freshNonces_def demoNonces_def envelopeNonceSize_def)

definition demoArchive :: octets where
  "demoArchive = [80, 75, 5, 6]"

theorem envelope_roundtrip_witness:
  "\<exists>out. sealArchive [1, 2] (Some (replicate 16 7)) (Some (replicate 12 9)) demoNonces demoArchive = Inr out \<and>
     OpenBackup (\<lambda>a. if a = demoArchive then Some [] else None) out [1, 2] = Inr []"
  using envelope_roundtrip [of "[1, 2]" "replicate 16 7" "replicate 12 9" demoNonces demoArchive "\<lambda>a. if a = demoArchive then Some [] else None"] demo_fresh
  by (auto simp: demoArchive_def finalizeArchive_def)

theorem truncated_backup_refused_witness:
  "\<exists>out. OpenBackup (\<lambda>_. Some []) out [1, 2] = Inr [] \<and> take 4 out = envelopeMagic \<and> 4 < length out \<and> isl (OpenBackup (\<lambda>_. Some []) (take 4 out) [1, 2])"
proof -
  obtain out where out: "take 4 out = envelopeMagic" "openEncrypted [1, 2] (drop 4 out) = Inr demoArchive"
    using sealArchive_opens [of "[1, 2]" "replicate 16 7" "replicate 12 9" demoNonces demoArchive] demo_fresh by (auto simp: demoArchive_def)
  have b: "OpenBackup (\<lambda>_. Some []) out [1, 2] = Inr []" using out by (simp add: OpenBackup_def bindE_def finalizeArchive_def)
  have "4 < length out" using conjunct1 [OF openEncrypted_length [OF out(2)]] by simp
  then show ?thesis using truncated_backup_refused [OF b out(1)] b out(1) by blast
qed

theorem export_import_entries_witness:
  "noDots ''/restore'' \<and>
   finalizeArchive (\<lambda>_. Some (zwEntries (addAll (openWriter defaultWriterOptions) [(''db/users.json'', 10, Some (Inr (10, None))), (''../x'', 1, None)])))
     demoArchive = Inr (zwEntries (addAll (openWriter defaultWriterOptions) [(''db/users.json'', 10, Some (Inr (10, None))), (''../x'', 1, None)]))"
proof -
  have n: "noDots ''/restore''" by code_simp
  show ?thesis using export_import_entries [OF n, of defaultWriterOptions "[(''db/users.json'', 10, Some (Inr (10, None))), (''../x'', 1, None)]" demoArchive] n
    unfolding Let_def by blast
qed

end
