(* ===== verification/Wakeup.thy ===== *)
theory Wakeup
  imports Candidates
begin

text \<open>
  The wakeup of the worker (\<open>worker/wakeup/wakeup.go\<close>): the loop that polls a cursor over the jobs and reports when it
  may have changed, and the flag with waiters between that loop and the poller.  Each critical section of the flag
  is one function; the callers and their interleaving are a step relation.
\<close>

section \<open>Polling the cursor\<close>

text \<open>Durations are nanoseconds.  A callback that is not set is \<open>False\<close>.\<close>

record wakeOptions =
  opReadCursor :: bool
  opOnJob :: bool
  opOnError :: bool
  opPollInterval :: int
  opErrorDelay :: int

definition DefaultPollInterval :: int where "DefaultPollInterval = 500000000"
definition DefaultErrorDelay :: int where "DefaultErrorDelay = 1000000000"

datatype action = CallOnJob | CallOnError string | SleepFor int

text \<open>One reading of the cursor, and whether the context was cancelled when it returned.  The loop ends with the list
  when the context is cancelled while it sleeps.\<close>

type_synonym reading = "(string + string) \<times> bool"

fun pollCursor :: "bool \<Rightarrow> int \<Rightarrow> int \<Rightarrow> bool \<Rightarrow> string \<Rightarrow> reading list \<Rightarrow> action list" where
  "pollCursor onError poll errDelay primed cursor [] = []"
| "pollCursor onError poll errDelay primed cursor ((Inl e, cancelled) # rest) =
     (if cancelled then []
      else (if onError then [CallOnError e] else []) @ SleepFor errDelay # pollCursor onError poll errDelay False cursor rest)"
| "pollCursor onError poll errDelay primed cursor ((Inr cur, cancelled) # rest) =
     (if cancelled then []
      else if \<not> primed \<or> cur \<noteq> cursor then CallOnJob # SleepFor poll # pollCursor onError poll errDelay True cur rest
      else SleepFor poll # pollCursor onError poll errDelay primed cursor rest)"

definition RunWakeup :: "wakeOptions \<Rightarrow> reading list \<Rightarrow> string + action list" where
  "RunWakeup opts readings =
     (if \<not> opReadCursor opts \<or> \<not> opOnJob opts then Inl ''wakeup: ReadCursor and OnJob are required''
      else if opPollInterval opts < 0 \<or> opErrorDelay opts < 0 then Inl ''wakeup: intervals must not be negative''
      else
        let poll = (if opPollInterval opts = 0 then DefaultPollInterval else opPollInterval opts);
            errDelay = (if opErrorDelay opts = 0 then DefaultErrorDelay else opErrorDelay opts) in
        Inr (pollCursor (opOnError opts) poll (max errDelay poll) False [] readings))"

section \<open>The flag and its waiters\<close>

record Wakeup =
  wkPending :: bool
  wkWaiters :: "nat list"

definition NewWakeup :: Wakeup where
  "NewWakeup = \<lparr>wkPending = False, wkWaiters = []\<rparr>"

text \<open>A channel is closed when it has left the waiters.\<close>

definition Notify :: "Wakeup \<Rightarrow> Wakeup" where
  "Notify w = (if wkWaiters w = [] then w\<lparr>wkPending := True\<rparr> else w\<lparr>wkWaiters := []\<rparr>)"

datatype wait = Waiting nat | Woken bool

definition waitStart :: "nat \<Rightarrow> Wakeup \<Rightarrow> wait \<times> Wakeup" where
  "waitStart ch w =
     (if wkPending w then (Woken True, w\<lparr>wkPending := False\<rparr>) else (Waiting ch, w\<lparr>wkWaiters := wkWaiters w @ [ch]\<rparr>))"

text \<open>The end of a wait by timeout or cancellation.\<close>

definition waitEnd :: "nat \<Rightarrow> Wakeup \<Rightarrow> bool \<times> Wakeup" where
  "waitEnd ch w = (if ch \<in> set (wkWaiters w) then (False, w\<lparr>wkWaiters := remove1 ch (wkWaiters w)\<rparr>) else (True, w))"

text \<open>The calls of \<open>Wait\<close> so far, in the order they began, and whether \<open>Notify\<close> was ever called.\<close>

record waitSystem =
  wsWakeup :: Wakeup
  wsWaits :: "wait list"
  wsNext :: nat
  wsNotified :: bool

inductive wakeStep :: "waitSystem \<Rightarrow> waitSystem \<Rightarrow> bool" where
  notify: "wakeStep s (s\<lparr>wsWakeup := Notify (wsWakeup s), wsNotified := True\<rparr>)"
| begin_wait: "waitStart (wsNext s) (wsWakeup s) = (x, w) \<Longrightarrow>
    wakeStep s (s\<lparr>wsWakeup := w, wsWaits := wsWaits s @ [x], wsNext := Suc (wsNext s)\<rparr>)"
| closed: "i < length (wsWaits s) \<Longrightarrow> wsWaits s ! i = Waiting ch \<Longrightarrow> ch \<notin> set (wkWaiters (wsWakeup s)) \<Longrightarrow>
    wakeStep s (s\<lparr>wsWaits := (wsWaits s)[i := Woken True]\<rparr>)"
| elapsed: "i < length (wsWaits s) \<Longrightarrow> wsWaits s ! i = Waiting ch \<Longrightarrow> waitEnd ch (wsWakeup s) = (b, w) \<Longrightarrow>
    wakeStep s (s\<lparr>wsWakeup := w, wsWaits := (wsWaits s)[i := Woken b]\<rparr>)"

definition wakeInit :: waitSystem where
  "wakeInit = \<lparr>wsWakeup = NewWakeup, wsWaits = [], wsNext = 0, wsNotified = False\<rparr>"

section \<open>Lemmas\<close>

text \<open>
  The invariant: channels are fresh, the flag is only set while nobody waits, and the waiters are distinct channels of
  calls that still wait; without a notification every waiting call is a waiter and none has reported one.
\<close>

definition wakeOK :: "waitSystem \<Rightarrow> bool" where
  "wakeOK s \<longleftrightarrow>
     (wkPending (wsWakeup s) \<longrightarrow> wkWaiters (wsWakeup s) = []) \<and> distinct (wkWaiters (wsWakeup s)) \<and>
     (\<forall>ch\<in>set (wkWaiters (wsWakeup s)). ch < wsNext s) \<and> (\<forall>i<length (wsWaits s). \<forall>ch. wsWaits s ! i = Waiting ch \<longrightarrow> ch < wsNext s) \<and>
     (\<forall>i<length (wsWaits s). \<forall>j<length (wsWaits s). \<forall>ch. wsWaits s ! i = Waiting ch \<longrightarrow> wsWaits s ! j = Waiting ch \<longrightarrow> i = j) \<and>
     (\<not> wsNotified s \<longrightarrow> \<not> wkPending (wsWakeup s) \<and>
       (\<forall>i<length (wsWaits s). \<forall>ch. wsWaits s ! i = Waiting ch \<longrightarrow> ch \<in> set (wkWaiters (wsWakeup s))) \<and>
       (\<forall>i<length (wsWaits s). wsWaits s ! i \<noteq> Woken True))"

lemma wakeInit_ok: "wakeOK wakeInit"
  by (simp add: wakeOK_def wakeInit_def NewWakeup_def)

lemma wakeStep_ok:
  assumes "wakeStep s s'" "wakeOK s"
  shows "wakeOK s'"
  using assms
proof (induction rule: wakeStep.induct)
  case (notify s)
  then show ?case by (auto simp: wakeOK_def Notify_def)
next
  case (begin_wait s x w)
  then show ?case
    by (auto simp: wakeOK_def waitStart_def nth_append less_Suc_eq split: if_splits)
next
  case (closed i s ch)
  then show ?case by (auto simp: wakeOK_def nth_list_update split: if_splits)
next
  case (elapsed i s ch b w)
  then show ?case by (auto simp: wakeOK_def waitEnd_def nth_list_update split: if_splits dest: notin_set_remove1)
qed

text \<open>A call whose channel is closed stays so until it returns, and then it reports the notification.\<close>

lemma closed_step:
  assumes "wakeStep s s'" "wakeOK s" "i < length (wsWaits s)" "wsWaits s ! i = Waiting ch" "ch \<notin> set (wkWaiters (wsWakeup s))"
  shows "i < length (wsWaits s') \<and> (wsWaits s' ! i = Woken True \<or> wsWaits s' ! i = Waiting ch \<and> ch \<notin> set (wkWaiters (wsWakeup s')))"
  using assms
proof (induction rule: wakeStep.induct)
  case (begin_wait s x w)
  then have "ch \<noteq> wsNext s" by (auto simp: wakeOK_def)
  then show ?case using begin_wait by (auto simp: waitStart_def nth_append split: if_splits)
next
  case (elapsed j s c b w)
  then show ?case by (cases "i = j") (auto simp: waitEnd_def nth_list_update split: if_splits dest: notin_set_remove1)
qed (auto simp: Notify_def nth_list_update)

lemma woken_step:
  assumes "wakeStep s s'" "i < length (wsWaits s)" "wsWaits s ! i = Woken b"
  shows "i < length (wsWaits s') \<and> wsWaits s' ! i = Woken b"
  using assms by (induction rule: wakeStep.induct) (auto simp: nth_append nth_list_update)

lemma wake_reachable_ok: "wakeStep\<^sup>*\<^sup>* wakeInit s \<Longrightarrow> wakeOK s"
  by (induction rule: rtranclp_induct) (auto simp: wakeInit_ok intro: wakeStep_ok)

lemma closed_steps:
  assumes "wakeStep\<^sup>*\<^sup>* s s'" "wakeOK s" "i < length (wsWaits s)" "wsWaits s ! i = Waiting ch" "ch \<notin> set (wkWaiters (wsWakeup s))"
  shows "wakeOK s' \<and> i < length (wsWaits s') \<and>
    (wsWaits s' ! i = Woken True \<or> wsWaits s' ! i = Waiting ch \<and> ch \<notin> set (wkWaiters (wsWakeup s')))"
  using assms
proof (induction rule: rtranclp_induct)
  case (step y z)
  then have y: "wakeOK y" "i < length (wsWaits y)"
    and d: "wsWaits y ! i = Woken True \<or> wsWaits y ! i = Waiting ch \<and> ch \<notin> set (wkWaiters (wsWakeup y))" by simp_all
  show ?case
    using d closed_step [OF step.hyps(2) y, of ch] woken_step [OF step.hyps(2) y(2), of True] wakeStep_ok [OF step.hyps(2) y(1)]
    by blast
qed simp


text \<open>One call waits, is notified, and its timeout fires before it sees the closed channel.\<close>

definition oneWaits :: waitSystem where
  "oneWaits = \<lparr>wsWakeup = \<lparr>wkPending = False, wkWaiters = [0]\<rparr>, wsWaits = [Waiting 0], wsNext = 1, wsNotified = False\<rparr>"

lemma oneWaits_reachable: "wakeStep\<^sup>*\<^sup>* wakeInit oneWaits"
proof -
  have "wakeStep wakeInit oneWaits"
    using wakeStep.begin_wait [of wakeInit "Waiting 0" "\<lparr>wkPending = False, wkWaiters = [0]\<rparr>"]
    by (simp add: wakeInit_def NewWakeup_def waitStart_def oneWaits_def)
  then show ?thesis by (rule r_into_rtranclp)
qed


section \<open>When the loop signals\<close>

text \<open>
  The specification of one turn of the loop: a reading signals unless the turn before it read the same cursor, and a
  failed one is reported; then the loop sleeps.
\<close>

definition turn :: "bool \<Rightarrow> int \<Rightarrow> int \<Rightarrow> (string + string) option \<Rightarrow> string + string \<Rightarrow> action list" where
  "turn onError poll errDelay prev r =
     (case r of
        Inl e \<Rightarrow> (if onError then [CallOnError e] else []) @ [SleepFor errDelay]
      | Inr cur \<Rightarrow> (if prev = Some (Inr cur) then [] else [CallOnJob]) @ [SleepFor poll])"

lemma turn_Inl: "turn onError poll errDelay prev (Inl e) = (if onError then [CallOnError e] else []) @ [SleepFor errDelay]"
  and turn_Inr: "turn onError poll errDelay prev (Inr cur) = (if prev = Some (Inr cur) then [] else [CallOnJob]) @ [SleepFor poll]"
  by (simp_all add: turn_def)

lemma pollCursor_turns:
  assumes "if primed then prev = Some (Inr cursor) else \<forall>cur. prev \<noteq> Some (Inr cur)"
  shows "pollCursor onError poll errDelay primed cursor (map (\<lambda>r. (r, False)) rs @ (if c then [(x, True)] else [])) =
    concat (map2 (turn onError poll errDelay) (prev # map Some rs) rs)"
  using assms
proof (induction rs arbitrary: primed cursor prev)
  case Nil
  then show ?case by (cases x) auto
next
  case (Cons r rs)
  show ?case
  proof (cases r)
    case (Inl e)
    then show ?thesis using Cons.IH [of False "Some (Inl e)" cursor] by (simp add: turn_Inl)
  next
    case (Inr cur)
    then show ?thesis using Cons.IH [of True "Some (Inr cur)" cur] Cons.prems by (cases primed) (auto simp: turn_Inr)
  qed
qed

lemma turn_sleeps: "SleepFor t \<in> set (turn onError poll errDelay prev r) \<Longrightarrow> t = poll \<or> t = errDelay"
  by (auto simp: turn_def split: sum.splits if_splits)

text \<open>
  C20: With usable options the loop does exactly the following, for every sequence of readings that ends with the
  cancellation of the context (while it sleeps, or during a last reading): it calls \<open>OnJob\<close> for a cursor unless the
  reading just before gave the same one, so on the first reading, on every change and after every failure, reports
  every failure, and sleeps a positive time after each reading, at least the polling interval.
\<close>

theorem RunWakeup_turns:
  assumes "opReadCursor opts" "opOnJob opts" "0 \<le> opPollInterval opts" "0 \<le> opErrorDelay opts"
  shows "\<exists>poll errDelay. 0 < poll \<and> opPollInterval opts \<le> poll \<and> poll \<le> errDelay \<and> opErrorDelay opts \<le> errDelay \<and>
    RunWakeup opts (map (\<lambda>r. (r, False)) rs @ (if c then [(x, True)] else [])) =
      Inr (concat (map2 (turn (opOnError opts) poll errDelay) (None # map Some rs) rs)) \<and>
    (\<forall>t. SleepFor t \<in> set (concat (map2 (turn (opOnError opts) poll errDelay) (None # map Some rs) rs)) \<longrightarrow> poll \<le> t)"
proof (intro exI conjI allI impI)
  let ?poll = "if opPollInterval opts = 0 then DefaultPollInterval else opPollInterval opts"
  let ?delay = "max (if opErrorDelay opts = 0 then DefaultErrorDelay else opErrorDelay opts) ?poll"
  show "0 < ?poll" "opPollInterval opts \<le> ?poll" "?poll \<le> ?delay" "opErrorDelay opts \<le> ?delay"
    using assms by (auto simp: DefaultPollInterval_def DefaultErrorDelay_def)
  show "RunWakeup opts (map (\<lambda>r. (r, False)) rs @ (if c then [(x, True)] else [])) =
      Inr (concat (map2 (turn (opOnError opts) ?poll ?delay) (None # map Some rs) rs))"
    using assms pollCursor_turns [of False None "[]" "opOnError opts" ?poll ?delay rs c x]
    by (simp add: RunWakeup_def Let_def)
  fix t
  assume "SleepFor t \<in> set (concat (map2 (turn (opOnError opts) ?poll ?delay) (None # map Some rs) rs))"
  then have "t = ?poll \<or> t = ?delay" using turn_sleeps by fastforce
  then show "?poll \<le> t" by auto
qed

definition wakeDefaults :: wakeOptions where
  "wakeDefaults = \<lparr>opReadCursor = True, opOnJob = True, opOnError = True, opPollInterval = 0, opErrorDelay = 0\<rparr>"

theorem RunWakeup_turns_witness:
  "\<exists>poll errDelay. 0 < poll \<and> poll \<le> errDelay \<and>
    RunWakeup wakeDefaults [(Inr ''a'', False), (Inr ''a'', False), (Inl ''e'', False), (Inr ''a'', False)] =
      Inr [CallOnJob, SleepFor poll, SleepFor poll, CallOnError ''e'', SleepFor errDelay, CallOnJob, SleepFor poll]"
  using RunWakeup_turns [of wakeDefaults "[Inr ''a'', Inr ''a'', Inl ''e'', Inr ''a'']" False "Inl []"]
  by (auto simp: wakeDefaults_def turn_def)

text \<open>Unusable options are refused before the first reading.\<close>

lemma RunWakeup_refused:
  "\<not> opReadCursor opts \<or> \<not> opOnJob opts \<or> opPollInterval opts < 0 \<or> opErrorDelay opts < 0 \<Longrightarrow> \<exists>e. RunWakeup opts rs = Inl e"
  by (auto simp: RunWakeup_def)

end
