(* ===== verification/Spec2Isabelle.thy ===== *)
theory Spec2Isabelle
  imports RenderJob WorkerSystem DockerLaws UpdateCheck AuthGuarantees BackupLaws Wakeup
begin

text \<open>
  ProxyCore: the root of the verification library.
\<close>

end
